(* ===== verification/Prelude.thy ===== *)
theory Prelude
  imports Main "HOL-Library.AList"
begin

text \<open>
  What every component shares: the Python exception hierarchy as far as the program
  distinguishes it, the state-and-exception computations in which the effectful methods are
  written, the two ways of reasoning about them that the component theories use (a state
  predicate that a computation \<open>keeps\<close>, and the exceptions it may raise), and lemmas on
  association lists, which model Python's insertion-ordered dictionaries.
\<close>

named_theorems io_simps \<open>evaluation of state-and-exception computations\<close>
named_theorems keeps_rules \<open>which computations keep a predicate of the world\<close>
named_theorems raises_rules \<open>which exceptions a computation may raise\<close>
named_theorems returns_rules \<open>which values a computation may return\<close>

section \<open>Python strings and bytes\<close>

text \<open>
  A Python \<^verbatim>\<open>str\<close> is a sequence of Unicode code points, a \<^verbatim>\<open>bytes\<close> value a sequence of
  numbers below 256. Both are lists of naturals here; \<open>lit\<close> turns an ASCII literal of the
  logic into the Python string it denotes.
\<close>

type_synonym pstr = "nat list"
type_synonym bytes = "nat list"

definition lit :: "string \<Rightarrow> pstr" where
  "lit s = map of_char s"

lemma lit_Nil [simp]: "lit [] = []"
  by (simp add: lit_def)

lemma lit_Cons: "lit (c # cs) = of_char c # lit cs"
  by (simp add: lit_def)

lemma lit_append: "lit (s @ t) = lit s @ lit t"
  by (simp add: lit_def)

lemma lit_eq_iff [simp]: "lit s = lit t \<longleftrightarrow> s = t"
proof -
  have "inj (of_char :: char \<Rightarrow> nat)"
    by (rule inj_of_char)
  then show ?thesis
    by (simp add: lit_def inj_map_eq_map)
qed

lemma lit_eq_Nil_iff [simp]: "lit s = [] \<longleftrightarrow> s = []" "[] = lit s \<longleftrightarrow> s = []"
  by (auto simp: lit_def)

section \<open>Exceptions\<close>

text \<open>
  The exception classes the program raises or catches. A message is kept where some handler
  reads it. \<open>Interrupt\<close> stands for the classes outside \<^verbatim>\<open>Exception\<close> (KeyboardInterrupt,
  SystemExit), \<open>OtherException\<close> for every class no handler names.
\<close>

datatype exn =
    TypeError pstr
  | ValueError pstr
  | UnicodeEncodeError
  | UnicodeDecodeError
  | JSONDecodeError
  | ProtocolError pstr
  | OSError
  | TimeoutError
  | FileNotFoundError
  | RuntimeError pstr
  | NetworkdUnavailable pstr
  | ExpansionError pstr
  | PublicKeyError pstr
  | KeyError
  | AssertionError
  | OtherException
  | Interrupt

text \<open>Which \<^verbatim>\<open>except\<close> clause catches which exception: the subclass relation.\<close>

fun is_value_error :: "exn \<Rightarrow> bool" where
  "is_value_error (ValueError _) = True"
| "is_value_error UnicodeEncodeError = True"
| "is_value_error UnicodeDecodeError = True"
| "is_value_error JSONDecodeError = True"
| "is_value_error (ProtocolError _) = True"
| "is_value_error (PublicKeyError _) = True"
| "is_value_error _ = False"

fun is_os_error :: "exn \<Rightarrow> bool" where
  "is_os_error OSError = True"
| "is_os_error TimeoutError = True"
| "is_os_error FileNotFoundError = True"
| "is_os_error _ = False"

fun is_runtime_error :: "exn \<Rightarrow> bool" where
  "is_runtime_error (RuntimeError _) = True"
| "is_runtime_error (NetworkdUnavailable _) = True"
| "is_runtime_error (ExpansionError _) = True"
| "is_runtime_error _ = False"

fun is_type_error :: "exn \<Rightarrow> bool" where
  "is_type_error (TypeError _) = True"
| "is_type_error _ = False"

text \<open>The clause \<^verbatim>\<open>except (OSError, RuntimeError, ValueError)\<close> of the controller.\<close>

definition is_operational :: "exn \<Rightarrow> bool" where
  "is_operational e \<longleftrightarrow> is_os_error e \<or> is_runtime_error e \<or> is_value_error e"

lemma is_operational_simps [simp]:
  "is_operational OSError" "is_operational TimeoutError" "is_operational FileNotFoundError"
  "is_operational (RuntimeError m)" "is_operational (NetworkdUnavailable m)"
  "is_operational (ValueError m)" "is_operational (ProtocolError m)"
  "is_operational (ExpansionError m)" "is_operational (PublicKeyError m)"
  "is_operational UnicodeEncodeError" "is_operational UnicodeDecodeError"
  "is_operational JSONDecodeError"
  "\<not> is_operational (TypeError m)" "\<not> is_operational AssertionError"
  "\<not> is_operational KeyError" "\<not> is_operational OtherException" "\<not> is_operational Interrupt"
  by (simp_all add: is_operational_def)

section \<open>Results without effects\<close>

text \<open>A pure Python function that may raise returns \<open>exn + 'a\<close>.\<close>

definition bindR :: "'e + 'a \<Rightarrow> ('a \<Rightarrow> 'e + 'b) \<Rightarrow> 'e + 'b" where
  "bindR r f = (case r of Inl e \<Rightarrow> Inl e | Inr x \<Rightarrow> f x)"

lemma bindR_simps [simp]: "bindR (Inl e) f = Inl e" "bindR (Inr x) f = f x"
  by (simp_all add: bindR_def)

lemma bindR_Inr_iff: "bindR r f = Inr y \<longleftrightarrow> (\<exists>x. r = Inr x \<and> f x = Inr y)"
  by (cases r) auto

lemma bindR_Inl_iff:
  "bindR r f = Inl e \<longleftrightarrow> r = Inl e \<or> (\<exists>x. r = Inr x \<and> f x = Inl e)"
  by (cases r) auto

lemma bindR_cong [fundef_cong]:
  "r = r' \<Longrightarrow> (\<And>x. r' = Inr x \<Longrightarrow> f x = g x) \<Longrightarrow> bindR r f = bindR r' g"
  by (cases r') auto

text \<open>The statement \<^verbatim>\<open>if not condition: raise error\<close>.\<close>

definition guardR :: "bool \<Rightarrow> 'e \<Rightarrow> 'e + unit" where
  "guardR b e = (if b then Inr () else Inl e)"

lemma guardR_simps [simp]:
  "guardR True e = Inr ()" "guardR False e = Inl e"
  "guardR b e = Inr u \<longleftrightarrow> b" "guardR b e = Inl e' \<longleftrightarrow> \<not> b \<and> e = e'"
  by (auto simp: guardR_def)

lemma bind_guardR [simp]:
  "bindR (guardR b e) f = (if b then f () else Inl e)"
  by (simp add: guardR_def)

text \<open>\<open>catchR r p e\<close> is \<^verbatim>\<open>try: r except p as error: raise e from error\<close>.\<close>

definition catchR :: "exn + 'a \<Rightarrow> (exn \<Rightarrow> bool) \<Rightarrow> exn \<Rightarrow> exn + 'a" where
  "catchR r p e = (case r of Inl e' \<Rightarrow> if p e' then Inl e else Inl e' | Inr x \<Rightarrow> Inr x)"

lemma catchR_simps [simp]:
  "catchR (Inr x) p e = Inr x" "catchR (Inl e') p e = (if p e' then Inl e else Inl e')"
  by (simp_all add: catchR_def)

lemma catchR_Inr_iff [simp]: "catchR r p e = Inr x \<longleftrightarrow> r = Inr x"
  by (cases r) auto

section \<open>Computations with state and exceptions\<close>

text \<open>
  A method that acts on the outside world takes the world \<open>'w\<close> and returns a value or the
  exception it raised, together with the world it leaves. What the world is depends on the
  component: for the backend it is whatever the commands it runs act on.
\<close>

type_synonym ('w, 'a) io = "'w \<Rightarrow> (exn + 'a) \<times> 'w"

definition returnE :: "'a \<Rightarrow> ('w, 'a) io" where
  "returnE x w = (Inr x, w)"

definition raiseE :: "exn \<Rightarrow> ('w, 'a) io" where
  "raiseE e w = (Inl e, w)"

definition bindE :: "('w, 'a) io \<Rightarrow> ('a \<Rightarrow> ('w, 'b) io) \<Rightarrow> ('w, 'b) io" where
  "bindE m f w = (case m w of (Inl e, w') \<Rightarrow> (Inl e, w') | (Inr x, w') \<Rightarrow> f x w')"

definition thenE :: "('w, 'a) io \<Rightarrow> ('w, 'b) io \<Rightarrow> ('w, 'b) io" where
  "thenE m m' = bindE m (\<lambda>_. m')"

definition liftR :: "exn + 'a \<Rightarrow> ('w, 'a) io" where
  "liftR r w = (r, w)"

text \<open>\<open>catchE m p h\<close> is \<^verbatim>\<open>try: m except p as e: h(e)\<close>.\<close>

definition catchE :: "('w, 'a) io \<Rightarrow> (exn \<Rightarrow> bool) \<Rightarrow> (exn \<Rightarrow> ('w, 'a) io) \<Rightarrow> ('w, 'a) io" where
  "catchE m p h w =
     (case m w of
        (Inl e, w') \<Rightarrow> if p e then h e w' else (Inl e, w')
      | (Inr x, w') \<Rightarrow> (Inr x, w'))"

text \<open>\<open>finallyE m f\<close> is \<^verbatim>\<open>try: m finally: f\<close>: an exception of \<open>f\<close> replaces the outcome.\<close>

definition finallyE :: "('w, 'a) io \<Rightarrow> ('w, unit) io \<Rightarrow> ('w, 'a) io" where
  "finallyE m f w =
     (case m w of (r, w') \<Rightarrow> (case f w' of (Inl e, w'') \<Rightarrow> (Inl e, w'') | (Inr _, w'') \<Rightarrow> (r, w'')))"

lemma returnE_apply [io_simps]: "returnE x w = (Inr x, w)"
  by (simp add: returnE_def)

lemma raiseE_apply [io_simps]: "raiseE e w = (Inl e, w)"
  by (simp add: raiseE_def)

lemma liftR_apply [io_simps]: "liftR r w = (r, w)"
  by (simp add: liftR_def)

lemma bindE_apply [io_simps]:
  "m w = (Inl e, w') \<Longrightarrow> bindE m f w = (Inl e, w')"
  "m w = (Inr x, w') \<Longrightarrow> bindE m f w = f x w'"
  by (simp_all add: bindE_def)

lemma catchE_apply [io_simps]:
  "m w = (Inr x, w') \<Longrightarrow> catchE m p h w = (Inr x, w')"
  "m w = (Inl e, w') \<Longrightarrow> catchE m p h w = (if p e then h e w' else (Inl e, w'))"
  by (simp_all add: catchE_def)

lemma bindE_return [simp]: "bindE (returnE x) f = f x"
  by (rule ext) (simp add: bindE_def returnE_def)

lemma bindE_raise [simp]: "bindE (raiseE e) f = raiseE e"
  by (rule ext) (simp add: bindE_def raiseE_def)

lemma bindE_liftR [simp]:
  "bindE (liftR (Inr x)) f = f x" "bindE (liftR (Inl e)) f = raiseE e"
  by (rule ext, simp add: bindE_def liftR_def raiseE_def)+

lemma bindE_assoc: "bindE (bindE m f) g = bindE m (\<lambda>x. bindE (f x) g)"
  by (rule ext) (auto simp: bindE_def split: sum.splits prod.splits)

lemma bindE_split:
  "P (bindE m f w) \<longleftrightarrow>
     (\<forall>e w'. m w = (Inl e, w') \<longrightarrow> P (Inl e, w')) \<and>
     (\<forall>x w'. m w = (Inr x, w') \<longrightarrow> P (f x w'))"
  by (auto simp: bindE_def split: sum.splits prod.splits)

lemma bindE_Inr_iff:
  "bindE m f w = (Inr y, w'') \<longleftrightarrow> (\<exists>x w'. m w = (Inr x, w') \<and> f x w' = (Inr y, w''))"
  by (auto simp: bindE_def split: sum.splits prod.splits)

lemma bindE_eqD:
  assumes "bindE m f w = (r, w'')"
  obtains (raised) e where "m w = (Inl e, w'')" "r = Inl e"
  | (returned) x w' where "m w = (Inr x, w')" "f x w' = (r, w'')"
  using assms by (auto simp: bindE_def split: sum.splits prod.splits)

lemma thenE_apply: "thenE m m' w = bindE m (\<lambda>_. m') w"
  by (simp add: thenE_def)

subsection \<open>Predicates of the world that a computation keeps\<close>

definition keeps :: "('w \<Rightarrow> bool) \<Rightarrow> ('w, 'a) io \<Rightarrow> bool" where
  "keeps I m \<longleftrightarrow> (\<forall>w. I w \<longrightarrow> I (snd (m w)))"

lemma keepsI: "(\<And>w. I w \<Longrightarrow> I (snd (m w))) \<Longrightarrow> keeps I m"
  by (simp add: keeps_def)

lemma keepsD: "keeps I m \<Longrightarrow> I w \<Longrightarrow> m w = (r, w') \<Longrightarrow> I w'"
  by (metis keeps_def snd_conv)

lemma keeps_return [keeps_rules]: "keeps I (returnE x)"
  by (simp add: keeps_def returnE_def)

lemma keeps_raise [keeps_rules]: "keeps I (raiseE e)"
  by (simp add: keeps_def raiseE_def)

lemma keeps_liftR [keeps_rules]: "keeps I (liftR r)"
  by (simp add: keeps_def liftR_def)

lemma keeps_bind [keeps_rules]:
  "keeps I m \<Longrightarrow> (\<And>x. keeps I (f x)) \<Longrightarrow> keeps I (bindE m f)"
  by (auto simp: keeps_def bindE_def split: sum.splits prod.splits)

lemma keeps_then [keeps_rules]: "keeps I m \<Longrightarrow> keeps I m' \<Longrightarrow> keeps I (thenE m m')"
  by (simp add: thenE_def keeps_bind)

lemma keeps_catch [keeps_rules]:
  "keeps I m \<Longrightarrow> (\<And>e. keeps I (h e)) \<Longrightarrow> keeps I (catchE m p h)"
  by (auto simp: keeps_def catchE_def split: sum.splits prod.splits)

lemma keeps_finally [keeps_rules]: "keeps I m \<Longrightarrow> keeps I f \<Longrightarrow> keeps I (finallyE m f)"
  by (auto simp: keeps_def finallyE_def split: sum.splits prod.splits)

lemma keeps_if [keeps_rules]: "(b \<Longrightarrow> keeps I m) \<Longrightarrow> (\<not> b \<Longrightarrow> keeps I m') \<Longrightarrow> keeps I (if b then m else m')"
  by simp

lemma keeps_case_option [keeps_rules]:
  "(x = None \<Longrightarrow> keeps I m) \<Longrightarrow> (\<And>y. x = Some y \<Longrightarrow> keeps I (f y)) \<Longrightarrow> keeps I (case x of None \<Rightarrow> m | Some y \<Rightarrow> f y)"
  by (cases x) simp_all

lemma keeps_case_prod [keeps_rules]:
  "(\<And>a b. p = (a, b) \<Longrightarrow> keeps I (f a b)) \<Longrightarrow> keeps I (case p of (a, b) \<Rightarrow> f a b)"
  by (cases p) simp_all

subsection \<open>Triples\<close>

text \<open>
  \<open>hoare P m Q E\<close>: from a world in \<open>P\<close>, a return of \<open>x\<close> ends in \<open>Q x\<close> and an exception in \<open>E\<close>.
\<close>

definition hoare ::
  "('w \<Rightarrow> bool) \<Rightarrow> ('w, 'a) io \<Rightarrow> ('a \<Rightarrow> 'w \<Rightarrow> bool) \<Rightarrow> ('w \<Rightarrow> bool) \<Rightarrow> bool" where
  "hoare P m Q E \<longleftrightarrow>
     (\<forall>w r w'. P w \<longrightarrow> m w = (r, w') \<longrightarrow> (case r of Inl _ \<Rightarrow> E w' | Inr x \<Rightarrow> Q x w'))"

lemma hoareI:
  "(\<And>w e w'. P w \<Longrightarrow> m w = (Inl e, w') \<Longrightarrow> E w') \<Longrightarrow>
   (\<And>w x w'. P w \<Longrightarrow> m w = (Inr x, w') \<Longrightarrow> Q x w') \<Longrightarrow> hoare P m Q E"
  by (auto simp: hoare_def split: sum.splits)

lemma hoare_empty: "(\<And>w. \<not> P w) \<Longrightarrow> hoare P m Q E"
  by (simp add: hoare_def)

lemma hoare_Inr: "hoare P m Q E \<Longrightarrow> P w \<Longrightarrow> m w = (Inr x, w') \<Longrightarrow> Q x w'"
  by (fastforce simp: hoare_def)

lemma hoare_Inl: "hoare P m Q E \<Longrightarrow> P w \<Longrightarrow> m w = (Inl e, w') \<Longrightarrow> E w'"
  by (fastforce simp: hoare_def)

lemma hoare_bind:
  "hoare P m Q E \<Longrightarrow> (\<And>x. hoare (Q x) (f x) S E) \<Longrightarrow> hoare P (bindE m f) S E"
  by (rule hoareI; elim bindE_eqD) (blast dest: hoare_Inl hoare_Inr | simp)+

lemma hoare_return: "(\<And>w. P w \<Longrightarrow> Q x w) \<Longrightarrow> hoare P (returnE x) Q E"
  by (simp add: hoare_def returnE_def)

lemma hoare_raise: "(\<And>w. P w \<Longrightarrow> E w) \<Longrightarrow> hoare P (raiseE e) Q E"
  by (simp add: hoare_def raiseE_def)

lemma hoare_liftR:
  "(\<And>w e. P w \<Longrightarrow> r = Inl e \<Longrightarrow> E w) \<Longrightarrow> (\<And>w x. P w \<Longrightarrow> r = Inr x \<Longrightarrow> Q x w) \<Longrightarrow>
     hoare P (liftR r) Q E"
  by (auto simp: hoare_def liftR_def split: sum.splits)

lemma hoare_if:
  "(b \<Longrightarrow> hoare P m Q E) \<Longrightarrow> (\<not> b \<Longrightarrow> hoare P m' Q E) \<Longrightarrow> hoare P (if b then m else m') Q E"
  by simp

lemma hoare_case_option:
  "(x = None \<Longrightarrow> hoare P m Q E) \<Longrightarrow> (\<And>y. x = Some y \<Longrightarrow> hoare P (f y) Q E) \<Longrightarrow>
     hoare P (case x of None \<Rightarrow> m | Some y \<Rightarrow> f y) Q E"
  by (cases x) simp_all

lemma hoare_case_prod:
  "(\<And>a b. p = (a, b) \<Longrightarrow> hoare P (f a b) Q E) \<Longrightarrow> hoare P (case p of (a, b) \<Rightarrow> f a b) Q E"
  by (cases p) simp_all

lemma hoare_weaken:
  "hoare P m Q E \<Longrightarrow> (\<And>w. P' w \<Longrightarrow> P w) \<Longrightarrow> (\<And>x w. Q x w \<Longrightarrow> Q' x w) \<Longrightarrow> (\<And>w. E w \<Longrightarrow> E' w) \<Longrightarrow>
     hoare P' m Q' E'"
  unfolding hoare_def by (fastforce split: sum.splits)

lemma keeps_hoare: "keeps I m \<longleftrightarrow> hoare I m (\<lambda>_. I) I"
  unfolding keeps_def hoare_def by (auto split: sum.splits) (metis prod.collapse sum.exhaust)+

lemma hoare_finally:
  assumes "hoare P m Q E" "\<And>x. hoare (Q x) f (\<lambda>_. Q x) E" "hoare E f (\<lambda>_. E) E"
  shows "hoare P (finallyE m f) Q E"
proof -
  have "case r of Inl _ \<Rightarrow> E w' | Inr x \<Rightarrow> Q x w'" if "P w" and run: "finallyE m f w = (r, w')" for w r w'
  proof -
    obtain r1 w1 where m: "m w = (r1, w1)" by fastforce
    obtain r2 w2 where f: "f w1 = (r2, w2)" by fastforce
    show ?thesis
    proof (cases r1)
      case (Inl e)
      have w1: "E w1" by (rule hoare_Inl [OF assms(1) \<open>P w\<close>]) (simp add: m Inl)
      have "E w2"
      proof (cases r2)
        case (Inl e')
        show ?thesis by (rule hoare_Inl [OF assms(3) w1]) (simp add: f Inl)
      next
        case (Inr u)
        show ?thesis by (rule hoare_Inr [OF assms(3) w1]) (simp add: f Inr)
      qed
      then show ?thesis using run m f Inl by (cases r2) (auto simp: finallyE_def)
    next
      case r1: (Inr x)
      have w1: "Q x w1" by (rule hoare_Inr [OF assms(1) \<open>P w\<close>]) (simp add: m r1)
      show ?thesis
      proof (cases r2)
        case (Inl e')
        have "E w2" by (rule hoare_Inl [OF assms(2) w1]) (simp add: f Inl)
        then show ?thesis using run m f r1 Inl by (auto simp: finallyE_def)
      next
        case (Inr u)
        have "Q x w2" by (rule hoare_Inr [OF assms(2) w1]) (simp add: f Inr)
        then show ?thesis using run m f r1 Inr by (auto simp: finallyE_def)
      qed
    qed
  qed
  then show ?thesis by (simp add: hoare_def)
qed

lemma hoare_keeps: "keeps I m \<Longrightarrow> (\<And>s. I s \<Longrightarrow> E s) \<Longrightarrow> hoare I m (\<lambda>_. I) E"
  by (rule hoareI) (auto dest: keepsD)

subsection \<open>The exceptions a computation may raise\<close>

definition raises_only :: "(exn \<Rightarrow> bool) \<Rightarrow> ('w, 'a) io \<Rightarrow> bool" where
  "raises_only E m \<longleftrightarrow> (\<forall>w e w'. m w = (Inl e, w') \<longrightarrow> E e)"

lemma raises_onlyD: "raises_only E m \<Longrightarrow> m w = (Inl e, w') \<Longrightarrow> E e"
  by (auto simp: raises_only_def)

lemma raises_return [raises_rules]: "raises_only E (returnE x)"
  by (simp add: raises_only_def returnE_def)

lemma raises_raise [raises_rules]: "E e \<Longrightarrow> raises_only E (raiseE e)"
  by (simp add: raises_only_def raiseE_def)

lemma raises_liftR [raises_rules]: "(\<And>e. r = Inl e \<Longrightarrow> E e) \<Longrightarrow> raises_only E (liftR r)"
  by (simp add: raises_only_def liftR_def)

lemma raises_bind [raises_rules]:
  "raises_only E m \<Longrightarrow> (\<And>x. raises_only E (f x)) \<Longrightarrow> raises_only E (bindE m f)"
  unfolding raises_only_def by (blast elim: bindE_eqD)

lemma raises_then [raises_rules]:
  "raises_only E m \<Longrightarrow> raises_only E m' \<Longrightarrow> raises_only E (thenE m m')"
  by (simp add: thenE_def raises_bind)

lemma raises_if [raises_rules]:
  "(b \<Longrightarrow> raises_only E m) \<Longrightarrow> (\<not> b \<Longrightarrow> raises_only E m') \<Longrightarrow> raises_only E (if b then m else m')"
  by simp

lemma raises_case_option [raises_rules]:
  "(x = None \<Longrightarrow> raises_only E m) \<Longrightarrow> (\<And>y. x = Some y \<Longrightarrow> raises_only E (f y)) \<Longrightarrow>
     raises_only E (case x of None \<Rightarrow> m | Some y \<Rightarrow> f y)"
  by (cases x) simp_all

lemma raises_case_prod [raises_rules]:
  "(\<And>a b. p = (a, b) \<Longrightarrow> raises_only E (f a b)) \<Longrightarrow> raises_only E (case p of (a, b) \<Rightarrow> f a b)"
  by (cases p) simp_all

subsection \<open>The values a computation returns\<close>

definition returns_only :: "('a \<Rightarrow> bool) \<Rightarrow> ('w, 'a) io \<Rightarrow> bool" where
  "returns_only Q m \<longleftrightarrow> (\<forall>w x w'. m w = (Inr x, w') \<longrightarrow> Q x)"

lemma returns_onlyD: "returns_only Q m \<Longrightarrow> m w = (Inr x, w') \<Longrightarrow> Q x"
  by (auto simp: returns_only_def)

lemma returns_return [returns_rules]: "Q x \<Longrightarrow> returns_only Q (returnE x)"
  by (simp add: returns_only_def returnE_def)

lemma returns_raise [returns_rules]: "returns_only Q (raiseE e)"
  by (simp add: returns_only_def raiseE_def)

lemma returns_bind: "returns_only P m \<Longrightarrow> (\<And>x. P x \<Longrightarrow> returns_only Q (f x)) \<Longrightarrow> returns_only Q (bindE m f)"
  unfolding returns_only_def by (blast elim: bindE_eqD)

lemma returns_bind_any [returns_rules]: "(\<And>x. returns_only Q (f x)) \<Longrightarrow> returns_only Q (bindE m f)"
  unfolding returns_only_def by (blast elim: bindE_eqD)

lemma returns_if [returns_rules]:
  "(b \<Longrightarrow> returns_only Q m) \<Longrightarrow> (\<not> b \<Longrightarrow> returns_only Q m') \<Longrightarrow> returns_only Q (if b then m else m')"
  by simp

lemma returns_case_option [returns_rules]:
  "(x = None \<Longrightarrow> returns_only Q m) \<Longrightarrow> (\<And>y. x = Some y \<Longrightarrow> returns_only Q (f y)) \<Longrightarrow>
     returns_only Q (case x of None \<Rightarrow> m | Some y \<Rightarrow> f y)"
  by (cases x) simp_all

lemma returns_case_prod [returns_rules]:
  "(\<And>a b. p = (a, b) \<Longrightarrow> returns_only Q (f a b)) \<Longrightarrow> returns_only Q (case p of (a, b) \<Rightarrow> f a b)"
  by (cases p) simp_all

lemma returns_liftR: "returns_only (\<lambda>x. r = Inr x) (liftR r)"
  by (simp add: returns_only_def liftR_def)

lemma returns_any: "returns_only (\<lambda>_. True) m"
  by (simp add: returns_only_def)

section \<open>Dictionaries as association lists\<close>

text \<open>
  \<open>AList.update\<close> overwrites in place and appends a new key at the end, as a Python dictionary
  orders its keys.
\<close>

lemma map_of_update [simp]: "map_of (AList.update k v al) = (map_of al)(k \<mapsto> v)"
  by (simp add: update_conv')

lemma update_fresh: "k \<notin> set (map fst al) \<Longrightarrow> AList.update k v al = al @ [(k, v)]"
  by (induction al) auto

lemma map_of_eq_Some_iff_mem:
  "distinct (map fst al) \<Longrightarrow> map_of al k = Some v \<longleftrightarrow> (k, v) \<in> set al"
  by simp

end
