(* ===== verification/PyText.thy ===== *)
theory PyText
  imports Prelude
begin

text \<open>
  The string operations of the Python standard library that the program uses: UTF-8 encoding,
  \<^verbatim>\<open>splitlines\<close>, \<^verbatim>\<open>strip\<close>, \<^verbatim>\<open>partition\<close>, substring tests, \<^verbatim>\<open>upper\<close> and
  \<^verbatim>\<open>casefold\<close>, the integer parser \<^verbatim>\<open>int(text, base)\<close>, decimal printing, and the parsing and
  printing of \<^verbatim>\<open>uuid.UUID\<close>. The tables of the Unicode character database that some of them
  consult for code points above 127 are a parameter (\<open>ucd\<close>); the ASCII part is written out.
\<close>

record ucd =
  ucd_upper :: "nat \<Rightarrow> pstr"
  ucd_casefold :: "nat \<Rightarrow> pstr"
  ucd_decimal :: "nat \<Rightarrow> nat option"

section \<open>UTF-8\<close>

definition is_surrogate :: "nat \<Rightarrow> bool" where
  "is_surrogate c \<longleftrightarrow> 0xD800 \<le> c \<and> c \<le> 0xDFFF"

text \<open>
  The code points that can be encoded. Nothing above 0x10FFFF occurs in a Python string; the
  model treats such a number as it treats a lone surrogate.
\<close>

definition is_scalar :: "nat \<Rightarrow> bool" where
  "is_scalar c \<longleftrightarrow> c < 0x110000 \<and> \<not> is_surrogate c"

definition utf8_char :: "nat \<Rightarrow> bytes" where
  "utf8_char c =
     (if c < 0x80 then [c]
      else if c < 0x800 then [0xC0 + c div 64, 0x80 + c mod 64]
      else if c < 0x10000 then [0xE0 + c div 4096, 0x80 + c div 64 mod 64, 0x80 + c mod 64]
      else [0xF0 + c div 262144, 0x80 + c div 4096 mod 64, 0x80 + c div 64 mod 64,
            0x80 + c mod 64])"

text \<open>\<^verbatim>\<open>str.encode("utf-8")\<close> in its default strict mode refuses lone surrogates.\<close>

definition utf8_encode :: "pstr \<Rightarrow> exn + bytes" where
  "utf8_encode s =
     (if \<exists>c \<in> set s. \<not> is_scalar c then Inl UnicodeEncodeError
      else Inr (concat (map utf8_char s)))"

lemma utf8_char_nonempty [simp]: "utf8_char c \<noteq> []"
  by (simp add: utf8_char_def)

lemma length_utf8_char: "1 \<le> length (utf8_char c) \<and> length (utf8_char c) \<le> 4"
  by (simp add: utf8_char_def)

lemma utf8_encode_length:
  "utf8_encode s = Inr b \<Longrightarrow> length s \<le> length b"
proof -
  have "length s \<le> length (concat (map utf8_char s))"
  proof (induction s)
    case (Cons c s)
    then show ?case using length_utf8_char [of c] by simp
  qed simp
  then show "utf8_encode s = Inr b \<Longrightarrow> length s \<le> length b"
    by (auto simp: utf8_encode_def split: if_splits)
qed

lemma utf8_encode_ascii:
  assumes "\<forall>c \<in> set s. c < 0x80"
  shows "utf8_encode s = Inr s"
proof -
  have "concat (map utf8_char s) = s"
    using assms by (induction s) (auto simp: utf8_char_def)
  moreover have "\<not> (\<exists>c \<in> set s. \<not> is_scalar c)"
    using assms by (auto simp: is_surrogate_def is_scalar_def)
  ultimately show ?thesis by (simp add: utf8_encode_def)
qed

section \<open>White space, lines and fields\<close>

definition py_isspace :: "nat \<Rightarrow> bool" where
  "py_isspace c \<longleftrightarrow>
     (9 \<le> c \<and> c \<le> 13) \<or> (28 \<le> c \<and> c \<le> 32) \<or> c = 0x85 \<or> c = 0xA0 \<or> c = 0x1680 \<or>
     (0x2000 \<le> c \<and> c \<le> 0x200A) \<or> c = 0x2028 \<or> c = 0x2029 \<or> c = 0x202F \<or> c = 0x205F \<or>
     c = 0x3000"

definition lstrip_by :: "(nat \<Rightarrow> bool) \<Rightarrow> pstr \<Rightarrow> pstr" where
  "lstrip_by p s = dropWhile p s"

definition rstrip_by :: "(nat \<Rightarrow> bool) \<Rightarrow> pstr \<Rightarrow> pstr" where
  "rstrip_by p s = rev (dropWhile p (rev s))"

definition py_strip :: "pstr \<Rightarrow> pstr" where
  "py_strip s = rstrip_by py_isspace (lstrip_by py_isspace s)"

text \<open>The line boundaries of \<^verbatim>\<open>str.splitlines\<close>; a carriage return and line feed pair is one.\<close>

definition is_linebreak :: "nat \<Rightarrow> bool" where
  "is_linebreak c \<longleftrightarrow>
     (10 \<le> c \<and> c \<le> 13) \<or> (0x1C \<le> c \<and> c \<le> 0x1E) \<or> c = 0x85 \<or> c = 0x2028 \<or> c = 0x2029"

fun splitlines_go :: "pstr \<Rightarrow> pstr \<Rightarrow> pstr list" where
  "splitlines_go cur [] = (if cur = [] then [] else [rev cur])"
| "splitlines_go cur (c # cs) =
     (if c = 13 \<and> cs \<noteq> [] \<and> hd cs = 10 then rev cur # splitlines_go [] (tl cs)
      else if is_linebreak c then rev cur # splitlines_go [] cs
      else splitlines_go (c # cur) cs)"

definition py_splitlines :: "pstr \<Rightarrow> pstr list" where
  "py_splitlines s = splitlines_go [] s"

text \<open>\<^verbatim>\<open>s.partition(sep)\<close> for a one-character separator: what precedes it, whether it
  occurs, and what follows it.\<close>

definition py_partition :: "nat \<Rightarrow> pstr \<Rightarrow> pstr \<times> bool \<times> pstr" where
  "py_partition sep s = (takeWhile (\<lambda>c. c \<noteq> sep) s, sep \<in> set s, drop 1 (dropWhile (\<lambda>c. c \<noteq> sep) s))"

text \<open>\<^verbatim>\<open>needle in haystack\<close>\<close>

fun contains :: "pstr \<Rightarrow> pstr \<Rightarrow> bool" where
  "contains needle [] = (needle = [])"
| "contains needle (c # cs) = (take (length needle) (c # cs) = needle \<or> contains needle cs)"

lemma contains_iff: "contains needle s \<longleftrightarrow> (\<exists>pre post. s = pre @ needle @ post)"
proof (induction s)
  case Nil
  then show ?case by simp
next
  case (Cons c cs)
  have "(\<exists>pre post. c # cs = pre @ needle @ post) \<longleftrightarrow>
        (\<exists>post. c # cs = needle @ post) \<or> (\<exists>pre post. cs = pre @ needle @ post)" (is "?L \<longleftrightarrow> ?R")
  proof
    assume ?L
    then obtain pre post where eq: "c # cs = pre @ needle @ post" by blast
    then show ?R by (cases pre) auto
  next
    assume ?R
    then show ?L
    proof
      assume "\<exists>post. c # cs = needle @ post"
      then show ?L by (metis append_Nil)
    next
      assume "\<exists>pre post. cs = pre @ needle @ post"
      then show ?L by (metis append_Cons)
    qed
  qed
  moreover have "take (length needle) (c # cs) = needle \<longleftrightarrow> (\<exists>post. c # cs = needle @ post)"
    by (metis append_eq_conv_conj append_take_drop_id)
  ultimately show ?case using Cons.IH by simp
qed

lemma splitlines_go_line:
  assumes "\<forall>c \<in> set l. \<not> is_linebreak c"
  shows "splitlines_go cur (l @ 10 # rest) = (rev cur @ l) # splitlines_go [] rest"
  using assms
proof (induction l arbitrary: cur)
  case Nil
  then show ?case by (simp add: is_linebreak_def)
next
  case (Cons c l)
  then have "c \<noteq> 13" by (auto simp: is_linebreak_def)
  with Cons show ?case by simp
qed

text \<open>Text printed one line at a time, each ended by a line feed, splits into these lines.\<close>

lemma splitlines_unlines:
  assumes "\<forall>l \<in> set ls. \<forall>c \<in> set l. \<not> is_linebreak c"
  shows "py_splitlines (concat (map (\<lambda>l. l @ [10]) ls)) = ls"
  using assms
  by (induction ls) (simp_all add: py_splitlines_def splitlines_go_line)

lemma splitlines_no_break:
  "l \<in> set (py_splitlines s) \<Longrightarrow> c \<in> set l \<Longrightarrow> \<not> is_linebreak c"
proof -
  have "\<forall>c \<in> set cur. \<not> is_linebreak c \<Longrightarrow> l \<in> set (splitlines_go cur s) \<Longrightarrow> c \<in> set l \<Longrightarrow>
          \<not> is_linebreak c" for cur
    by (induction cur s rule: splitlines_go.induct) (auto split: if_splits)
  from this [of "[]"] show "l \<in> set (py_splitlines s) \<Longrightarrow> c \<in> set l \<Longrightarrow> \<not> is_linebreak c"
    by (simp add: py_splitlines_def)
qed

lemma partition_field:
  assumes "sep \<notin> set a"
  shows "py_partition sep (a @ sep # b) = (a, True, b)"
  using assms by (auto simp: py_partition_def takeWhile_append dropWhile_append)

lemma strip_by_id:
  assumes "s \<noteq> [] \<Longrightarrow> \<not> p (hd s) \<and> \<not> p (last s)"
  shows "rstrip_by p (lstrip_by p s) = s"
proof (cases "s = []")
  case True
  then show ?thesis by (simp add: lstrip_by_def rstrip_by_def)
next
  case False
  with assms have "dropWhile p s = s" by (cases s) simp_all
  moreover from False assms have "dropWhile p (rev s) = rev s"
    by (cases "rev s") (simp_all add: last_rev flip: hd_rev)
  ultimately show ?thesis by (simp add: lstrip_by_def rstrip_by_def)
qed

section \<open>Letter case\<close>

text \<open>\<^verbatim>\<open>upper\<close> and \<^verbatim>\<open>casefold\<close> map each code point to a short string.\<close>

definition py_upper :: "'a ucd_scheme \<Rightarrow> pstr \<Rightarrow> pstr" where
  "py_upper U s =
     concat (map (\<lambda>c. if c < 128 then (if 97 \<le> c \<and> c \<le> 122 then [c - 32] else [c]) else ucd_upper U c) s)"

definition py_casefold :: "'a ucd_scheme \<Rightarrow> pstr \<Rightarrow> pstr" where
  "py_casefold U s =
     concat (map (\<lambda>c. if c < 128 then (if 65 \<le> c \<and> c \<le> 90 then [c + 32] else [c]) else ucd_casefold U c) s)"

section \<open>Integers as text\<close>

fun nat_digits :: "nat \<Rightarrow> nat \<Rightarrow> nat list" where
  "nat_digits b n = (if n < b \<or> b < 2 then [n] else nat_digits b (n div b) @ [n mod b])"

declare nat_digits.simps [simp del]

text \<open>\<^verbatim>\<open>str(n)\<close>\<close>

definition py_str_int :: "int \<Rightarrow> pstr" where
  "py_str_int i =
     (if i < 0 then 45 # map (\<lambda>d. 48 + d) (nat_digits 10 (nat (- i)))
      else map (\<lambda>d. 48 + d) (nat_digits 10 (nat i)))"

text \<open>
  \<^verbatim>\<open>int(text, base)\<close> first replaces every Unicode decimal digit by the ASCII digit and every
  white space character above 127 by a blank, drops the C white space at both ends, then
  reads an optional sign, for base 16 an optional
  prefix, and digits between which single underscores may stand. More than 4300 digits are
  refused unless the base is a power of two.
\<close>

definition ascii_decimal :: "'a ucd_scheme \<Rightarrow> nat \<Rightarrow> nat" where
  "ascii_decimal U c =
     (if c < 128 then c
      else if py_isspace c then 32
      else (case ucd_decimal U c of Some d \<Rightarrow> 48 + d | None \<Rightarrow> c))"

definition digit_value :: "nat \<Rightarrow> nat option" where
  "digit_value c =
     (if 48 \<le> c \<and> c \<le> 57 then Some (c - 48)
      else if 97 \<le> c \<and> c \<le> 122 then Some (c - 87)
      else if 65 \<le> c \<and> c \<le> 90 then Some (c - 55)
      else None)"

definition is_cspace :: "nat \<Rightarrow> bool" where
  "is_cspace c \<longleftrightarrow> (9 \<le> c \<and> c \<le> 13) \<or> c = 32"

text \<open>\<open>parse_digits b us acc s\<close>: \<open>us\<close> says whether an underscore may come next.\<close>

fun parse_digits :: "nat \<Rightarrow> bool \<Rightarrow> nat \<Rightarrow> pstr \<Rightarrow> nat option" where
  "parse_digits b us acc [] = (if us then Some acc else None)"
| "parse_digits b us acc (c # cs) =
     (if c = 95 then (if us then parse_digits b False acc cs else None)
      else (case digit_value c of
              None \<Rightarrow> None
            | Some d \<Rightarrow> if d < b then parse_digits b True (acc * b + d) cs else None))"

definition py_int :: "'a ucd_scheme \<Rightarrow> nat \<Rightarrow> pstr \<Rightarrow> exn + int" where
  "py_int U b s =
     (let t = rstrip_by is_cspace (lstrip_by is_cspace (map (ascii_decimal U) s));
          neg = (t \<noteq> [] \<and> hd t = 45);
          t1 = (if t \<noteq> [] \<and> (hd t = 45 \<or> hd t = 43) then tl t else t);
          prefixed = (b = 16 \<and> length t1 \<ge> 2 \<and> t1 ! 0 = 48 \<and> (t1 ! 1 = 120 \<or> t1 ! 1 = 88));
          t2 = (if prefixed then drop 2 t1 else t1);
          too_long = (b = 10 \<and> length (filter (\<lambda>c. c \<noteq> 95) t2) > 4300)
      in case (if too_long then None else parse_digits b prefixed 0 t2) of
           None \<Rightarrow> Inl (ValueError (lit ''invalid literal for int()''))
         | Some n \<Rightarrow>
             if prefixed \<and> t2 = [] then Inl (ValueError (lit ''invalid literal for int()''))
             else Inr (if neg then - int n else int n))"

section \<open>UUIDs\<close>

definition hex_digit :: "nat \<Rightarrow> nat" where
  "hex_digit d = (if d < 10 then 48 + d else 87 + d)"

text \<open>\<^verbatim>\<open>'%032x' % n\<close>\<close>

definition hex32 :: "nat \<Rightarrow> pstr" where
  "hex32 n = map (\<lambda>i. hex_digit (n div 16 ^ (31 - i) mod 16)) [0..<32]"

definition format_uuid :: "nat \<Rightarrow> pstr" where
  "format_uuid n =
     (let h = hex32 n in
      take 8 h @ [45] @ take 4 (drop 8 h) @ [45] @ take 4 (drop 12 h) @ [45] @
      take 4 (drop 16 h) @ [45] @ drop 20 h)"

text \<open>
  \<^verbatim>\<open>str(UUID(text))\<close> of a text without colons (the \<^verbatim>\<open>urn:\<close> and \<^verbatim>\<open>uuid:\<close> prefixes
  that the constructor removes contain one, so there is none to remove): braces are stripped
  at both ends, hyphens dropped, and exactly 32 characters must remain that read as a
  hexadecimal integer in range.
\<close>

definition canonical_uuid :: "'a ucd_scheme \<Rightarrow> pstr \<Rightarrow> exn + pstr" where
  "canonical_uuid U s =
     (let h = filter (\<lambda>c. c \<noteq> 45)
                (rstrip_by (\<lambda>c. c = 123 \<or> c = 125) (lstrip_by (\<lambda>c. c = 123 \<or> c = 125) s))
      in if length h \<noteq> 32 then Inl (ValueError (lit ''badly formed hexadecimal UUID string''))
         else bindR (py_int U 16 h) (\<lambda>i.
           if 0 \<le> i \<and> i < 2 ^ 128 then Inr (format_uuid (nat i))
           else Inl (ValueError (lit ''int is out of range (need a 128-bit value)''))))"

lemma parsed_error:
  "(case x of None \<Rightarrow> Inl (ValueError m) | Some n \<Rightarrow> if B n then Inl (ValueError m') else Inr (f n)) = Inl e \<Longrightarrow>
     is_value_error e"
  by (auto split: option.splits if_splits)

lemma py_int_error: "py_int U b s = Inl e \<Longrightarrow> is_value_error e"
  unfolding py_int_def Let_def by (rule parsed_error)

lemma canonical_uuid_error: "canonical_uuid U s = Inl e \<Longrightarrow> is_value_error e"
  unfolding canonical_uuid_def Let_def
  by (auto simp: bindR_Inl_iff split: if_splits dest: py_int_error)

lemma utf8_encode_error: "utf8_encode s = Inl e \<Longrightarrow> e = UnicodeEncodeError"
  by (auto simp: utf8_encode_def split: if_splits)

text \<open>Tables that change nothing: those of the code points below 128 are built in above.\<close>

definition ascii_tables :: ucd where
  "ascii_tables = \<lparr>ucd_upper = (\<lambda>c. [c]), ucd_casefold = (\<lambda>c. [c]), ucd_decimal = (\<lambda>_. None)\<rparr>"

end
