(* ===== verification/Protocol.thy ===== *)
theory Protocol
  imports PyText
begin

text \<open>
  The wire contract shared by the web service and the network daemon
  (\<^verbatim>\<open>setup-ui/rave_network_ipc/protocol.py\<close>): its constants, its three string enumerations
  and the validation of network names and passwords, together with the JSON values that the
  validators are applied to.
\<close>

section \<open>JSON values\<close>

text \<open>
  What \<^verbatim>\<open>json.loads\<close> returns. An object is a dictionary: its keys are distinct and keep their
  order. Only the type of a floating-point number matters to the program, so it is kept as
  the text it was read from.
\<close>

datatype json =
    JNull
  | JBool bool
  | JInt int
  | JFloat pstr
  | JStr pstr
  | JList "json list"
  | JObj "(pstr \<times> json) list"

text \<open>\<^verbatim>\<open>payload.get(key)\<close>: \<^verbatim>\<open>None\<close> for a missing key.\<close>

definition dict_get :: "(pstr \<times> json) list \<Rightarrow> pstr \<Rightarrow> json" where
  "dict_get d k = (case map_of d k of Some v \<Rightarrow> v | None \<Rightarrow> JNull)"

text \<open>\<^verbatim>\<open>payload.get(key, default)\<close>\<close>

definition dict_get_or :: "(pstr \<times> json) list \<Rightarrow> pstr \<Rightarrow> json \<Rightarrow> json" where
  "dict_get_or d k otherwise = (case map_of d k of Some v \<Rightarrow> v | None \<Rightarrow> otherwise)"

text \<open>\<^verbatim>\<open>payload[key]\<close>\<close>

definition dict_item :: "(pstr \<times> json) list \<Rightarrow> pstr \<Rightarrow> exn + json" where
  "dict_item d k = (case map_of d k of Some v \<Rightarrow> Inr v | None \<Rightarrow> Inl KeyError)"

text \<open>\<^verbatim>\<open>set(payload)\<close>\<close>

definition dict_keys :: "(pstr \<times> json) list \<Rightarrow> pstr set" where
  "dict_keys d = set (map fst d)"

lemma dict_item_get:
  "k \<in> dict_keys d \<Longrightarrow> dict_item d k = Inr (dict_get d k)"
  by (cases "map_of d k") (simp_all add: dict_item_def dict_get_def dict_keys_def map_of_eq_None_iff)

section \<open>Constants\<close>

definition API_VERSION :: pstr where "API_VERSION = lit ''v1''"
definition SOCKET_PATH :: pstr where "SOCKET_PATH = lit ''/run/rave/networkd.sock''"
definition MAX_REQUEST_BYTES :: nat where "MAX_REQUEST_BYTES = 2048"
definition MAX_RESPONSE_BYTES :: nat where "MAX_RESPONSE_BYTES = 64 * 1024"
definition MAX_NETWORKS :: nat where "MAX_NETWORKS = 64"
definition SSID_MAX_BYTES :: nat where "SSID_MAX_BYTES = 32"
definition PASSWORD_MIN_BYTES :: nat where "PASSWORD_MIN_BYTES = 8"
definition PASSWORD_MAX_BYTES :: nat where "PASSWORD_MAX_BYTES = 63"

section \<open>Enumerations\<close>

datatype network_mode =
    UNCONFIGURED | STATION_CONNECTING | STATION_CONNECTED | PROVISIONING_AP | TRANSITION | ERROR

datatype network_action = STATUS | SCAN | CONNECT | PROVISIONING

datatype wifi_security = OPEN | WPA_PERSONAL | ENTERPRISE | UNSUPPORTED

instantiation network_mode :: enum
begin
definition "enum_network_mode =
  [UNCONFIGURED, STATION_CONNECTING, STATION_CONNECTED, PROVISIONING_AP, TRANSITION, ERROR]"
definition "enum_all_network_mode P \<longleftrightarrow>
  P UNCONFIGURED \<and> P STATION_CONNECTING \<and> P STATION_CONNECTED \<and> P PROVISIONING_AP \<and> P TRANSITION \<and> P ERROR"
definition "enum_ex_network_mode P \<longleftrightarrow>
  P UNCONFIGURED \<or> P STATION_CONNECTING \<or> P STATION_CONNECTED \<or> P PROVISIONING_AP \<or> P TRANSITION \<or> P ERROR"
instance
proof
  show univ: "UNIV = set (enum_class.enum :: network_mode list)"
    unfolding enum_network_mode_def by (auto intro: network_mode.exhaust)
  show "distinct (enum_class.enum :: network_mode list)"
    by (simp add: enum_network_mode_def)
  show "enum_class.enum_all P \<longleftrightarrow> Ball UNIV P" "enum_class.enum_ex P \<longleftrightarrow> Bex UNIV P" for P :: "network_mode \<Rightarrow> bool"
    unfolding univ by (auto simp: enum_network_mode_def enum_all_network_mode_def enum_ex_network_mode_def)
qed
end

text \<open>The text of each member.\<close>

fun mode_value :: "network_mode \<Rightarrow> pstr" where
  "mode_value UNCONFIGURED = lit ''unconfigured''"
| "mode_value STATION_CONNECTING = lit ''station_connecting''"
| "mode_value STATION_CONNECTED = lit ''station_connected''"
| "mode_value PROVISIONING_AP = lit ''provisioning_ap''"
| "mode_value TRANSITION = lit ''transition''"
| "mode_value ERROR = lit ''error''"

fun action_value :: "network_action \<Rightarrow> pstr" where
  "action_value STATUS = lit ''status''"
| "action_value SCAN = lit ''scan''"
| "action_value CONNECT = lit ''connect''"
| "action_value PROVISIONING = lit ''provisioning''"

fun security_value :: "wifi_security \<Rightarrow> pstr" where
  "security_value OPEN = lit ''open''"
| "security_value WPA_PERSONAL = lit ''wpa_personal''"
| "security_value ENTERPRISE = lit ''enterprise''"
| "security_value UNSUPPORTED = lit ''unsupported''"

text \<open>\<^verbatim>\<open>NetworkMode(value)\<close> and its kin: the member with this text, else a ValueError.\<close>

definition enum_lookup :: "('m \<Rightarrow> pstr) \<Rightarrow> 'm list \<Rightarrow> json \<Rightarrow> exn + 'm" where
  "enum_lookup text members v =
     (case v of
        JStr s \<Rightarrow> (case find (\<lambda>m. text m = s) members of
                    Some m \<Rightarrow> Inr m
                  | None \<Rightarrow> Inl (ValueError (lit ''is not a valid member'')))
      | _ \<Rightarrow> Inl (ValueError (lit ''is not a valid member'')))"

definition network_mode_of :: "json \<Rightarrow> exn + network_mode" where
  "network_mode_of = enum_lookup mode_value
     [UNCONFIGURED, STATION_CONNECTING, STATION_CONNECTED, PROVISIONING_AP, TRANSITION, ERROR]"

definition network_action_of :: "json \<Rightarrow> exn + network_action" where
  "network_action_of = enum_lookup action_value [STATUS, SCAN, CONNECT, PROVISIONING]"

definition wifi_security_of :: "json \<Rightarrow> exn + wifi_security" where
  "wifi_security_of = enum_lookup security_value [OPEN, WPA_PERSONAL, ENTERPRISE, UNSUPPORTED]"

lemma network_mode_of_value [simp]: "network_mode_of (JStr (mode_value m)) = Inr m"
  by (cases m) (simp_all add: network_mode_of_def enum_lookup_def)

lemma network_action_of_value [simp]: "network_action_of (JStr (action_value a)) = Inr a"
  by (cases a) (simp_all add: network_action_of_def enum_lookup_def)

lemma wifi_security_of_value [simp]: "wifi_security_of (JStr (security_value s)) = Inr s"
  by (cases s) (simp_all add: wifi_security_of_def enum_lookup_def)

lemma enum_lookup_InrD:
  "enum_lookup text ms v = Inr m \<Longrightarrow> v = JStr (text m)"
  by (auto simp: enum_lookup_def find_Some_iff split: json.splits option.splits)

lemma enum_lookup_InlD: "enum_lookup text ms v = Inl e \<Longrightarrow> is_value_error e"
  by (auto simp: enum_lookup_def split: json.splits option.splits)

lemma network_action_of_iff: "network_action_of v = Inr a \<longleftrightarrow> v = JStr (action_value a)"
  by (metis enum_lookup_InrD network_action_of_def network_action_of_value)

lemma network_mode_of_iff: "network_mode_of v = Inr m \<longleftrightarrow> v = JStr (mode_value m)"
  by (metis enum_lookup_InrD network_mode_of_def network_mode_of_value)

lemma wifi_security_of_iff: "wifi_security_of v = Inr s \<longleftrightarrow> v = JStr (security_value s)"
  by (metis enum_lookup_InrD wifi_security_of_def wifi_security_of_value)

section \<open>Validation of network names and passwords\<close>

definition validate_ssid :: "json \<Rightarrow> exn + pstr" where
  "validate_ssid v =
     (case v of
        JStr s \<Rightarrow>
          bindR (utf8_encode s) (\<lambda>encoded.
            if encoded = [] \<or> length encoded > SSID_MAX_BYTES
            then Inl (ValueError (lit ''ssid_length_invalid''))
            else if \<exists>c \<in> set s. c = 0 \<or> c = 13 \<or> c = 10
            then Inl (ValueError (lit ''ssid_contains_control_character''))
            else if \<exists>c \<in> set s. c < 0x20 \<or> c = 0x7F
            then Inl (ValueError (lit ''ssid_contains_control_character''))
            else Inr s)
      | _ \<Rightarrow> Inl (TypeError (lit ''ssid_invalid'')))"

definition validate_password :: "json \<Rightarrow> exn + pstr" where
  "validate_password v =
     (case v of
        JStr s \<Rightarrow>
          bindR (utf8_encode s) (\<lambda>encoded.
            if \<not> (PASSWORD_MIN_BYTES \<le> length encoded \<and> length encoded \<le> PASSWORD_MAX_BYTES)
            then Inl (ValueError (lit ''password_length_invalid''))
            else if 0 \<in> set s \<or> 13 \<in> set s \<or> 10 \<in> set s
            then Inl (ValueError (lit ''password_contains_control_character''))
            else Inr s)
      | _ \<Rightarrow> Inl (TypeError (lit ''password_invalid'')))"

text \<open>What the validators accept, said without their order of checks.\<close>

definition ssid_ok :: "pstr \<Rightarrow> bool" where
  "ssid_ok s \<longleftrightarrow>
     s \<noteq> [] \<and> (\<forall>c \<in> set s. 0x20 \<le> c \<and> c \<noteq> 0x7F \<and> is_scalar c) \<and>
     length (concat (map utf8_char s)) \<le> 32"

definition password_ok :: "pstr \<Rightarrow> bool" where
  "password_ok s \<longleftrightarrow>
     (\<forall>c \<in> set s. c \<notin> {0, 10, 13} \<and> is_scalar c) \<and>
     8 \<le> length (concat (map utf8_char s)) \<and> length (concat (map utf8_char s)) \<le> 63"

lemma utf8_concat_Nil_iff: "concat (map utf8_char s) = [] \<longleftrightarrow> s = []"
  by (cases s) simp_all

lemma validate_ssid_str:
  "validate_ssid (JStr s) =
     (if \<exists>c \<in> set s. \<not> is_scalar c then Inl UnicodeEncodeError
      else if s = [] \<or> length (concat (map utf8_char s)) > 32
      then Inl (ValueError (lit ''ssid_length_invalid''))
      else if \<exists>c \<in> set s. c < 0x20 \<or> c = 0x7F
      then Inl (ValueError (lit ''ssid_contains_control_character''))
      else Inr s)"
proof -
  have drop: "(if A then x else if B then x else y) = (if B then x else y)"
    if "A \<Longrightarrow> B" for A B and x y :: "exn + pstr"
    using that by simp
  have "\<exists>c \<in> set s. c < 0x20 \<or> c = 0x7F" if "\<exists>c \<in> set s. c = 0 \<or> c = 13 \<or> c = 10"
  proof -
    from that obtain c where "c \<in> set s" "c = 0 \<or> c = 13 \<or> c = 10" by blast
    then show ?thesis by (intro bexI [of _ c]) auto
  qed
  note drop [OF this]
  then show ?thesis
    by (simp add: validate_ssid_def utf8_encode_def SSID_MAX_BYTES_def utf8_concat_Nil_iff
             del: concat_eq_Nil_conv)
qed

lemma validate_password_str:
  "validate_password (JStr s) =
     (if \<exists>c \<in> set s. \<not> is_scalar c then Inl UnicodeEncodeError
      else if \<not> (8 \<le> length (concat (map utf8_char s)) \<and> length (concat (map utf8_char s)) \<le> 63)
      then Inl (ValueError (lit ''password_length_invalid''))
      else if 0 \<in> set s \<or> 13 \<in> set s \<or> 10 \<in> set s
      then Inl (ValueError (lit ''password_contains_control_character''))
      else Inr s)"
  by (simp add: validate_password_def utf8_encode_def PASSWORD_MIN_BYTES_def PASSWORD_MAX_BYTES_def)

lemma validate_non_str:
  "\<forall>s. v \<noteq> JStr s \<Longrightarrow> validate_ssid v = Inl (TypeError (lit ''ssid_invalid''))"
  "\<forall>s. v \<noteq> JStr s \<Longrightarrow> validate_password v = Inl (TypeError (lit ''password_invalid''))"
  by (cases v; simp add: validate_ssid_def validate_password_def)+

lemma validate_ssid_str_iff: "validate_ssid (JStr t) = Inr s \<longleftrightarrow> t = s \<and> ssid_ok s"
  by (simp add: validate_ssid_str ssid_ok_def) (meson not_le)

lemma validate_password_str_iff: "validate_password (JStr t) = Inr s \<longleftrightarrow> t = s \<and> password_ok s"
proof (cases "t = s")
  case True
  have "(\<forall>c \<in> set s. c \<notin> {0, 10, 13} \<and> is_scalar c) \<longleftrightarrow>
        \<not> (0 \<in> set s \<or> 13 \<in> set s \<or> 10 \<in> set s) \<and> \<not> (\<exists>c \<in> set s. \<not> is_scalar c)"
    by blast
  with True show ?thesis
    unfolding validate_password_str password_ok_def by (simp del: bex_simps)
qed (simp add: validate_password_str)

lemma validate_ssid_iff: "validate_ssid v = Inr s \<longleftrightarrow> v = JStr s \<and> ssid_ok s"
  by (cases "\<exists>t. v = JStr t") (auto simp: validate_ssid_str_iff validate_non_str)

lemma validate_password_iff: "validate_password v = Inr s \<longleftrightarrow> v = JStr s \<and> password_ok s"
  by (cases "\<exists>t. v = JStr t") (auto simp: validate_password_str_iff validate_non_str)

lemma validate_ssid_str_error: "validate_ssid (JStr s) = Inl e \<Longrightarrow> is_value_error e"
  by (simp add: validate_ssid_str split: if_split_asm) auto

lemma validate_password_str_error: "validate_password (JStr s) = Inl e \<Longrightarrow> is_value_error e"
  by (simp add: validate_password_str split: if_split_asm) auto

lemma validate_ssid_error: "validate_ssid v = Inl e \<Longrightarrow> is_value_error e \<or> is_type_error e"
  using validate_ssid_str_error validate_non_str(1) [of v]
  by (cases "\<exists>t. v = JStr t") auto

lemma validate_password_error:
  "validate_password v = Inl e \<Longrightarrow> is_value_error e \<or> is_type_error e"
  using validate_password_str_error validate_non_str(2) [of v]
  by (cases "\<exists>t. v = JStr t") auto

lemma ssid_ok_length: "ssid_ok s \<Longrightarrow> 1 \<le> length s \<and> length s \<le> 32"
proof -
  assume ok: "ssid_ok s"
  then have "utf8_encode s = Inr (concat (map utf8_char s))"
    by (auto simp: utf8_encode_def ssid_ok_def)
  from utf8_encode_length [OF this] ok show ?thesis
    by (auto simp: ssid_ok_def Suc_le_eq)
qed

end
