(* ===== verification/Backend.thy ===== *)
theory Backend
  imports Protocol "HOL-Library.Product_Lexorder" "HOL-Library.List_Lexorder"
begin

text \<open>
  The NetworkManager backend (\<^verbatim>\<open>setup-ui/rave_networkd/backend.py\<close>): the fixed commands it
  runs, the command runner that keeps a password out of the argument vector, the parsing of
  NetworkManager's answers, and the operations of \<^verbatim>\<open>NetworkManagerBackend\<close> composed from
  them. The programs that are run are not part of the repository: a \<open>runner\<close> is a
  parameter of every operation, and so is the operating system of the subprocess runner.
\<close>

section \<open>Constants\<close>

definition NMCLI :: pstr where "NMCLI = lit ''/usr/bin/nmcli''"
definition SYSTEMCTL :: pstr where "SYSTEMCTL = lit ''/usr/bin/systemctl''"
definition INTERFACE :: pstr where "INTERFACE = lit ''wlan0''"
definition PROVISIONING_PROFILE :: pstr where "PROVISIONING_PROFILE = lit ''RAVE-Setup''"
definition SAVED_PROFILE :: pstr where "SAVED_PROFILE = lit ''RAVE-Management''"
definition PENDING_PROFILE :: pstr where "PENDING_PROFILE = lit ''RAVE-Management-Pending''"
definition PREVIOUS_PROFILE :: pstr where "PREVIOUS_PROFILE = lit ''RAVE-Management-Previous''"
definition DHCP_SERVICE :: pstr where "DHCP_SERVICE = lit ''rave-management-dhcp.service''"
definition COMMAND_TIMEOUT_SECONDS :: int where "COMMAND_TIMEOUT_SECONDS = 35"

lemma profile_names_distinct [simp]:
  "SAVED_PROFILE \<noteq> PENDING_PROFILE" "PENDING_PROFILE \<noteq> SAVED_PROFILE"
  "SAVED_PROFILE \<noteq> PREVIOUS_PROFILE" "PREVIOUS_PROFILE \<noteq> SAVED_PROFILE"
  "PENDING_PROFILE \<noteq> PREVIOUS_PROFILE" "PREVIOUS_PROFILE \<noteq> PENDING_PROFILE"
  by (simp_all add: SAVED_PROFILE_def PENDING_PROFILE_def PREVIOUS_PROFILE_def)

section \<open>Running commands\<close>

record command_result =
  returncode :: int
  stdout :: pstr

text \<open>The \<^verbatim>\<open>CommandRunner\<close> protocol, with the Unicode tables of the interpreter.\<close>

record 'w runner = ucd +
  run :: "pstr list \<Rightarrow> int \<Rightarrow> ('w, command_result) io"
  run_with_secret :: "pstr list \<Rightarrow> pstr \<Rightarrow> int \<Rightarrow> ('w, command_result) io"

subsection \<open>The subprocess runner\<close>

text \<open>
  The system calls of \<^verbatim>\<open>SubprocessRunner\<close>, and how \<^verbatim>\<open>subprocess.run\<close> ends: with a
  status and the decoded output, or because the time limit expired.
\<close>

datatype completion = Completed int pstr | TimeoutExpired

record 'w os =
  memfd_create :: "('w, nat) io"
  os_write :: "nat \<Rightarrow> bytes \<Rightarrow> ('w, unit) io"
  os_lseek_start :: "nat \<Rightarrow> ('w, unit) io"
  os_close :: "nat \<Rightarrow> ('w, unit) io"
  subprocess_run :: "pstr list \<Rightarrow> int \<Rightarrow> nat list \<Rightarrow> ('w, completion) io"

definition subprocess_runner_run ::
  "'w os \<Rightarrow> pstr list \<Rightarrow> int \<Rightarrow> nat list \<Rightarrow> ('w, command_result) io" where
  "subprocess_runner_run OS command timeout pass_fds =
     (if \<not> (0 < timeout \<and> timeout \<le> COMMAND_TIMEOUT_SECONDS)
      then raiseE (ValueError (lit ''command_timeout_out_of_policy''))
      else bindE (subprocess_run OS command timeout pass_fds) (\<lambda>result.
        case result of
          TimeoutExpired \<Rightarrow> returnE \<lparr>returncode = 124, stdout = []\<rparr>
        | Completed rc out \<Rightarrow> returnE \<lparr>returncode = rc, stdout = out\<rparr>))"

definition subprocess_runner_run_with_secret ::
  "'w os \<Rightarrow> pstr list \<Rightarrow> pstr \<Rightarrow> int \<Rightarrow> ('w, command_result) io" where
  "subprocess_runner_run_with_secret OS command password timeout =
     bindE (memfd_create OS) (\<lambda>descriptor.
       finallyE
         (bindE (liftR (bindR (validate_password (JStr password)) (\<lambda>valid.
                   utf8_encode (lit ''802-11-wireless-security.psk:'' @ valid @ [10])))) (\<lambda>secret.
          bindE (os_write OS descriptor secret) (\<lambda>_.
          bindE (os_lseek_start OS descriptor) (\<lambda>_.
          subprocess_runner_run OS
            (command @ [lit ''passwd-file'', lit ''/proc/self/fd/'' @ py_str_int (int descriptor)])
            timeout [descriptor]))))
         (os_close OS descriptor))"

definition subprocess_runner :: "ucd \<Rightarrow> 'w os \<Rightarrow> 'w runner" where
  "subprocess_runner U OS =
     \<lparr>ucd_upper = ucd_upper U, ucd_casefold = ucd_casefold U, ucd_decimal = ucd_decimal U,
      run = (\<lambda>command timeout. subprocess_runner_run OS command timeout []),
      run_with_secret = subprocess_runner_run_with_secret OS\<rparr>"

section \<open>The commands\<close>

definition nmcli_command :: "pstr list \<Rightarrow> nat \<Rightarrow> pstr list" where
  "nmcli_command arguments wait = [NMCLI, lit ''--wait'', py_str_int (int wait)] @ arguments"

definition nmcli :: "'w runner \<Rightarrow> pstr list \<Rightarrow> nat \<Rightarrow> int \<Rightarrow> ('w, command_result) io" where
  "nmcli R arguments wait timeout = run R (nmcli_command arguments wait) timeout"

text \<open>The argument lists that the methods below write out at their calls of \<open>nmcli\<close>.\<close>

definition args_up_uuid :: "pstr \<Rightarrow> pstr list" where
  "args_up_uuid u = [lit ''connection'', lit ''up'', lit ''uuid'', u, lit ''ifname'', INTERFACE]"

definition args_up_provisioning :: "pstr list" where
  "args_up_provisioning =
     [lit ''connection'', lit ''up'', lit ''id'', PROVISIONING_PROFILE, lit ''ifname'', INTERFACE]"

definition args_scan :: "pstr list" where
  "args_scan =
     [lit ''--terse'', lit ''--escape'', lit ''yes'', lit ''--fields'', lit ''SSID,SIGNAL,SECURITY,IN-USE'',
      lit ''device'', lit ''wifi'', lit ''list'', lit ''ifname'', INTERFACE, lit ''--rescan'', lit ''yes'']"

definition args_add_pending :: "pstr \<Rightarrow> pstr list" where
  "args_add_pending name =
     [lit ''connection'', lit ''add'', lit ''type'', lit ''wifi'', lit ''ifname'', INTERFACE,
      lit ''con-name'', PENDING_PROFILE, lit ''ssid'', name, lit ''connection.autoconnect'', lit ''no'',
      lit ''ipv4.method'', lit ''auto'', lit ''ipv4.never-default'', lit ''no'',
      lit ''ipv6.method'', lit ''auto'']"

definition args_secure_pending :: "pstr \<Rightarrow> pstr list" where
  "args_secure_pending key_management =
     [lit ''connection'', lit ''modify'', lit ''id'', PENDING_PROFILE,
      lit ''802-11-wireless-security.key-mgmt'', key_management,
      lit ''802-11-wireless-security.psk-flags'', lit ''0'']"

definition args_set_identity :: "pstr \<Rightarrow> pstr \<Rightarrow> pstr list" where
  "args_set_identity u profile_id =
     [lit ''connection'', lit ''modify'', lit ''uuid'', u, lit ''connection.id'', profile_id,
      lit ''connection.autoconnect'', lit ''no'']"

definition args_property :: "pstr \<Rightarrow> pstr \<Rightarrow> pstr list" where
  "args_property u property_name =
     [lit ''--get-values'', property_name, lit ''connection'', lit ''show'', lit ''uuid'', u]"

definition args_list_profiles :: "pstr list" where
  "args_list_profiles =
     [lit ''--terse'', lit ''--escape'', lit ''no'', lit ''--fields'', lit ''UUID,NAME'',
      lit ''connection'', lit ''show'']"

definition args_saved_ssid :: "pstr option \<Rightarrow> pstr list" where
  "args_saved_ssid profile_uuid =
     [lit ''--get-values'', lit ''802-11-wireless.ssid'', lit ''connection'', lit ''show''] @
     (case profile_uuid of Some u \<Rightarrow> [lit ''uuid'', u] | None \<Rightarrow> [lit ''id'', SAVED_PROFILE])"

definition args_radio_on :: "pstr list" where
  "args_radio_on = [lit ''radio'', lit ''wifi'', lit ''on'']"

definition args_active_connection :: "pstr list" where
  "args_active_connection =
     [lit ''--get-values'', lit ''GENERAL.CONNECTION'', lit ''device'', lit ''show'', INTERFACE]"

definition args_delete_id :: "pstr \<Rightarrow> pstr list" where
  "args_delete_id profile = [lit ''connection'', lit ''delete'', lit ''id'', profile]"

definition args_delete_uuid :: "pstr \<Rightarrow> pstr list" where
  "args_delete_uuid u = [lit ''connection'', lit ''delete'', lit ''uuid'', u]"

definition systemctl_start_dhcp :: "pstr list" where
  "systemctl_start_dhcp = [SYSTEMCTL, lit ''start'', DHCP_SERVICE]"

definition systemctl_stop_dhcp :: "pstr list" where
  "systemctl_stop_dhcp = [SYSTEMCTL, lit ''stop'', DHCP_SERVICE]"

definition systemctl_dhcp_active :: "pstr list" where
  "systemctl_dhcp_active = [SYSTEMCTL, lit ''is-active'', lit ''--quiet'', DHCP_SERVICE]"

section \<open>Parsing what NetworkManager prints\<close>

record access_point =
  ap_ssid :: pstr
  ap_signal_percent :: int
  ap_security :: wifi_security
  ap_connected :: bool
  ap_key_management :: "pstr option"

text \<open>
  \<open>split_go acc current escaped line\<close> is the loop of \<^verbatim>\<open>_split_escaped_fields\<close>, with the
  two growing lists kept in order.
\<close>

fun split_go :: "pstr list \<Rightarrow> pstr \<Rightarrow> bool \<Rightarrow> pstr \<Rightarrow> pstr list" where
  "split_go acc current escaped [] =
     (if escaped then acc @ [current @ [92]] else acc @ [current])"
| "split_go acc current escaped (c # cs) =
     (if escaped then split_go acc (current @ [c]) False cs
      else if c = 92 then split_go acc current True cs
      else if c = 58 then split_go (acc @ [current]) [] False cs
      else split_go acc (current @ [c]) False cs)"

definition split_escaped_fields :: "pstr \<Rightarrow> pstr list" where
  "split_escaped_fields line = split_go [] [] False line"

definition classify_security :: "'a ucd_scheme \<Rightarrow> pstr \<Rightarrow> wifi_security \<times> pstr option" where
  "classify_security U raw_security =
     (let normalized = py_strip (py_upper U raw_security) in
      if normalized = [] \<or> normalized = lit ''--'' then (OPEN, None)
      else if contains (lit ''802.1X'') normalized \<or> contains (lit ''EAP'') normalized then (ENTERPRISE, None)
      else if contains (lit ''WEP'') normalized then (UNSUPPORTED, None)
      else if contains (lit ''WPA'') normalized then
        (WPA_PERSONAL,
         Some (if contains (lit ''WPA3'') normalized \<and> \<not> contains (lit ''WPA2'') normalized
               then lit ''sae'' else lit ''wpa-psk''))
      else (UNSUPPORTED, None))"

definition parse_access_point :: "'a ucd_scheme \<Rightarrow> pstr \<Rightarrow> access_point option" where
  "parse_access_point U line =
     (case split_escaped_fields line of
        [name, signal, raw_security, in_use] \<Rightarrow>
          (case bindR (validate_ssid (JStr name)) (\<lambda>valid_ssid.
                  bindR (py_int U 10 signal) (\<lambda>signal_percent. Inr (valid_ssid, signal_percent))) of
             Inl _ \<Rightarrow> None
           | Inr (valid_ssid, signal_percent) \<Rightarrow>
               if \<not> (0 \<le> signal_percent \<and> signal_percent \<le> 100) then None
               else (case classify_security U raw_security of (security, key_management) \<Rightarrow>
                 Some \<lparr>ap_ssid = valid_ssid, ap_signal_percent = signal_percent,
                       ap_security = security, ap_connected = (in_use = lit ''*''),
                       ap_key_management = key_management\<rparr>))
      | _ \<Rightarrow> None)"

text \<open>The loop of \<^verbatim>\<open>scan\<close> that keeps the strongest access point of each name.\<close>

definition keep_strongest ::
  "(pstr \<times> access_point) list \<Rightarrow> access_point \<Rightarrow> (pstr \<times> access_point) list" where
  "keep_strongest strongest ap =
     (case map_of strongest (ap_ssid ap) of
        None \<Rightarrow> AList.update (ap_ssid ap) ap strongest
      | Some previous \<Rightarrow>
          if ap_signal_percent ap > ap_signal_percent previous
          then AList.update (ap_ssid ap) ap strongest else strongest)"

fun collect_strongest ::
  "'a ucd_scheme \<Rightarrow> (pstr \<times> access_point) list \<Rightarrow> pstr list \<Rightarrow> (pstr \<times> access_point) list" where
  "collect_strongest U strongest [] = strongest"
| "collect_strongest U strongest (line # ls) =
     (case parse_access_point U line of
        None \<Rightarrow> collect_strongest U strongest ls
      | Some ap \<Rightarrow> collect_strongest U (keep_strongest strongest ap) ls)"

definition scan_key :: "'a ucd_scheme \<Rightarrow> access_point \<Rightarrow> int \<times> pstr" where
  "scan_key U ap = (- ap_signal_percent ap, py_casefold U (ap_ssid ap))"

definition rank_networks :: "'a ucd_scheme \<Rightarrow> pstr \<Rightarrow> access_point list" where
  "rank_networks U output =
     take MAX_NETWORKS
       (sort_key (scan_key U) (map snd (collect_strongest U [] (py_splitlines output))))"

text \<open>The loop of \<^verbatim>\<open>_profile_uuid\<close>: \<open>None\<close> when a matching line has no valid UUID.\<close>

fun matching_uuids :: "'a ucd_scheme \<Rightarrow> pstr \<Rightarrow> pstr list \<Rightarrow> pstr list option" where
  "matching_uuids U profile_id [] = Some []"
| "matching_uuids U profile_id (line # ls) =
     (case py_partition 58 line of (candidate, separator, name) \<Rightarrow>
        if \<not> separator \<or> name \<noteq> profile_id then matching_uuids U profile_id ls
        else (case canonical_uuid U candidate of
                Inl _ \<Rightarrow> None
              | Inr u \<Rightarrow> map_option (\<lambda>us. u # us) (matching_uuids U profile_id ls)))"

definition parse_profile_list :: "'a ucd_scheme \<Rightarrow> pstr \<Rightarrow> pstr \<Rightarrow> bool \<times> pstr option" where
  "parse_profile_list U profile_id output =
     (case matching_uuids U profile_id (py_splitlines output) of
        None \<Rightarrow> (False, None)
      | Some matches \<Rightarrow>
          if length matches > 1 then (False, None)
          else (True, case matches of [] \<Rightarrow> None | u # _ \<Rightarrow> Some u))"

definition credential_error :: "wifi_security \<Rightarrow> pstr option \<Rightarrow> pstr option" where
  "credential_error security password =
     (if security = ENTERPRISE \<or> security = UNSUPPORTED then Some (lit ''security_not_supported'')
      else if security = OPEN then (if password = None then None else Some (lit ''password_not_expected''))
      else (case password of
              None \<Rightarrow> Some (lit ''password_required'')
            | Some p \<Rightarrow> (case validate_password (JStr p) of
                          Inl _ \<Rightarrow> Some (lit ''password_invalid'')
                        | Inr _ \<Rightarrow> None)))"

section \<open>Single operations\<close>

definition stop_dhcp :: "'w runner \<Rightarrow> ('w, bool) io" where
  "stop_dhcp R = bindE (run R systemctl_stop_dhcp 10) (\<lambda>result. returnE (returncode result = 0))"

definition enable_wifi :: "'w runner \<Rightarrow> ('w, bool) io" where
  "enable_wifi R = bindE (nmcli R args_radio_on 5 8) (\<lambda>result. returnE (returncode result = 0))"

definition active_connection :: "'w runner \<Rightarrow> ('w, pstr option) io" where
  "active_connection R =
     bindE (nmcli R args_active_connection 2 3) (\<lambda>result.
       returnE (if returncode result = 0 then Some (py_strip (stdout result)) else None))"

definition delete_profile :: "'w runner \<Rightarrow> pstr \<Rightarrow> ('w, unit) io" where
  "delete_profile R profile = bindE (nmcli R (args_delete_id profile) 5 8) (\<lambda>_. returnE ())"

definition delete_profile_uuid :: "'w runner \<Rightarrow> pstr \<Rightarrow> ('w, bool) io" where
  "delete_profile_uuid R profile_uuid =
     bindE (nmcli R (args_delete_uuid profile_uuid) 5 8) (\<lambda>result. returnE (returncode result = 0))"

definition profile_uuid_of :: "'w runner \<Rightarrow> pstr \<Rightarrow> ('w, bool \<times> pstr option) io" where
  "profile_uuid_of R profile_id =
     bindE (nmcli R args_list_profiles 2 3) (\<lambda>result.
       returnE (if returncode result \<noteq> 0 then (False, None)
                else parse_profile_list R profile_id (stdout result)))"

definition saved_ssid :: "'w runner \<Rightarrow> pstr option \<Rightarrow> ('w, pstr option) io" where
  "saved_ssid R profile_uuid =
     bindE (nmcli R (args_saved_ssid profile_uuid) 2 3) (\<lambda>result.
       let candidate = py_strip (stdout result) in
       returnE (if returncode result = 0
                then (case validate_ssid (JStr candidate) of Inr s \<Rightarrow> Some s | Inl _ \<Rightarrow> None)
                else None))"

definition profile_property :: "'w runner \<Rightarrow> pstr \<Rightarrow> pstr \<Rightarrow> ('w, pstr option) io" where
  "profile_property R profile_uuid property_name =
     bindE (nmcli R (args_property profile_uuid property_name) 2 3) (\<lambda>result.
       returnE (if returncode result = 0 then Some (py_strip (stdout result)) else None))"

definition profile_has_identity :: "'w runner \<Rightarrow> pstr \<Rightarrow> pstr \<Rightarrow> ('w, bool) io" where
  "profile_has_identity R profile_uuid profile_id =
     bindE (profile_property R profile_uuid (lit ''connection.id'')) (\<lambda>identity.
       if identity \<noteq> Some profile_id then returnE False
       else bindE (profile_property R profile_uuid (lit ''connection.autoconnect'')) (\<lambda>autoconnect.
              returnE (autoconnect = Some (lit ''no''))))"

definition set_profile_identity :: "'w runner \<Rightarrow> pstr \<Rightarrow> pstr \<Rightarrow> ('w, bool) io" where
  "set_profile_identity R profile_uuid profile_id =
     bindE (nmcli R (args_set_identity profile_uuid profile_id) 5 8) (\<lambda>result.
       returnE (returncode result = 0))"

definition create_pending_profile :: "'w runner \<Rightarrow> access_point \<Rightarrow> ('w, bool) io" where
  "create_pending_profile R ap =
     bindE (nmcli R (args_add_pending (ap_ssid ap)) 5 8) (\<lambda>added.
       case (if returncode added \<noteq> 0 then None else ap_key_management ap) of
         None \<Rightarrow> returnE (returncode added = 0)
       | Some key_management \<Rightarrow>
           bindE (nmcli R (args_secure_pending key_management) 5 8) (\<lambda>secured.
             returnE (returncode secured = 0)))"

definition activate_pending :: "'w runner \<Rightarrow> pstr \<Rightarrow> access_point \<Rightarrow> pstr option \<Rightarrow> ('w, bool) io" where
  "activate_pending R profile_uuid ap password =
     (let command = nmcli_command (args_up_uuid profile_uuid) 30 in
      if ap_security ap = OPEN
      then bindE (run R command COMMAND_TIMEOUT_SECONDS) (\<lambda>result. returnE (returncode result = 0))
      else (case password of
              None \<Rightarrow> raiseE AssertionError
            | Some p \<Rightarrow>
                bindE (run_with_secret R command p COMMAND_TIMEOUT_SECONDS) (\<lambda>result.
                  returnE (returncode result = 0))))"

text \<open>
  \<open>promote_candidate\<close> is the second half of \<^verbatim>\<open>_promote_pending_profile\<close>, after the previous
  profile, if any, has its backup identity.
\<close>

definition promote_candidate :: "'w runner \<Rightarrow> pstr \<Rightarrow> pstr option \<Rightarrow> ('w, bool) io" where
  "promote_candidate R pending_uuid previous_uuid =
     bindE (set_profile_identity R pending_uuid SAVED_PROFILE) (\<lambda>renamed.
     if \<not> renamed then returnE False
     else bindE (profile_has_identity R pending_uuid SAVED_PROFILE) (\<lambda>verified.
     if \<not> verified then returnE False
     else (case previous_uuid of
             None \<Rightarrow> returnE True
           | Some previous \<Rightarrow> delete_profile_uuid R previous)))"

definition promote_pending_profile :: "'w runner \<Rightarrow> pstr \<Rightarrow> pstr option \<Rightarrow> ('w, bool) io" where
  "promote_pending_profile R pending_uuid previous_uuid =
     (case previous_uuid of
        None \<Rightarrow> promote_candidate R pending_uuid previous_uuid
      | Some previous \<Rightarrow>
          bindE (set_profile_identity R previous PREVIOUS_PROFILE) (\<lambda>backed_up.
          if \<not> backed_up then returnE False
          else bindE (profile_has_identity R previous PREVIOUS_PROFILE) (\<lambda>verified.
          if \<not> verified then returnE False
          else promote_candidate R pending_uuid previous_uuid)))"

definition rollback_promotion :: "'w runner \<Rightarrow> pstr \<Rightarrow> pstr option \<Rightarrow> ('w, unit) io" where
  "rollback_promotion R pending_uuid previous_uuid =
     bindE (set_profile_identity R pending_uuid PENDING_PROFILE) (\<lambda>_.
     bindE (case previous_uuid of
              None \<Rightarrow> returnE ()
            | Some previous \<Rightarrow> bindE (set_profile_identity R previous SAVED_PROFILE) (\<lambda>_. returnE ())) (\<lambda>_.
     bindE (delete_profile_uuid R pending_uuid) (\<lambda>_. returnE ())))"

definition saved_profile_for_activation :: "'w runner \<Rightarrow> ('w, pstr option) io" where
  "saved_profile_for_activation R =
     (let establish = (\<lambda>profile_uuid.
        bindE (set_profile_identity R profile_uuid SAVED_PROFILE) (\<lambda>renamed.
        if \<not> renamed then returnE None
        else bindE (profile_has_identity R profile_uuid SAVED_PROFILE) (\<lambda>verified.
        returnE (if verified then Some profile_uuid else None))))
      in bindE (profile_uuid_of R SAVED_PROFILE) (\<lambda>(lookup_ok, profile_uuid).
         if \<not> lookup_ok then returnE None
         else (case profile_uuid of
                 Some u \<Rightarrow> establish u
               | None \<Rightarrow>
                   bindE (profile_uuid_of R PREVIOUS_PROFILE) (\<lambda>(backup_ok, backup_uuid).
                     case (if backup_ok then backup_uuid else None) of
                       None \<Rightarrow> returnE None
                     | Some u \<Rightarrow> establish u))))"

section \<open>The operations of the backend\<close>

definition has_saved_station :: "'w runner \<Rightarrow> ('w, bool) io" where
  "has_saved_station R =
     bindE (profile_uuid_of R SAVED_PROFILE) (\<lambda>(lookup_ok, saved_uuid).
       if \<not> lookup_ok \<or> saved_uuid \<noteq> None then returnE (lookup_ok \<and> saved_uuid \<noteq> None)
       else bindE (profile_uuid_of R PREVIOUS_PROFILE) (\<lambda>(backup_ok, backup_uuid).
              returnE (backup_ok \<and> backup_uuid \<noteq> None)))"

definition activate_saved_station ::
  "'w runner \<Rightarrow> ('w, bool \<times> pstr option \<times> pstr option) io" where
  "activate_saved_station R =
     bindE (saved_profile_for_activation R) (\<lambda>profile.
     case profile of
       None \<Rightarrow> returnE (False, None, Some (lit ''saved_station_profile_failed''))
     | Some profile_uuid \<Rightarrow>
     bindE (enable_wifi R) (\<lambda>radio.
     if \<not> radio then returnE (False, None, Some (lit ''wifi_radio_failed''))
     else bindE (stop_dhcp R) (\<lambda>stopped.
     if \<not> stopped then returnE (False, None, Some (lit ''ap_dhcp_stop_failed''))
     else bindE (nmcli R (args_up_uuid profile_uuid) 30 COMMAND_TIMEOUT_SECONDS) (\<lambda>result.
     if returncode result \<noteq> 0 then returnE (False, None, Some (lit ''saved_station_timeout''))
     else bindE (saved_ssid R (Some profile_uuid)) (\<lambda>name.
     returnE (True, name, None))))))"

definition scan :: "'w runner \<Rightarrow> ('w, access_point list) io" where
  "scan R =
     bindE (enable_wifi R) (\<lambda>radio.
     if \<not> radio then raiseE (RuntimeError (lit ''wifi_radio_failed''))
     else bindE (nmcli R args_scan 12 15) (\<lambda>result.
     if returncode result \<noteq> 0 then raiseE (RuntimeError (lit ''wifi_scan_failed''))
     else returnE (rank_networks R (stdout result))))"

definition activate_provisioning :: "'w runner \<Rightarrow> ('w, bool \<times> pstr option) io" where
  "activate_provisioning R =
     bindE (enable_wifi R) (\<lambda>radio.
     if \<not> radio then returnE (False, Some (lit ''wifi_radio_failed''))
     else bindE (nmcli R args_up_provisioning 20 25) (\<lambda>result.
     if returncode result \<noteq> 0 then returnE (False, Some (lit ''ap_activation_failed''))
     else bindE (run R systemctl_start_dhcp 10) (\<lambda>dhcp.
     if returncode dhcp \<noteq> 0 then returnE (False, Some (lit ''ap_dhcp_failed''))
     else returnE (True, None))))"

definition active_station_ssid :: "'w runner \<Rightarrow> ('w, pstr option) io" where
  "active_station_ssid R =
     bindE (active_connection R) (\<lambda>active.
       if active \<noteq> Some SAVED_PROFILE then returnE None else saved_ssid R None)"

definition provisioning_ready :: "'w runner \<Rightarrow> ('w, bool) io" where
  "provisioning_ready R =
     bindE (active_connection R) (\<lambda>active.
       if active \<noteq> Some PROVISIONING_PROFILE then returnE False
       else bindE (run R systemctl_dhcp_active 3) (\<lambda>result. returnE (returncode result = 0)))"

text \<open>
  \<open>connect_candidate\<close> is the part of \<^verbatim>\<open>connect_station\<close> from the first change of a profile on:
  it stages the pending profile; \<open>establish_candidate\<close> then activates and promotes it. Both
  clean up at every failure.
\<close>

definition establish_candidate ::
  "'w runner \<Rightarrow> access_point \<Rightarrow> pstr \<Rightarrow> pstr option \<Rightarrow> pstr option \<Rightarrow> pstr \<Rightarrow>
     ('w, bool \<times> pstr option \<times> pstr option) io" where
  "establish_candidate R ap selected_ssid password previous_uuid pending_uuid =
     bindE (activate_pending R pending_uuid ap password) (\<lambda>activated.
     if \<not> activated then
       bindE (delete_profile_uuid R pending_uuid) (\<lambda>_.
       returnE (False, None, Some (lit ''station_timeout'')))
     else bindE (promote_pending_profile R pending_uuid previous_uuid) (\<lambda>promoted.
     if \<not> promoted then
       bindE (rollback_promotion R pending_uuid previous_uuid) (\<lambda>_.
       returnE (False, None, Some (lit ''station_profile_persistence_failed'')))
     else returnE (True, Some selected_ssid, None)))"

definition connect_candidate ::
  "'w runner \<Rightarrow> access_point \<Rightarrow> pstr \<Rightarrow> pstr option \<Rightarrow> pstr option \<Rightarrow>
     ('w, bool \<times> pstr option \<times> pstr option) io" where
  "connect_candidate R ap selected_ssid password previous_uuid =
     bindE (delete_profile R PENDING_PROFILE) (\<lambda>_.
     bindE (create_pending_profile R ap) (\<lambda>created.
     if \<not> created then
       bindE (delete_profile R PENDING_PROFILE) (\<lambda>_.
       returnE (False, None, Some (lit ''station_profile_failed'')))
     else bindE (profile_uuid_of R PENDING_PROFILE) (\<lambda>(pending_ok, pending).
     case (if pending_ok then pending else None) of
       None \<Rightarrow>
         bindE (delete_profile R PENDING_PROFILE) (\<lambda>_.
         returnE (False, None, Some (lit ''station_profile_failed'')))
     | Some pending_uuid \<Rightarrow>
         establish_candidate R ap selected_ssid password previous_uuid pending_uuid)))"

definition connect_station ::
  "'w runner \<Rightarrow> pstr \<Rightarrow> pstr option \<Rightarrow> ('w, bool \<times> pstr option \<times> pstr option) io" where
  "connect_station R name password =
     bindE (liftR (validate_ssid (JStr name))) (\<lambda>selected_ssid.
     bindE (scan R) (\<lambda>networks.
     case find (\<lambda>item. ap_ssid item = selected_ssid) networks of
       None \<Rightarrow> returnE (False, None, Some (lit ''ssid_not_found''))
     | Some ap \<Rightarrow>
     (case credential_error (ap_security ap) password of
        Some e \<Rightarrow> returnE (False, None, Some e)
      | None \<Rightarrow>
     bindE (stop_dhcp R) (\<lambda>stopped.
     if \<not> stopped then returnE (False, None, Some (lit ''ap_dhcp_stop_failed''))
     else bindE (profile_uuid_of R SAVED_PROFILE) (\<lambda>(lookup_ok, previous_uuid).
     if \<not> lookup_ok then returnE (False, None, Some (lit ''station_profile_persistence_failed''))
     else connect_candidate R ap selected_ssid password previous_uuid)))))"

end
