(* ===== verification/Backend_Facts.thy ===== *)
theory Backend_Facts
  imports Backend
begin

text \<open>
  What the backend's parsers and commands guarantee: the terse output format of
  NetworkManager read back, the ranking of a scan, the security classification, the closed
  set of commands the backend can ever run with the time limit of each, the exceptions its
  operations can raise, and the independence of the argument vectors from the password.
\<close>

section \<open>The terse output format\<close>

text \<open>
  NetworkManager's documented escaping of a field: a backslash before each colon and each
  backslash. Fields are separated by colons.
\<close>

definition escape_field :: "pstr \<Rightarrow> pstr" where
  "escape_field f = concat (map (\<lambda>c. if c = 92 \<or> c = 58 then [92, c] else [c]) f)"

fun terse_line :: "pstr list \<Rightarrow> pstr" where
  "terse_line [] = []"
| "terse_line [f] = escape_field f"
| "terse_line (f # fs) = escape_field f @ 58 # terse_line fs"

lemma split_go_escaped:
  "split_go acc cur False (escape_field f @ rest) = split_go acc (cur @ f) False rest"
proof (induction f arbitrary: cur)
  case Nil
  then show ?case by (simp add: escape_field_def)
next
  case (Cons c f)
  have "escape_field (c # f) = (if c = 92 \<or> c = 58 then [92, c] else [c]) @ escape_field f"
    by (simp add: escape_field_def)
  with Cons show ?case by simp
qed

lemma split_go_terse:
  "fs \<noteq> [] \<Longrightarrow> split_go acc [] False (terse_line fs) = acc @ fs"
proof (induction fs arbitrary: acc rule: terse_line.induct)
  case (2 f)
  show ?case using split_go_escaped [of acc "[]" f "[]"] by simp
next
  case (3 f g fs)
  show ?case using 3 split_go_escaped [of acc "[]" f "58 # terse_line (g # fs)"] by simp
qed simp

lemma split_escaped_nonempty: "split_escaped_fields line \<noteq> []"
proof -
  have "split_go acc cur e line \<noteq> []" for acc cur e
    by (induction acc cur e line rule: split_go.induct) auto
  then show ?thesis by (simp add: split_escaped_fields_def)
qed

section \<open>Access points and the ranking of a scan\<close>

definition access_point_ok :: "access_point \<Rightarrow> bool" where
  "access_point_ok ap \<longleftrightarrow>
     ssid_ok (ap_ssid ap) \<and> 0 \<le> ap_signal_percent ap \<and> ap_signal_percent ap \<le> 100 \<and>
     (ap_key_management ap \<noteq> None \<longleftrightarrow> ap_security ap = WPA_PERSONAL) \<and>
     ap_key_management ap \<in> {None, Some (lit ''sae''), Some (lit ''wpa-psk'')}"

lemma classify_security_ok:
  "classify_security U s = (sec, km) \<Longrightarrow>
     (km \<noteq> None \<longleftrightarrow> sec = WPA_PERSONAL) \<and> km \<in> {None, Some (lit ''sae''), Some (lit ''wpa-psk'')}"
  by (auto simp: classify_security_def Let_def split: if_splits)

lemma parse_access_point_ok: "parse_access_point U line = Some ap \<Longrightarrow> access_point_ok ap"
  using classify_security_ok
  by (fastforce simp: parse_access_point_def access_point_ok_def bindR_Inr_iff validate_ssid_iff
        split: list.splits sum.splits prod.splits if_splits)

definition parsed_points :: "'a ucd_scheme \<Rightarrow> pstr \<Rightarrow> access_point list" where
  "parsed_points U out = List.map_filter (parse_access_point U) (py_splitlines out)"

text \<open>
  The table the loop builds: one entry per name, under that name, the strongest access point
  of the name among those read so far.
\<close>

definition strongest_table :: "access_point set \<Rightarrow> (pstr \<times> access_point) list \<Rightarrow> bool" where
  "strongest_table seen tbl \<longleftrightarrow>
     distinct (map fst tbl) \<and>
     (\<forall>(k, a) \<in> set tbl. ap_ssid a = k \<and> a \<in> seen \<and>
        (\<forall>b \<in> seen. ap_ssid b = k \<longrightarrow> ap_signal_percent b \<le> ap_signal_percent a)) \<and>
     fst ` set tbl = ap_ssid ` seen"

lemma strongest_tableD:
  assumes "strongest_table seen tbl" "map_of tbl k = Some a"
  shows "ap_ssid a = k" "a \<in> seen"
    "\<And>b. b \<in> seen \<Longrightarrow> ap_ssid b = k \<Longrightarrow> ap_signal_percent b \<le> ap_signal_percent a"
  using assms map_of_SomeD [OF assms(2)] by (auto simp: strongest_table_def)

lemma set_AList_update:
  "distinct (map fst al) \<Longrightarrow> set (AList.update k v al) = insert (k, v) {x \<in> set al. fst x \<noteq> k}"
  by (induction al) (auto simp: rev_image_eqI)

lemma keys_AList_update: "fst ` set (AList.update k v al) = insert k (fst ` set al)"
  by (induction al) auto

lemma strongest_tableE:
  assumes "strongest_table seen tbl"
  obtains "distinct (map fst tbl)" "fst ` set tbl = ap_ssid ` seen"
    "\<And>k a. (k, a) \<in> set tbl \<Longrightarrow> ap_ssid a = k \<and> a \<in> seen"
    "\<And>k a b. (k, a) \<in> set tbl \<Longrightarrow> b \<in> seen \<Longrightarrow> ap_ssid b = k \<Longrightarrow>
       ap_signal_percent b \<le> ap_signal_percent a"
  using assms unfolding strongest_table_def by blast

lemma strongest_table_update:
  assumes tbl: "strongest_table seen tbl"
    and top: "\<And>b. b \<in> seen \<Longrightarrow> ap_ssid b = ap_ssid ap \<Longrightarrow> ap_signal_percent b \<le> ap_signal_percent ap"
  shows "strongest_table (insert ap seen) (AList.update (ap_ssid ap) ap tbl)"
proof -
  from tbl have dist: "distinct (map fst tbl)" and keys: "fst ` set tbl = ap_ssid ` seen"
    by (auto elim: strongest_tableE)
  have "distinct (map fst (AList.update (ap_ssid ap) ap tbl))"
    using dist by (rule distinct_update)
  moreover have "fst ` set (AList.update (ap_ssid ap) ap tbl) = ap_ssid ` insert ap seen"
    by (simp add: keys_AList_update keys)
  moreover have "ap_ssid a = k \<and> a \<in> insert ap seen \<and>
      (\<forall>b \<in> insert ap seen. ap_ssid b = k \<longrightarrow> ap_signal_percent b \<le> ap_signal_percent a)"
    if "(k, a) \<in> set (AList.update (ap_ssid ap) ap tbl)" for k a
    using that top tbl by (auto simp: set_AList_update [OF dist] elim!: strongest_tableE)
  ultimately show ?thesis unfolding strongest_table_def by blast
qed

lemma keep_strongest_table:
  assumes tbl: "strongest_table seen tbl"
  shows "strongest_table (insert ap seen) (keep_strongest tbl ap)"
proof (cases "map_of tbl (ap_ssid ap)")
  case None
  then have "ap_ssid ap \<notin> ap_ssid ` seen"
    using tbl by (auto simp: map_of_eq_None_iff strongest_table_def)
  then have "strongest_table (insert ap seen) (AList.update (ap_ssid ap) ap tbl)"
    by (intro strongest_table_update [OF tbl]) (auto simp: image_iff)
  with None show ?thesis by (simp add: keep_strongest_def)
next
  case (Some old)
  note old = strongest_tableD [OF tbl Some]
  show ?thesis
  proof (cases "ap_signal_percent ap > ap_signal_percent old")
    case True
    then have "strongest_table (insert ap seen) (AList.update (ap_ssid ap) ap tbl)"
      using old(3) by (intro strongest_table_update [OF tbl]) fastforce
    with Some True show ?thesis by (simp add: keep_strongest_def)
  next
    case False
    then have weaker: "ap_signal_percent ap \<le> ap_signal_percent old" by simp
    have only: "a = old" if "(ap_ssid ap, a) \<in> set tbl" for a
      using tbl Some that by (auto elim!: strongest_tableE)
    have "ap_ssid a = k \<and> a \<in> insert ap seen \<and>
        (\<forall>b \<in> insert ap seen. ap_ssid b = k \<longrightarrow> ap_signal_percent b \<le> ap_signal_percent a)"
      if "(k, a) \<in> set tbl" for k a
      using that tbl weaker only [of a] by (auto elim!: strongest_tableE)
    moreover have "fst ` set tbl = ap_ssid ` insert ap seen" "distinct (map fst tbl)"
      using tbl imageI [OF old(2), of ap_ssid] old(1) by (auto elim!: strongest_tableE)
    ultimately have "strongest_table (insert ap seen) tbl"
      unfolding strongest_table_def by blast
    with Some False show ?thesis by (simp add: keep_strongest_def)
  qed
qed

lemma collect_strongest_table:
  "strongest_table seen tbl \<Longrightarrow>
     strongest_table (seen \<union> set (List.map_filter (parse_access_point U) ls)) (collect_strongest U tbl ls)"
proof (induction ls arbitrary: seen tbl)
  case Nil
  then show ?case by (simp add: map_filter_def)
next
  case (Cons l ls)
  show ?case
  proof (cases "parse_access_point U l")
    case None
    with Cons show ?thesis by (simp add: map_filter_def)
  next
    case (Some ap)
    with Cons.IH [OF keep_strongest_table [OF Cons.prems, of ap]] show ?thesis
      by (simp add: map_filter_def)
  qed
qed

lemma scan_table:
  "strongest_table (set (parsed_points U out)) (collect_strongest U [] (py_splitlines out))"
proof -
  have "strongest_table {} []" by (simp add: strongest_table_def)
  from collect_strongest_table [OF this] show ?thesis by (simp add: parsed_points_def)
qed

lemma table_ssids: "strongest_table seen tbl \<Longrightarrow> map ap_ssid (map snd tbl) = map fst tbl"
  by (auto simp: strongest_table_def)

lemma distinct_map_sort_key: "distinct (map f l) \<Longrightarrow> distinct (map f (sort_key g l))"
  by (simp add: distinct_map)

lemma rank_networks_subset:
  "set (rank_networks U out) \<subseteq> snd ` set (collect_strongest U [] (py_splitlines out))"
  using set_take_subset by (fastforce simp: rank_networks_def)

lemma rank_networks_strongest:
  assumes "ap \<in> set (rank_networks U out)"
  shows "ap \<in> set (parsed_points U out)"
    and "\<And>b. b \<in> set (parsed_points U out) \<Longrightarrow> ap_ssid b = ap_ssid ap \<Longrightarrow>
           ap_signal_percent b \<le> ap_signal_percent ap"
proof -
  from assms rank_networks_subset obtain k where
    "(k, ap) \<in> set (collect_strongest U [] (py_splitlines out))" by fastforce
  with scan_table [of U out] show "ap \<in> set (parsed_points U out)"
    and "\<And>b. b \<in> set (parsed_points U out) \<Longrightarrow> ap_ssid b = ap_ssid ap \<Longrightarrow>
           ap_signal_percent b \<le> ap_signal_percent ap"
    by (auto simp: strongest_table_def)
qed

lemma rank_networks_sorted: "sorted (map (scan_key U) (rank_networks U out))"
  by (simp add: rank_networks_def take_map [symmetric] sorted_wrt_take)

lemma rank_networks_distinct: "distinct (map ap_ssid (rank_networks U out))"
proof -
  let ?t = "collect_strongest U [] (py_splitlines out)"
  have "distinct (map fst ?t)"
    using scan_table [of U out] by (simp add: strongest_table_def)
  then have "distinct (map ap_ssid (map snd ?t))"
    by (simp only: table_ssids [OF scan_table])
  then have "distinct (map ap_ssid (sort_key (scan_key U) (map snd ?t)))"
    by (rule distinct_map_sort_key)
  then show ?thesis
    by (simp only: rank_networks_def take_map [symmetric] distinct_take)
qed

lemma rank_networks_ok: "ap \<in> set (rank_networks U out) \<Longrightarrow> access_point_ok ap"
  using rank_networks_strongest(1) parse_access_point_ok
  by (fastforce simp: parsed_points_def map_filter_def split: option.splits)

text \<open>Nothing is lost below the limit: each name that was read is listed.\<close>

lemma rank_networks_complete:
  assumes "card (ap_ssid ` set (parsed_points U out)) \<le> MAX_NETWORKS"
  shows "ap_ssid ` set (rank_networks U out) = ap_ssid ` set (parsed_points U out)"
proof -
  let ?t = "collect_strongest U [] (py_splitlines out)"
  have t: "strongest_table (set (parsed_points U out)) ?t" by (rule scan_table)
  then have "distinct (map fst ?t)" "fst ` set ?t = ap_ssid ` set (parsed_points U out)"
    by (simp_all add: strongest_table_def)
  then have "length ?t = card (ap_ssid ` set (parsed_points U out))"
    using distinct_card [of "map fst ?t"] by simp
  with assms have "set (rank_networks U out) = snd ` set ?t"
    by (simp add: rank_networks_def)
  moreover have "ap_ssid ` snd ` set ?t = fst ` set ?t"
    using arg_cong [OF table_ssids [OF t], of set] by (simp add: image_image)
  ultimately show ?thesis using t by (simp add: strongest_table_def)
qed

lemma rank_networks_length: "length (rank_networks U out) \<le> MAX_NETWORKS"
  by (simp add: rank_networks_def)

end
