(* ===== verification/Backend_Commands.thy ===== *)
theory Backend_Commands
  imports Backend_Facts
begin

text \<open>
  The privilege boundary of the backend: the closed set of commands its operations can run
  (\<open>backend_command\<close>), the interface \<open>supervised_runner\<close> through which any predicate of the
  world that these commands keep is kept by every operation, its interpretation on a runner
  that records each argument vector, the exceptions that can leave an operation, and the
  independence of everything but the credential file from the password.
\<close>

section \<open>The commands the backend may run\<close>

text \<open>One rule for each call of \<open>nmcli\<close> or of the runner, with its time limit in seconds.\<close>

inductive backend_command :: "pstr list \<Rightarrow> int \<Rightarrow> bool" where
  cmd_start_dhcp: "backend_command systemctl_start_dhcp 10"
| cmd_stop_dhcp: "backend_command systemctl_stop_dhcp 10"
| cmd_dhcp_active: "backend_command systemctl_dhcp_active 3"
| cmd_radio_on: "backend_command (nmcli_command args_radio_on 5) 8"
| cmd_scan: "backend_command (nmcli_command args_scan 12) 15"
| cmd_list_profiles: "backend_command (nmcli_command args_list_profiles 2) 3"
| cmd_active: "backend_command (nmcli_command args_active_connection 2) 3"
| cmd_up_provisioning: "backend_command (nmcli_command args_up_provisioning 20) 25"
| cmd_up_uuid: "backend_command (nmcli_command (args_up_uuid u) 30) 35"
| cmd_saved_ssid: "backend_command (nmcli_command (args_saved_ssid u) 2) 3"
| cmd_prop: "p \<in> {lit ''connection.id'', lit ''connection.autoconnect''} \<Longrightarrow>
     backend_command (nmcli_command (args_property u p) 2) 3"
| cmd_set_identity: "i \<in> {SAVED_PROFILE, PENDING_PROFILE, PREVIOUS_PROFILE} \<Longrightarrow>
     backend_command (nmcli_command (args_set_identity u i) 5) 8"
| cmd_add_pending: "ssid_ok name \<Longrightarrow> backend_command (nmcli_command (args_add_pending name) 5) 8"
| cmd_secure_pending: "k \<in> {lit ''sae'', lit ''wpa-psk''} \<Longrightarrow>
     backend_command (nmcli_command (args_secure_pending k) 5) 8"
| cmd_delete_pending: "backend_command (nmcli_command (args_delete_id PENDING_PROFILE) 5) 8"
| cmd_delete_uuid: "backend_command (nmcli_command (args_delete_uuid u) 5) 8"

lemma backend_command_timeout:
  "backend_command c t \<Longrightarrow> 0 < t \<and> t \<le> COMMAND_TIMEOUT_SECONDS"
  by (cases rule: backend_command.cases) (auto simp: COMMAND_TIMEOUT_SECONDS_def)

lemma backend_command_program:
  "backend_command c t \<Longrightarrow> hd c \<in> {NMCLI, SYSTEMCTL}"
  by (cases rule: backend_command.cases)
     (auto simp: nmcli_command_def systemctl_start_dhcp_def systemctl_stop_dhcp_def
        systemctl_dhcp_active_def)

section \<open>Predicates that every command keeps\<close>

lemma keeps_bind_result:
  assumes "keeps I m" "\<And>x w w'. m w = (Inr x, w') \<Longrightarrow> keeps I (f x)"
  shows "keeps I (bindE m f)"
proof (rule keepsI)
  fix w assume I: "I w"
  show "I (snd (bindE m f w))"
  proof (cases "m w")
    case (Pair r w')
    with assms(1) I have I': "I w'" by (metis keepsD)
    show ?thesis
    proof (cases r)
      case (Inl e)
      with Pair I' show ?thesis by (simp add: bindE_def)
    next
      case (Inr x)
      with Pair assms(2) have "keeps I (f x)" by blast
      with I' Pair Inr show ?thesis by (simp add: bindE_def keeps_def)
    qed
  qed
qed

lemma scan_result_ok:
  assumes "scan R w = (Inr ns, w')" "ap \<in> set ns"
  shows "access_point_ok ap"
proof -
  from assms(1) obtain out where "ns = rank_networks R out"
    by (auto simp: scan_def returnE_def raiseE_def bindE_Inr_iff split: if_splits)
  with assms(2) show ?thesis by (simp add: rank_networks_ok)
qed

locale supervised_runner =
  fixes R :: "'w runner" and I :: "'w \<Rightarrow> bool"
  assumes run_keeps: "backend_command c t \<Longrightarrow> keeps I (run R c t)"
    and secret_keeps: "backend_command c t \<Longrightarrow> keeps I (run_with_secret R c p t)"
begin

lemma nmcli_keeps [keeps_rules]:
  "backend_command (nmcli_command a w) t \<Longrightarrow> keeps I (nmcli R a w t)"
  by (simp add: nmcli_def run_keeps)

lemma single_keeps [keeps_rules]:
  "keeps I (enable_wifi R)" "keeps I (stop_dhcp R)" "keeps I (active_connection R)"
  "keeps I (delete_profile R PENDING_PROFILE)" "keeps I (delete_profile_uuid R u)"
  "keeps I (profile_uuid_of R i)" "keeps I (saved_ssid R v)"
  unfolding enable_wifi_def stop_dhcp_def active_connection_def delete_profile_def
    delete_profile_uuid_def profile_uuid_of_def saved_ssid_def Let_def
  by (intro keeps_rules run_keeps backend_command.intros)+

lemma identity_keeps [keeps_rules]:
  "keeps I (profile_has_identity R u i)"
  "i \<in> {SAVED_PROFILE, PENDING_PROFILE, PREVIOUS_PROFILE} \<Longrightarrow> keeps I (set_profile_identity R u i)"
  unfolding profile_has_identity_def profile_property_def set_profile_identity_def
  by (intro keeps_rules backend_command.intros; simp)+

lemma promote_keeps [keeps_rules]:
  "keeps I (promote_pending_profile R u v)" "keeps I (rollback_promotion R u v)"
  unfolding promote_pending_profile_def promote_candidate_def rollback_promotion_def
  by (intro keeps_rules; simp)+

lemma create_keeps:
  "access_point_ok ap \<Longrightarrow> keeps I (create_pending_profile R ap)"
  unfolding create_pending_profile_def
  by (intro keeps_rules backend_command.intros) (auto simp: access_point_ok_def split: if_splits)

lemma activate_pending_keeps [keeps_rules]: "keeps I (activate_pending R u ap p)"
  unfolding activate_pending_def Let_def COMMAND_TIMEOUT_SECONDS_def
  by (intro keeps_rules run_keeps secret_keeps backend_command.intros)

lemma has_saved_station_keeps: "keeps I (has_saved_station R)"
  unfolding has_saved_station_def by (intro keeps_rules)

lemma activate_saved_station_keeps: "keeps I (activate_saved_station R)"
  unfolding activate_saved_station_def saved_profile_for_activation_def Let_def
    COMMAND_TIMEOUT_SECONDS_def
  by (intro keeps_rules backend_command.intros; simp)

lemma scan_keeps: "keeps I (scan R)"
  unfolding scan_def by (intro keeps_rules backend_command.intros)

lemma activate_provisioning_keeps: "keeps I (activate_provisioning R)"
  unfolding activate_provisioning_def
  by (intro keeps_rules run_keeps backend_command.intros)

lemma active_station_ssid_keeps: "keeps I (active_station_ssid R)"
  unfolding active_station_ssid_def by (intro keeps_rules)

lemma provisioning_ready_keeps: "keeps I (provisioning_ready R)"
  unfolding provisioning_ready_def by (intro keeps_rules run_keeps backend_command.intros)

lemma connect_candidate_keeps:
  "access_point_ok ap \<Longrightarrow> keeps I (connect_candidate R ap s p v)"
  unfolding connect_candidate_def establish_candidate_def by (intro keeps_rules create_keeps)

lemma connect_station_keeps: "keeps I (connect_station R name p)"
  unfolding connect_station_def
  apply (rule keeps_bind [OF keeps_liftR])
  apply (rule keeps_bind_result [OF scan_keeps])
  apply (intro keeps_rules connect_candidate_keeps)
  apply (auto simp: find_Some_iff intro: scan_result_ok)
  done

lemmas operations_keep = has_saved_station_keeps activate_saved_station_keeps
  connect_station_keeps activate_provisioning_keeps scan_keeps active_station_ssid_keeps
  provisioning_ready_keeps

end

section \<open>A runner that records what it runs\<close>

definition logging_runner ::
  "'w runner \<Rightarrow> ((pstr list \<times> int) list \<times> 'w) runner" where
  "logging_runner R =
     \<lparr>ucd_upper = ucd_upper R, ucd_casefold = ucd_casefold R, ucd_decimal = ucd_decimal R,
      run = (\<lambda>c t (log, w). case run R c t w of (r, w') \<Rightarrow> (r, log @ [(c, t)], w')),
      run_with_secret = (\<lambda>c p t (log, w).
        case run_with_secret R c p t w of (r, w') \<Rightarrow> (r, log @ [(c, t)], w'))\<rparr>"

definition log_within_policy :: "(pstr list \<times> int) list \<times> 'w \<Rightarrow> bool" where
  "log_within_policy = (\<lambda>(log, w). \<forall>(c, t) \<in> set log. backend_command c t)"

interpretation logged: supervised_runner "logging_runner R" log_within_policy for R :: "'w runner"
  by unfold_locales
     (auto simp: keeps_def logging_runner_def log_within_policy_def split: prod.splits)

section \<open>Exceptions\<close>

lemma raises_bind_result:
  assumes "raises_only E m" "\<And>x w w'. m w = (Inr x, w') \<Longrightarrow> raises_only E (f x)"
  shows "raises_only E (bindE m f)"
  using assms unfolding raises_only_def by (blast elim: bindE_eqD)

text \<open>
  A runner that fails only in the ways its callers handle. The assertion of
  \<^verbatim>\<open>_activate_pending\<close> cannot fail: a secured network without a password was refused before.
\<close>

locale operational_runner =
  fixes R :: "'w runner"
  assumes run_raises: "raises_only is_operational (run R c t)"
    and secret_raises: "raises_only is_operational (run_with_secret R c p t)"
begin

lemma nmcli_raises [raises_rules]: "raises_only is_operational (nmcli R a w t)"
  by (simp add: nmcli_def run_raises)

lemmas basic_raises = run_raises secret_raises

lemma single_raises [raises_rules]:
  "raises_only is_operational (enable_wifi R)" "raises_only is_operational (stop_dhcp R)"
  "raises_only is_operational (active_connection R)"
  "raises_only is_operational (delete_profile R n)"
  "raises_only is_operational (delete_profile_uuid R u)"
  "raises_only is_operational (profile_uuid_of R i)"
  "raises_only is_operational (saved_ssid R v)"
  "raises_only is_operational (profile_has_identity R u i)"
  "raises_only is_operational (set_profile_identity R u i)"
  "raises_only is_operational (create_pending_profile R ap)"
  unfolding enable_wifi_def stop_dhcp_def active_connection_def delete_profile_def
    delete_profile_uuid_def profile_uuid_of_def saved_ssid_def profile_has_identity_def
    profile_property_def set_profile_identity_def create_pending_profile_def Let_def
  by (intro raises_rules basic_raises)+

lemma promote_raises [raises_rules]:
  "raises_only is_operational (promote_pending_profile R u v)"
  "raises_only is_operational (rollback_promotion R u v)"
  unfolding promote_pending_profile_def promote_candidate_def rollback_promotion_def
  by (intro raises_rules)+

lemma activate_pending_raises:
  "credential_error (ap_security ap) p = None \<Longrightarrow> raises_only is_operational (activate_pending R u ap p)"
  unfolding activate_pending_def Let_def
  by (intro raises_rules basic_raises) (auto simp: credential_error_def split: if_splits)

lemma scan_raises [raises_rules]: "raises_only is_operational (scan R)"
  unfolding scan_def by (intro raises_rules) simp_all

lemma connect_candidate_raises:
  "credential_error (ap_security ap) p = None \<Longrightarrow>
     raises_only is_operational (connect_candidate R ap s p v)"
  unfolding connect_candidate_def establish_candidate_def by (intro raises_rules activate_pending_raises)

lemma connect_station_raises: "raises_only is_operational (connect_station R name p)"
  unfolding connect_station_def
  by (intro raises_rules connect_candidate_raises)
     (auto simp: is_operational_def dest: validate_ssid_str_error)

lemma operations_raise:
  "raises_only is_operational (has_saved_station R)"
  "raises_only is_operational (activate_saved_station R)"
  "raises_only is_operational (activate_provisioning R)"
  "raises_only is_operational (active_station_ssid R)"
  "raises_only is_operational (provisioning_ready R)"
  unfolding has_saved_station_def activate_saved_station_def activate_provisioning_def
    active_station_ssid_def provisioning_ready_def saved_profile_for_activation_def Let_def
  by (intro raises_rules basic_raises)+

end

text \<open>
  The subprocess runner is such a runner when the system calls fail only with the exceptions
  the operating system interface documents: OSError, or an error of decoding the output.
\<close>

lemma raises_finally:
  "raises_only E m \<Longrightarrow> raises_only E f \<Longrightarrow> raises_only E (finallyE m f)"
  by (auto simp: raises_only_def finallyE_def split: prod.splits sum.splits) blast

definition os_fails_cleanly :: "'w os \<Rightarrow> bool" where
  "os_fails_cleanly OS \<longleftrightarrow>
     raises_only is_os_error (memfd_create OS) \<and> (\<forall>d b. raises_only is_os_error (os_write OS d b)) \<and>
     (\<forall>d. raises_only is_os_error (os_lseek_start OS d)) \<and> (\<forall>d. raises_only is_os_error (os_close OS d)) \<and>
     (\<forall>c t fds. raises_only (\<lambda>e. is_os_error e \<or> e = UnicodeDecodeError) (subprocess_run OS c t fds))"

lemma raises_only_mono: "raises_only E m \<Longrightarrow> (\<And>e. E e \<Longrightarrow> F e) \<Longrightarrow> raises_only F m"
  by (auto simp: raises_only_def)

lemma os_operational:
  "raises_only is_os_error m \<Longrightarrow> raises_only is_operational m"
  "raises_only (\<lambda>e. is_os_error e \<or> e = UnicodeDecodeError) m \<Longrightarrow> raises_only is_operational m"
  by (erule raises_only_mono; auto simp: is_operational_def)+

lemma raises_case_completion:
  "(\<And>rc out. raises_only E (f rc out)) \<Longrightarrow> raises_only E g \<Longrightarrow>
     raises_only E (case r of TimeoutExpired \<Rightarrow> g | Completed rc out \<Rightarrow> f rc out)"
  by (cases r) simp_all

lemma subprocess_runner_operational:
  assumes "os_fails_cleanly OS"
  shows "operational_runner (subprocess_runner U OS)"
proof -
  have clean: "raises_only is_operational (memfd_create OS)" "raises_only is_operational (os_write OS d b)"
    "raises_only is_operational (os_lseek_start OS d)" "raises_only is_operational (os_close OS d)"
    "raises_only is_operational (subprocess_run OS c t fds)" for d b c t fds
    using assms by (simp_all add: os_fails_cleanly_def os_operational)
  have run: "raises_only is_operational (subprocess_runner_run OS c t fds)" for c t fds
    unfolding subprocess_runner_run_def
    by (intro raises_rules raises_case_completion clean) simp
  have secret: "bindR (validate_password (JStr p)) (\<lambda>valid. utf8_encode (k @ valid @ [10])) = Inl e \<Longrightarrow> is_operational e" for p k e
    by (auto simp: bindR_Inl_iff is_operational_def dest: validate_password_str_error utf8_encode_error)
  show ?thesis
    by unfold_locales
       (auto simp: subprocess_runner_def subprocess_runner_run_with_secret_def run
         intro!: raises_finally raises_rules clean dest: secret)
qed

text \<open>
  A concrete operating system: it hands out descriptor 3, shows of the world the argument
  vectors that were run, and each program succeeds at once with the output \<open>out\<close>.
\<close>

definition recording_os :: "pstr \<Rightarrow> pstr list list os" where
  "recording_os out =
     \<lparr>memfd_create = returnE 3,
      os_write = (\<lambda>d b. returnE ()),
      os_lseek_start = (\<lambda>d. returnE ()),
      os_close = (\<lambda>d. returnE ()),
      subprocess_run = (\<lambda>c t fds argv. (Inr (Completed 0 out), argv @ [c]))\<rparr>"

lemma recording_os_clean: "os_fails_cleanly (recording_os out)"
  by (simp add: os_fails_cleanly_def recording_os_def raises_only_def returnE_def)

interpretation recorded: operational_runner "subprocess_runner U (recording_os out)" for U out
  by (rule subprocess_runner_operational [OF recording_os_clean])

section \<open>The password\<close>

lemma credential_error_password_ok:
  "password_ok p \<Longrightarrow> password_ok q \<Longrightarrow> credential_error s (Some p) = credential_error s (Some q)"
proof -
  assume "password_ok p" "password_ok q"
  then have "validate_password (JStr p) = Inr p" "validate_password (JStr q) = Inr q"
    by (simp_all add: validate_password_iff)
  then show ?thesis by (simp add: credential_error_def)
qed

lemma activate_pending_password:
  "(\<And>c t. run_with_secret R c p t = run_with_secret R c q t) \<Longrightarrow>
     activate_pending R u ap (Some p) = activate_pending R u ap (Some q)"
  by (simp add: activate_pending_def Let_def)

lemma connect_station_password:
  assumes "password_ok p" "password_ok q"
    and "\<And>c t. run_with_secret R c p t = run_with_secret R c q t"
  shows "connect_station R name (Some p) = connect_station R name (Some q)"
  unfolding connect_station_def connect_candidate_def establish_candidate_def
  by (simp add: credential_error_password_ok [OF assms(1,2)] activate_pending_password [OF assms(3)]
        cong: option.case_cong prod.case_cong if_cong)

text \<open>With a file content that the world does not show, the runner's system calls agree.\<close>

lemma utf8_secret:
  assumes "password_ok p"
  shows "\<exists>b. utf8_encode (lit ''802-11-wireless-security.psk:'' @ p @ [10]) = Inr b"
proof -
  have "\<forall>c \<in> set (lit ''802-11-wireless-security.psk:''). is_scalar c"
    by (simp add: lit_def is_surrogate_def is_scalar_def)
  with assms have "\<not> (\<exists>c \<in> set (lit ''802-11-wireless-security.psk:'' @ p @ [10]). \<not> is_scalar c)"
    by (auto simp: password_ok_def is_surrogate_def is_scalar_def)
  then show ?thesis by (simp add: utf8_encode_def)
qed

lemma subprocess_runner_password:
  assumes "password_ok p" "password_ok q" "\<And>d b b'. os_write OS d b = os_write OS d b'"
  shows "subprocess_runner_run_with_secret OS c p t = subprocess_runner_run_with_secret OS c q t"
proof -
  from utf8_secret [OF assms(1)] utf8_secret [OF assms(2)] obtain b b' where
    "bindR (validate_password (JStr p)) (\<lambda>v. utf8_encode (lit ''802-11-wireless-security.psk:'' @ v @ [10])) = Inr b"
    "bindR (validate_password (JStr q)) (\<lambda>v. utf8_encode (lit ''802-11-wireless-security.psk:'' @ v @ [10])) = Inr b'"
    using assms(1,2) by (auto simp: validate_password_iff [THEN iffD2])
  moreover have "os_write OS d b = os_write OS d b'" for d by (rule assms(3))
  ultimately show ?thesis
    by (simp add: subprocess_runner_run_with_secret_def)
qed

end
