(* ===== verification/Profiles.thy ===== *)
theory Profiles
  imports Backend_Commands
begin

text \<open>
  The life of the saved network profile. The locale \<open>nm_runner\<close> states what the backend
  relies on of NetworkManager: how each command may change the table of connection profiles,
  whether it reports success, failure, or does not return. In it: a successful attempt leaves
  exactly one profile under the saved name, and an attempt keeps the saved network unless a deletion
  takes effect and is reported as failed.
\<close>

record profile =
  prof_id :: pstr
  prof_autoconnect :: pstr
  prof_ssid :: pstr

type_synonym profile_table = "pstr \<rightharpoonup> profile"

definition rename_profile :: "pstr \<Rightarrow> pstr \<Rightarrow> profile_table \<Rightarrow> profile_table" where
  "rename_profile u i t =
     t(u := map_option (\<lambda>p. p\<lparr>prof_id := i, prof_autoconnect := lit ''no''\<rparr>) (t u))"

text \<open>The listing \<^verbatim>\<open>UUID:NAME\<close> of the profiles, one line each.\<close>

definition profile_listing :: "(pstr \<times> pstr) list \<Rightarrow> pstr" where
  "profile_listing l = concat (map (\<lambda>(u, n). (u @ 58 # n) @ [10]) l)"

definition listing_ok :: "'a ucd_scheme \<Rightarrow> profile_table \<Rightarrow> (pstr \<times> pstr) list \<Rightarrow> bool" where
  "listing_ok U t l \<longleftrightarrow>
     distinct (map fst l) \<and> (\<forall>u. map_of l u = map_option prof_id (t u)) \<and>
     (\<forall>(u, n) \<in> set l. canonical_uuid U u = Inr u \<and> 58 \<notin> set u \<and>
        (\<forall>c \<in> set u \<union> set n. \<not> is_linebreak c))"

text \<open>The commands that only look at, or act outside of, the profile table.\<close>

definition neutral_command :: "pstr list \<Rightarrow> bool" where
  "neutral_command c \<longleftrightarrow>
     c \<in> {systemctl_start_dhcp, systemctl_stop_dhcp, systemctl_dhcp_active,
          nmcli_command args_radio_on 5, nmcli_command args_scan 12,
          nmcli_command args_list_profiles 2, nmcli_command args_active_connection 2,
          nmcli_command args_up_provisioning 20} \<or>
     (\<exists>u. c = nmcli_command (args_up_uuid u) 30) \<or>
     (\<exists>u. c = nmcli_command (args_saved_ssid u) 2) \<or>
     (\<exists>u. \<exists>p \<in> {lit ''connection.id'', lit ''connection.autoconnect''}. c = nmcli_command (args_property u p) 2) \<or>
     (\<exists>k \<in> {lit ''sae'', lit ''wpa-psk''}. c = nmcli_command (args_secure_pending k) 5)"

lemma neutral_commandI [simp]:
  "neutral_command systemctl_start_dhcp" "neutral_command systemctl_stop_dhcp"
  "neutral_command systemctl_dhcp_active" "neutral_command (nmcli_command args_radio_on 5)"
  "neutral_command (nmcli_command args_scan 12)" "neutral_command (nmcli_command args_list_profiles 2)"
  "neutral_command (nmcli_command args_active_connection 2)"
  "neutral_command (nmcli_command args_up_provisioning 20)"
  "neutral_command (nmcli_command (args_up_uuid u) 30)"
  "neutral_command (nmcli_command (args_saved_ssid v) 2)"
  "neutral_command (nmcli_command (args_property u (lit ''connection.id'')) 2)"
  "neutral_command (nmcli_command (args_property u (lit ''connection.autoconnect'')) 2)"
  "k \<in> {lit ''sae'', lit ''wpa-psk''} \<Longrightarrow> neutral_command (nmcli_command (args_secure_pending k) 5)"
  unfolding neutral_command_def by blast+

section \<open>Reading the listing\<close>

lemma matching_uuids_lines:
  assumes "\<forall>(u, n) \<in> set l. canonical_uuid U u = Inr u \<and> 58 \<notin> set u"
  shows "matching_uuids U i (map (\<lambda>(u, n). u @ 58 # n) l) =
           Some (map fst (filter (\<lambda>(u, n). n = i) l))"
  using assms by (induction l) (auto simp: partition_field)

lemma parse_profile_list_listing:
  assumes "listing_ok U t l"
  shows "parse_profile_list U i (profile_listing l) =
    (let us = map fst (filter (\<lambda>(u, n). n = i) l) in
     if length us > 1 then (False, None) else (True, case us of [] \<Rightarrow> None | u # _ \<Rightarrow> Some u))"
proof -
  have "py_splitlines (profile_listing l) = map (\<lambda>(u, n). u @ 58 # n) l"
  proof -
    have "profile_listing l = concat (map (\<lambda>l. l @ [10]) (map (\<lambda>(u, n). u @ 58 # n) l))"
      by (induction l) (auto simp: profile_listing_def)
    moreover have "\<forall>s \<in> set (map (\<lambda>(u, n). u @ 58 # n) l). \<forall>c \<in> set s. \<not> is_linebreak c"
      using assms by (auto simp: listing_ok_def is_linebreak_def)
    ultimately show ?thesis by (simp only: splitlines_unlines)
  qed
  moreover have "matching_uuids U i (map (\<lambda>(u, n). u @ 58 # n) l) =
      Some (map fst (filter (\<lambda>(u, n). n = i) l))"
    using assms by (intro matching_uuids_lines) (auto simp: listing_ok_def)
  ultimately show ?thesis by (simp add: parse_profile_list_def Let_def)
qed

lemma listing_mem:
  assumes "listing_ok U t l"
  shows "(u, i) \<in> set l \<longleftrightarrow> (\<exists>p. t u = Some p \<and> prof_id p = i)"
proof -
  from assms have "distinct (map fst l)" by (simp add: listing_ok_def)
  then have "(u, i) \<in> set l \<longleftrightarrow> map_of l u = Some i" by simp
  also from assms have "\<dots> \<longleftrightarrow> map_option prof_id (t u) = Some i"
    by (simp add: listing_ok_def)
  finally show ?thesis by simp
qed

lemma parse_profile_list_found:
  assumes ok: "listing_ok U t l" and found: "parse_profile_list U i (profile_listing l) = (True, Some u)"
  shows "\<exists>p. t u = Some p \<and> prof_id p = i" and "t v = Some q \<Longrightarrow> prof_id q = i \<Longrightarrow> v = u"
proof -
  from found parse_profile_list_listing [OF ok, of i]
  have one: "map fst (filter (\<lambda>(u, n). n = i) l) = [u]"
    by (auto simp: Let_def length_Suc_conv split: if_splits list.splits)
  then have mem: "x \<in> fst ` set (filter (\<lambda>(u, n). n = i) l) \<longleftrightarrow> x = u" for x
    by (metis empty_set insert_iff list.set(2) list.set_map singletonD)
  have "(u, i) \<in> set l" using mem [of u] by auto
  with ok show "\<exists>p. t u = Some p \<and> prof_id p = i" by (simp add: listing_mem)
  show "t v = Some q \<Longrightarrow> prof_id q = i \<Longrightarrow> v = u"
    using mem [of v] ok listing_mem [OF ok, of v i] by force
qed

lemma parse_profile_list_absent:
  assumes ok: "listing_ok U t l" and none: "parse_profile_list U i (profile_listing l) = (True, None)"
    and "t u = Some p"
  shows "prof_id p \<noteq> i"
proof
  assume "prof_id p = i"
  with assms(3) ok have "(u, i) \<in> set l" by (simp add: listing_mem)
  then have "map fst (filter (\<lambda>(u, n). n = i) l) \<noteq> []" by (auto simp: filter_empty_conv)
  with none parse_profile_list_listing [OF ok, of i] show False
    by (auto simp: Let_def split: if_splits list.splits)
qed

text \<open>
  What can be said of a table: the profiles that carry a name (\<open>sole\<close>, \<open>only\<close>), that one
  profile has an identity and does not connect by itself, that it alone is the saved network,
  and that a saved network, or its backup, can still be activated.
\<close>

definition sole :: "pstr option \<Rightarrow> pstr \<Rightarrow> profile_table \<Rightarrow> bool" where
  "sole v i t \<longleftrightarrow> (\<forall>u. (\<exists>p. t u = Some p \<and> prof_id p = i) \<longleftrightarrow> v = Some u)"

definition only :: "pstr set \<Rightarrow> pstr \<Rightarrow> profile_table \<Rightarrow> bool" where
  "only V i t \<longleftrightarrow> (\<forall>u p. t u = Some p \<and> prof_id p = i \<longrightarrow> u \<in> V)"

definition verified :: "pstr \<Rightarrow> pstr \<Rightarrow> profile_table \<Rightarrow> bool" where
  "verified u i t \<longleftrightarrow> (\<exists>p. t u = Some p \<and> prof_id p = i \<and> prof_autoconnect p = lit ''no'')"

definition uniquely_saved :: "pstr \<Rightarrow> profile_table \<Rightarrow> bool" where
  "uniquely_saved u t \<longleftrightarrow> only {u} SAVED_PROFILE t \<and> verified u SAVED_PROFILE t"

definition kept :: "pstr \<Rightarrow> profile_table \<Rightarrow> bool" where
  "kept u t \<longleftrightarrow> (\<exists>p. t u = Some p \<and> prof_id p \<in> {SAVED_PROFILE, PREVIOUS_PROFILE})"

definition saved_available :: "profile_table \<Rightarrow> bool" where
  "saved_available t \<longleftrightarrow> (\<exists>u. kept u t)"

lemma sole_submap:
  assumes "t' \<subseteq>\<^sub>m t" "\<forall>u p. t u = Some p \<and> prof_id p \<noteq> PENDING_PROFILE \<longrightarrow> t' u = Some p"
    and sole: "sole v i t" and i: "i \<noteq> PENDING_PROFILE"
  shows "sole v i t'"
proof -
  have "(\<exists>p. t' u = Some p \<and> prof_id p = i) \<longleftrightarrow> (\<exists>p. t u = Some p \<and> prof_id p = i)" for u
  proof
    assume "\<exists>p. t' u = Some p \<and> prof_id p = i"
    then obtain p where "t' u = Some p" "prof_id p = i" by blast
    with assms(1) have "t u = Some p" by (auto simp: map_le_def dom_def)
    with \<open>prof_id p = i\<close> show "\<exists>p. t u = Some p \<and> prof_id p = i" by blast
  next
    assume "\<exists>p. t u = Some p \<and> prof_id p = i"
    with assms(2) i show "\<exists>p. t' u = Some p \<and> prof_id p = i" by blast
  qed
  with sole show ?thesis by (simp add: sole_def)
qed

lemma sole_add:
  assumes "sole v i t" "t u = None" "prof_id p \<noteq> i"
  shows "sole v i (t(u \<mapsto> p))"
proof -
  have "v \<noteq> Some u" using assms(1,2) unfolding sole_def by (metis option.distinct(1))
  with assms show ?thesis by (auto simp: sole_def)
qed

lemma sole_distinct: "sole (Some u) i t \<Longrightarrow> sole v j t \<Longrightarrow> i \<noteq> j \<Longrightarrow> v \<noteq> Some u"
  unfolding sole_def by (metis option.inject)

lemma kept_submap:
  "\<forall>u p. t u = Some p \<and> prof_id p \<noteq> PENDING_PROFILE \<longrightarrow> t' u = Some p \<Longrightarrow> kept u t \<Longrightarrow> kept u t'"
  unfolding kept_def by (metis insert_iff profile_names_distinct singletonD)

section \<open>What the backend relies on of NetworkManager\<close>

text \<open>
  \<open>profiles\<close> reads the table off the world, \<open>invar\<close> holds of every world of the run, and
  \<open>fresh\<close> says that the next profile to be added gets an unused UUID. The laws hold for every
  outcome of a command, an exception included: a change that is reported as failed may have
  been made, and a reported success of a rename promises nothing, which is why the backend
  reads the identity back.
\<close>

locale nm_runner =
  fixes R :: "'w runner" and profiles :: "'w \<Rightarrow> profile_table"
    and invar :: "'w \<Rightarrow> bool" and fresh :: "'w \<Rightarrow> bool"
  assumes neutral:
      "invar w \<Longrightarrow> neutral_command c \<Longrightarrow> run R c t w = (r, w') \<Longrightarrow>
         invar w' \<and> profiles w' = profiles w \<and> (fresh w \<longrightarrow> fresh w')"
    and secret:
      "invar w \<Longrightarrow> neutral_command c \<Longrightarrow> run_with_secret R c p t w = (r, w') \<Longrightarrow>
         invar w' \<and> profiles w' = profiles w"
    and set_identity:
      "invar w \<Longrightarrow> i \<in> {SAVED_PROFILE, PENDING_PROFILE, PREVIOUS_PROFILE} \<Longrightarrow>
         run R (nmcli_command (args_set_identity u i) 5) t w = (r, w') \<Longrightarrow>
         invar w' \<and> (profiles w' = profiles w \<or> profiles w' = rename_profile u i (profiles w))"
    and delete_uuid:
      "invar w \<Longrightarrow> run R (nmcli_command (args_delete_uuid u) 5) t w = (r, w') \<Longrightarrow>
         invar w' \<and> (profiles w' = profiles w \<or> profiles w' = (profiles w)(u := None)) \<and>
         (\<forall>res. r = Inr res \<and> returncode res = 0 \<longrightarrow> profiles w' u = None)"
    and delete_pending:
      "invar w \<Longrightarrow> run R (nmcli_command (args_delete_id PENDING_PROFILE) 5) t w = (r, w') \<Longrightarrow>
         invar w' \<and> profiles w' \<subseteq>\<^sub>m profiles w \<and> (fresh w \<longrightarrow> fresh w') \<and>
         (\<forall>u p. profiles w u = Some p \<and> prof_id p \<noteq> PENDING_PROFILE \<longrightarrow> profiles w' u = Some p)"
    and add_pending:
      "invar w \<Longrightarrow> fresh w \<Longrightarrow> run R (nmcli_command (args_add_pending s) 5) t w = (r, w') \<Longrightarrow>
         invar w' \<and> (profiles w' = profiles w \<or>
           (\<exists>u p. profiles w u = None \<and> prof_id p = PENDING_PROFILE \<and> profiles w' = (profiles w)(u \<mapsto> p)))"
    and listing:
      "invar w \<Longrightarrow> run R (nmcli_command args_list_profiles 2) t w = (Inr res, w') \<Longrightarrow>
         returncode res = 0 \<Longrightarrow> \<exists>l. stdout res = profile_listing l \<and> listing_ok R (profiles w) l"
    and identity:
      "invar w \<Longrightarrow> run R (nmcli_command (args_property u (lit ''connection.id'')) 2) t w = (Inr res, w') \<Longrightarrow>
         returncode res = 0 \<Longrightarrow> \<exists>p. profiles w u = Some p \<and> py_strip (stdout res) = prof_id p"
    and autoconnect:
      "invar w \<Longrightarrow> run R (nmcli_command (args_property u (lit ''connection.autoconnect'')) 2) t w = (Inr res, w') \<Longrightarrow>
         returncode res = 0 \<Longrightarrow> \<exists>p. profiles w u = Some p \<and> py_strip (stdout res) = prof_autoconnect p"
begin

subsection \<open>Looking up a profile\<close>

lemma nmcli_neutral:
  "invar w \<Longrightarrow> neutral_command (nmcli_command a n) \<Longrightarrow> nmcli R a n t w = (r, w') \<Longrightarrow>
     invar w' \<and> profiles w' = profiles w \<and> (fresh w \<longrightarrow> fresh w')"
  by (simp add: nmcli_def neutral)

definition quiet :: "('w, 'b) io \<Rightarrow> bool" where
  "quiet m \<longleftrightarrow> (\<forall>w r w'. invar w \<longrightarrow> m w = (r, w') \<longrightarrow>
     invar w' \<and> profiles w' = profiles w \<and> (fresh w \<longrightarrow> fresh w'))"

lemma quietD:
  "quiet m \<Longrightarrow> invar w \<Longrightarrow> m w = (r, w') \<Longrightarrow> invar w' \<and> profiles w' = profiles w \<and> (fresh w \<longrightarrow> fresh w')"
  unfolding quiet_def by blast

lemma quiet_rules:
  "neutral_command c \<Longrightarrow> quiet (run R c t)"
  "neutral_command (nmcli_command a n) \<Longrightarrow> quiet (nmcli R a n t)"
  "quiet (returnE x)" "quiet (raiseE e)"
  unfolding quiet_def by (auto simp: returnE_def raiseE_def dest: neutral nmcli_neutral)

lemma quiet_bind: "quiet m \<Longrightarrow> (\<And>x. quiet (f x)) \<Longrightarrow> quiet (bindE m f)"
  unfolding quiet_def by (metis bindE_eqD)

lemma quiet_if: "quiet m \<Longrightarrow> quiet m' \<Longrightarrow> quiet (if b then m else m')"
  by simp

lemma quiet_operations:
  "quiet (enable_wifi R)" "quiet (stop_dhcp R)" "quiet (scan R)" "quiet (profile_uuid_of R i)"
  unfolding enable_wifi_def stop_dhcp_def scan_def profile_uuid_of_def
  by (intro quiet_rules quiet_bind quiet_if; simp)+

lemma quiet_identity: "quiet (profile_has_identity R u i)"
  unfolding profile_has_identity_def profile_property_def
  by (intro quiet_rules quiet_bind quiet_if; simp)

lemma profile_uuid_of_listing:
  assumes "invar w" "profile_uuid_of R i w = (Inr (True, v), w')"
  shows "\<exists>l. listing_ok R (profiles w) l \<and> parse_profile_list R i (profile_listing l) = (True, v)"
  using assms
  by (auto simp: profile_uuid_of_def nmcli_def bindE_Inr_iff returnE_def split: if_splits dest!: listing)

lemma profile_uuid_of_found:
  assumes "invar w" "profile_uuid_of R i w = (Inr (True, Some u), w')"
  shows "\<exists>p. profiles w u = Some p \<and> prof_id p = i"
    and "profiles w v = Some q \<Longrightarrow> prof_id q = i \<Longrightarrow> v = u"
  using profile_uuid_of_listing [OF assms] parse_profile_list_found by blast+

lemma profile_uuid_of_absent:
  assumes "invar w" "profile_uuid_of R i w = (Inr (True, None), w')" "profiles w v = Some q"
  shows "prof_id q \<noteq> i"
  using profile_uuid_of_listing [OF assms(1,2)] parse_profile_list_absent assms(3) by blast

lemma has_identity_sound:
  assumes "invar w" "profile_has_identity R u i w = (Inr True, w')"
  shows "\<exists>p. profiles w u = Some p \<and> prof_id p = i \<and> prof_autoconnect p = lit ''no''"
proof -
  from assms(2) obtain r1 w1 r2 w2 where
    one: "run R (nmcli_command (args_property u (lit ''connection.id'')) 2) 3 w = (Inr r1, w1)"
      "returncode r1 = 0" "py_strip (stdout r1) = i" and
    two: "run R (nmcli_command (args_property u (lit ''connection.autoconnect'')) 2) 3 w1 = (Inr r2, w2)"
      "returncode r2 = 0" "py_strip (stdout r2) = lit ''no''"
    by (auto simp: profile_has_identity_def profile_property_def nmcli_def bindE_Inr_iff returnE_def
        split: if_splits)
  from neutral [OF assms(1) _ one(1)] have "invar w1" "profiles w1 = profiles w" by simp_all
  with identity [OF assms(1) one(1,2)] autoconnect [OF _ two(1,2)] one two show ?thesis by auto
qed

subsection \<open>Triples over the table\<close>

definition on :: "(profile_table \<Rightarrow> bool) \<Rightarrow> 'w \<Rightarrow> bool" where
  "on Q w \<longleftrightarrow> invar w \<and> Q (profiles w)"

lemma quiet_hoare: "quiet m \<Longrightarrow> (\<And>t. Q t \<Longrightarrow> S t) \<Longrightarrow> hoare (on Q) m (\<lambda>_. on S) (on S)"
  by (rule hoareI) (auto simp: on_def dest: quietD)

lemma on_commandI:
  "(\<And>w r w'. invar w \<Longrightarrow> Q (profiles w) \<Longrightarrow> m w = (r, w') \<Longrightarrow> invar w' \<and> S (profiles w')) \<Longrightarrow>
     hoare (on Q) m (\<lambda>_. on S) (on S)"
  by (rule hoareI) (auto simp: on_def)

lemma set_identity_hoare:
  assumes "i \<in> {SAVED_PROFILE, PENDING_PROFILE, PREVIOUS_PROFILE}"
    and S: "\<And>t. Q t \<Longrightarrow> S t \<and> S (rename_profile u i t)"
  shows "hoare (on Q) (set_profile_identity R u i) (\<lambda>_. on S) (on S)"
proof -
  have "hoare (on Q) (run R (nmcli_command (args_set_identity u i) 5) 8) (\<lambda>_. on S) (on S)"
    by (rule on_commandI, drule (1) set_identity [OF _ assms(1)]) (metis S)
  then show ?thesis
    unfolding set_profile_identity_def nmcli_def by (rule hoare_bind) (rule hoare_return)
qed

lemma delete_uuid_hoare:
  assumes S: "\<And>t. Q t \<Longrightarrow> S t \<and> S (t(u := None))"
  shows "hoare (on Q) (delete_profile_uuid R u) (\<lambda>_. on S) (on S)"
proof -
  have "hoare (on Q) (run R (nmcli_command (args_delete_uuid u) 5) 8) (\<lambda>_. on S) (on S)"
    by (rule on_commandI, drule (1) delete_uuid) (metis S)
  then show ?thesis
    unfolding delete_profile_uuid_def nmcli_def by (rule hoare_bind) (rule hoare_return)
qed

lemma delete_pending_hoare:
  assumes S: "\<And>t t'. Q t \<Longrightarrow> t' \<subseteq>\<^sub>m t \<Longrightarrow>
      \<forall>u p. t u = Some p \<and> prof_id p \<noteq> PENDING_PROFILE \<longrightarrow> t' u = Some p \<Longrightarrow> S t'"
  shows "hoare (\<lambda>w. on Q w \<and> (F \<longrightarrow> fresh w)) (delete_profile R PENDING_PROFILE)
           (\<lambda>_ w. on S w \<and> (F \<longrightarrow> fresh w)) (on S)"
proof -
  have "invar w' \<and> S (profiles w') \<and> (fresh w \<longrightarrow> fresh w')"
    if "on Q w" "run R (nmcli_command (args_delete_id PENDING_PROFILE) 5) 8 w = (r, w')" for w r w'
    using that delete_pending [of w 8 r w'] S [of "profiles w" "profiles w'"] by (simp add: on_def)
  then have "hoare (\<lambda>w. on Q w \<and> (F \<longrightarrow> fresh w)) (run R (nmcli_command (args_delete_id PENDING_PROFILE) 5) 8)
           (\<lambda>_ w. on S w \<and> (F \<longrightarrow> fresh w)) (on S)"
    by (intro hoareI) (auto simp: on_def)
  then show ?thesis
    unfolding delete_profile_def nmcli_def by (rule hoare_bind) (rule hoare_return)
qed

lemma create_pending_hoare:
  assumes "\<And>t. Q t \<Longrightarrow> S t"
    and "\<And>t u p. Q t \<Longrightarrow> t u = None \<Longrightarrow> prof_id p = PENDING_PROFILE \<Longrightarrow> S (t(u \<mapsto> p))"
    and "access_point_ok ap"
  shows "hoare (\<lambda>w. on Q w \<and> fresh w) (create_pending_profile R ap) (\<lambda>_. on S) (on S)"
proof -
  have "hoare (\<lambda>w. on Q w \<and> fresh w) (nmcli R (args_add_pending (ap_ssid ap)) 5 8) (\<lambda>_. on S) (on S)"
    unfolding nmcli_def
  proof (rule hoareI)
    show "on S w'" if "on Q w \<and> fresh w" "run R (nmcli_command (args_add_pending (ap_ssid ap)) 5) 8 w = (Inl e, w')" for w e w'
      using that add_pending [of w "ap_ssid ap" 8 "Inl e" w'] assms(1,2) by (auto simp: on_def)
    show "on S w'" if "on Q w \<and> fresh w" "run R (nmcli_command (args_add_pending (ap_ssid ap)) 5) 8 w = (Inr x, w')" for w x w'
      using that add_pending [of w "ap_ssid ap" 8 "Inr x" w'] assms(1,2) by (auto simp: on_def)
  qed
  moreover have "hoare (on S) (nmcli R (args_secure_pending k) 5 8) (\<lambda>_. on S) (on S)"
    if "k \<in> {lit ''sae'', lit ''wpa-psk''}" for k
    using that by (intro quiet_hoare quiet_rules) simp_all
  ultimately show ?thesis
    unfolding create_pending_profile_def using assms(3)
    by (intro hoare_bind hoare_if hoare_case_option hoare_return)
       (auto simp: access_point_ok_def split: if_splits)
qed

lemma lookup_hoare:
  "hoare (on Q) (profile_uuid_of R i)
     (\<lambda>(ok, v). on (\<lambda>t. Q t \<and> (ok \<longrightarrow> sole v i t))) (on Q)"
proof (rule hoareI)
  fix w e w' assume w: "on Q w" and run: "profile_uuid_of R i w = (Inl e, w')"
  from quietD [OF quiet_operations(4) _ run] w show "on Q w'" by (simp add: on_def)
next
  fix w x w' assume w: "on Q w" and run: "profile_uuid_of R i w = (Inr x, w')"
  obtain ok v where x: "x = (ok, v)" by fastforce
  from w have I: "invar w" by (simp add: on_def)
  from quietD [OF quiet_operations(4) I run] have same: "invar w'" "profiles w' = profiles w" by auto
  have "sole v i (profiles w)" if ok
  proof (cases v)
    case None
    with run x that have "profile_uuid_of R i w = (Inr (True, None), w')" by simp
    from profile_uuid_of_absent [OF I this] show ?thesis by (auto simp: sole_def None)
  next
    case (Some u)
    with run x that have "profile_uuid_of R i w = (Inr (True, Some u), w')" by simp
    from profile_uuid_of_found [OF I this] show ?thesis by (auto simp: sole_def Some)
  qed
  with w same x show "(case x of (ok, v) \<Rightarrow> on (\<lambda>t. Q t \<and> (ok \<longrightarrow> sole v i t))) w'"
    by (simp add: on_def)
qed

lemma identity_hoare:
  "hoare (on Q) (profile_has_identity R u i) (\<lambda>b. on (\<lambda>t. Q t \<and> (b \<longrightarrow> verified u i t))) (on Q)"
proof (rule hoareI)
  fix w e w' assume "on Q w" "profile_has_identity R u i w = (Inl e, w')"
  with quietD [OF quiet_identity] show "on Q w'" by (auto simp: on_def)
next
  fix w b w' assume w: "on Q w" and run: "profile_has_identity R u i w = (Inr b, w')"
  from w have I: "invar w" by (simp add: on_def)
  from quietD [OF quiet_identity I run] w has_identity_sound [OF I, of u i w'] run
  show "on (\<lambda>t. Q t \<and> (b \<longrightarrow> verified u i t)) w'" by (auto simp: on_def verified_def)
qed

subsection \<open>A successful connection leaves one saved profile\<close>

lemma hoare_on_mono:
  "hoare (on Q) m S E \<Longrightarrow> (\<And>t. P t \<Longrightarrow> Q t) \<Longrightarrow> hoare (on P) m S E"
  by (erule hoare_weaken) (auto simp: on_def)

lemma promote_candidate_unique:
  assumes "previous \<noteq> Some pending"
  shows "hoare (on (only {} SAVED_PROFILE)) (promote_candidate R pending previous)
           (\<lambda>b. on (\<lambda>t. b \<longrightarrow> uniquely_saved pending t)) (on (\<lambda>_. True))"
  unfolding promote_candidate_def
proof (intro hoare_bind hoare_if hoare_case_option)
  show "hoare (on (only {} SAVED_PROFILE)) (set_profile_identity R pending SAVED_PROFILE)
      (\<lambda>_. on (only {pending} SAVED_PROFILE)) (on (\<lambda>_. True))"
    by (rule hoare_weaken [OF set_identity_hoare
        [where Q = "only {} SAVED_PROFILE" and S = "only {pending} SAVED_PROFILE"]])
       (auto simp: only_def rename_profile_def on_def split: if_splits)
  show "hoare (on (only {pending} SAVED_PROFILE)) (profile_has_identity R pending SAVED_PROFILE)
      (\<lambda>b. on (\<lambda>t. b \<longrightarrow> uniquely_saved pending t)) (on (\<lambda>_. True))"
    by (rule hoare_weaken [OF identity_hoare [where Q = "only {pending} SAVED_PROFILE"]])
       (auto simp: on_def uniquely_saved_def)
  show "hoare (on (\<lambda>t. x \<longrightarrow> uniquely_saved pending t)) (delete_profile_uuid R old)
      (\<lambda>b. on (\<lambda>t. b \<longrightarrow> uniquely_saved pending t)) (on (\<lambda>_. True))"
    if "\<not> \<not> x" "previous = Some old" for x old
    by (rule hoare_weaken [OF delete_uuid_hoare
        [where Q = "uniquely_saved pending" and S = "uniquely_saved pending"]])
       (use that assms in \<open>auto simp: on_def uniquely_saved_def only_def verified_def split: if_splits\<close>)
qed (rule hoare_return; simp add: on_def)+

lemma promote_unique:
  assumes "previous \<noteq> Some pending"
  shows "hoare (on (sole previous SAVED_PROFILE)) (promote_pending_profile R pending previous)
           (\<lambda>b. on (\<lambda>t. b \<longrightarrow> uniquely_saved pending t)) (on (\<lambda>_. True))"
  unfolding promote_pending_profile_def
proof (intro hoare_bind hoare_if hoare_case_option)
  show "hoare (on (sole previous SAVED_PROFILE)) (promote_candidate R pending previous)
      (\<lambda>b. on (\<lambda>t. b \<longrightarrow> uniquely_saved pending t)) (on (\<lambda>_. True))" if "previous = None"
    by (rule hoare_on_mono [OF promote_candidate_unique [OF assms]]) (auto simp: sole_def only_def that)
  fix old assume old: "previous = Some old"
  show "hoare (on (sole previous SAVED_PROFILE)) (set_profile_identity R old PREVIOUS_PROFILE)
      (\<lambda>_. on (only {old} SAVED_PROFILE)) (on (\<lambda>_. True))"
    by (rule hoare_weaken [OF set_identity_hoare
        [where Q = "sole previous SAVED_PROFILE" and S = "only {old} SAVED_PROFILE"]])
       (auto simp: sole_def only_def rename_profile_def on_def old split: if_splits)
  show "hoare (on (only {old} SAVED_PROFILE)) (profile_has_identity R old PREVIOUS_PROFILE)
      (\<lambda>b. on (\<lambda>t. b \<longrightarrow> only {} SAVED_PROFILE t)) (on (\<lambda>_. True))"
    by (rule hoare_weaken [OF identity_hoare [where Q = "only {old} SAVED_PROFILE"]])
       (auto simp: on_def only_def verified_def)
  show "hoare (on (\<lambda>t. x \<longrightarrow> only {} SAVED_PROFILE t)) (promote_candidate R pending previous)
      (\<lambda>b. on (\<lambda>t. b \<longrightarrow> uniquely_saved pending t)) (on (\<lambda>_. True))" if "\<not> \<not> x" for x
    by (rule hoare_on_mono [OF promote_candidate_unique [OF assms]]) (use that in simp)
qed (rule hoare_return; simp add: on_def)+

lemma activate_pending_hoare:
  "(\<And>t. Q t \<Longrightarrow> S t) \<Longrightarrow> hoare (on Q) (activate_pending R u ap p) (\<lambda>_. on S) (on S)"
proof -
  assume QS: "\<And>t. Q t \<Longrightarrow> S t"
  have "hoare (on Q) (run_with_secret R (nmcli_command (args_up_uuid u) 30) k t) (\<lambda>_. on S) (on S)" for k t
    by (rule on_commandI, drule (1) secret [OF _ neutral_commandI(9)]) (metis QS)
  moreover have "hoare (on Q) (run R (nmcli_command (args_up_uuid u) 30) t) (\<lambda>_. on S) (on S)" for t
    by (rule quiet_hoare [OF quiet_rules(1)]) (simp_all add: QS)
  moreover have "hoare (on Q) (raiseE e) (\<lambda>_ :: bool. on S) (on S)" for e
    by (rule hoare_raise) (auto simp: on_def QS)
  ultimately show ?thesis
    unfolding activate_pending_def Let_def
    by (intro hoare_if hoare_case_option hoare_bind) (assumption | rule hoare_return)+
qed

lemma give_up_hoare:
  assumes "hoare (on Q) m (\<lambda>_. on S) (on S)"
  shows "hoare (on Q) (bindE m (\<lambda>_. returnE (False, x))) (\<lambda>(ok, _). on (\<lambda>t. S t \<and> \<not> ok)) (on S)"
  by (rule hoare_bind [OF assms]) (simp add: hoare_return)

lemma discard_pending_hoare:
  "(\<And>t t'. Q t \<Longrightarrow> t' \<subseteq>\<^sub>m t \<Longrightarrow>
      \<forall>u p. t u = Some p \<and> prof_id p \<noteq> PENDING_PROFILE \<longrightarrow> t' u = Some p \<Longrightarrow> S t') \<Longrightarrow>
     hoare (on Q) (delete_profile R PENDING_PROFILE) (\<lambda>_. on S) (on S)"
  using delete_pending_hoare [where F = False] by simp

lemma rollback_hoare:
  assumes keep: "\<And>t. Q t \<Longrightarrow> S t" "\<And>t. S t \<Longrightarrow> S (rename_profile pending PENDING_PROFILE t)"
      "\<And>t. S t \<Longrightarrow> S (t(pending := None))"
      "\<And>t old. S t \<Longrightarrow> previous = Some old \<Longrightarrow> S (rename_profile old SAVED_PROFILE t)"
  shows "hoare (on Q) (rollback_promotion R pending previous) (\<lambda>_. on S) (on S)"
proof -
  have demote: "hoare (on Q) (set_profile_identity R pending PENDING_PROFILE) (\<lambda>_. on S) (on S)"
    by (rule set_identity_hoare) (simp_all add: keep)
  have restore: "hoare (on S) (set_profile_identity R old SAVED_PROFILE) (\<lambda>_. on S) (on S)"
    if "previous = Some old" for old
    by (rule set_identity_hoare) (simp_all add: keep that)
  have delete: "hoare (on S) (delete_profile_uuid R pending) (\<lambda>_. on S) (on S)"
    by (rule delete_uuid_hoare) (simp add: keep)
  have "hoare (on S) (case previous of None \<Rightarrow> returnE ()
      | Some old \<Rightarrow> bindE (set_profile_identity R old SAVED_PROFILE) (\<lambda>_. returnE ())) (\<lambda>_. on S) (on S)"
    by (rule hoare_case_option, rule hoare_return, assumption, rule hoare_bind [OF restore], assumption,
        rule hoare_return)
  then show ?thesis
    unfolding rollback_promotion_def
    by (intro hoare_bind [OF demote] hoare_bind [OF _ hoare_bind [OF delete]] hoare_return)
qed

lemma establish_candidate_unique:
  assumes "previous \<noteq> Some pending"
  shows "hoare (on (sole previous SAVED_PROFILE)) (establish_candidate R ap s p previous pending)
           (\<lambda>(ok, _). on (\<lambda>t. ok \<longrightarrow> (\<exists>u. uniquely_saved u t))) (on (\<lambda>_. True))"
proof -
  let ?sole = "sole previous SAVED_PROFILE" and ?T = "\<lambda>_ :: profile_table. True"
  have activate: "hoare (on ?sole) (activate_pending R pending ap p) (\<lambda>_. on ?sole) (on ?T)"
    by (rule hoare_weaken [OF activate_pending_hoare [where Q = ?sole and S = ?sole]]) (auto simp: on_def)
  note promote = promote_unique [OF assms]
  have discard: "hoare (on Q) (bindE (delete_profile_uuid R pending) (\<lambda>_. returnE (False, x)))
      (\<lambda>(ok, _). on (\<lambda>t. ok \<longrightarrow> (\<exists>u. uniquely_saved u t))) (on ?T)" for Q x
    by (rule hoare_weaken [OF give_up_hoare [OF delete_uuid_hoare [where Q = Q and S = ?T]]]) (auto simp: on_def)
  have rollback: "hoare (on Q) (bindE (rollback_promotion R pending previous) (\<lambda>_. returnE (False, x)))
      (\<lambda>(ok, _). on (\<lambda>t. ok \<longrightarrow> (\<exists>u. uniquely_saved u t))) (on ?T)" for Q x
    by (rule hoare_weaken [OF give_up_hoare [OF rollback_hoare [where Q = Q and S = ?T]]]) (auto simp: on_def)
  show ?thesis
    unfolding establish_candidate_def
    by (rule hoare_bind [OF activate] hoare_bind [OF promote] hoare_if discard rollback hoare_return)+
       (auto simp: on_def)
qed

lemma connect_candidate_unique:
  assumes "access_point_ok ap"
  shows "hoare (\<lambda>w. on (sole previous SAVED_PROFILE) w \<and> fresh w)
           (connect_candidate R ap s p previous)
           (\<lambda>(ok, _). on (\<lambda>t. ok \<longrightarrow> (\<exists>u. uniquely_saved u t))) (on (\<lambda>_. True))"
proof -
  let ?sole = "sole previous SAVED_PROFILE" and ?T = "\<lambda>_ :: profile_table. True"
  let ?post = "\<lambda>(ok, _). on (\<lambda>t. ok \<longrightarrow> (\<exists>u. uniquely_saved u t))"
  have delete: "hoare (\<lambda>w. on ?sole w \<and> fresh w) (delete_profile R PENDING_PROFILE)
      (\<lambda>_ w. on ?sole w \<and> fresh w) (on ?T)"
    by (rule hoare_weaken [OF delete_pending_hoare [where Q = ?sole and S = ?sole and F = True]])
       (auto simp: on_def intro: sole_submap)
  have create: "hoare (\<lambda>w. on ?sole w \<and> fresh w) (create_pending_profile R ap) (\<lambda>_. on ?sole) (on ?T)"
    by (rule hoare_weaken [OF create_pending_hoare [where Q = ?sole and S = ?sole, OF _ _ assms]])
       (auto simp: on_def intro: sole_add)
  have lookup: "hoare (on ?sole) (profile_uuid_of R PENDING_PROFILE)
      (\<lambda>(ok, v). on (\<lambda>t. ?sole t \<and> (ok \<longrightarrow> sole v PENDING_PROFILE t))) (on ?T)"
    by (rule hoare_weaken [OF lookup_hoare [where Q = ?sole]]) (auto simp: on_def)
  have discard: "hoare (on Q) (bindE (delete_profile R PENDING_PROFILE) (\<lambda>_. returnE (False, x))) ?post (on ?T)" for Q x
    by (rule hoare_weaken [OF give_up_hoare [OF discard_pending_hoare [where Q = Q and S = ?T]]]) (auto simp: on_def)
  have establish: "hoare (on (\<lambda>t. ?sole t \<and> sole (Some pending) PENDING_PROFILE t))
      (establish_candidate R ap s p previous pending) ?post (on ?T)" for pending
  proof (cases "previous = Some pending")
    case True
    have "\<not> on (\<lambda>t. ?sole t \<and> sole (Some pending) PENDING_PROFILE t) w" for w
      using sole_distinct [of pending PENDING_PROFILE _ previous SAVED_PROFILE] True by (auto simp: on_def)
    then show ?thesis by (rule hoare_empty)
  next
    case False
    show ?thesis by (rule hoare_on_mono [OF establish_candidate_unique [OF False]]) simp
  qed
  show ?thesis
    unfolding connect_candidate_def
    apply (rule hoare_bind [OF delete] hoare_bind [OF create] hoare_bind [OF lookup] hoare_if discard hoare_case_prod)+
    apply (simp split: option.splits)
    apply (auto intro: discard establish)
    done
qed

lemma fresh_hoare:
  "quiet m \<Longrightarrow> hoare (on Q) m S E \<Longrightarrow> (\<And>w. on Q w \<Longrightarrow> invar w) \<Longrightarrow>
     hoare (\<lambda>w. on Q w \<and> fresh w) m (\<lambda>x w. S x w \<and> fresh w) E"
  by (rule hoareI) (auto dest: hoare_Inl hoare_Inr quietD)

lemma on_invar: "on Q w \<Longrightarrow> invar w"
  by (simp add: on_def)

lemma connect_station_hoare:
  assumes candidate: "\<And>ap previous s. access_point_ok ap \<Longrightarrow>
      hoare (\<lambda>w. on (\<lambda>t. Q t \<and> sole previous SAVED_PROFILE t) w \<and> fresh w)
        (connect_candidate R ap s p previous) post (on E)"
    and error: "\<And>t. Q t \<Longrightarrow> E t" and failure: "\<And>x w. on Q w \<Longrightarrow> post (False, x) w"
  shows "hoare (\<lambda>w. on Q w \<and> fresh w) (connect_station R name p) post (on E)"
proof -
  let ?pre = "\<lambda>w. on Q w \<and> fresh w"
  have quiet: "hoare ?pre m (\<lambda>_. ?pre) (on E)" if "quiet m" for m :: "('w, 'b) io"
    by (rule hoare_weaken [OF fresh_hoare [OF that quiet_hoare [OF that, where Q = Q and S = Q] on_invar]])
       (auto simp: on_def error)
  have scan: "hoare ?pre (scan R) (\<lambda>networks w. ?pre w \<and> (\<forall>ap \<in> set networks. access_point_ok ap)) (on E)"
  proof (rule hoareI)
    show "on E w'" if "?pre w" "scan R w = (Inl e, w')" for w e w'
      using hoare_Inl [OF quiet [OF quiet_operations(3)] that] .
    show "?pre w' \<and> (\<forall>ap \<in> set networks. access_point_ok ap)"
      if "?pre w" "scan R w = (Inr networks, w')" for w networks w'
      using hoare_Inr [OF quiet [OF quiet_operations(3)] that] scan_result_ok [OF that(2)] by simp
  qed
  have lookup: "hoare ?pre (profile_uuid_of R SAVED_PROFILE)
      (\<lambda>(ok, v) w. on (\<lambda>t. Q t \<and> (ok \<longrightarrow> sole v SAVED_PROFILE t)) w \<and> fresh w) (on E)"
    by (rule hoare_weaken [OF fresh_hoare [OF quiet_operations(4) lookup_hoare [where Q = Q] on_invar]])
       (auto simp: on_def error)
  have from_scan: "hoare (\<lambda>w. ?pre w \<and> (\<forall>ap \<in> set networks. access_point_ok ap))
     (case find f networks of
        None \<Rightarrow> returnE (False, None, Some (lit ''ssid_not_found''))
      | Some ap \<Rightarrow> g ap) post (on E)"
    if g: "\<And>ap. access_point_ok ap \<Longrightarrow> hoare ?pre (g ap) post (on E)" for networks f g
  proof (cases "\<forall>ap \<in> set networks. access_point_ok ap")
    case True
    then have "access_point_ok ap" if "find f networks = Some ap" for ap
      using that by (auto simp: find_Some_iff)
    with g True show ?thesis
      by (auto intro!: hoare_return hoare_case_option failure)
  next
    case False
    then show ?thesis by (intro hoare_empty) blast
  qed
  show ?thesis
    unfolding connect_station_def
    apply (rule hoare_bind [where Q = "\<lambda>_. ?pre"])
     apply (rule hoare_liftR; simp add: on_def error)
    apply (rule hoare_bind [OF scan])
    apply (rule from_scan)
    apply (rule hoare_case_option)
     apply (rule hoare_bind [OF quiet [OF quiet_operations(2)]])
     apply (rule hoare_if)
      apply (rule hoare_return, simp add: failure)
     apply (rule hoare_bind [OF lookup], rule hoare_case_prod, rule hoare_if)
      apply (rule hoare_return, auto simp: on_def intro: failure)[1]
     apply (rule hoare_weaken [OF candidate], assumption)
       apply (auto simp: on_def)[3]
    apply (rule hoare_return, simp add: failure)
    done
qed

lemma connect_station_unique:
  "hoare (\<lambda>w. invar w \<and> fresh w) (connect_station R name p)
     (\<lambda>(ok, _) w. ok \<longrightarrow> (\<exists>u. uniquely_saved u (profiles w))) (\<lambda>_. True)"
proof (rule hoare_weaken [OF connect_station_hoare [where Q = "\<lambda>_. True" and E = "\<lambda>_. True"
        and post = "\<lambda>(ok, _). on (\<lambda>t. ok \<longrightarrow> (\<exists>u. uniquely_saved u t))"]])
  show "hoare (\<lambda>w. on (\<lambda>t. True \<and> sole previous SAVED_PROFILE t) w \<and> fresh w) (connect_candidate R ap s p previous)
      (\<lambda>(ok, _). on (\<lambda>t. ok \<longrightarrow> (\<exists>u. uniquely_saved u t))) (on (\<lambda>_. True))"
    if "access_point_ok ap" for ap previous s
    using connect_candidate_unique [OF that] by simp
qed (auto simp: on_def)

end

section \<open>The saved network survives\<close>

text \<open>
  A runner that does not go on once a deletion of the saved network, or of its backup, has taken effect and been
  reported as failed. That is no law of NetworkManager: every runner becomes such a runner when it is stopped there
  (\<open>stopping\<close> in \<^verbatim>\<open>Profile_Watch\<close>).
\<close>

locale nm_runner_stopping = nm_runner +
  assumes failed_delete:
      "invar w \<Longrightarrow> kept u (profiles w) \<Longrightarrow> run R (nmcli_command (args_delete_uuid u) 5) t w = (Inr res, w') \<Longrightarrow>
         returncode res \<noteq> 0 \<Longrightarrow> profiles w' = profiles w"
begin

lemma strict_delete_hoare:
  assumes "\<And>t. Q t \<Longrightarrow> kept u t \<and> S (t(u := None)) \<and> E t \<and> E (t(u := None))"
  shows "hoare (on Q) (delete_profile_uuid R u) (\<lambda>b. on (if b then S else Q)) (on E)"
proof -
  have "hoare (on Q) (run R (nmcli_command (args_delete_uuid u) 5) 8)
          (\<lambda>res. on (if returncode res = 0 then S else Q)) (on E)"
  proof (rule hoareI)
    fix w e w' assume "on Q w" "run R (nmcli_command (args_delete_uuid u) 5) 8 w = (Inl e, w')"
    with delete_uuid [of w u 8 "Inl e" w'] assms show "on E w'" by (auto simp: on_def)
  next
    fix w res w' assume w: "on Q w" and run: "run R (nmcli_command (args_delete_uuid u) 5) 8 w = (Inr res, w')"
    from w have I: "invar w" and Q: "Q (profiles w)" by (simp_all add: on_def)
    with assms have K: "kept u (profiles w)" by blast
    from delete_uuid [OF I run] have
      invar: "invar w'" and
      effect: "profiles w' = profiles w \<or> profiles w' = (profiles w)(u := None)" and
      gone: "returncode res = 0 \<Longrightarrow> profiles w' u = None" by auto
    have "S (profiles w')" if "returncode res = 0"
    proof -
      from effect gone [OF that] have "profiles w' = (profiles w)(u := None)" by auto
      with assms [OF Q] show ?thesis by simp
    qed
    with invar failed_delete [OF I K run] Q show "on (if returncode res = 0 then S else Q) w'"
      by (auto simp: on_def)
  qed
  then show ?thesis
    unfolding delete_profile_uuid_def nmcli_def
    by (rule hoare_bind) (rule hoare_return; simp)
qed

lemma kept_rename:
  "kept u t \<Longrightarrow> v \<noteq> u \<or> i \<in> {SAVED_PROFILE, PREVIOUS_PROFILE} \<Longrightarrow> kept u (rename_profile v i t)"
  by (auto simp: kept_def rename_profile_def)

lemma kept_delete: "kept u t \<Longrightarrow> v \<noteq> u \<Longrightarrow> kept u (t(v := None))"
  by (simp add: kept_def)

lemma promote_candidate_kept:
  assumes "u \<noteq> pending" "previous \<in> {None, Some u}"
  shows "hoare (on (kept u)) (promote_candidate R pending previous)
           (\<lambda>b. on (\<lambda>t. saved_available t \<and> (\<not> b \<longrightarrow> kept u t))) (on saved_available)"
proof -
  have rename: "hoare (on (kept u)) (set_profile_identity R pending SAVED_PROFILE) (\<lambda>_. on (kept u)) (on saved_available)"
    by (rule hoare_weaken [OF set_identity_hoare [where Q = "kept u" and S = "kept u"]])
       (auto simp: on_def saved_available_def intro: kept_rename)
  let ?both = "\<lambda>t. kept u t \<and> kept pending t"
  have verify: "hoare (on (kept u)) (profile_has_identity R pending SAVED_PROFILE)
      (\<lambda>b. on (\<lambda>t. kept u t \<and> (b \<longrightarrow> kept pending t))) (on saved_available)"
    by (rule hoare_weaken [OF identity_hoare [where Q = "kept u"]])
       (auto simp: on_def saved_available_def verified_def kept_def)
  have delete: "hoare (on (\<lambda>t. kept u t \<and> (x \<longrightarrow> kept pending t))) (delete_profile_uuid R old)
      (\<lambda>b. on (\<lambda>t. saved_available t \<and> (\<not> b \<longrightarrow> kept u t))) (on saved_available)"
    if "\<not> \<not> x" "previous = Some old" for x old
  proof (rule hoare_weaken [OF strict_delete_hoare [where Q = ?both and S = "kept pending" and E = saved_available]])
    show "kept old t \<and> kept pending (t(old := None)) \<and> saved_available t \<and> saved_available (t(old := None))"
      if "kept u t \<and> kept pending t" for t
      using that assms \<open>previous = Some old\<close> kept_delete [of pending t old] by (auto simp: saved_available_def)
  qed (use that in \<open>auto simp: on_def saved_available_def split: if_splits\<close>)
  show ?thesis
    unfolding promote_candidate_def
    apply (rule hoare_bind [OF rename], rule hoare_if)
     apply (rule hoare_return, auto simp: on_def saved_available_def)[1]
    apply (rule hoare_bind [OF verify], rule hoare_if)
     apply (rule hoare_return, auto simp: on_def saved_available_def)[1]
    apply (rule hoare_case_option)
     apply (rule hoare_return, auto simp: on_def saved_available_def)[1]
    apply (rule delete; assumption)
    done
qed

lemma promote_kept:
  assumes "u \<noteq> pending" "previous \<in> {None, Some u}"
  shows "hoare (on (kept u)) (promote_pending_profile R pending previous)
           (\<lambda>b. on (\<lambda>t. saved_available t \<and> (\<not> b \<longrightarrow> kept u t))) (on saved_available)"
proof -
  have rename: "hoare (on (kept u)) (set_profile_identity R old PREVIOUS_PROFILE) (\<lambda>_. on (kept u)) (on saved_available)" for old
    by (rule hoare_weaken [OF set_identity_hoare [where Q = "kept u" and S = "kept u"]])
       (auto simp: on_def saved_available_def intro: kept_rename)
  have verify: "hoare (on (kept u)) (profile_has_identity R old PREVIOUS_PROFILE) (\<lambda>_. on (kept u)) (on saved_available)" for old
    by (rule hoare_weaken [OF identity_hoare [where Q = "kept u"]]) (auto simp: on_def saved_available_def)
  note candidate = promote_candidate_kept [OF assms]
  show ?thesis
    unfolding promote_pending_profile_def
    apply (rule hoare_case_option, rule candidate)
    apply (rule hoare_bind [OF rename], rule hoare_if)
     apply (rule hoare_return, auto simp: on_def saved_available_def)[1]
    apply (rule hoare_bind [OF verify], rule hoare_if)
     apply (rule hoare_return, auto simp: on_def saved_available_def)[1]
    apply (rule candidate)
    done
qed

lemma establish_candidate_kept:
  assumes "u \<noteq> pending" "previous \<in> {None, Some u}"
  shows "hoare (on (kept u)) (establish_candidate R ap s p previous pending)
           (\<lambda>_. on saved_available) (on saved_available)"
proof -
  have K: "kept u t \<Longrightarrow> saved_available t" for t by (auto simp: saved_available_def)
  have activate: "hoare (on (kept u)) (activate_pending R pending ap p) (\<lambda>_. on (kept u)) (on saved_available)"
    by (rule hoare_weaken [OF activate_pending_hoare [where Q = "kept u" and S = "kept u"]])
       (auto simp: on_def K)
  have discard: "hoare (on (kept u)) (bindE (delete_profile_uuid R pending) (\<lambda>_. returnE (False, x)))
      (\<lambda>_. on saved_available) (on saved_available)" for x
    by (rule hoare_weaken [OF give_up_hoare [OF delete_uuid_hoare [where Q = "kept u" and S = "kept u"]]])
       (use assms in \<open>auto simp: on_def K intro: kept_delete\<close>)
  have rollback: "hoare (on (kept u)) (bindE (rollback_promotion R pending previous) (\<lambda>_. returnE (False, x)))
      (\<lambda>_. on saved_available) (on saved_available)" for x
    by (rule hoare_weaken [OF give_up_hoare [OF rollback_hoare [where Q = "kept u" and S = "kept u"]]])
       (use assms in \<open>auto simp: on_def K intro: kept_delete kept_rename\<close>)
  show ?thesis
    unfolding establish_candidate_def
    apply (rule hoare_bind [OF activate], rule hoare_if, rule discard)
    apply (rule hoare_bind [OF promote_kept [OF assms]], rule hoare_if)
     apply (rule hoare_weaken [OF rollback], auto simp: on_def)[1]
    apply (rule hoare_return, auto simp: on_def)
    done
qed

lemma hoare_ex: "(\<And>x. hoare (P x) m Q E) \<Longrightarrow> hoare (\<lambda>w. \<exists>x. P x w) m Q E"
  unfolding hoare_def by blast

text \<open>Whatever profile is pending, another one is still the saved network or its backup.\<close>

definition recoverable :: "pstr option \<Rightarrow> profile_table \<Rightarrow> bool" where
  "recoverable previous t \<longleftrightarrow> saved_available t \<and> sole previous SAVED_PROFILE t"

lemma recoverable_pending:
  assumes "recoverable previous t" "sole (Some pending) PENDING_PROFILE t"
  shows "\<exists>u. kept u t \<and> u \<noteq> pending \<and> previous \<in> {None, Some u}"
proof -
  have not_pending: "u \<noteq> pending" if "kept u t" for u
    using assms(2) that unfolding sole_def kept_def by (metis insert_iff option.inject profile_names_distinct singletonD)
  show ?thesis
  proof (cases previous)
    case None
    with assms(1) not_pending show ?thesis by (auto simp: recoverable_def saved_available_def)
  next
    case (Some u)
    with assms(1) have "kept u t" by (auto simp: recoverable_def sole_def kept_def)
    with Some not_pending show ?thesis by blast
  qed
qed

lemma connect_candidate_kept:
  assumes "access_point_ok ap"
  shows "hoare (\<lambda>w. on (recoverable previous) w \<and> fresh w) (connect_candidate R ap s p previous)
           (\<lambda>_. on saved_available) (on saved_available)"
proof -
  let ?Q = "recoverable previous"
  have submap: "?Q t'" if "?Q t" "t' \<subseteq>\<^sub>m t"
    "\<forall>u p. t u = Some p \<and> prof_id p \<noteq> PENDING_PROFILE \<longrightarrow> t' u = Some p" for t t'
    using that(1) sole_submap [OF that(2,3), of previous SAVED_PROFILE] kept_submap [OF that(3)]
    by (simp add: recoverable_def saved_available_def) blast
  have add: "?Q (t(u \<mapsto> q))" if "?Q t" "t u = None" "prof_id q = PENDING_PROFILE" for t u q
  proof -
    have "kept v t \<Longrightarrow> kept v (t(u \<mapsto> q))" for v
      using that(2) by (auto simp: kept_def)
    with that sole_add [of previous SAVED_PROFILE t u q] show ?thesis
      by (auto simp: recoverable_def saved_available_def)
  qed
  have avail: "?Q t \<Longrightarrow> saved_available t" for t by (simp add: recoverable_def)
  have delete: "hoare (\<lambda>w. on ?Q w \<and> fresh w) (delete_profile R PENDING_PROFILE)
      (\<lambda>_ w. on ?Q w \<and> fresh w) (on saved_available)"
    by (rule hoare_weaken [OF delete_pending_hoare [where Q = ?Q and S = ?Q and F = True]])
       (auto simp: on_def avail intro: submap)
  have create: "hoare (\<lambda>w. on ?Q w \<and> fresh w) (create_pending_profile R ap) (\<lambda>_. on ?Q) (on saved_available)"
    by (rule hoare_weaken [OF create_pending_hoare [where Q = ?Q and S = ?Q, OF _ _ assms]])
       (auto simp: on_def avail intro: add)
  have lookup: "hoare (on ?Q) (profile_uuid_of R PENDING_PROFILE)
      (\<lambda>(ok, v). on (\<lambda>t. ?Q t \<and> (ok \<longrightarrow> sole v PENDING_PROFILE t))) (on saved_available)"
    by (rule hoare_weaken [OF lookup_hoare [where Q = ?Q]]) (auto simp: on_def avail)
  have discard: "hoare (on ?Q) (bindE (delete_profile R PENDING_PROFILE) (\<lambda>_. returnE (False, x)))
      (\<lambda>_. on saved_available) (on saved_available)" for x
    by (rule hoare_weaken [OF give_up_hoare [OF discard_pending_hoare [where Q = ?Q and S = ?Q]]])
       (auto simp: on_def avail intro: submap)
  have establish: "hoare (on (\<lambda>t. ?Q t \<and> sole (Some pending) PENDING_PROFILE t))
      (establish_candidate R ap s p previous pending) (\<lambda>_. on saved_available) (on saved_available)" for pending
  proof (rule hoare_weaken [OF hoare_ex])
    show "hoare (\<lambda>w. on (kept u) w \<and> u \<noteq> pending \<and> previous \<in> {None, Some u})
      (establish_candidate R ap s p previous pending) (\<lambda>_. on saved_available) (on saved_available)" for u
      using establish_candidate_kept [of u pending previous ap s p]
      by (cases "u \<noteq> pending \<and> previous \<in> {None, Some u}") (simp_all add: hoare_empty)
  qed (use recoverable_pending in \<open>auto simp: on_def\<close>)
  show ?thesis
    unfolding connect_candidate_def
    apply (rule hoare_bind [OF delete], rule hoare_bind [OF create], rule hoare_if, rule discard)
    apply (rule hoare_bind [OF lookup], rule hoare_case_prod, simp split: option.splits)
    apply (intro conjI impI allI; (rule establish)?)
    apply (rule hoare_on_mono [OF discard], simp)+
    done
qed

lemma connect_station_kept:
  "hoare (\<lambda>w. invar w \<and> fresh w \<and> saved_available (profiles w)) (connect_station R name p)
     (\<lambda>_ w. saved_available (profiles w)) (\<lambda>w. saved_available (profiles w))"
proof (rule hoare_weaken [OF connect_station_hoare [where Q = saved_available and E = saved_available
        and post = "\<lambda>_. on saved_available"]])
  show "hoare (\<lambda>w. on (\<lambda>t. saved_available t \<and> sole previous SAVED_PROFILE t) w \<and> fresh w)
      (connect_candidate R ap s p previous) (\<lambda>_. on saved_available) (on saved_available)"
    if "access_point_ok ap" for ap previous s
    using connect_candidate_kept [OF that] unfolding recoverable_def .
qed (auto simp: on_def)

end

end
