(* ===== verification/Profile_Runner.thy ===== *)
theory Profile_Runner
  imports Profiles
begin

text \<open>
  The simulated NetworkManager of the contract tests (\<^verbatim>\<open>tests/test_networkd_contract.py\<close>,
  class \<^verbatim>\<open>ProfileRunner\<close>), which keeps a table of profiles and can be told to fail at named
  steps. It provides the interface \<open>nm_runner_stopping\<close>, since its deletions are reported truly.
\<close>

section \<open>The simulation\<close>

definition OLD_PROFILE_UUID :: pstr where
  "OLD_PROFILE_UUID = lit ''11111111-1111-4111-8111-111111111111''"
definition NEW_PROFILE_UUID :: pstr where
  "NEW_PROFILE_UUID = lit ''22222222-2222-4222-8222-222222222222''"

record sim =
  sim_profiles :: "(pstr \<times> profile) list"
  sim_fail_at :: "string list"
  sim_injected :: "string list"
  sim_commands :: "(pstr list \<times> int) list"
  sim_secret_commands :: "(pstr list \<times> pstr \<times> int) list"
  sim_activated :: "pstr option"
  sim_list_calls :: nat

definition sim_init :: "bool \<Rightarrow> string list \<Rightarrow> sim" where
  "sim_init previous fail_at =
     \<lparr>sim_profiles =
        (if previous
         then [(OLD_PROFILE_UUID, \<lparr>prof_id = SAVED_PROFILE, prof_autoconnect = lit ''no'', prof_ssid = lit ''Previous''\<rparr>)]
         else []),
      sim_fail_at = fail_at, sim_injected = [], sim_commands = [], sim_secret_commands = [],
      sim_activated = None, sim_list_calls = 0\<rparr>"

text \<open>\<open>injecting\<close> is \<^verbatim>\<open>if self._inject(label): return CommandResult(1, "")\<close>.\<close>

definition injecting :: "string \<Rightarrow> (sim, command_result) io \<Rightarrow> (sim, command_result) io" where
  "injecting label continue w =
     (if label \<notin> set (sim_fail_at w) \<or> label \<in> set (sim_injected w) then continue w
      else returnE \<lparr>returncode = 1, stdout = []\<rparr> (w\<lparr>sim_injected := label # sim_injected w\<rparr>))"

text \<open>\<^verbatim>\<open>arguments[i]\<close>, an IndexError out of range.\<close>

definition item :: "'a list \<Rightarrow> nat \<Rightarrow> ('w, 'a) io" where
  "item xs i = (if i < length xs then returnE (xs ! i) else raiseE OtherException)"

definition sim_done :: "(sim \<Rightarrow> sim) \<Rightarrow> (sim, command_result) io" where
  "sim_done f w = (Inr \<lparr>returncode = 0, stdout = []\<rparr>, f w)"

definition sim_list_profiles :: "(sim, command_result) io" where
  "sim_list_profiles w =
     (let w1 = w\<lparr>sim_list_calls := sim_list_calls w + 1\<rparr>;
          label = (if sim_list_calls w1 = 1 then ''lookup_previous'' else ''lookup_pending'')
      in injecting label (\<lambda>w. (Inr \<lparr>returncode = 0,
           stdout = concat (map (\<lambda>(u, p). (u @ 58 # prof_id p) @ [10]) (sim_profiles w))\<rparr>, w)) w1)"

definition sim_add_pending :: "(sim, command_result) io" where
  "sim_add_pending = injecting ''create_pending''
     (sim_done (\<lambda>w. w\<lparr>sim_profiles := AList.update NEW_PROFILE_UUID
        \<lparr>prof_id = PENDING_PROFILE, prof_autoconnect = lit ''no'', prof_ssid = lit ''New''\<rparr>
        (sim_profiles w)\<rparr>))"

definition sim_profile :: "pstr \<Rightarrow> (sim, profile) io" where
  "sim_profile u w =
     (case map_of (sim_profiles w) u of Some p \<Rightarrow> (Inr p, w) | None \<Rightarrow> (Inl KeyError, w))"

definition sim_profile_value :: "pstr list \<Rightarrow> (sim, command_result) io" where
  "sim_profile_value arguments =
     (if take 2 arguments = [lit ''--get-values'', lit ''802-11-wireless.ssid'']
      then bindE (sim_profile (last arguments)) (\<lambda>p.
             returnE \<lparr>returncode = 0, stdout = prof_ssid p\<rparr>)
      else bindE (item arguments 1) (\<lambda>property_name.
           bindE (sim_profile (last arguments)) (\<lambda>p.
           let by_id = (property_name = lit ''connection.id'');
               new = (last arguments = NEW_PROFILE_UUID);
               label = (if new then (if by_id then ''verify_new_id'' else ''verify_new_autoconnect'')
                        else (if by_id then ''verify_old_id'' else ''verify_old_autoconnect''))
           in injecting label
                (returnE \<lparr>returncode = 0, stdout = (if by_id then prof_id p else prof_autoconnect p)\<rparr>))))"

definition sim_modify_label :: "pstr \<Rightarrow> pstr \<Rightarrow> (sim, string) io" where
  "sim_modify_label u i =
     (if u = NEW_PROFILE_UUID \<and> i = SAVED_PROFILE then returnE ''promote_new''
      else if u = OLD_PROFILE_UUID \<and> i = PREVIOUS_PROFILE then returnE ''backup_old''
      else if u = NEW_PROFILE_UUID \<and> i = PENDING_PROFILE then returnE ''rollback_new''
      else if u = OLD_PROFILE_UUID \<and> i = SAVED_PROFILE then returnE ''rollback_old''
      else raiseE AssertionError)"

definition sim_modify :: "pstr list \<Rightarrow> (sim, command_result) io" where
  "sim_modify arguments =
     (if take 2 (drop 2 arguments) = [lit ''id'', PENDING_PROFILE]
      then returnE \<lparr>returncode = 0, stdout = []\<rparr>
      else bindE (item arguments 3) (\<lambda>u.
           bindE (item arguments 5) (\<lambda>i.
           bindE (sim_modify_label u i) (\<lambda>label.
           injecting label
             (bindE (sim_profile u) (\<lambda>p.
              bindE (item arguments 7) (\<lambda>a.
              sim_done (\<lambda>w. w\<lparr>sim_profiles :=
                AList.update u (p\<lparr>prof_id := i, prof_autoconnect := a\<rparr>) (sim_profiles w)\<rparr>))))))))"

definition sim_delete :: "pstr list \<Rightarrow> (sim, command_result) io" where
  "sim_delete arguments =
     (case take 2 (drop 2 arguments) of
        [selector, value] \<Rightarrow>
          if selector = lit ''uuid'' then
            let pop = sim_done (\<lambda>w. w\<lparr>sim_profiles := AList.delete value (sim_profiles w)\<rparr>)
            in if value = OLD_PROFILE_UUID then injecting ''delete_old'' pop else pop
          else sim_done (\<lambda>w. w\<lparr>sim_profiles := filter (\<lambda>(u, p). prof_id p \<noteq> value) (sim_profiles w)\<rparr>)
      | _ \<Rightarrow> raiseE (ValueError (lit ''not enough values to unpack'')))"

definition sim_up :: "pstr list \<Rightarrow> (sim, command_result) io" where
  "sim_up arguments =
     bindE (item arguments 3) (\<lambda>u.
       injecting (if u = NEW_PROFILE_UUID then ''activate_new'' else ''activate_saved'')
         (sim_done (\<lambda>w. w\<lparr>sim_activated := Some u\<rparr>)))"

definition sim_nmcli :: "pstr list \<Rightarrow> (sim, command_result) io" where
  "sim_nmcli arguments =
     (if take 3 arguments = [lit ''radio'', lit ''wifi'', lit ''on''] then sim_done id
      else if lit ''device'' \<in> set arguments \<and> lit ''wifi'' \<in> set arguments
      then returnE \<lparr>returncode = 0, stdout = lit ''New:90:WPA2:'' @ [10]\<rparr>
      else if drop (length arguments - 2) arguments = [lit ''connection'', lit ''show''] then sim_list_profiles
      else if take 2 arguments = [lit ''connection'', lit ''add''] then sim_add_pending
      else if take 2 arguments = [lit ''connection'', lit ''modify''] then sim_modify arguments
      else if take 2 arguments = [lit ''connection'', lit ''up''] then sim_up arguments
      else if take 2 arguments = [lit ''connection'', lit ''delete''] then sim_delete arguments
      else bindE (item arguments 0) (\<lambda>first.
             if first = lit ''--get-values'' then sim_profile_value arguments
             else raiseE AssertionError))"

definition sim_execute :: "pstr list \<Rightarrow> (sim, command_result) io" where
  "sim_execute command =
     bindE (item command 0) (\<lambda>program.
       if program = SYSTEMCTL then sim_done id
       else if program \<noteq> NMCLI then raiseE AssertionError
       else sim_nmcli (drop 3 command))"

definition profile_runner :: "ucd \<Rightarrow> sim runner" where
  "profile_runner U =
     \<lparr>ucd_upper = ucd_upper U, ucd_casefold = ucd_casefold U, ucd_decimal = ucd_decimal U,
      run = (\<lambda>command timeout w.
        sim_execute command (w\<lparr>sim_commands := sim_commands w @ [(command, timeout)]\<rparr>)),
      run_with_secret = (\<lambda>command password timeout w.
        sim_execute command (w\<lparr>sim_secret_commands := sim_secret_commands w @ [(command, password, timeout)]\<rparr>))\<rparr>"

section \<open>It provides the interface\<close>

definition sim_table :: "sim \<Rightarrow> profile_table" where
  "sim_table w = map_of (sim_profiles w)"

definition sim_fresh :: "sim \<Rightarrow> bool" where
  "sim_fresh w \<longleftrightarrow> sim_table w NEW_PROFILE_UUID = None"

definition profile_names :: "pstr set" where
  "profile_names = {SAVED_PROFILE, PENDING_PROFILE, PREVIOUS_PROFILE}"

definition sim_invar :: "sim \<Rightarrow> bool" where
  "sim_invar w \<longleftrightarrow> distinct (map fst (sim_profiles w)) \<and>
     (\<forall>(u, p) \<in> set (sim_profiles w). u \<in> {OLD_PROFILE_UUID, NEW_PROFILE_UUID} \<and>
        prof_id p \<in> profile_names \<and> prof_autoconnect p = lit ''no'')"

lemma sim_table_more [simp]:
  "sim_table (w\<lparr>sim_injected := x\<rparr>) = sim_table w" "sim_invar (w\<lparr>sim_injected := x\<rparr>) = sim_invar w"
  "sim_table (w\<lparr>sim_commands := c\<rparr>) = sim_table w" "sim_invar (w\<lparr>sim_commands := c\<rparr>) = sim_invar w"
  "sim_table (w\<lparr>sim_secret_commands := d\<rparr>) = sim_table w"
  "sim_invar (w\<lparr>sim_secret_commands := d\<rparr>) = sim_invar w"
  "sim_table (w\<lparr>sim_activated := a\<rparr>) = sim_table w" "sim_invar (w\<lparr>sim_activated := a\<rparr>) = sim_invar w"
  "sim_table (w\<lparr>sim_list_calls := n\<rparr>) = sim_table w" "sim_invar (w\<lparr>sim_list_calls := n\<rparr>) = sim_invar w"
  by (simp_all add: sim_table_def sim_invar_def)

definition profile_ok :: "pstr \<Rightarrow> profile \<Rightarrow> bool" where
  "profile_ok u p \<longleftrightarrow> u \<in> {OLD_PROFILE_UUID, NEW_PROFILE_UUID} \<and> prof_id p \<in> profile_names \<and>
     prof_autoconnect p = lit ''no''"

lemma sim_invar_iff:
  "sim_invar w \<longleftrightarrow> distinct (map fst (sim_profiles w)) \<and> (\<forall>u p. sim_table w u = Some p \<longrightarrow> profile_ok u p)"
proof (cases "distinct (map fst (sim_profiles w))")
  case True
  then have "sim_table w u = Some p \<longleftrightarrow> (u, p) \<in> set (sim_profiles w)" for u p
    by (simp add: sim_table_def)
  with True show ?thesis by (force simp: sim_invar_def profile_ok_def)
qed (simp add: sim_invar_def)

lemma sim_invar_updates:
  assumes "sim_invar w"
  shows "profile_ok u p \<Longrightarrow> sim_invar (w\<lparr>sim_profiles := AList.update u p (sim_profiles w)\<rparr>)"
    and "sim_invar (w\<lparr>sim_profiles := AList.delete u (sim_profiles w)\<rparr>)"
  using assms by (auto simp: sim_invar_iff sim_table_def distinct_update distinct_delete delete_conv' split: if_splits)

text \<open>How each command is taken apart.\<close>

lemma sim_execute_systemctl:
  "sim_execute systemctl_start_dhcp = sim_done id" "sim_execute systemctl_stop_dhcp = sim_done id"
  "sim_execute systemctl_dhcp_active = sim_done id"
  by (simp_all add: sim_execute_def item_def systemctl_start_dhcp_def systemctl_stop_dhcp_def
        systemctl_dhcp_active_def)

lemma sim_execute_nmcli: "sim_execute (nmcli_command a n) = sim_nmcli a"
  by (simp add: sim_execute_def nmcli_command_def item_def NMCLI_def SYSTEMCTL_def)

lemmas args_defs = args_radio_on_def args_scan_def args_list_profiles_def args_active_connection_def
  args_up_provisioning_def args_up_uuid_def args_saved_ssid_def args_property_def
  args_secure_pending_def args_set_identity_def args_delete_uuid_def args_delete_id_def
  args_add_pending_def

lemmas name_defs = INTERFACE_def PROVISIONING_PROFILE_def SAVED_PROFILE_def PENDING_PROFILE_def
  PREVIOUS_PROFILE_def

lemma lits_differ [simp]: "s \<noteq> t \<Longrightarrow> (lit s = u \<and> lit t = u) = False"
  by auto

lemma sim_nmcli_neutral:
  "sim_nmcli args_radio_on = sim_done id"
  "sim_nmcli args_scan = returnE \<lparr>returncode = 0, stdout = lit ''New:90:WPA2:'' @ [10]\<rparr>"
  "sim_nmcli args_list_profiles = sim_list_profiles"
  "sim_nmcli args_active_connection = sim_profile_value args_active_connection"
  "sim_nmcli args_up_provisioning = sim_up args_up_provisioning"
  "sim_nmcli (args_up_uuid u) = sim_up (args_up_uuid u)"
  "sim_nmcli (args_saved_ssid v) = sim_profile_value (args_saved_ssid v)"
  "sim_nmcli (args_property u (lit ''connection.id'')) = sim_profile_value (args_property u (lit ''connection.id''))"
  "sim_nmcli (args_property u (lit ''connection.autoconnect'')) =
     sim_profile_value (args_property u (lit ''connection.autoconnect''))"
  by (simp_all add: sim_nmcli_def args_defs name_defs item_def split: option.splits)

lemma sim_nmcli_changing:
  "k \<in> {lit ''sae'', lit ''wpa-psk''} \<Longrightarrow> sim_nmcli (args_secure_pending k) = sim_done id"
  "i \<in> profile_names \<Longrightarrow> sim_nmcli (args_set_identity u i) = sim_modify (args_set_identity u i)"
  "sim_nmcli (args_delete_uuid u) = sim_delete (args_delete_uuid u)"
  "sim_nmcli (args_delete_id v) = sim_delete (args_delete_id v)"
  by (auto simp: sim_nmcli_def args_defs name_defs profile_names_def sim_modify_def sim_done_def
        returnE_def)

lemma sim_nmcli_add:
  "sim_nmcli (args_add_pending s) \<in> {sim_add_pending, returnE \<lparr>returncode = 0, stdout = lit ''New:90:WPA2:'' @ [10]\<rparr>}"
  by (simp add: sim_nmcli_def args_defs name_defs)

text \<open>What a step does to the table: \<open>moves T m\<close>.\<close>

definition moves :: "(profile_table \<Rightarrow> profile_table \<Rightarrow> bool) \<Rightarrow> (sim, 'a) io \<Rightarrow> bool" where
  "moves T m \<longleftrightarrow> (\<forall>w r w'. sim_invar w \<longrightarrow> m w = (r, w') \<longrightarrow>
     sim_invar w' \<and> T (sim_table w) (sim_table w'))"

lemma movesD: "moves T m \<Longrightarrow> sim_invar w \<Longrightarrow> m w = (r, w') \<Longrightarrow> sim_invar w' \<and> T (sim_table w) (sim_table w')"
  unfolding moves_def by blast

lemma moves_injecting: "moves T m \<Longrightarrow> (\<And>t. T t t) \<Longrightarrow> moves T (injecting l m)"
  by (auto simp: moves_def injecting_def returnE_def)

lemma moves_pure [simp]:
  "moves (=) (returnE x)" "moves (=) (raiseE e)" "moves (=) (item xs i)" "moves (=) (sim_profile u)"
  "moves (=) (sim_done id)" "moves (=) (sim_done (\<lambda>w. w\<lparr>sim_activated := a\<rparr>))"
  by (auto simp: moves_def returnE_def raiseE_def item_def sim_profile_def sim_done_def split: option.splits)

lemma moves_bind: "moves (=) m \<Longrightarrow> (\<And>x. moves T (f x)) \<Longrightarrow> (\<And>t. T t t) \<Longrightarrow> moves T (bindE m f)"
  unfolding moves_def by (metis bindE_eqD)

lemma moves_readers [simp]:
  "moves (=) sim_list_profiles" "moves (=) (sim_profile_value a)" "moves (=) (sim_up a)"
proof -
  show "moves (=) sim_list_profiles"
    by (auto simp: sim_list_profiles_def moves_def injecting_def returnE_def Let_def split: if_splits)
  show "moves (=) (sim_profile_value a)" "moves (=) (sim_up a)"
    unfolding sim_profile_value_def sim_up_def Let_def
    by (auto intro!: moves_bind moves_injecting)
qed

lemma run_profile_runner:
  "run (profile_runner U) c t w = sim_execute c (w\<lparr>sim_commands := sim_commands w @ [(c, t)]\<rparr>)"
  "run_with_secret (profile_runner U) c p t w =
     sim_execute c (w\<lparr>sim_secret_commands := sim_secret_commands w @ [(c, p, t)]\<rparr>)"
  by (simp_all add: profile_runner_def)

lemma moves_neutral:
  assumes "neutral_command c"
  shows "moves (=) (sim_execute c)"
  using assms unfolding neutral_command_def
  by (auto simp: sim_execute_systemctl sim_execute_nmcli sim_nmcli_neutral sim_nmcli_changing)

lemma moves_identity:
  assumes "i \<in> profile_names"
  shows "moves (\<lambda>t t'. t' = t \<or> t' = rename_profile u i t) (sim_modify (args_set_identity u i))"
proof -
  let ?T = "\<lambda>t t'. t' = t \<or> t' = rename_profile u i t"
  have not_id: "take 2 (drop 2 (args_set_identity u i)) \<noteq> [lit ''id'', PENDING_PROFILE]"
    by (simp add: args_set_identity_def)
  have items: "item (args_set_identity u i) 3 = returnE u" "item (args_set_identity u i) 5 = returnE i"
    "item (args_set_identity u i) 7 = returnE (lit ''no'')"
    by (auto simp: item_def args_set_identity_def)
  have "moves ?T (bindE (sim_profile u) (\<lambda>p. sim_done (\<lambda>w. w\<lparr>sim_profiles :=
      AList.update u (p\<lparr>prof_id := i, prof_autoconnect := lit ''no''\<rparr>) (sim_profiles w)\<rparr>)))"
    unfolding moves_def
  proof (intro allI impI)
    fix w r w' assume I: "sim_invar w" and m: "bindE (sim_profile u) (\<lambda>p. sim_done (\<lambda>w. w\<lparr>sim_profiles :=
      AList.update u (p\<lparr>prof_id := i, prof_autoconnect := lit ''no''\<rparr>) (sim_profiles w)\<rparr>)) w = (r, w')"
    show "sim_invar w' \<and> ?T (sim_table w) (sim_table w')"
    proof (cases "sim_table w u")
      case None
      with m I show ?thesis by (auto simp: sim_profile_def sim_table_def bindE_def)
    next
      case (Some p)
      with m have "w' = w\<lparr>sim_profiles := AList.update u (p\<lparr>prof_id := i, prof_autoconnect := lit ''no''\<rparr>) (sim_profiles w)\<rparr>"
        by (auto simp: sim_profile_def sim_table_def bindE_def sim_done_def)
      moreover from Some I assms have "profile_ok u (p\<lparr>prof_id := i, prof_autoconnect := lit ''no''\<rparr>)"
        by (simp add: sim_invar_iff profile_ok_def)
      ultimately show ?thesis
        using sim_invar_updates(1) [OF I] Some by (simp add: sim_table_def rename_profile_def)
    qed
  qed
  then have "moves ?T (injecting l (bindE (sim_profile u) (\<lambda>p. sim_done (\<lambda>w. w\<lparr>sim_profiles :=
      AList.update u (p\<lparr>prof_id := i, prof_autoconnect := lit ''no''\<rparr>) (sim_profiles w)\<rparr>))))" for l
    by (rule moves_injecting) simp
  moreover have "moves (=) (sim_modify_label u i)"
    by (simp add: sim_modify_label_def)
  ultimately show ?thesis
    by (simp add: sim_modify_def not_id items moves_bind)
qed

lemma sim_delete_uuid:
  "sim_delete (args_delete_uuid u) =
     (let pop = sim_done (\<lambda>w. w\<lparr>sim_profiles := AList.delete u (sim_profiles w)\<rparr>)
      in if u = OLD_PROFILE_UUID then injecting ''delete_old'' pop else pop)"
  by (simp add: sim_delete_def args_delete_uuid_def)

lemma sim_delete_id:
  "sim_delete (args_delete_id v) =
     sim_done (\<lambda>w. w\<lparr>sim_profiles := filter (\<lambda>(u, p). prof_id p \<noteq> v) (sim_profiles w)\<rparr>)"
  by (simp add: sim_delete_def args_delete_id_def)

lemma upt_32: "[0..<32] = [0::nat, 1, 2, 3, 4, 5, 6, 7, 8, 9, 10, 11, 12, 13, 14, 15, 16, 17, 18, 19,
    20, 21, 22, 23, 24, 25, 26, 27, 28, 29, 30, 31]"
  by (simp add: upt_conv_Cons)

lemma uuid_chars:
  "OLD_PROFILE_UUID = [49, 49, 49, 49, 49, 49, 49, 49, 45, 49, 49, 49, 49, 45, 52, 49, 49, 49, 45, 56, 49, 49, 49, 45, 49, 49, 49, 49, 49, 49, 49, 49, 49, 49, 49, 49]"
  "NEW_PROFILE_UUID = [50, 50, 50, 50, 50, 50, 50, 50, 45, 50, 50, 50, 50, 45, 52, 50, 50, 50, 45, 56, 50, 50, 50, 45, 50, 50, 50, 50, 50, 50, 50, 50, 50, 50, 50, 50]"
  by (simp_all add: OLD_PROFILE_UUID_def NEW_PROFILE_UUID_def lit_def)

lemma uuid_values:
  "py_int U 16 (filter (\<lambda>c. c \<noteq> 45) OLD_PROFILE_UUID) = Inr 0x11111111111141118111111111111111"
  "py_int U 16 (filter (\<lambda>c. c \<noteq> 45) NEW_PROFILE_UUID) = Inr 0x22222222222242228222222222222222"
  by (simp_all add: uuid_chars py_int_def Let_def ascii_decimal_def lstrip_by_def rstrip_by_def
        is_cspace_def digit_value_def)

lemma uuid_texts:
  "format_uuid 0x11111111111141118111111111111111 = OLD_PROFILE_UUID"
  "format_uuid 0x22222222222242228222222222222222 = NEW_PROFILE_UUID"
  by (simp_all add: uuid_chars format_uuid_def hex32_def hex_digit_def upt_32 Let_def)

lemma test_uuids:
  "canonical_uuid U OLD_PROFILE_UUID = Inr OLD_PROFILE_UUID"
  "canonical_uuid U NEW_PROFILE_UUID = Inr NEW_PROFILE_UUID"
proof -
  have strip: "rstrip_by (\<lambda>c. c = 123 \<or> c = 125) (lstrip_by (\<lambda>c. c = 123 \<or> c = 125) OLD_PROFILE_UUID) = OLD_PROFILE_UUID"
    "rstrip_by (\<lambda>c. c = 123 \<or> c = 125) (lstrip_by (\<lambda>c. c = 123 \<or> c = 125) NEW_PROFILE_UUID) = NEW_PROFILE_UUID"
    by (rule strip_by_id; simp add: uuid_chars)+
  have "length (filter (\<lambda>c. c \<noteq> 45) OLD_PROFILE_UUID) = 32" "length (filter (\<lambda>c. c \<noteq> 45) NEW_PROFILE_UUID) = 32"
    by (simp_all add: uuid_chars)
  then show "canonical_uuid U OLD_PROFILE_UUID = Inr OLD_PROFILE_UUID"
    "canonical_uuid U NEW_PROFILE_UUID = Inr NEW_PROFILE_UUID"
    by (simp_all add: canonical_uuid_def strip Let_def uuid_values uuid_texts)
qed

lemma names_plain:
  assumes "n \<in> profile_names"
  shows "py_strip n = n" "\<forall>c \<in> set n. \<not> is_linebreak c"
  using assms
  by (auto simp: profile_names_def SAVED_PROFILE_def PENDING_PROFILE_def PREVIOUS_PROFILE_def lit_def
        py_strip_def py_isspace_def is_linebreak_def lstrip_by_def rstrip_by_def)

lemma uuids_plain:
  "u \<in> {OLD_PROFILE_UUID, NEW_PROFILE_UUID} \<Longrightarrow> 58 \<notin> set u \<and> (\<forall>c \<in> set u. \<not> is_linebreak c)"
  by (auto simp: uuid_chars is_linebreak_def)


section \<open>The interpretations\<close>

definition sim_names :: "(pstr \<times> profile) list \<Rightarrow> (pstr \<times> pstr) list" where
  "sim_names t = map (\<lambda>(u, p). (u, prof_id p)) t"

lemma sim_names_listing:
  "profile_listing (sim_names t) = concat (map (\<lambda>(u, p). (u @ 58 # prof_id p) @ [10]) t)"
  by (simp add: profile_listing_def sim_names_def comp_def split_def)

lemma sim_names_ok:
  assumes d: "distinct (map fst t)" and ok: "\<forall>(u, p) \<in> set t. profile_ok u p"
  shows "listing_ok U (map_of t) (sim_names t)"
proof -
  have "map_of (sim_names t) u = map_option prof_id (map_of t u)" for u
    by (simp add: sim_names_def map_of_map)
  moreover have "map fst (sim_names t) = map fst t"
    by (simp add: sim_names_def comp_def split_def)
  moreover have "canonical_uuid U u = Inr u \<and> 58 \<notin> set u \<and> (\<forall>c \<in> set u \<union> set n. \<not> is_linebreak c)"
    if mem: "(u, n) \<in> set (sim_names t)" for u n
  proof -
    from mem ok obtain p where "profile_ok u p" "n = prof_id p" by (auto simp: sim_names_def)
    then have "u \<in> {OLD_PROFILE_UUID, NEW_PROFILE_UUID}" "n \<in> profile_names"
      by (simp_all add: profile_ok_def)
    with test_uuids uuids_plain names_plain(2) show ?thesis by blast
  qed
  ultimately show ?thesis using d by (auto simp: listing_ok_def)
qed

lemma sim_listing:
  assumes I: "sim_invar w" and run: "sim_list_profiles w = (Inr res, w')" "returncode res = 0"
  shows "\<exists>l. stdout res = profile_listing l \<and> listing_ok U (sim_table w) l"
proof (intro exI conjI)
  from run show "stdout res = profile_listing (sim_names (sim_profiles w))"
    by (auto simp: sim_list_profiles_def injecting_def returnE_def sim_names_listing Let_def
        split: if_splits)
  from I have "\<forall>(u, p) \<in> set (sim_profiles w). profile_ok u p"
    by (fastforce simp: sim_invar_def profile_ok_def)
  with I show "listing_ok U (sim_table w) (sim_names (sim_profiles w))"
    unfolding sim_table_def by (intro sim_names_ok) (simp_all add: sim_invar_def)
qed

lemma sim_property:
  assumes "sim_profile_value (args_property u p) w = (Inr res, w')" "returncode res = 0"
    and "p \<noteq> lit ''802-11-wireless.ssid''"
  shows "\<exists>q. sim_table w u = Some q \<and>
    stdout res = (if p = lit ''connection.id'' then prof_id q else prof_autoconnect q)"
  using assms
  by (auto simp: sim_profile_value_def args_property_def item_def sim_profile_def sim_table_def
      injecting_def returnE_def bindE_def Let_def split: option.splits if_splits)

lemma moves_run:
  assumes "moves T (sim_execute c)"
  shows "moves T (run (profile_runner U) c t)" "moves T (run_with_secret (profile_runner U) c p t)"
proof -
  have "sim_invar w' \<and> T (sim_table w) (sim_table w')"
    if "sim_invar w" "run (profile_runner U) c t w = (r, w')" for w r w'
    using movesD [OF assms, of "w\<lparr>sim_commands := sim_commands w @ [(c, t)]\<rparr>" r w'] that
    by (simp add: run_profile_runner)
  moreover have "sim_invar w' \<and> T (sim_table w) (sim_table w')"
    if "sim_invar w" "run_with_secret (profile_runner U) c p t w = (r, w')" for w r w'
    using movesD [OF assms, of "w\<lparr>sim_secret_commands := sim_secret_commands w @ [(c, p, t)]\<rparr>" r w'] that
    by (simp add: run_profile_runner)
  ultimately show "moves T (run (profile_runner U) c t)" "moves T (run_with_secret (profile_runner U) c p t)"
    unfolding moves_def by blast+
qed

lemma moves_delete_pending:
  "moves (\<lambda>t t'. t' \<subseteq>\<^sub>m t \<and> (\<forall>u p. t u = Some p \<and> prof_id p \<noteq> v \<longrightarrow> t' u = Some p))
     (sim_delete (args_delete_id v))"
  unfolding moves_def
proof (intro allI impI)
  fix w r w' assume I: "sim_invar w" and "sim_delete (args_delete_id v) w = (r, w')"
  then have w': "w' = w\<lparr>sim_profiles := filter (\<lambda>(u, p). prof_id p \<noteq> v) (sim_profiles w)\<rparr>"
    by (simp add: sim_delete_id sim_done_def)
  from I have d: "distinct (map fst (sim_profiles w))" by (simp add: sim_invar_def)
  then have d': "distinct (map fst (filter (\<lambda>(u, p). prof_id p \<noteq> v) (sim_profiles w)))"
    by (rule distinct_map_filter)
  have "sim_table w' u = Some p \<longleftrightarrow> sim_table w u = Some p \<and> prof_id p \<noteq> v" for u p
    using d d' by (auto simp: sim_table_def w')
  moreover from I d' have "sim_invar w'"
    by (auto simp: sim_invar_def w')
  ultimately show "sim_invar w' \<and> sim_table w' \<subseteq>\<^sub>m sim_table w \<and>
      (\<forall>u p. sim_table w u = Some p \<and> prof_id p \<noteq> v \<longrightarrow> sim_table w' u = Some p)"
    by (auto simp: map_le_def dom_def)
qed

lemma moves_add:
  "moves (\<lambda>t t'. t NEW_PROFILE_UUID = None \<longrightarrow> t' = t \<or>
       (\<exists>u p. t u = None \<and> prof_id p = PENDING_PROFILE \<and> t' = t(u \<mapsto> p)))
     (sim_nmcli (args_add_pending s))"
proof -
  let ?T = "\<lambda>t t'. t NEW_PROFILE_UUID = None \<longrightarrow> t' = t \<or>
       (\<exists>u p. t u = None \<and> prof_id p = PENDING_PROFILE \<and> t' = t(u \<mapsto> p))"
  let ?new = "\<lparr>prof_id = PENDING_PROFILE, prof_autoconnect = lit ''no'', prof_ssid = lit ''New''\<rparr>"
  have ok: "profile_ok NEW_PROFILE_UUID ?new" by (simp add: profile_ok_def profile_names_def)
  have "prof_id ?new = PENDING_PROFILE" by simp
  then have "moves ?T (sim_done (\<lambda>w. w\<lparr>sim_profiles := AList.update NEW_PROFILE_UUID ?new (sim_profiles w)\<rparr>))"
    unfolding moves_def
  proof (intro allI impI conjI)
    fix w r w' assume "sim_invar w"
      and "sim_done (\<lambda>w. w\<lparr>sim_profiles := AList.update NEW_PROFILE_UUID ?new (sim_profiles w)\<rparr>) w = (r, w')"
    then have "sim_invar w'" and table: "sim_table w' = (sim_table w)(NEW_PROFILE_UUID \<mapsto> ?new)"
      using sim_invar_updates(1) [OF _ ok] by (auto simp: sim_done_def sim_table_def)
    then show "sim_invar w'" by simp
    assume "sim_table w NEW_PROFILE_UUID = None"
    with table \<open>prof_id ?new = PENDING_PROFILE\<close>
    show "sim_table w' = sim_table w \<or>
        (\<exists>u p. sim_table w u = None \<and> prof_id p = PENDING_PROFILE \<and> sim_table w' = (sim_table w)(u \<mapsto> p))"
      by blast
  qed
  then have "moves ?T sim_add_pending"
    unfolding sim_add_pending_def by (rule moves_injecting) simp
  moreover have "moves ?T (returnE x)" for x :: command_result
    by (simp add: moves_def returnE_def)
  ultimately show ?thesis
    using sim_nmcli_add [of s] by auto
qed

lemma sim_delete_result:
  assumes "run (profile_runner U) (nmcli_command (args_delete_uuid u) n) t w = (Inr res, w')"
  shows "returncode res = 0 \<Longrightarrow> sim_table w' u = None"
    and "returncode res \<noteq> 0 \<Longrightarrow> sim_table w' = sim_table w"
  using assms
  by (auto simp: run_profile_runner sim_execute_nmcli sim_nmcli_changing sim_delete_uuid Let_def
      injecting_def returnE_def sim_done_def sim_table_def delete_conv' split: if_splits)

lemma moves_delete_uuid:
  "moves (\<lambda>t t'. t' = t \<or> t' = t(u := None)) (sim_delete (args_delete_uuid u))"
proof -
  have "moves (\<lambda>t t'. t' = t \<or> t' = t(u := None))
      (sim_done (\<lambda>w. w\<lparr>sim_profiles := AList.delete u (sim_profiles w)\<rparr>))"
    using sim_invar_updates(2) by (auto simp: moves_def sim_done_def sim_table_def delete_conv')
  then show ?thesis
    by (auto simp: sim_delete_uuid Let_def intro: moves_injecting)
qed

lemma sim_value:
  assumes I: "sim_invar w" and res: "returncode res = 0"
    and run: "run (profile_runner U) (nmcli_command (args_property u p) n) t w = (Inr res, w')"
    and p: "p = lit ''connection.id'' \<or> p = lit ''connection.autoconnect''"
  shows "\<exists>q. sim_table w u = Some q \<and>
    py_strip (stdout res) = (if p = lit ''connection.id'' then prof_id q else prof_autoconnect q)"
proof -
  from run p have "sim_profile_value (args_property u p)
      (w\<lparr>sim_commands := sim_commands w @ [(nmcli_command (args_property u p) n, t)]\<rparr>) = (Inr res, w')"
    by (auto simp: run_profile_runner sim_execute_nmcli sim_nmcli_neutral)
  from sim_property [OF this res] p obtain q where q: "sim_table w u = Some q"
    "stdout res = (if p = lit ''connection.id'' then prof_id q else prof_autoconnect q)" by auto
  with I have "profile_ok u q" by (auto simp: sim_invar_iff)
  moreover have "py_strip (lit ''no'') = lit ''no''"
    by (simp add: py_strip_def strip_by_id lit_def py_isspace_def)
  ultimately show ?thesis using q names_plain(1) by (auto simp: profile_ok_def)
qed

lemma profile_runner_meets: "nm_runner_stopping (profile_runner U) sim_table sim_invar sim_fresh"
proof
  fix w c t p r w' assume w: "sim_invar w" and c: "neutral_command c"
  show "sim_invar w' \<and> sim_table w' = sim_table w \<and> (sim_fresh w \<longrightarrow> sim_fresh w')"
    if "run (profile_runner U) c t w = (r, w')"
    using movesD [OF moves_run(1) [OF moves_neutral [OF c]] w that] by (simp add: sim_fresh_def)
  show "sim_invar w' \<and> sim_table w' = sim_table w"
    if "run_with_secret (profile_runner U) c p t w = (r, w')"
    using movesD [OF moves_run(2) [OF moves_neutral [OF c]] w that] by simp
next
  fix w u i t r w' assume w: "sim_invar w" "i \<in> {SAVED_PROFILE, PENDING_PROFILE, PREVIOUS_PROFILE}"
    and run: "run (profile_runner U) (nmcli_command (args_set_identity u i) 5) t w = (r, w')"
  then have i: "i \<in> profile_names" by (simp add: profile_names_def)
  have "moves (\<lambda>t t'. t' = t \<or> t' = rename_profile u i t) (sim_execute (nmcli_command (args_set_identity u i) 5))"
    using moves_identity [OF i] i by (simp add: sim_execute_nmcli sim_nmcli_changing)
  from movesD [OF moves_run(1) [OF this] w(1) run]
  show "sim_invar w' \<and> (sim_table w' = sim_table w \<or> sim_table w' = rename_profile u i (sim_table w))" .
next
  fix w u t r w' assume w: "sim_invar w"
    and run: "run (profile_runner U) (nmcli_command (args_delete_uuid u) 5) t w = (r, w')"
  have "moves (\<lambda>t t'. t' = t \<or> t' = t(u := None)) (sim_execute (nmcli_command (args_delete_uuid u) 5))"
    using moves_delete_uuid by (simp add: sim_execute_nmcli sim_nmcli_changing)
  from movesD [OF moves_run(1) [OF this] w run] sim_delete_result(1) run
  show "sim_invar w' \<and> (sim_table w' = sim_table w \<or> sim_table w' = (sim_table w)(u := None)) \<and>
         (\<forall>res. r = Inr res \<and> returncode res = 0 \<longrightarrow> sim_table w' u = None)"
    by blast
next
  fix w t r w' assume w: "sim_invar w"
    and run: "run (profile_runner U) (nmcli_command (args_delete_id PENDING_PROFILE) 5) t w = (r, w')"
  have "moves (\<lambda>t t'. t' \<subseteq>\<^sub>m t \<and> (\<forall>u p. t u = Some p \<and> prof_id p \<noteq> PENDING_PROFILE \<longrightarrow> t' u = Some p))
     (sim_execute (nmcli_command (args_delete_id PENDING_PROFILE) 5))"
    using moves_delete_pending [of PENDING_PROFILE] by (simp add: sim_execute_nmcli sim_nmcli_changing)
  from movesD [OF moves_run(1) [OF this] w run]
  have step: "sim_invar w'" "sim_table w' \<subseteq>\<^sub>m sim_table w"
      "\<forall>u p. sim_table w u = Some p \<and> prof_id p \<noteq> PENDING_PROFILE \<longrightarrow> sim_table w' u = Some p" by simp_all
  then have "sim_fresh w \<longrightarrow> sim_fresh w'"
    by (metis domIff map_le_implies_dom_le sim_fresh_def subsetD)
  with step show "sim_invar w' \<and> sim_table w' \<subseteq>\<^sub>m sim_table w \<and> (sim_fresh w \<longrightarrow> sim_fresh w') \<and>
      (\<forall>u p. sim_table w u = Some p \<and> prof_id p \<noteq> PENDING_PROFILE \<longrightarrow> sim_table w' u = Some p)"
    by blast
next
  fix w s t r w' assume w: "sim_invar w" "sim_fresh w"
    and run: "run (profile_runner U) (nmcli_command (args_add_pending s) 5) t w = (r, w')"
  have "moves (\<lambda>t t'. t NEW_PROFILE_UUID = None \<longrightarrow> t' = t \<or>
       (\<exists>u p. t u = None \<and> prof_id p = PENDING_PROFILE \<and> t' = t(u \<mapsto> p)))
     (sim_execute (nmcli_command (args_add_pending s) 5))"
    using moves_add [of s] by (simp only: sim_execute_nmcli)
  from movesD [OF moves_run(1) [OF this] w(1) run] w(2)
  show "sim_invar w' \<and> (sim_table w' = sim_table w \<or>
      (\<exists>u p. sim_table w u = None \<and> prof_id p = PENDING_PROFILE \<and> sim_table w' = (sim_table w)(u \<mapsto> p)))"
    by (auto simp: sim_fresh_def)
next
  fix w t w' and res :: command_result assume w: "sim_invar w" "returncode res = 0"
    and run: "run (profile_runner U) (nmcli_command args_list_profiles 2) t w = (Inr res, w')"
  from run have "sim_list_profiles (w\<lparr>sim_commands := sim_commands w @ [(nmcli_command args_list_profiles 2, t)]\<rparr>) = (Inr res, w')"
    by (simp add: run_profile_runner sim_execute_nmcli sim_nmcli_neutral)
  from sim_listing [OF _ this w(2)] w(1)
  show "\<exists>l. stdout res = profile_listing l \<and> listing_ok (profile_runner U) (sim_table w) l" by simp
next
  fix w u t w' and res :: command_result assume w: "sim_invar w" "returncode res = 0"
  show "\<exists>p. sim_table w u = Some p \<and> py_strip (stdout res) = prof_id p"
    if "run (profile_runner U) (nmcli_command (args_property u (lit ''connection.id'')) 2) t w = (Inr res, w')"
    using sim_value [OF w that] by simp
  show "\<exists>p. sim_table w u = Some p \<and> py_strip (stdout res) = prof_autoconnect p"
    if "run (profile_runner U) (nmcli_command (args_property u (lit ''connection.autoconnect'')) 2) t w = (Inr res, w')"
    using sim_value [OF w that] by simp
next
  fix w u t w' and res :: command_result assume "returncode res \<noteq> 0"
    "run (profile_runner U) (nmcli_command (args_delete_uuid u) 5) t w = (Inr res, w')"
  then show "sim_table w' = sim_table w" using sim_delete_result(2) by blast
qed

interpretation contract: nm_runner_stopping "profile_runner U" sim_table sim_invar sim_fresh for U
  by (rule profile_runner_meets)

end
