(* ===== verification/Profile_Watch.thy ===== *)
theory Profile_Watch
  imports Profiles
begin

text \<open>
  A runner that is watched for one event: a deletion of the saved network, or of its backup, that takes effect and is reported as
  failed, as when the answer of \<^verbatim>\<open>nmcli\<close> does not arrive in time. Watching changes nothing; until the event, the
  watched runner does what the runner does that is stopped at the event, which keeps the saved network.
\<close>

named_theorems tracks_rules \<open>how the watched, the plain and the stopped computation go together\<close>

section \<open>The event\<close>

definition deletion_lost ::
  "('w \<Rightarrow> profile_table) \<Rightarrow> pstr list \<Rightarrow> 'w \<Rightarrow> exn + command_result \<Rightarrow> 'w \<Rightarrow> bool" where
  "deletion_lost profiles c w r w' \<longleftrightarrow>
     (\<exists>u. c = nmcli_command (args_delete_uuid u) 5 \<and> kept u (profiles w) \<and> profiles w' u = None) \<and>
     (\<exists>res. r = Inr res \<and> returncode res \<noteq> 0)"

text \<open>The flag says that the event has happened.\<close>

definition watching :: "('w \<Rightarrow> profile_table) \<Rightarrow> 'w runner \<Rightarrow> (bool \<times> 'w) runner" where
  "watching profiles R =
     \<lparr>ucd_upper = ucd_upper R, ucd_casefold = ucd_casefold R, ucd_decimal = ucd_decimal R,
      run = (\<lambda>c t (lost, w). case run R c t w of (r, w') \<Rightarrow> (r, lost \<or> deletion_lost profiles c w r w', w')),
      run_with_secret = (\<lambda>c p t (lost, w). case run_with_secret R c p t w of (r, w') \<Rightarrow> (r, lost, w'))\<rparr>"

definition stopping :: "('w \<Rightarrow> profile_table) \<Rightarrow> 'w runner \<Rightarrow> 'w runner" where
  "stopping profiles R = R\<lparr>run := (\<lambda>c t w.
     case run R c t w of (r, w') \<Rightarrow> (if deletion_lost profiles c w r w' then Inl OtherException else r, w'))\<rparr>"

section \<open>Runners that report less\<close>

text \<open>What the operations read of the Unicode tables of a runner.\<close>

lemma same_tables:
  assumes "ucd_upper U = ucd_upper V" "ucd_casefold U = ucd_casefold V" "ucd_decimal U = ucd_decimal V"
  shows "rank_networks U = rank_networks V" "parse_profile_list U = parse_profile_list V" "listing_ok U = listing_ok V"
proof -
  have tabled: "py_upper U = py_upper V" "py_casefold U = py_casefold V" "ascii_decimal U = ascii_decimal V"
    by (rule ext, simp only: py_upper_def py_casefold_def ascii_decimal_def assms)+
  then have int: "py_int U = py_int V" by (intro ext) (simp only: py_int_def)
  have security: "classify_security U = classify_security V" by (rule ext) (simp only: classify_security_def tabled)
  have point: "parse_access_point U = parse_access_point V"
    by (rule ext) (simp only: parse_access_point_def int security)
  have uuid: "canonical_uuid U = canonical_uuid V" by (rule ext) (simp only: canonical_uuid_def int)
  have "collect_strongest U kept lines = collect_strongest V kept lines" for kept lines
    by (induction lines arbitrary: kept) (simp_all add: point split: option.split)
  moreover have "scan_key U = scan_key V" by (rule ext) (simp only: scan_key_def tabled)
  ultimately show "rank_networks U = rank_networks V" by (intro ext) (simp only: rank_networks_def)
  have "matching_uuids U i lines = matching_uuids V i lines" for i lines
    by (induction lines) (simp_all only: matching_uuids.simps uuid)
  then show "parse_profile_list U = parse_profile_list V" by (intro ext) (simp only: parse_profile_list_def)
  show "listing_ok U = listing_ok V" by (intro ext) (simp only: listing_ok_def uuid)
qed

text \<open>
  A runner with the same effects that reports less of them, or is more often reported to fail, provides the
  interface as well, also on worlds that satisfy a further predicate that the commands keep.
\<close>

lemma nm_runner_less:
  assumes "nm_runner R profiles invar fresh"
    and tables: "ucd_upper B = ucd_upper R" "ucd_casefold B = ucd_casefold R" "ucd_decimal B = ucd_decimal R"
    and less: "\<And>c t w r w'. run B c t w = (r, w') \<Longrightarrow>
      \<exists>r0. run R c t w = (r0, w') \<and> (r = r0 \<or> (\<forall>res. r = Inr res \<longrightarrow> returncode res \<noteq> 0))"
    and secret: "run_with_secret B = run_with_secret R"
    and keep: "\<And>c t. keeps J (run R c t)" "\<And>c p t. keeps J (run_with_secret R c p t)"
  shows "nm_runner B profiles (\<lambda>w. invar w \<and> J w) fresh"
proof
  note laws = nm_runner.neutral [OF assms(1)] nm_runner.secret [OF assms(1)] nm_runner.set_identity [OF assms(1)]
    nm_runner.delete_uuid [OF assms(1)] nm_runner.delete_pending [OF assms(1)] nm_runner.add_pending [OF assms(1)]
  have J: "J w'" if "J w" "run B c t w = (r, w')" for w c t r w'
    using less [OF that(2)] keepsD [OF keep(1) that(1)] by blast
  have done_runs: "run R c t w = (Inr res, w')" if "run B c t w = (Inr res, w')" "returncode res = 0" for c t w res w'
    using less [OF that(1)] that(2) by auto
  fix w c t p r w' assume w: "invar w \<and> J w"
  show "(invar w' \<and> J w') \<and> profiles w' = profiles w \<and> (fresh w \<longrightarrow> fresh w')"
    if "neutral_command c" "run B c t w = (r, w')"
    using w J [OF _ that(2)] less [OF that(2)] laws(1) [OF _ that(1)] by blast
  show "(invar w' \<and> J w') \<and> profiles w' = profiles w"
    if "neutral_command c" "run_with_secret B c p t w = (r, w')"
    using w that laws(2) keepsD [OF keep(2)] unfolding secret by blast
  show "(invar w' \<and> J w') \<and> (profiles w' = profiles w \<or> profiles w' = rename_profile u i (profiles w))"
    if "i \<in> {SAVED_PROFILE, PENDING_PROFILE, PREVIOUS_PROFILE}"
      "run B (nmcli_command (args_set_identity u i) 5) t w = (r, w')" for u i
    using w J [OF _ that(2)] less [OF that(2)] laws(3) [OF _ that(1)] by blast
  show "(invar w' \<and> J w') \<and> (profiles w' = profiles w \<or> profiles w' = (profiles w)(u := None)) \<and>
      (\<forall>res. r = Inr res \<and> returncode res = 0 \<longrightarrow> profiles w' u = None)"
    if "run B (nmcli_command (args_delete_uuid u) 5) t w = (r, w')" for u
  proof -
    from less [OF that] obtain r0 where r0: "run R (nmcli_command (args_delete_uuid u) 5) t w = (r0, w')"
      "r = r0 \<or> (\<forall>res. r = Inr res \<longrightarrow> returncode res \<noteq> 0)" by blast
    with laws(4) [OF _ r0(1)] w J [OF _ that] show ?thesis by blast
  qed
  show "(invar w' \<and> J w') \<and> profiles w' \<subseteq>\<^sub>m profiles w \<and> (fresh w \<longrightarrow> fresh w') \<and>
      (\<forall>u p. profiles w u = Some p \<and> prof_id p \<noteq> PENDING_PROFILE \<longrightarrow> profiles w' u = Some p)"
    if "run B (nmcli_command (args_delete_id PENDING_PROFILE) 5) t w = (r, w')"
    using w J [OF _ that] less [OF that] laws(5) by blast
  show "(invar w' \<and> J w') \<and> (profiles w' = profiles w \<or>
      (\<exists>u p. profiles w u = None \<and> prof_id p = PENDING_PROFILE \<and> profiles w' = (profiles w)(u \<mapsto> p)))"
    if "fresh w" "run B (nmcli_command (args_add_pending s) 5) t w = (r, w')" for s
    using w J [OF _ that(2)] less [OF that(2)] laws(6) [OF _ that(1)] by blast
  fix res :: command_result assume res: "returncode res = 0"
  show "\<exists>l. stdout res = profile_listing l \<and> listing_ok B (profiles w) l"
    if "run B (nmcli_command args_list_profiles 2) t w = (Inr res, w')"
    using nm_runner.listing [OF assms(1) _ done_runs [OF that res] res] w same_tables(3) [OF tables] by simp
  show "\<exists>p. profiles w u = Some p \<and> py_strip (stdout res) = prof_id p"
    if "run B (nmcli_command (args_property u (lit ''connection.id'')) 2) t w = (Inr res, w')" for u
    using nm_runner.identity [OF assms(1) _ done_runs [OF that res] res] w by blast
  show "\<exists>p. profiles w u = Some p \<and> py_strip (stdout res) = prof_autoconnect p"
    if "run B (nmcli_command (args_property u (lit ''connection.autoconnect'')) 2) t w = (Inr res, w')" for u
    using nm_runner.autoconnect [OF assms(1) _ done_runs [OF that res] res] w by blast
qed

section \<open>The stopped runner\<close>

lemma run_stopping: "run (stopping profiles R) c t w =
    (case run R c t w of (r, w') \<Rightarrow> (if deletion_lost profiles c w r w' then Inl OtherException else r, w'))"
  "run_with_secret (stopping profiles R) = run_with_secret R"
  by (simp_all add: stopping_def)

lemma stopping_meets:
  assumes "nm_runner R profiles invar fresh"
  shows "nm_runner_stopping (stopping profiles R) profiles invar fresh"
proof (rule nm_runner_stopping.intro)
  have "nm_runner (stopping profiles R) profiles (\<lambda>w. invar w \<and> True) fresh"
  proof (rule nm_runner_less [OF assms])
    show "\<exists>r0. run R c t w = (r0, w') \<and> (r = r0 \<or> (\<forall>res. r = Inr res \<longrightarrow> returncode res \<noteq> 0))"
      if "run (stopping profiles R) c t w = (r, w')" for c t w r w'
      using that by (cases "run R c t w") (auto simp: run_stopping split: if_splits)
  qed (simp_all add: stopping_def keeps_def)
  then show "nm_runner (stopping profiles R) profiles invar fresh" by simp
  show "nm_runner_stopping_axioms (stopping profiles R) profiles invar"
  proof
    fix w u t w' and res :: command_result
    assume w: "invar w" "kept u (profiles w)" "returncode res \<noteq> 0"
      and run: "run (stopping profiles R) (nmcli_command (args_delete_uuid u) 5) t w = (Inr res, w')"
    from run have run': "run R (nmcli_command (args_delete_uuid u) 5) t w = (Inr res, w')"
      and "\<not> deletion_lost profiles (nmcli_command (args_delete_uuid u) 5) w (Inr res) w'"
      by (auto simp: run_stopping split: prod.splits if_splits)
    with w have "profiles w' u \<noteq> None" by (auto simp: deletion_lost_def)
    with nm_runner.delete_uuid [OF assms w(1) run'] show "profiles w' = profiles w" by auto
  qed
qed

section \<open>Watching changes nothing\<close>

text \<open>The watched computation, the one that it watches, and the one that is stopped at the event.\<close>

definition tracks :: "(bool \<times> 'w, 'a) io \<Rightarrow> ('w, 'a) io \<Rightarrow> ('w, 'a) io \<Rightarrow> bool" where
  "tracks m plain stopped \<longleftrightarrow>
     (\<forall>lost w r lost' w'. m (lost, w) = (r, lost', w') \<longrightarrow>
        (lost \<longrightarrow> lost') \<and> plain w = (r, w') \<and> (\<not> lost' \<longrightarrow> stopped w = (r, w')))"

lemma tracks_simple [tracks_rules]:
  "tracks (returnE x) (returnE x) (returnE x)" "tracks (raiseE e) (raiseE e) (raiseE e)" "tracks (liftR r) (liftR r) (liftR r)"
  by (simp_all add: tracks_def returnE_def raiseE_def liftR_def)

lemma tracks_bind [tracks_rules]:
  assumes "tracks m m0 m1" "\<And>x. tracks (f x) (f0 x) (f1 x)"
  shows "tracks (bindE m f) (bindE m0 f0) (bindE m1 f1)"
  unfolding tracks_def
proof (intro allI impI)
  fix lost w r lost' w' assume run: "bindE m f (lost, w) = (r, lost', w')"
  obtain x b v where m: "m (lost, w) = (x, b, v)" by (cases "m (lost, w)") auto
  with assms(1) have one: "lost \<longrightarrow> b" "m0 w = (x, v)" "\<not> b \<longrightarrow> m1 w = (x, v)"
    unfolding tracks_def by blast+
  show "(lost \<longrightarrow> lost') \<and> bindE m0 f0 w = (r, w') \<and> (\<not> lost' \<longrightarrow> bindE m1 f1 w = (r, w'))"
  proof (cases x)
    case (Inl e)
    with run m one show ?thesis by (auto simp: bindE_def)
  next
    case (Inr y)
    with run m have "f y (b, v) = (r, lost', w')" by (simp add: bindE_def)
    with assms(2) have "b \<longrightarrow> lost'" "f0 y v = (r, w')" "\<not> lost' \<longrightarrow> f1 y v = (r, w')" unfolding tracks_def by blast+
    with one Inr show ?thesis by (auto simp: bindE_def)
  qed
qed

lemma tracks_if [tracks_rules]:
  "tracks m m0 m1 \<Longrightarrow> tracks n n0 n1 \<Longrightarrow>
     tracks (if b then m else n) (if b then m0 else n0) (if b then m1 else n1)"
  by simp

lemma tracks_case_option [tracks_rules]:
  "tracks m m0 m1 \<Longrightarrow> (\<And>y. tracks (f y) (f0 y) (f1 y)) \<Longrightarrow>
     tracks (case x of None \<Rightarrow> m | Some y \<Rightarrow> f y) (case x of None \<Rightarrow> m0 | Some y \<Rightarrow> f0 y) (case x of None \<Rightarrow> m1 | Some y \<Rightarrow> f1 y)"
  by (cases x) simp_all

lemma tracks_case_prod [tracks_rules]:
  "(\<And>a b. tracks (f a b) (f0 a b) (f1 a b)) \<Longrightarrow> tracks (case x of (a, b) \<Rightarrow> f a b) (case x of (a, b) \<Rightarrow> f0 a b) (case x of (a, b) \<Rightarrow> f1 a b)"
  by (cases x) simp

lemma tracks_run [tracks_rules]:
  "tracks (run (watching profiles R) c t) (run R c t) (run (stopping profiles R) c t)"
  "tracks (run_with_secret (watching profiles R) c p t) (run_with_secret R c p t) (run_with_secret (stopping profiles R) c p t)"
  by (auto simp: tracks_def watching_def run_stopping split: prod.splits)

lemma watched_tables:
  "rank_networks (watching profiles R) = rank_networks R" "parse_profile_list (watching profiles R) = parse_profile_list R"
  "rank_networks (stopping profiles R) = rank_networks R" "parse_profile_list (stopping profiles R) = parse_profile_list R"
  by (rule same_tables(1) same_tables(2); simp add: watching_def stopping_def)+

lemma tracks_connect_station:
  "tracks (connect_station (watching profiles R) name password) (connect_station R name password)
     (connect_station (stopping profiles R) name password)"
  unfolding connect_station_def connect_candidate_def establish_candidate_def promote_pending_profile_def promote_candidate_def
    rollback_promotion_def activate_pending_def create_pending_profile_def scan_def enable_wifi_def stop_dhcp_def
    profile_uuid_of_def delete_profile_def delete_profile_uuid_def set_profile_identity_def profile_has_identity_def
    profile_property_def nmcli_def watched_tables Let_def
  by (intro tracks_rules)

lemma watched_attempt:
  assumes "nm_runner R profiles invar fresh" "invar w" "fresh w" "saved_available (profiles w)"
    and "connect_station (watching profiles R) name password (False, w) = (outcome, lost, w')"
  shows "connect_station R name password w = (outcome, w') \<and> (lost \<or> saved_available (profiles w'))"
proof -
  have plain: "connect_station R name password w = (outcome, w')"
    and stopped: "\<not> lost \<Longrightarrow> connect_station (stopping profiles R) name password w = (outcome, w')"
    using tracks_connect_station [of profiles R name password] assms(5) unfolding tracks_def by blast+
  note kept = nm_runner_stopping.connect_station_kept [OF stopping_meets [OF assms(1)]]
  have "saved_available (profiles w')" if "\<not> lost"
    using stopped [OF that] assms(2-4) hoare_Inl [OF kept] hoare_Inr [OF kept]
    by (cases outcome) blast+
  with plain show ?thesis by blast
qed

end
