(* ===== verification/Profile_Failure.thy ===== *)
theory Profile_Failure
  imports Profiles
begin

text \<open>
  What a failed attempt leaves where deletions take effect, whatever is reported of them: no network is saved but the one
  that was saved before. Where the deletion of the previous profile took effect and was not reported, none is.
\<close>

section \<open>Deletions that take effect\<close>

locale nm_runner_deleting = nm_runner +
  assumes deletes:
      "invar w \<Longrightarrow> run R (nmcli_command (args_delete_uuid u) 5) t w = (Inr res, w') \<Longrightarrow> profiles w' u = None"

text \<open>No profile but one is the saved network or its backup.\<close>

definition alone :: "pstr set \<Rightarrow> profile_table \<Rightarrow> bool" where
  "alone V t \<longleftrightarrow> (\<forall>v. kept v t \<longrightarrow> v \<in> V)"

lemma alone_rename: "alone V t \<Longrightarrow> v \<in> V \<or> i = PENDING_PROFILE \<Longrightarrow> alone V (rename_profile v i t)"
  unfolding alone_def kept_def rename_profile_def by (auto split: if_splits)

lemma alone_delete: "alone V t \<Longrightarrow> alone V (t(v := None))" "alone (insert v V) t \<Longrightarrow> alone V (t(v := None))"
  by (auto simp: alone_def kept_def split: if_splits)

lemma alone_submap: "alone V t \<Longrightarrow> t' \<subseteq>\<^sub>m t \<Longrightarrow> alone V t'"
  by (auto simp: alone_def kept_def map_le_def dom_def)

lemma alone_add: "alone V t \<Longrightarrow> prof_id p = PENDING_PROFILE \<Longrightarrow> alone V (t(u \<mapsto> p))"
  by (auto simp: alone_def kept_def split: if_splits)

lemma alone_more: "alone V t \<Longrightarrow> V \<subseteq> W \<Longrightarrow> alone W t"
  by (auto simp: alone_def)

section \<open>A failed attempt\<close>

text \<open>Before the attempt, and after one that failed.\<close>

definition old_network :: "pstr \<Rightarrow> profile_table \<Rightarrow> bool" where
  "old_network u t \<longleftrightarrow> alone {u} t \<and> kept u t"

definition not_replaced :: "pstr \<Rightarrow> bool \<times> pstr option \<times> pstr option \<Rightarrow> profile_table \<Rightarrow> bool" where
  "not_replaced u = (\<lambda>(ok, _, error) t. ok \<or>
     alone {u} t \<and> (kept u t \<or> error = Some (lit ''station_profile_persistence_failed'')))"

lemma old_not_replaced: "old_network u t \<Longrightarrow> not_replaced u (False, x) t"
  by (cases x) (simp add: old_network_def not_replaced_def)

lemma kept_changes:
  "kept u t \<Longrightarrow> v \<noteq> u \<Longrightarrow> kept u (t(v := None))"
  "kept u t \<Longrightarrow> t v = None \<Longrightarrow> kept u (t(v \<mapsto> p))"
  by (auto simp: kept_def)

context nm_runner_deleting
begin

abbreviation anywhere :: "'a \<Rightarrow> bool" where "anywhere \<equiv> on (\<lambda>_. True)"

lemma deleting_hoare:
  assumes "\<And>t. Q t \<Longrightarrow> S (t(u := None))"
  shows "hoare (on Q) (delete_profile_uuid R u) (\<lambda>_. on S) anywhere"
proof -
  have "hoare (on Q) (run R (nmcli_command (args_delete_uuid u) 5) 8) (\<lambda>_. on S) anywhere"
  proof (rule hoareI)
    show "anywhere w'" if "on Q w" "run R (nmcli_command (args_delete_uuid u) 5) 8 w = (Inl e, w')" for w e w'
      using that delete_uuid by (auto simp: on_def)
  next
    fix w res w' assume w: "on Q w" and run: "run R (nmcli_command (args_delete_uuid u) 5) 8 w = (Inr res, w')"
    then have "invar w'" "profiles w' = (profiles w)(u := None)"
      using delete_uuid [OF _ run] deletes [OF _ run] by (auto simp: on_def)
    with w assms show "on S w'" by (simp add: on_def)
  qed
  then show ?thesis
    unfolding delete_profile_uuid_def nmcli_def by (rule hoare_bind) (rule hoare_return)
qed

lemma any_error: "hoare P m Q (on E) \<Longrightarrow> hoare P m Q anywhere"
  by (erule hoare_weaken) (auto simp: on_def)

lemma promote_alone:
  assumes "previous \<in> {None, Some u}"
  shows "hoare (on (alone {u, pending})) (promote_pending_profile R pending previous) (\<lambda>_. on (alone {u, pending})) (on (alone {u, pending}))"
proof -
  let ?Q = "alone {u, pending}"
  have rename: "hoare (on ?Q) (set_profile_identity R v i) (\<lambda>_. on ?Q) (on ?Q)"
    if "v \<in> {u, pending}" "i \<in> {SAVED_PROFILE, PENDING_PROFILE, PREVIOUS_PROFILE}" for v i
    by (rule set_identity_hoare [OF that(2)]) (use that(1) alone_rename in blast)
  have check: "hoare (on ?Q) (profile_has_identity R v i) (\<lambda>_. on ?Q) (on ?Q)" for v i
    by (rule quiet_hoare [OF quiet_identity])
  have delete: "hoare (on ?Q) (delete_profile_uuid R v) (\<lambda>_. on ?Q) (on ?Q)" for v
    by (rule delete_uuid_hoare) (use alone_delete(1) in blast)
  have candidate: "hoare (on ?Q) (promote_candidate R pending v) (\<lambda>_. on ?Q) (on ?Q)" for v
    unfolding promote_candidate_def
    by (rule hoare_bind [OF rename] hoare_bind [OF check] hoare_if hoare_case_option hoare_return delete | simp)+
  show ?thesis
    unfolding promote_pending_profile_def using assms
    by (cases previous) (auto intro!: candidate hoare_bind [OF rename] hoare_bind [OF check] hoare_return)
qed

lemma rollback_alone:
  assumes "previous \<in> {None, Some u}"
  shows "hoare (on (alone {u, pending})) (rollback_promotion R pending previous) (\<lambda>_. on (alone {u})) anywhere"
proof -
  let ?Q = "alone {u, pending}"
  have rename: "hoare (on ?Q) (set_profile_identity R v i) (\<lambda>_. on ?Q) anywhere"
    if "v \<in> {u, pending}" "i \<in> {SAVED_PROFILE, PENDING_PROFILE, PREVIOUS_PROFILE}" for v i
    by (rule any_error, rule set_identity_hoare [OF that(2)]) (use that(1) alone_rename in blast)
  have delete: "hoare (on ?Q) (delete_profile_uuid R pending) (\<lambda>_. on (alone {u})) anywhere"
    by (rule deleting_hoare) (use alone_delete(2) [of pending "{u}"] in \<open>simp add: insert_commute\<close>)
  have restore: "hoare (on ?Q) (case previous of None \<Rightarrow> returnE ()
      | Some old \<Rightarrow> bindE (set_profile_identity R old SAVED_PROFILE) (\<lambda>_. returnE ())) (\<lambda>_. on ?Q) anywhere"
    using assms by (cases previous) (auto intro!: hoare_return hoare_bind [OF rename])
  show ?thesis
    unfolding rollback_promotion_def
    by (rule hoare_bind [OF rename] hoare_bind [OF restore] hoare_bind [OF delete] hoare_return | simp)+
qed

lemma establish_not_replaced:
  assumes "previous \<in> {None, Some u}" "u \<noteq> pending"
  shows "hoare (on (old_network u)) (establish_candidate R ap s p previous pending) (\<lambda>x. on (not_replaced u x)) anywhere"
proof -
  have activate: "hoare (on (old_network u)) (activate_pending R pending ap p) (\<lambda>_. on (old_network u)) anywhere"
    by (rule any_error [OF activate_pending_hoare]) assumption
  have discard: "hoare (on (old_network u)) (bindE (delete_profile_uuid R pending) (\<lambda>_. returnE (False, x))) (\<lambda>x. on (not_replaced u x)) anywhere" for x
  proof (rule hoare_bind [OF deleting_hoare [where S = "old_network u"]])
    show "old_network u (t(pending := None))" if "old_network u t" for t
      using that assms(2) by (auto simp: old_network_def alone_delete(1) kept_changes(1))
  qed (auto intro!: hoare_return old_not_replaced simp: on_def)
  have promote: "hoare (on (old_network u)) (promote_pending_profile R pending previous) (\<lambda>_. on (alone {u, pending})) anywhere"
    by (rule hoare_on_mono [OF any_error [OF promote_alone [OF assms(1)]]]) (auto simp: old_network_def alone_def)
  have rollback: "hoare (on (alone {u, pending})) (bindE (rollback_promotion R pending previous) (\<lambda>_.
      returnE (False, None, Some (lit ''station_profile_persistence_failed'')))) (\<lambda>x. on (not_replaced u x)) anywhere"
    by (rule hoare_bind [OF rollback_alone [OF assms(1)]]) (auto intro!: hoare_return simp: not_replaced_def on_def)
  show ?thesis
    unfolding establish_candidate_def
    by (rule hoare_bind [OF activate] hoare_bind [OF promote] hoare_if discard rollback hoare_return)+
      (auto simp: not_replaced_def on_def)
qed

lemma candidate_not_replaced:
  assumes "access_point_ok ap"
  shows "hoare (\<lambda>w. on (\<lambda>t. old_network u t \<and> sole previous SAVED_PROFILE t) w \<and> fresh w) (connect_candidate R ap s p previous)
     (\<lambda>x. on (not_replaced u x)) anywhere"
proof (cases "previous \<in> {None, Some u}")
  case False
  then have "\<not> (old_network u t \<and> sole previous SAVED_PROFILE t)" for t
    unfolding old_network_def alone_def kept_def sole_def by (cases previous) auto
  then show ?thesis by (intro hoare_empty) (auto simp: on_def)
next
  case True
  let ?Q = "old_network u"
  have submap: "?Q t'" if "?Q t" "t' \<subseteq>\<^sub>m t" "\<forall>u p. t u = Some p \<and> prof_id p \<noteq> PENDING_PROFILE \<longrightarrow> t' u = Some p" for t t'
    using that alone_submap kept_submap by (auto simp: old_network_def)
  have delete: "hoare (\<lambda>w. on ?Q w \<and> fresh w) (delete_profile R PENDING_PROFILE) (\<lambda>_ w. on ?Q w \<and> fresh w) anywhere"
    by (rule any_error, rule hoare_weaken [OF delete_pending_hoare [where Q = ?Q and S = ?Q and F = True]]) (auto intro: submap)
  have create: "hoare (\<lambda>w. on ?Q w \<and> fresh w) (create_pending_profile R ap) (\<lambda>_. on ?Q) anywhere"
    by (rule any_error, rule create_pending_hoare [OF _ _ assms]) (auto simp: old_network_def alone_add kept_changes(2))
  have lookup: "hoare (on ?Q) (profile_uuid_of R PENDING_PROFILE)
      (\<lambda>(ok, v). on (\<lambda>t. ?Q t \<and> (ok \<longrightarrow> sole v PENDING_PROFILE t))) anywhere"
    by (rule any_error [OF lookup_hoare])
  have discard: "hoare (on Q') (bindE (delete_profile R PENDING_PROFILE) (\<lambda>_. returnE (False, x))) (\<lambda>x. on (not_replaced u x)) anywhere"
    if "\<And>t. Q' t \<Longrightarrow> ?Q t" for x Q'
  proof (rule hoare_bind [OF any_error [OF discard_pending_hoare [where Q = Q' and S = ?Q]]])
    show "?Q t'" if "Q' t" "t' \<subseteq>\<^sub>m t" "\<forall>u p. t u = Some p \<and> prof_id p \<noteq> PENDING_PROFILE \<longrightarrow> t' u = Some p" for t t'
      using submap [OF _ that(2,3)] \<open>Q' t \<Longrightarrow> ?Q t\<close> that(1) by blast
  qed (auto intro!: hoare_return old_not_replaced simp: on_def)
  have establish: "hoare (on (\<lambda>t. ?Q t \<and> sole (Some pending) PENDING_PROFILE t))
      (establish_candidate R ap s p previous pending) (\<lambda>x. on (not_replaced u x)) anywhere" for pending
  proof (cases "u = pending")
    case True
    then have "\<not> (?Q t \<and> sole (Some pending) PENDING_PROFILE t)" for t
      unfolding old_network_def kept_def sole_def by (metis insert_iff option.inject profile_names_distinct singletonD)
    then show ?thesis by (intro hoare_empty) (simp add: on_def)
  next
    case False
    from establish_not_replaced [OF \<open>previous \<in> {None, Some u}\<close> False] show ?thesis by (rule hoare_on_mono) simp
  qed
  show ?thesis
    apply (rule hoare_weaken [where P = "\<lambda>w. on ?Q w \<and> fresh w"])
       apply (unfold connect_candidate_def)
       apply (rule hoare_bind [OF delete], rule hoare_bind [OF create], rule hoare_if, rule discard, assumption)
       apply (rule hoare_bind [OF lookup], rule hoare_case_prod, simp split: option.splits)
       apply (intro conjI impI allI; (rule establish)?)
        apply (rule discard, simp)+
      apply (auto simp: on_def)
    done
qed

lemma connect_station_not_replaced:
  "hoare (\<lambda>w. on (old_network u) w \<and> fresh w) (connect_station R name p) (\<lambda>x. on (not_replaced u x)) anywhere"
  by (rule connect_station_hoare [OF candidate_not_replaced]) (auto simp: on_def old_not_replaced)

lemma failed_attempt:
  assumes "invar w" "fresh w" "old_network u (profiles w)"
    and "connect_station R name password w = (Inr (False, x, error), w')" "profiles w' u = None"
  shows "error = Some (lit ''station_profile_persistence_failed'') \<and> \<not> saved_available (profiles w')"
proof -
  have "not_replaced u (False, x, error) (profiles w')"
    using hoare_Inr [OF connect_station_not_replaced _ assms(4), of u] assms(1-3) by (simp add: on_def)
  moreover have "\<not> kept u (profiles w')" using assms(5) by (simp add: kept_def)
  ultimately show ?thesis by (auto simp: not_replaced_def alone_def saved_available_def)
qed

end

end
