(* ===== verification/Profile_Loss.thy ===== *)
theory Profile_Loss
  imports Profile_Runner Profile_Watch Profile_Failure
begin

text \<open>
  A world in which the answer to one deletion is late. It is an instance of the interfaces of
  \<^verbatim>\<open>Profile_Watch\<close> and \<^verbatim>\<open>Profile_Failure\<close>, built on the simulated NetworkManager: the deletion of the
  previous profile takes effect, and the subprocess runner reports the status 124 of a command that has expired. The attempts are
  executed symbolically. Nothing here is code of the repository but the simulation.
\<close>

text \<open>
  With \<open>late\<close>, the answer to the deletion of the old profile is late, and a command that names a profile that does not exist
  ends with the status 10 of \<^verbatim>\<open>nmcli\<close>; without, this is the simulation of the contract tests.
\<close>

definition answering :: "ucd \<Rightarrow> bool \<Rightarrow> sim runner" where
  "answering U late = (profile_runner U)\<lparr>run := (\<lambda>command timeout w.
     case run (profile_runner U) command timeout w of
       (Inr result, w') \<Rightarrow>
         (Inr (if late \<and> command = nmcli_command (args_delete_uuid OLD_PROFILE_UUID) 5
               then \<lparr>returncode = 124, stdout = []\<rparr> else result), w')
     | (Inl e, w') \<Rightarrow> (if late \<and> e = KeyError then Inr \<lparr>returncode = 10, stdout = []\<rparr> else Inl e, w'))\<rparr>"

lemma answering_in_time: "answering U False = profile_runner U"
proof -
  have "run (answering U False) = run (profile_runner U)"
    by (intro ext) (simp add: answering_def split: prod.split sum.split)
  moreover have "answering U False = (profile_runner U)\<lparr>run := run (answering U False)\<rparr>" by (simp add: answering_def)
  ultimately show ?thesis by simp
qed

section \<open>Symbolic execution\<close>

definition yields ::
  "(sim, 'a) io \<Rightarrow> (pstr \<times> profile) list \<Rightarrow> 'a \<Rightarrow> (pstr \<times> profile) list \<Rightarrow> bool" where
  "yields m t x t' \<longleftrightarrow> (\<forall>w. sim_fail_at w = [] \<and> sim_profiles w = t \<longrightarrow>
     (\<exists>w'. m w = (Inr x, w') \<and> sim_fail_at w' = [] \<and> sim_profiles w' = t'))"

lemma yields_bind: "yields m t x t' \<Longrightarrow> yields (f x) t' y t'' \<Longrightarrow> yields (bindE m f) t y t''"
  unfolding yields_def by (metis bindE_apply(2))

lemma yields_return: "yields (returnE x) t x t"
  by (simp add: yields_def returnE_def)

lemma yields_liftR: "r = Inr x \<Longrightarrow> yields (liftR r) t x t"
  by (simp add: yields_def liftR_def)

lemma yields_run:
  assumes "yields (sim_execute c) t res t'"
  shows "yields (run (answering U late) c n) t
           (if late \<and> c = nmcli_command (args_delete_uuid OLD_PROFILE_UUID) 5
            then \<lparr>returncode = 124, stdout = []\<rparr> else res) t'"
    and "yields (run_with_secret (answering U late) c p n) t res t'"
proof -
  have 1: "\<exists>w'. sim_execute c (w\<lparr>sim_commands := l\<rparr>) = (Inr res, w') \<and> sim_fail_at w' = [] \<and> sim_profiles w' = t'"
    if "sim_fail_at w = []" "sim_profiles w = t" for w l
    using assms that unfolding yields_def by simp
  have 2: "\<exists>w'. sim_execute c (w\<lparr>sim_secret_commands := l\<rparr>) = (Inr res, w') \<and> sim_fail_at w' = [] \<and> sim_profiles w' = t'"
    if "sim_fail_at w = []" "sim_profiles w = t" for w l
    using assms that unfolding yields_def by simp
  show "yields (run (answering U late) c n) t
           (if late \<and> c = nmcli_command (args_delete_uuid OLD_PROFILE_UUID) 5
            then \<lparr>returncode = 124, stdout = []\<rparr> else res) t'"
    unfolding yields_def
  proof (intro allI impI)
    fix w :: sim assume "sim_fail_at w = [] \<and> sim_profiles w = t"
    with 1 [of w "sim_commands w @ [(c, n)]"] obtain w' where
      "sim_execute c (w\<lparr>sim_commands := sim_commands w @ [(c, n)]\<rparr>) = (Inr res, w')"
      "sim_fail_at w' = []" "sim_profiles w' = t'" by auto
    then show "\<exists>w'. run (answering U late) c n w =
        (Inr (if late \<and> c = nmcli_command (args_delete_uuid OLD_PROFILE_UUID) 5
              then \<lparr>returncode = 124, stdout = []\<rparr> else res), w') \<and>
        sim_fail_at w' = [] \<and> sim_profiles w' = t'"
      by (simp add: answering_def run_profile_runner)
  qed
  show "yields (run_with_secret (answering U late) c p n) t res t'"
    unfolding yields_def using 2 by (simp add: answering_def run_profile_runner)
qed

lemma yields_done: "(\<And>w. sim_profiles w = t \<Longrightarrow> sim_fail_at (f w) = sim_fail_at w \<and> sim_profiles (f w) = t') \<Longrightarrow>
    yields (sim_done f) t \<lparr>returncode = 0, stdout = []\<rparr> t'"
  by (simp add: yields_def sim_done_def)

lemma yields_injecting: "yields m t x t' \<Longrightarrow> yields (injecting l m) t x t'"
  by (simp add: yields_def injecting_def)

lemma yields_item: "i < length xs \<Longrightarrow> yields (item xs i) t (xs ! i) t"
  by (simp add: item_def yields_return)

lemma yields_nmcli:
  assumes "yields (sim_nmcli a) t res t'" "a \<noteq> args_delete_uuid OLD_PROFILE_UUID"
  shows "yields (nmcli (answering U late) a w n) t res t'"
proof -
  have "nmcli_command a w \<noteq> nmcli_command (args_delete_uuid OLD_PROFILE_UUID) 5"
    using assms(2) by (simp add: nmcli_command_def)
  with yields_run(1) [of "nmcli_command a w" t res t' U late n] assms(1) show ?thesis
    by (simp add: nmcli_def sim_execute_nmcli)
qed

section \<open>The attempt\<close>

definition profile_row :: "pstr \<Rightarrow> pstr \<Rightarrow> string \<Rightarrow> pstr \<times> profile" where
  "profile_row u i s = (u, \<lparr>prof_id = i, prof_autoconnect = lit ''no'', prof_ssid = lit s\<rparr>)"

lemma row_simps [simp]:
  "fst (profile_row u i s) = u" "prof_id (snd (profile_row u i s)) = i"
  "prof_autoconnect (snd (profile_row u i s)) = lit ''no''"
  by (simp_all add: profile_row_def)

lemma uuids_distinct [simp]: "OLD_PROFILE_UUID \<noteq> NEW_PROFILE_UUID" "NEW_PROFILE_UUID \<noteq> OLD_PROFILE_UUID"
  by (simp_all add: OLD_PROFILE_UUID_def NEW_PROFILE_UUID_def)

lemma scan_line:
  "rank_networks U (lit ''New:90:WPA2:'' @ [10]) =
     [\<lparr>ap_ssid = lit ''New'', ap_signal_percent = 90, ap_security = WPA_PERSONAL, ap_connected = False,
       ap_key_management = Some (lit ''wpa-psk'')\<rparr>]"
proof -
  have "lit ''New:90:WPA2:'' @ [10] = concat (map (\<lambda>l. l @ [10]) [lit ''New:90:WPA2:''])" by simp
  then have lines: "py_splitlines (lit ''New:90:WPA2:'' @ [10]) = [lit ''New:90:WPA2:'']"
    by (simp only:) (rule splitlines_unlines; simp add: lit_def is_linebreak_def)
  have split: "split_escaped_fields (lit ''New:90:WPA2:'') = [lit ''New'', lit ''90'', lit ''WPA2'', []]"
    by (simp add: split_escaped_fields_def lit_def)
  have ssid: "validate_ssid (JStr (lit ''New'')) = Inr (lit ''New'')"
    by (simp add: validate_ssid_iff ssid_ok_def lit_def is_surrogate_def is_scalar_def utf8_char_def)
  have signal: "py_int U 10 (lit ''90'') = Inr 90"
    by (simp add: py_int_def Let_def lit_def ascii_decimal_def lstrip_by_def rstrip_by_def
          is_cspace_def digit_value_def)
  have security: "classify_security U (lit ''WPA2'') = (WPA_PERSONAL, Some (lit ''wpa-psk''))"
    by (simp add: classify_security_def Let_def py_upper_def py_strip_def lstrip_by_def rstrip_by_def
          py_isspace_def contains_def lit_def)
  have "parse_access_point U (lit ''New:90:WPA2:'') =
      Some \<lparr>ap_ssid = lit ''New'', ap_signal_percent = 90, ap_security = WPA_PERSONAL, ap_connected = False,
       ap_key_management = Some (lit ''wpa-psk'')\<rparr>"
    unfolding parse_access_point_def split by (simp add: ssid signal security)
  then show ?thesis
    by (simp add: rank_networks_def lines keep_strongest_def MAX_NETWORKS_def)
qed

text \<open>The lookup of a profile in the listing of a table of the simulation.\<close>

lemma yields_lookup:
  assumes "\<forall>(u, p) \<in> set t. profile_ok u p" "distinct (map fst t)"
  shows "yields (profile_uuid_of (answering U late) i) t
    (let us = map fst (filter (\<lambda>(u, p). prof_id p = i) t) in
     if length us > 1 then (False, None) else (True, case us of [] \<Rightarrow> None | u # _ \<Rightarrow> Some u)) t"
proof -
  let ?out = "profile_listing (sim_names t)"
  have "yields sim_list_profiles t \<lparr>returncode = 0, stdout = ?out\<rparr> t"
    by (simp add: yields_def sim_list_profiles_def injecting_def Let_def sim_names_listing)
  then have list: "yields (nmcli (answering U late) args_list_profiles 2 3) t \<lparr>returncode = 0, stdout = ?out\<rparr> t"
    by (intro yields_nmcli) (simp_all add: sim_nmcli_neutral, simp add: args_list_profiles_def args_delete_uuid_def)
  have "map fst (filter (\<lambda>(u, n). n = i) (sim_names t)) = map fst (filter (\<lambda>(u, p). prof_id p = i) t)"
    by (induction t) (auto simp: sim_names_def)
  with parse_profile_list_listing [OF sim_names_ok [OF assms(2,1)], of "answering U late" i]
  have "parse_profile_list (answering U late) i ?out =
    (let us = map fst (filter (\<lambda>(u, p). prof_id p = i) t) in
     if length us > 1 then (False, None) else (True, case us of [] \<Rightarrow> None | u # _ \<Rightarrow> Some u))"
    by simp
  then show ?thesis
    unfolding profile_uuid_of_def
    by (intro yields_bind [OF list]) (simp add: yields_return)
qed

lemma yields_status:
  assumes "yields (sim_execute c) t \<lparr>returncode = 0, stdout = []\<rparr> t'"
    and "\<forall>u. c \<noteq> nmcli_command (args_delete_uuid u) 5"
  shows "yields (bindE (run (answering U late) c n) (\<lambda>result. returnE (returncode result = 0))) t True t'"
proof -
  have "yields (run (answering U late) c n) t \<lparr>returncode = 0, stdout = []\<rparr> t'"
    using yields_run(1) [OF assms(1)] assms(2) by simp
  then show ?thesis by (rule yields_bind) (simp add: yields_return)
qed

lemma yields_done_id: "yields (sim_done id) t \<lparr>returncode = 0, stdout = []\<rparr> t"
  by (simp add: yields_done)

lemma yields_simple:
  "yields (enable_wifi (answering U late)) t True t" "yields (stop_dhcp (answering U late)) t True t"
proof -
  show "yields (enable_wifi (answering U late)) t True t"
    unfolding enable_wifi_def nmcli_def
    by (rule yields_status) (simp add: sim_execute_nmcli sim_nmcli_neutral yields_done_id,
        simp add: nmcli_command_def args_radio_on_def args_delete_uuid_def)
  show "yields (stop_dhcp (answering U late)) t True t"
    unfolding stop_dhcp_def
    by (rule yields_status) (simp add: sim_execute_systemctl yields_done_id,
        simp add: nmcli_command_def systemctl_stop_dhcp_def SYSTEMCTL_def NMCLI_def)
qed

definition found_point :: access_point where
  "found_point = \<lparr>ap_ssid = lit ''New'', ap_signal_percent = 90, ap_security = WPA_PERSONAL,
     ap_connected = False, ap_key_management = Some (lit ''wpa-psk'')\<rparr>"

lemma yields_scan: "yields (scan (answering U late)) t [found_point] t"
proof -
  have "yields (nmcli (answering U late) args_scan 12 15) t \<lparr>returncode = 0, stdout = lit ''New:90:WPA2:'' @ [10]\<rparr> t"
    by (intro yields_nmcli) (simp_all add: sim_nmcli_neutral yields_return, simp add: args_scan_def args_delete_uuid_def)
  then show ?thesis
    unfolding scan_def
    by (intro yields_bind [OF yields_simple(1)]) (simp add: yields_bind yields_return scan_line found_point_def)
qed

lemma yields_delete_pending:
  "yields (delete_profile (answering U late) PENDING_PROFILE) t () (filter (\<lambda>(u, p). prof_id p \<noteq> PENDING_PROFILE) t)"
proof -
  have "yields (sim_nmcli (args_delete_id PENDING_PROFILE)) t \<lparr>returncode = 0, stdout = []\<rparr>
      (filter (\<lambda>(u, p). prof_id p \<noteq> PENDING_PROFILE) t)"
    by (simp add: sim_nmcli_changing sim_delete_id yields_done)
  then have "yields (nmcli (answering U late) (args_delete_id PENDING_PROFILE) 5 8) t \<lparr>returncode = 0, stdout = []\<rparr>
      (filter (\<lambda>(u, p). prof_id p \<noteq> PENDING_PROFILE) t)"
    by (rule yields_nmcli) (simp add: args_delete_id_def args_delete_uuid_def)
  then show ?thesis
    unfolding delete_profile_def by (rule yields_bind) (rule yields_return)
qed

lemma yields_delete_uuid:
  "yields (delete_profile_uuid (answering U late) u) t (\<not> late \<or> u \<noteq> OLD_PROFILE_UUID) (AList.delete u t)"
proof -
  have "yields (sim_execute (nmcli_command (args_delete_uuid u) 5)) t \<lparr>returncode = 0, stdout = []\<rparr> (AList.delete u t)"
    by (simp add: sim_execute_nmcli sim_nmcli_changing sim_delete_uuid Let_def yields_done yields_injecting)
  from yields_run(1) [OF this, of U late 8] show ?thesis
    unfolding delete_profile_uuid_def nmcli_def
    by (rule yields_bind) (auto simp: nmcli_command_def args_delete_uuid_def intro: yields_return)
qed

lemma yields_create:
  "yields (create_pending_profile (answering U late) found_point) t True
     (AList.update NEW_PROFILE_UUID (snd (profile_row NEW_PROFILE_UUID PENDING_PROFILE ''New'')) t)"
proof -
  let ?t = "AList.update NEW_PROFILE_UUID (snd (profile_row NEW_PROFILE_UUID PENDING_PROFILE ''New'')) t"
  have "sim_nmcli (args_add_pending (lit ''New'')) = sim_add_pending"
    by (simp add: sim_nmcli_def args_defs name_defs)
  then have "yields (sim_nmcli (args_add_pending (lit ''New''))) t \<lparr>returncode = 0, stdout = []\<rparr> ?t"
    by (simp add: sim_add_pending_def yields_injecting yields_done profile_row_def)
  then have add: "yields (nmcli (answering U late) (args_add_pending (lit ''New'')) 5 8) t \<lparr>returncode = 0, stdout = []\<rparr> ?t"
    by (rule yields_nmcli) (simp add: args_add_pending_def args_delete_uuid_def)
  have secure: "yields (nmcli (answering U late) (args_secure_pending (lit ''wpa-psk'')) 5 8) ?t \<lparr>returncode = 0, stdout = []\<rparr> ?t"
    by (rule yields_nmcli) (simp_all add: sim_nmcli_changing yields_done_id,
        simp add: args_secure_pending_def args_delete_uuid_def)
  show ?thesis
    unfolding create_pending_profile_def found_point_def
    by (simp, rule yields_bind [OF add]) (simp add: yields_bind [OF secure] yields_return)
qed

lemma yields_property:
  assumes "map_of t u = Some q" "p \<in> {lit ''connection.id'', lit ''connection.autoconnect''}"
  shows "yields (profile_property (answering U late) u p) t
    (Some (py_strip (if p = lit ''connection.id'' then prof_id q else prof_autoconnect q))) t"
proof -
  let ?v = "if p = lit ''connection.id'' then prof_id q else prof_autoconnect q"
  have "yields (sim_profile u) t q t"
    using assms(1) by (simp add: yields_def sim_profile_def)
  then have "yields (sim_profile_value (args_property u p)) t \<lparr>returncode = 0, stdout = ?v\<rparr> t"
    using assms(2)
    by (auto simp: sim_profile_value_def args_property_def item_def Let_def
        intro!: yields_bind yields_injecting yields_return)
  then have "yields (nmcli (answering U late) (args_property u p) 2 3) t \<lparr>returncode = 0, stdout = ?v\<rparr> t"
    using assms(2) by (intro yields_nmcli) (auto simp: sim_nmcli_neutral, auto simp: args_property_def args_delete_uuid_def)
  then show ?thesis
    unfolding profile_property_def by (rule yields_bind) (simp add: yields_return)
qed

lemma strip_no [simp]: "py_strip (lit ''no'') = lit ''no''"
  by (simp add: py_strip_def strip_by_id lit_def py_isspace_def)

lemma yields_identity:
  assumes "map_of t u = Some q" "profile_ok u q" "prof_id q = i"
  shows "yields (profile_has_identity (answering U late) u i) t True t"
proof -
  from assms(2,3) have q: "py_strip (prof_id q) = i" "prof_autoconnect q = lit ''no''"
    using names_plain(1) by (auto simp: profile_ok_def)
  have "yields (profile_property (answering U late) u (lit ''connection.id'')) t (Some i) t"
    using yields_property [OF assms(1), of "lit ''connection.id''" U late] q by simp
  moreover have "yields (profile_property (answering U late) u (lit ''connection.autoconnect'')) t (Some (lit ''no'')) t"
    using yields_property [OF assms(1), of "lit ''connection.autoconnect''" U late] q by simp
  ultimately show ?thesis
    unfolding profile_has_identity_def
    by (auto intro!: yields_bind [where y = True] simp: yields_return)
qed

lemma set_identity_not_delete: "args_set_identity u i \<noteq> args_delete_uuid v"
  by (simp add: args_set_identity_def args_delete_uuid_def)

lemma set_identity_items:
  "take 2 (drop 2 (args_set_identity u i)) \<noteq> [lit ''id'', PENDING_PROFILE]"
  "item (args_set_identity u i) 3 = returnE u" "item (args_set_identity u i) 5 = returnE i"
  "item (args_set_identity u i) 7 = returnE (lit ''no'')"
  by (auto simp: item_def args_set_identity_def)

lemma sim_set_identity:
  assumes "i \<in> profile_names"
  shows "sim_nmcli (args_set_identity u i) =
    bindE (sim_modify_label u i) (\<lambda>label. injecting label
      (bindE (sim_profile u) (\<lambda>p. sim_done (\<lambda>w. w\<lparr>sim_profiles :=
         AList.update u (p\<lparr>prof_id := i, prof_autoconnect := lit ''no''\<rparr>) (sim_profiles w)\<rparr>))))"
  by (simp add: sim_nmcli_changing assms sim_modify_def set_identity_items)

lemma yields_set_identity:
  assumes "map_of t u = Some q" "i \<in> profile_names" "sim_modify_label u i = returnE l"
  shows "yields (set_profile_identity (answering U late) u i) t True
    (AList.update u (q\<lparr>prof_id := i, prof_autoconnect := lit ''no''\<rparr>) t)"
proof -
  have "yields (sim_profile u) t q t"
    using assms(1) by (simp add: yields_def sim_profile_def)
  then have "yields (sim_nmcli (args_set_identity u i)) t \<lparr>returncode = 0, stdout = []\<rparr>
      (AList.update u (q\<lparr>prof_id := i, prof_autoconnect := lit ''no''\<rparr>) t)"
    unfolding sim_set_identity [OF assms(2)] assms(3)
    by (auto intro!: yields_injecting yields_bind yields_done)
  then have "yields (nmcli (answering U late) (args_set_identity u i) 5 8) t \<lparr>returncode = 0, stdout = []\<rparr>
      (AList.update u (q\<lparr>prof_id := i, prof_autoconnect := lit ''no''\<rparr>) t)"
    by (rule yields_nmcli) (rule set_identity_not_delete)
  then show ?thesis
    unfolding set_profile_identity_def by (rule yields_bind) (simp add: yields_return)
qed

lemma yields_set_missing:
  assumes "map_of t u = None" "i \<in> profile_names" "sim_modify_label u i = returnE l"
  shows "yields (set_profile_identity (answering U True) u i) t False t"
proof -
  have "sim_nmcli (args_set_identity u i) w = (Inl KeyError, w)"
    if "sim_profiles w = t" "sim_fail_at w = []" for w
    using that assms(1) unfolding sim_set_identity [OF assms(2)] assms(3)
    by (simp add: injecting_def bindE_def sim_profile_def)
  then have "yields (run (answering U True) (nmcli_command (args_set_identity u i) 5) 8) t \<lparr>returncode = 10, stdout = []\<rparr> t"
    by (simp add: yields_def answering_def run_profile_runner sim_execute_nmcli)
  then show ?thesis
    unfolding set_profile_identity_def nmcli_def by (rule yields_bind) (simp add: yields_return)
qed

lemma yields_activate:
  "yields (activate_pending (answering U late) u found_point (Some p)) t True t"
proof -
  have "yields (sim_execute (nmcli_command (args_up_uuid u) 30)) t \<lparr>returncode = 0, stdout = []\<rparr> t"
    unfolding sim_execute_nmcli sim_nmcli_neutral sim_up_def
    by (rule yields_bind [OF yields_item]) (simp_all add: args_up_uuid_def yields_injecting yields_done)
  from yields_run(2) [OF this, of U late p COMMAND_TIMEOUT_SECONDS] show ?thesis
    by (simp add: activate_pending_def found_point_def) (erule yields_bind, simp add: yields_return)
qed

abbreviation old_row :: "pstr \<Rightarrow> pstr \<times> profile" where
  "old_row i \<equiv> profile_row OLD_PROFILE_UUID i ''Previous''"

abbreviation new_row :: "pstr \<Rightarrow> pstr \<times> profile" where
  "new_row i \<equiv> profile_row NEW_PROFILE_UUID i ''New''"

lemma rows_ok [simp]:
  "i \<in> profile_names \<Longrightarrow> profile_ok OLD_PROFILE_UUID (snd (old_row i))"
  "i \<in> profile_names \<Longrightarrow> profile_ok NEW_PROFILE_UUID (snd (new_row i))"
  by (simp_all add: profile_ok_def)

lemma names_in [simp]:
  "SAVED_PROFILE \<in> profile_names" "PENDING_PROFILE \<in> profile_names" "PREVIOUS_PROFILE \<in> profile_names"
  by (simp_all add: profile_names_def)

lemma labels:
  "sim_modify_label OLD_PROFILE_UUID PREVIOUS_PROFILE = returnE ''backup_old''"
  "sim_modify_label NEW_PROFILE_UUID SAVED_PROFILE = returnE ''promote_new''"
  "sim_modify_label NEW_PROFILE_UUID PENDING_PROFILE = returnE ''rollback_new''"
  "sim_modify_label OLD_PROFILE_UUID SAVED_PROFILE = returnE ''rollback_old''"
  by (simp_all add: sim_modify_label_def)

lemma yields_promote:
  "yields (promote_pending_profile (answering U True) NEW_PROFILE_UUID (Some OLD_PROFILE_UUID))
     [old_row SAVED_PROFILE, new_row PENDING_PROFILE] False [new_row SAVED_PROFILE]"
proof -
  have backup: "yields (set_profile_identity (answering U True) OLD_PROFILE_UUID PREVIOUS_PROFILE)
      [old_row SAVED_PROFILE, new_row PENDING_PROFILE] True [old_row PREVIOUS_PROFILE, new_row PENDING_PROFILE]"
    using yields_set_identity [OF _ _ labels(1), of "[old_row SAVED_PROFILE, new_row PENDING_PROFILE]" "snd (old_row SAVED_PROFILE)" U True]
    by (simp add: profile_row_def)
  have verify: "yields (profile_has_identity (answering U True) OLD_PROFILE_UUID PREVIOUS_PROFILE)
      [old_row PREVIOUS_PROFILE, new_row PENDING_PROFILE] True [old_row PREVIOUS_PROFILE, new_row PENDING_PROFILE]"
    by (rule yields_identity [where q = "snd (old_row PREVIOUS_PROFILE)"]) simp_all
  have promote: "yields (set_profile_identity (answering U True) NEW_PROFILE_UUID SAVED_PROFILE)
      [old_row PREVIOUS_PROFILE, new_row PENDING_PROFILE] True [old_row PREVIOUS_PROFILE, new_row SAVED_PROFILE]"
    using yields_set_identity [OF _ _ labels(2), of "[old_row PREVIOUS_PROFILE, new_row PENDING_PROFILE]" "snd (new_row PENDING_PROFILE)" U True]
    by (simp add: profile_row_def)
  have check: "yields (profile_has_identity (answering U True) NEW_PROFILE_UUID SAVED_PROFILE)
      [old_row PREVIOUS_PROFILE, new_row SAVED_PROFILE] True [old_row PREVIOUS_PROFILE, new_row SAVED_PROFILE]"
    by (rule yields_identity [where q = "snd (new_row SAVED_PROFILE)"]) simp_all
  have delete: "yields (delete_profile_uuid (answering U True) OLD_PROFILE_UUID)
      [old_row PREVIOUS_PROFILE, new_row SAVED_PROFILE] False [new_row SAVED_PROFILE]"
    using yields_delete_uuid [of U True OLD_PROFILE_UUID "[old_row PREVIOUS_PROFILE, new_row SAVED_PROFILE]"]
    by (simp add: profile_row_def)
  show ?thesis
    unfolding promote_pending_profile_def promote_candidate_def
    by (simp add: yields_bind [OF backup] yields_bind [OF verify] yields_bind [OF promote]
          yields_bind [OF check] delete)
qed

lemma yields_rollback:
  "yields (rollback_promotion (answering U True) NEW_PROFILE_UUID (Some OLD_PROFILE_UUID))
     [new_row SAVED_PROFILE] () []"
proof -
  have demote: "yields (set_profile_identity (answering U True) NEW_PROFILE_UUID PENDING_PROFILE)
      [new_row SAVED_PROFILE] True [new_row PENDING_PROFILE]"
    using yields_set_identity [OF _ _ labels(3), of "[new_row SAVED_PROFILE]" "snd (new_row SAVED_PROFILE)" U True]
    by (simp add: profile_row_def)
  have restore: "yields (set_profile_identity (answering U True) OLD_PROFILE_UUID SAVED_PROFILE)
      [new_row PENDING_PROFILE] False [new_row PENDING_PROFILE]"
    by (rule yields_set_missing [OF _ _ labels(4)]) (simp_all add: profile_row_def)
  have delete: "yields (delete_profile_uuid (answering U True) NEW_PROFILE_UUID) [new_row PENDING_PROFILE] True []"
    using yields_delete_uuid [of U True NEW_PROFILE_UUID "[new_row PENDING_PROFILE]"]
    by (simp add: profile_row_def)
  show ?thesis
    unfolding rollback_promotion_def
    by (simp add: bindE_assoc yields_bind [OF demote] yields_bind [OF restore] yields_bind [OF delete] yields_return)
qed

lemma password_accepted: "credential_error WPA_PERSONAL (Some (lit ''password1'')) = None"
proof -
  have "password_ok (lit ''password1'')"
    by (simp add: password_ok_def lit_def is_surrogate_def is_scalar_def utf8_char_def)
  then have "validate_password (JStr (lit ''password1'')) = Inr (lit ''password1'')"
    by (simp add: validate_password_iff)
  then show ?thesis by (simp add: credential_error_def)
qed

lemma yields_connect:
  "yields (connect_station (answering U True) (lit ''New'') (Some (lit ''password1'')))
     [old_row SAVED_PROFILE] (False, None, Some (lit ''station_profile_persistence_failed'')) []"
proof -
  have name: "validate_ssid (JStr (lit ''New'')) = Inr (lit ''New'')"
    by (simp add: validate_ssid_iff ssid_ok_def lit_def is_surrogate_def is_scalar_def utf8_char_def)
  have previous: "yields (profile_uuid_of (answering U True) SAVED_PROFILE)
      [old_row SAVED_PROFILE] (True, Some OLD_PROFILE_UUID) [old_row SAVED_PROFILE]"
    using yields_lookup [of "[old_row SAVED_PROFILE]" U True SAVED_PROFILE] rows_ok(1) [of SAVED_PROFILE]
    by (simp add: profile_row_def Let_def)
  have discard: "yields (delete_profile (answering U True) PENDING_PROFILE)
      [old_row SAVED_PROFILE] () [old_row SAVED_PROFILE]"
    using yields_delete_pending [of U True "[old_row SAVED_PROFILE]"] by (simp add: profile_row_def)
  have create: "yields (create_pending_profile (answering U True) found_point)
      [old_row SAVED_PROFILE] True [old_row SAVED_PROFILE, new_row PENDING_PROFILE]"
    using yields_create [of U True "[old_row SAVED_PROFILE]"] by (simp add: profile_row_def)
  have pending: "yields (profile_uuid_of (answering U True) PENDING_PROFILE)
      [old_row SAVED_PROFILE, new_row PENDING_PROFILE] (True, Some NEW_PROFILE_UUID)
      [old_row SAVED_PROFILE, new_row PENDING_PROFILE]"
    using yields_lookup [of "[old_row SAVED_PROFILE, new_row PENDING_PROFILE]" U True PENDING_PROFILE]
      rows_ok(1) [of SAVED_PROFILE] rows_ok(2) [of PENDING_PROFILE]
    by (simp add: profile_row_def Let_def)
  have establish: "yields (establish_candidate (answering U True) found_point (lit ''New'')
      (Some (lit ''password1'')) (Some OLD_PROFILE_UUID) NEW_PROFILE_UUID)
      [old_row SAVED_PROFILE, new_row PENDING_PROFILE]
      (False, None, Some (lit ''station_profile_persistence_failed'')) []"
    unfolding establish_candidate_def
    by (rule yields_bind [OF yields_activate])
       (simp add: yields_bind [OF yields_promote] yields_bind [OF yields_rollback] yields_return)
  have candidate: "yields (connect_candidate (answering U True) found_point (lit ''New'')
      (Some (lit ''password1'')) (Some OLD_PROFILE_UUID)) [old_row SAVED_PROFILE]
      (False, None, Some (lit ''station_profile_persistence_failed'')) []"
    unfolding connect_candidate_def
    by (simp add: yields_bind [OF discard] yields_bind [OF create] yields_bind [OF pending] establish)
  have "find (\<lambda>item. ap_ssid item = lit ''New'') [found_point] = Some found_point"
    "credential_error (ap_security found_point) (Some (lit ''password1'')) = None"
    by (simp_all add: found_point_def password_accepted)
  then show ?thesis
    unfolding connect_station_def name
    by (simp add: yields_bind [OF yields_scan] yields_bind [OF yields_simple(2)]
          yields_bind [OF previous] candidate)
qed

section \<open>The first network\<close>

text \<open>Without a previous profile nothing is deleted, and the attempt succeeds.\<close>

lemma yields_connect_first:
  "yields (connect_station (answering U False) (lit ''New'') (Some (lit ''password1'')))
     [] (True, Some (lit ''New''), None) [new_row SAVED_PROFILE]"
proof -
  have name: "validate_ssid (JStr (lit ''New'')) = Inr (lit ''New'')"
    by (simp add: validate_ssid_iff ssid_ok_def lit_def is_surrogate_def is_scalar_def utf8_char_def)
  have previous: "yields (profile_uuid_of (answering U False) SAVED_PROFILE) [] (True, None) []"
    using yields_lookup [of "[]" U False SAVED_PROFILE] by (simp add: Let_def)
  have discard: "yields (delete_profile (answering U False) PENDING_PROFILE) [] () []"
    using yields_delete_pending [of U False "[]"] by simp
  have create: "yields (create_pending_profile (answering U False) found_point) [] True [new_row PENDING_PROFILE]"
    using yields_create [of U False "[]"] by (simp add: profile_row_def)
  have pending: "yields (profile_uuid_of (answering U False) PENDING_PROFILE)
      [new_row PENDING_PROFILE] (True, Some NEW_PROFILE_UUID) [new_row PENDING_PROFILE]"
    using yields_lookup [of "[new_row PENDING_PROFILE]" U False PENDING_PROFILE] rows_ok(2) [of PENDING_PROFILE]
    by (simp add: profile_row_def Let_def)
  have promote: "yields (set_profile_identity (answering U False) NEW_PROFILE_UUID SAVED_PROFILE)
      [new_row PENDING_PROFILE] True [new_row SAVED_PROFILE]"
    using yields_set_identity [OF _ _ labels(2), of "[new_row PENDING_PROFILE]" "snd (new_row PENDING_PROFILE)" U False]
    by (simp add: profile_row_def)
  have check: "yields (profile_has_identity (answering U False) NEW_PROFILE_UUID SAVED_PROFILE)
      [new_row SAVED_PROFILE] True [new_row SAVED_PROFILE]"
    by (rule yields_identity [where q = "snd (new_row SAVED_PROFILE)"]) simp_all
  have establish: "yields (establish_candidate (answering U False) found_point (lit ''New'')
      (Some (lit ''password1'')) None NEW_PROFILE_UUID) [new_row PENDING_PROFILE]
      (True, Some (lit ''New''), None) [new_row SAVED_PROFILE]"
    unfolding establish_candidate_def promote_pending_profile_def promote_candidate_def
    by (rule yields_bind [OF yields_activate])
       (simp add: bindE_assoc yields_bind [OF promote] yields_bind [OF check] yields_return)
  have "find (\<lambda>item. ap_ssid item = lit ''New'') [found_point] = Some found_point"
    "credential_error (ap_security found_point) (Some (lit ''password1'')) = None"
    by (simp_all add: found_point_def password_accepted)
  then show ?thesis
    unfolding connect_station_def connect_candidate_def name
    by (simp add: yields_bind [OF yields_scan] yields_bind [OF yields_simple(2)]
          yields_bind [OF previous] yields_bind [OF discard] yields_bind [OF create]
          yields_bind [OF pending] establish)
qed

section \<open>The interfaces hold\<close>

lemma injecting_keeps: "keeps (\<lambda>w. sim_fail_at w = l) m \<Longrightarrow> keeps (\<lambda>w. sim_fail_at w = l) (injecting label m)"
  by (auto simp: keeps_def injecting_def returnE_def)

lemma sim_done_keeps: "(\<And>w. sim_fail_at (f w) = sim_fail_at w) \<Longrightarrow> keeps (\<lambda>w. sim_fail_at w = l) (sim_done f)"
  by (simp add: keeps_def sim_done_def)

lemma sim_execute_keeps: "keeps (\<lambda>w. sim_fail_at w = l) (sim_execute c)"
proof -
  have look: "keeps (\<lambda>w. sim_fail_at w = l) (sim_profile u)" "keeps (\<lambda>w. sim_fail_at w = l) sim_list_profiles"
    "keeps (\<lambda>w. sim_fail_at w = l) (item xs i)" for u i and xs :: "pstr list"
    by (auto simp: keeps_def sim_profile_def sim_list_profiles_def injecting_def returnE_def item_def raiseE_def Let_def split: option.split)
  have "keeps (\<lambda>w. sim_fail_at w = l) (sim_modify_label u i)" for u i
    unfolding sim_modify_label_def by (intro keeps_rules)
  moreover have "keeps (\<lambda>w. sim_fail_at w = l) (sim_delete a)" for a
    unfolding sim_delete_def Let_def
    by (auto split: list.split intro!: keeps_rules injecting_keeps sim_done_keeps)
  ultimately show ?thesis
    unfolding sim_execute_def sim_nmcli_def sim_add_pending_def sim_modify_def sim_up_def sim_profile_value_def Let_def
    by (intro keeps_rules injecting_keeps sim_done_keeps look; simp)
qed

lemma profile_runner_keeps:
  "keeps (\<lambda>w. sim_fail_at w = l) (run (profile_runner U) c t)"
  "keeps (\<lambda>w. sim_fail_at w = l) (run_with_secret (profile_runner U) c p t)"
proof -
  have "sim_fail_at (snd (sim_execute c w)) = sim_fail_at w" for w
    using sim_execute_keeps [of "sim_fail_at w" c] by (simp add: keeps_def)
  then show "keeps (\<lambda>w. sim_fail_at w = l) (run (profile_runner U) c t)"
    "keeps (\<lambda>w. sim_fail_at w = l) (run_with_secret (profile_runner U) c p t)"
    by (simp_all add: keeps_def run_profile_runner)
qed

text \<open>Where no failure is injected, every deletion takes effect.\<close>

definition undisturbed :: "sim \<Rightarrow> bool" where
  "undisturbed w \<longleftrightarrow> sim_invar w \<and> sim_fail_at w = []"

lemma answering_meets: "nm_runner_deleting (answering U late) sim_table undisturbed sim_fresh"
proof (rule nm_runner_deleting.intro)
  have "nm_runner (answering U late) sim_table (\<lambda>w. sim_invar w \<and> sim_fail_at w = []) sim_fresh"
  proof (rule nm_runner_less)
    show "nm_runner (profile_runner U) sim_table sim_invar sim_fresh"
      using contract.nm_runner_axioms .
    show "\<exists>r0. run (profile_runner U) c t w = (r0, w') \<and> (r = r0 \<or> (\<forall>res. r = Inr res \<longrightarrow> returncode res \<noteq> 0))"
      if "run (answering U late) c t w = (r, w')" for c t w r w'
      using that by (cases "run (profile_runner U) c t w") (auto simp: answering_def split: sum.splits if_splits)
  qed (simp_all add: answering_def profile_runner_keeps)
  then show "nm_runner (answering U late) sim_table undisturbed sim_fresh" unfolding undisturbed_def .
  show "nm_runner_deleting_axioms (answering U late) sim_table undisturbed"
  proof
    fix w u t w' and res :: command_result
    assume w: "undisturbed w" and run: "run (answering U late) (nmcli_command (args_delete_uuid u) 5) t w = (Inr res, w')"
    obtain r0 where "run (profile_runner U) (nmcli_command (args_delete_uuid u) 5) t w = (r0, w')"
      using run by (cases "run (profile_runner U) (nmcli_command (args_delete_uuid u) 5) t w") (auto simp: answering_def split: sum.splits)
    with w show "sim_table w' u = None"
      by (auto simp: run_profile_runner sim_execute_nmcli sim_nmcli_changing sim_delete_uuid Let_def injecting_def undisturbed_def
          sim_done_def sim_table_def delete_conv' split: if_splits)
  qed
qed

interpretation late: nm_runner_deleting "answering U late" sim_table undisturbed sim_fresh for U late
  by (rule answering_meets)

text \<open>The simulation reports every deletion truly, so that the event that is watched for never happens.\<close>

lemma truly_reported: "supervised_runner (watching sim_table (profile_runner U)) (\<lambda>(lost, w). \<not> lost)"
proof
  fix c t p
  have "\<not> deletion_lost sim_table c w r w'" if "run (profile_runner U) c t w = (r, w')" for w r w'
    using that sim_delete_result(2) by (fastforce simp: deletion_lost_def kept_def)
  then show "keeps (\<lambda>(lost, w). \<not> lost) (run (watching sim_table (profile_runner U)) c t)"
    "keeps (\<lambda>(lost, w). \<not> lost) (run_with_secret (watching sim_table (profile_runner U)) c p t)"
    by (auto simp: keeps_def watching_def split: prod.splits)
qed

interpretation truly: supervised_runner "watching sim_table (profile_runner U)" "\<lambda>(lost, w). \<not> lost" for U
  by (rule truly_reported)

end
