(* ===== verification/PyCodec.thy ===== *)
theory PyCodec
  imports PyText
begin

text \<open>
  Decoding of bytes as the standard library does it for \<^verbatim>\<open>json.loads\<close>: the detection of the
  encoding from the first bytes, and the UTF-8, UTF-16 and UTF-32 decoders with the error
  handler \<^verbatim>\<open>surrogatepass\<close>, which lets encoded surrogates through. Text that was encoded as
  UTF-8 is decoded to itself.
\<close>

section \<open>UTF-8\<close>

definition is_cont :: "nat \<Rightarrow> bool" where
  "is_cont b \<longleftrightarrow> 0x80 \<le> b \<and> b \<le> 0xBF"

text \<open>The code point that starts with the byte \<open>b\<close> and how many of the bytes after it it takes.\<close>

definition utf8_take :: "nat \<Rightarrow> bytes \<Rightarrow> (nat \<times> nat) option" where
  "utf8_take b bs =
     (if b < 0x80 then Some (b, 0)
      else if 0xC2 \<le> b \<and> b \<le> 0xDF \<and> 1 \<le> length bs \<and> is_cont (bs ! 0)
      then Some ((b - 0xC0) * 64 + (bs ! 0 - 0x80), 1)
      else if 0xE0 \<le> b \<and> b \<le> 0xEF \<and> 2 \<le> length bs \<and> is_cont (bs ! 0) \<and> is_cont (bs ! 1) \<and>
              (b = 0xE0 \<longrightarrow> 0xA0 \<le> bs ! 0)
      then Some ((b - 0xE0) * 4096 + (bs ! 0 - 0x80) * 64 + (bs ! 1 - 0x80), 2)
      else if 0xF0 \<le> b \<and> b \<le> 0xF4 \<and> 3 \<le> length bs \<and> is_cont (bs ! 0) \<and> is_cont (bs ! 1) \<and>
              is_cont (bs ! 2) \<and> (b = 0xF0 \<longrightarrow> 0x90 \<le> bs ! 0) \<and> (b = 0xF4 \<longrightarrow> bs ! 0 \<le> 0x8F)
      then Some ((b - 0xF0) * 262144 + (bs ! 0 - 0x80) * 4096 + (bs ! 1 - 0x80) * 64 + (bs ! 2 - 0x80), 3)
      else None)"

fun utf8_decode :: "bytes \<Rightarrow> exn + pstr" where
  "utf8_decode [] = Inr []"
| "utf8_decode (b # bs) =
     (case utf8_take b bs of
        None \<Rightarrow> Inl UnicodeDecodeError
      | Some (c, n) \<Rightarrow> bindR (utf8_decode (drop n bs)) (\<lambda>s. Inr (c # s)))"

text \<open>The code points of a Python string.\<close>

definition unicode :: "pstr \<Rightarrow> bool" where
  "unicode s \<longleftrightarrow> (\<forall>c \<in> set s. c < 0x110000)"

lemma unicode_simps [simp]:
  "unicode []" "unicode (c # s) \<longleftrightarrow> c < 0x110000 \<and> unicode s" "unicode (s @ t) \<longleftrightarrow> unicode s \<and> unicode t"
  by (auto simp: unicode_def)

lemma split64:
  fixes c :: nat
  obtains x z where "x = c div 64" "z = c mod 64" "c = x * 64 + z" "z < 64"
proof -
  have "c = c div 64 * 64 + c mod 64" by (rule div_mult_mod_eq [symmetric])
  moreover have "c mod 64 < 64" by (rule mod_less_divisor) (rule zero_less_numeral)
  ultimately show thesis by (rule that [OF refl refl])
qed

lemma split4096:
  fixes c :: nat
  obtains x y z where "x = c div 4096" "y = c div 64 mod 64" "z = c mod 64"
    "c = x * 4096 + y * 64 + z" "y < 64" "z < 64"
proof -
  obtain d z where d: "d = c div 64" "z = c mod 64" "c = d * 64 + z" "z < 64"
    by (rule split64)
  obtain x y where x: "x = d div 64" "y = d mod 64" "d = x * 64 + y" "y < 64"
    by (rule split64)
  have "x = c div 64 div 64" "y = c div 64 mod 64" by (simp_all only: x(1,2) d(1))
  moreover have "c div 64 div 64 = c div 4096" by (simp add: div_mult2_eq [symmetric])
  moreover have "c = x * 4096 + y * 64 + z" using d(3) x(3) by linarith
  ultimately show thesis
    using that d(2,4) x(4) by metis
qed

lemma split262144:
  fixes c :: nat
  obtains w x y z where "w = c div 262144" "x = c div 4096 mod 64" "y = c div 64 mod 64" "z = c mod 64"
    "c = w * 262144 + x * 4096 + y * 64 + z" "x < 64" "y < 64" "z < 64"
proof -
  obtain d y z where d: "d = c div 4096" "y = c div 64 mod 64" "z = c mod 64"
      "c = d * 4096 + y * 64 + z" "y < 64" "z < 64"
    by (rule split4096)
  obtain w x where x: "w = d div 64" "x = d mod 64" "d = w * 64 + x" "x < 64"
    by (rule split64)
  have "w = c div 4096 div 64" "x = c div 4096 mod 64" by (simp_all only: x(1,2) d(1))
  moreover have "c div 4096 div 64 = c div 262144" by (simp add: div_mult2_eq [symmetric])
  moreover have "c = w * 262144 + x * 4096 + y * 64 + z" using d(4) x(3) by linarith
  ultimately show thesis
    using that d(2,3,5,6) x(4) by metis
qed

lemma utf8_take_2:
  assumes "2 \<le> x" "x < 32" "z < 64"
  shows "utf8_take (0xC0 + x) ((0x80 + z) # rest) = Some (x * 64 + z, 1)"
  using assms by (simp add: utf8_take_def is_cont_def)

lemma utf8_take_3:
  assumes "x < 16" "y < 64" "z < 64" "x = 0 \<Longrightarrow> 32 \<le> y"
  shows "utf8_take (0xE0 + x) ((0x80 + y) # (0x80 + z) # rest) = Some (x * 4096 + y * 64 + z, 2)"
  using assms by (simp add: utf8_take_def is_cont_def)

lemma utf8_take_4:
  assumes "w < 5" "x < 64" "y < 64" "z < 64" "w = 0 \<Longrightarrow> 16 \<le> x" "w = 4 \<Longrightarrow> x < 16"
  shows "utf8_take (0xF0 + w) ((0x80 + x) # (0x80 + y) # (0x80 + z) # rest) =
           Some (w * 262144 + x * 4096 + y * 64 + z, 3)"
proof -
  have "w = 4 \<longrightarrow> x \<le> 15" using assms(6) by linarith
  then show ?thesis using assms(1-5) by (simp add: utf8_take_def is_cont_def)
qed

lemma utf8_take_char:
  assumes "c < 0x110000"
  obtains b bs where "utf8_char c = b # bs" "utf8_take b (bs @ rest) = Some (c, length bs)"
proof -
  consider "c < 0x80" | "0x80 \<le> c" "c < 0x800" | "0x800 \<le> c" "c < 0x10000" | "0x10000 \<le> c"
    by linarith
  then show thesis
  proof cases
    case 1
    then show thesis by (intro that) (auto simp: utf8_char_def utf8_take_def)
  next
    case 2
    obtain x z where s: "x = c div 64" "z = c mod 64" "c = x * 64 + z" "z < 64" by (rule split64)
    have "utf8_char c = [0xC0 + x, 0x80 + z]" using 2 by (simp add: utf8_char_def s(1,2))
    moreover have "2 \<le> x" "x < 32" using 2 s(3,4) by linarith+
    ultimately show thesis using that utf8_take_2 [of x z rest] s(3,4) by simp
  next
    case 3
    obtain x y z where s: "x = c div 4096" "y = c div 64 mod 64" "z = c mod 64"
      "c = x * 4096 + y * 64 + z" "y < 64" "z < 64" by (rule split4096)
    have "utf8_char c = [0xE0 + x, 0x80 + y, 0x80 + z]" using 3 by (simp add: utf8_char_def s(1-3))
    moreover have "x < 16" "x = 0 \<Longrightarrow> 32 \<le> y" using 3 s(4-6) by linarith+
    ultimately show thesis using that utf8_take_3 [of x y z rest] s(4-6) by simp
  next
    case 4
    obtain w x y z where s: "w = c div 262144" "x = c div 4096 mod 64" "y = c div 64 mod 64" "z = c mod 64"
      "c = w * 262144 + x * 4096 + y * 64 + z" "x < 64" "y < 64" "z < 64" by (rule split262144)
    have "utf8_char c = [0xF0 + w, 0x80 + x, 0x80 + y, 0x80 + z]" using 4 by (simp add: utf8_char_def s(1-4))
    moreover have "w < 5" "w = 0 \<Longrightarrow> 16 \<le> x" "w = 4 \<Longrightarrow> x < 16" using 4 assms s(5-8) by linarith+
    ultimately show thesis using that utf8_take_4 [of w x y z rest] s(5-8) by simp
  qed
qed

lemma utf8_decode_chars:
  assumes "unicode s"
  shows "utf8_decode (concat (map utf8_char s)) = Inr s"
  using assms
proof (induction s)
  case (Cons c s)
  then obtain b bs where "utf8_char c = b # bs"
    "utf8_take b (bs @ concat (map utf8_char s)) = Some (c, length bs)"
    using utf8_take_char by (metis unicode_simps(2))
  with Cons show ?case by simp
qed simp

lemma utf8_decode_encode: "utf8_encode s = Inr b \<Longrightarrow> utf8_decode b = Inr s"
  by (auto simp: utf8_encode_def unicode_def is_scalar_def split: if_splits intro!: utf8_decode_chars)

lemma utf8_decode_ascii: "\<forall>b \<in> set bs. b < 0x80 \<Longrightarrow> utf8_decode bs = Inr bs"
  by (induction bs) (simp_all add: utf8_take_def)

lemma utf8_decode_error: "utf8_decode bs = Inl e \<Longrightarrow> e = UnicodeDecodeError"
  by (induction bs rule: utf8_decode.induct) (auto simp: bindR_Inl_iff split: option.splits)

section \<open>UTF-16 and UTF-32\<close>

definition is_high :: "nat \<Rightarrow> bool" where "is_high c \<longleftrightarrow> 0xD800 \<le> c \<and> c \<le> 0xDBFF"
definition is_low :: "nat \<Rightarrow> bool" where "is_low c \<longleftrightarrow> 0xDC00 \<le> c \<and> c \<le> 0xDFFF"

definition join_pair :: "nat \<Rightarrow> nat \<Rightarrow> nat" where
  "join_pair h l = 0x10000 + (h - 0xD800) * 0x400 + (l - 0xDC00)"

definition two_bytes :: "bool \<Rightarrow> nat \<Rightarrow> nat \<Rightarrow> nat" where
  "two_bytes big a b = (if big then a * 256 + b else b * 256 + a)"

fun utf16_decode :: "bool \<Rightarrow> bytes \<Rightarrow> exn + pstr" where
  "utf16_decode big [] = Inr []"
| "utf16_decode big [a] = Inl UnicodeDecodeError"
| "utf16_decode big (a # b # rest) =
     (let v = two_bytes big a b in
      if is_high v \<and> 2 \<le> length rest \<and> is_low (two_bytes big (rest ! 0) (rest ! 1))
      then bindR (utf16_decode big (drop 2 rest)) (\<lambda>s.
             Inr (join_pair v (two_bytes big (rest ! 0) (rest ! 1)) # s))
      else bindR (utf16_decode big rest) (\<lambda>s. Inr (v # s)))"

fun utf32_decode :: "bool \<Rightarrow> bytes \<Rightarrow> exn + pstr" where
  "utf32_decode big [] = Inr []"
| "utf32_decode big (a # b # c # d # rest) =
     (let v = (if big then two_bytes big a b * 65536 + two_bytes big c d
               else two_bytes big c d * 65536 + two_bytes big a b)
      in if v < 0x110000 then bindR (utf32_decode big rest) (\<lambda>s. Inr (v # s))
         else Inl UnicodeDecodeError)"
| "utf32_decode big _ = Inl UnicodeDecodeError"

lemma utf16_decode_error: "utf16_decode big bs = Inl e \<Longrightarrow> e = UnicodeDecodeError"
  by (induction big bs rule: utf16_decode.induct) (auto simp: bindR_Inl_iff Let_def split: if_splits)

lemma utf32_decode_error: "utf32_decode big bs = Inl e \<Longrightarrow> e = UnicodeDecodeError"
  by (induction big bs rule: utf32_decode.induct) (auto simp: bindR_Inl_iff Let_def split: if_splits)

section \<open>The encoding of a JSON document\<close>

text \<open>
  \<^verbatim>\<open>s.decode(detect_encoding(s), "surrogatepass")\<close>: byte order marks first, then the position
  of zero bytes among the first four (JSON text starts with an ASCII character).
\<close>

definition json_bytes_decode :: "bytes \<Rightarrow> exn + pstr" where
  "json_bytes_decode b =
     (if take 4 b = [0, 0, 0xFE, 0xFF] then utf32_decode True (drop 4 b)
      else if take 4 b = [0xFF, 0xFE, 0, 0] then utf32_decode False (drop 4 b)
      else if take 2 b = [0xFE, 0xFF] then utf16_decode True (drop 2 b)
      else if take 2 b = [0xFF, 0xFE] then utf16_decode False (drop 2 b)
      else if take 3 b = [0xEF, 0xBB, 0xBF] then utf8_decode (drop 3 b)
      else if 4 \<le> length b \<and> b ! 0 = 0
      then (if b ! 1 \<noteq> 0 then utf16_decode True b else utf32_decode True b)
      else if 4 \<le> length b \<and> b ! 1 = 0
      then (if b ! 2 \<noteq> 0 \<or> b ! 3 \<noteq> 0 then utf16_decode False b else utf32_decode False b)
      else if length b = 2 \<and> b ! 0 = 0 then utf16_decode True b
      else if length b = 2 \<and> b ! 1 = 0 then utf16_decode False b
      else utf8_decode b)"

lemma json_bytes_decode_error: "json_bytes_decode b = Inl e \<Longrightarrow> e = UnicodeDecodeError"
  by (auto simp: json_bytes_decode_def split: if_splits
      dest: utf8_decode_error utf16_decode_error utf32_decode_error)

text \<open>A document that starts with an ASCII character and has no zero byte is taken as UTF-8.\<close>

lemma json_bytes_decode_utf8:
  assumes "0 \<notin> set b" "b = [] \<or> hd b < 0x80"
  shows "json_bytes_decode b = utf8_decode b"
proof (cases b)
  case (Cons a bs)
  then have a: "a < 0x80" "a \<noteq> 0" "bs \<noteq> [] \<Longrightarrow> bs ! 0 \<noteq> 0"
    using assms by (auto simp: in_set_conv_nth)
  then have "take 4 b \<noteq> [0, 0, 0xFE, 0xFF]" "take 4 b \<noteq> [0xFF, 0xFE, 0, 0]" "take 2 b \<noteq> [0xFE, 0xFF]"
    "take 2 b \<noteq> [0xFF, 0xFE]" "take 3 b \<noteq> [0xEF, 0xBB, 0xBF]" "b ! 0 \<noteq> 0"
    by (auto simp: Cons)
  moreover from a have "\<not> (4 \<le> length b \<and> b ! 1 = 0)" "\<not> (length b = 2 \<and> b ! 1 = 0)"
    by (cases bs; auto simp: Cons)+
  ultimately show ?thesis
    by (simp only: json_bytes_decode_def if_False simp_thms)
qed (simp add: json_bytes_decode_def)

end
