(* ===== verification/PyJson.thy ===== *)
theory PyJson
  imports Protocol PyCodec
begin

text \<open>
  The module \<^verbatim>\<open>json\<close> of the Python standard library, as far as the two ends of the socket use it:
  \<^verbatim>\<open>dumps\<close> with \<^verbatim>\<open>separators=(",", ":")\<close>, with and without \<^verbatim>\<open>ensure_ascii\<close>, and \<^verbatim>\<open>loads\<close> in
  its default strict mode. The parser takes the nesting that the interpreter's recursion limit
  leaves as its first argument; the loop over the items of an array or object carries a counter
  that starts at the length of the input and never runs out (\<open>array_items_fuel\<close>,
  \<open>object_items_fuel\<close>). What was dumped is loaded again (\<open>json_loads_dumps\<close>).
\<close>

section \<open>Printing\<close>

definition hex4_text :: "nat \<Rightarrow> pstr" where
  "hex4_text n = [92, 117, hex_digit (n div 4096 mod 16), hex_digit (n div 256 mod 16),
                  hex_digit (n div 16 mod 16), hex_digit (n mod 16)]"

text \<open>One character of a string; \<open>ascii\<close> is \<^verbatim>\<open>ensure_ascii\<close>.\<close>

definition escape_char :: "bool \<Rightarrow> nat \<Rightarrow> pstr" where
  "escape_char ascii c =
     (if c = 34 then [92, 34] else if c = 92 then [92, 92] else if c = 10 then [92, 110]
      else if c = 13 then [92, 114] else if c = 9 then [92, 116] else if c = 12 then [92, 102]
      else if c = 8 then [92, 98] else if c < 32 then hex4_text c
      else if \<not> ascii \<or> c < 127 then [c]
      else if c < 0x10000 then hex4_text c
      else hex4_text (0xD800 + (c - 0x10000) div 0x400) @ hex4_text (0xDC00 + (c - 0x10000) mod 0x400))"

definition dump_string :: "bool \<Rightarrow> pstr \<Rightarrow> pstr" where
  "dump_string ascii s = 34 # concat (map (escape_char ascii) s) @ [34]"

definition commas :: "pstr list \<Rightarrow> pstr" where
  "commas ts = (case ts of [] \<Rightarrow> [] | t # ts \<Rightarrow> t @ concat (map (\<lambda>u. 44 # u) ts))"

fun json_dumps :: "bool \<Rightarrow> json \<Rightarrow> pstr" where
  "json_dumps ascii JNull = lit ''null''"
| "json_dumps ascii (JBool b) = (if b then lit ''true'' else lit ''false'')"
| "json_dumps ascii (JInt i) = py_str_int i"
| "json_dumps ascii (JFloat t) = t"
| "json_dumps ascii (JStr s) = dump_string ascii s"
| "json_dumps ascii (JList vs) = 91 # commas (map (json_dumps ascii) vs) @ [93]"
| "json_dumps ascii (JObj d) =
     123 # commas (map (\<lambda>(k, v). dump_string ascii k @ 58 # json_dumps ascii v) d) @ [125]"

section \<open>Reading\<close>

definition is_json_space :: "nat \<Rightarrow> bool" where
  "is_json_space c \<longleftrightarrow> c = 32 \<or> c = 9 \<or> c = 10 \<or> c = 13"

definition skip_ws :: "pstr \<Rightarrow> pstr" where
  "skip_ws s = dropWhile is_json_space s"

definition next_is :: "nat \<Rightarrow> pstr \<Rightarrow> bool" where
  "next_is c s \<longleftrightarrow> s \<noteq> [] \<and> hd s = c"

definition is_digit :: "nat \<Rightarrow> bool" where
  "is_digit c \<longleftrightarrow> 48 \<le> c \<and> c \<le> 57"

definition hex_value :: "nat \<Rightarrow> nat option" where
  "hex_value c = (case digit_value c of Some d \<Rightarrow> if d < 16 then Some d else None | None \<Rightarrow> None)"

definition hex4 :: "pstr \<Rightarrow> nat option" where
  "hex4 s =
     (case map hex_value (take 4 s) of
        [Some a, Some b, Some c, Some d] \<Rightarrow> Some (((a * 16 + b) * 16 + c) * 16 + d)
      | _ \<Rightarrow> None)"

text \<open>
  What follows a backslash: the character it stands for and how many characters it takes. A
  surrogate pair written as two escapes is one character.
\<close>

definition scan_escape :: "pstr \<Rightarrow> (nat \<times> nat) option" where
  "scan_escape s =
     (case s of
        [] \<Rightarrow> None
      | e # r \<Rightarrow>
          if e \<in> {34, 92, 47} then Some (e, 1)
          else if e = 98 then Some (8, 1) else if e = 102 then Some (12, 1)
          else if e = 110 then Some (10, 1) else if e = 114 then Some (13, 1)
          else if e = 116 then Some (9, 1)
          else if e = 117 then
            (case hex4 r of
               None \<Rightarrow> None
             | Some h \<Rightarrow>
                 if is_high h \<and> take 2 (drop 4 r) = [92, 117] then
                   (case hex4 (drop 6 r) of
                      None \<Rightarrow> None
                    | Some l \<Rightarrow> if is_low l then Some (join_pair h l, 11) else Some (h, 5))
                 else Some (h, 5))
          else None)"

definition pushR :: "'a \<Rightarrow> exn + 'a list \<times> 'b \<Rightarrow> exn + 'a list \<times> 'b" where
  "pushR x r = bindR r (\<lambda>(xs, t). Inr (x # xs, t))"

lemma pushR_simps [simp]: "pushR x (Inr (xs, t)) = Inr (x # xs, t)" "pushR x (Inl e) = Inl e"
  by (simp_all add: pushR_def)

lemma pushR_Inl_iff [simp]: "pushR x r = Inl e \<longleftrightarrow> r = Inl e"
  by (auto simp: pushR_def bindR_Inl_iff)

lemma pushR_Inr_iff: "pushR x r = Inr (ys, t) \<longleftrightarrow> (\<exists>xs. r = Inr (xs, t) \<and> ys = x # xs)"
  by (auto simp: pushR_def bindR_Inr_iff)

text \<open>The characters of a string up to its closing quotation mark, and what follows it.\<close>

fun scan_string :: "pstr \<Rightarrow> exn + pstr \<times> pstr" where
  "scan_string [] = Inl JSONDecodeError"
| "scan_string (c # cs) =
     (if c = 34 then Inr ([], cs)
      else if c = 92 then
        (case scan_escape cs of
           None \<Rightarrow> Inl JSONDecodeError
         | Some (x, n) \<Rightarrow> pushR x (scan_string (drop n cs)))
      else if c < 32 then Inl JSONDecodeError
      else pushR c (scan_string cs))"

text \<open>
  A number: the sign, the digits, then a fraction and an exponent where they are complete. An
  integer of more than 4300 digits raises a plain \<^verbatim>\<open>ValueError\<close>.
\<close>

definition digits_value :: "pstr \<Rightarrow> nat" where
  "digits_value ds = foldl (\<lambda>n c. n * 10 + (c - 48)) 0 ds"

definition scan_fraction :: "pstr \<Rightarrow> pstr \<times> pstr" where
  "scan_fraction s =
     (if next_is 46 s \<and> tl s \<noteq> [] \<and> is_digit (hd (tl s))
      then (46 # takeWhile is_digit (tl s), dropWhile is_digit (tl s)) else ([], s))"

definition scan_exponent :: "pstr \<Rightarrow> pstr \<times> pstr" where
  "scan_exponent s =
     (if next_is 101 s \<or> next_is 69 s then
        (let sign = (if next_is 45 (tl s) \<or> next_is 43 (tl s) then [hd (tl s)] else []);
             r = drop (length sign) (tl s)
         in if r \<noteq> [] \<and> is_digit (hd r)
            then (hd s # sign @ takeWhile is_digit r, dropWhile is_digit r) else ([], s))
      else ([], s))"

definition scan_number :: "pstr \<Rightarrow> exn + json \<times> pstr" where
  "scan_number s =
     (let neg = next_is 45 s;
          t = (if neg then tl s else s)
      in if t = [] \<or> \<not> is_digit (hd t) then Inl JSONDecodeError
         else (let ds = (if hd t = 48 then [48] else takeWhile is_digit t);
                   r = (if hd t = 48 then tl t else dropWhile is_digit t);
                   (frac, r1) = scan_fraction r;
                   (ex, r2) = scan_exponent r1
               in if frac = [] \<and> ex = []
                  then (if length ds > 4300
                        then Inl (ValueError (lit ''Exceeds the limit (4300 digits) for integer string conversion''))
                        else Inr (JInt (if neg then - int (digits_value ds) else int (digits_value ds)), r2))
                  else Inr (JFloat ((if neg then [45] else []) @ ds @ frac @ ex), r2)))"

definition starts_with :: "pstr \<Rightarrow> pstr \<Rightarrow> bool" where
  "starts_with p s \<longleftrightarrow> take (length p) s = p"

text \<open>
  \<^verbatim>\<open>scan_once\<close>: \<open>arr\<close> and \<open>obj\<close> read what follows an opening bracket or brace. An input no
  value starts is a \<^verbatim>\<open>JSONDecodeError\<close>.
\<close>

definition scan_once ::
  "(pstr \<Rightarrow> exn + json \<times> pstr) \<Rightarrow> (pstr \<Rightarrow> exn + json \<times> pstr) \<Rightarrow> pstr \<Rightarrow> exn + json \<times> pstr" where
  "scan_once arr obj s =
     (if next_is 34 s then bindR (scan_string (tl s)) (\<lambda>(t, r). Inr (JStr t, r))
      else if next_is 123 s then obj (tl s)
      else if next_is 91 s then arr (tl s)
      else if starts_with (lit ''null'') s then Inr (JNull, drop 4 s)
      else if starts_with (lit ''true'') s then Inr (JBool True, drop 4 s)
      else if starts_with (lit ''false'') s then Inr (JBool False, drop 5 s)
      else if starts_with (lit ''NaN'') s then Inr (JFloat (lit ''NaN''), drop 3 s)
      else if starts_with (lit ''Infinity'') s then Inr (JFloat (lit ''Infinity''), drop 8 s)
      else if starts_with (lit ''-Infinity'') s then Inr (JFloat (lit ''-Infinity''), drop 9 s)
      else scan_number s)"

fun array_items :: "(pstr \<Rightarrow> exn + json \<times> pstr) \<Rightarrow> nat \<Rightarrow> pstr \<Rightarrow> exn + json list \<times> pstr" where
  "array_items val 0 s = Inl JSONDecodeError"
| "array_items val (Suc n) s =
     bindR (val s) (\<lambda>(v, r).
       if next_is 93 (skip_ws r) then Inr ([v], tl (skip_ws r))
       else if next_is 44 (skip_ws r) then pushR v (array_items val n (skip_ws (tl (skip_ws r))))
       else Inl JSONDecodeError)"

definition scan_array :: "(pstr \<Rightarrow> exn + json \<times> pstr) \<Rightarrow> pstr \<Rightarrow> exn + json \<times> pstr" where
  "scan_array val s =
     (if next_is 93 (skip_ws s) then Inr (JList [], tl (skip_ws s))
      else bindR (array_items val (Suc (length s)) (skip_ws s)) (\<lambda>(vs, r). Inr (JList vs, r)))"

text \<open>One \<^verbatim>\<open>"key": value\<close>, then the separator; a repeated key keeps its first place.\<close>

definition scan_member :: "(pstr \<Rightarrow> exn + json \<times> pstr) \<Rightarrow> pstr \<Rightarrow> exn + (pstr \<times> json) \<times> pstr" where
  "scan_member val s =
     (if \<not> next_is 34 s then Inl JSONDecodeError
      else bindR (scan_string (tl s)) (\<lambda>(k, r).
        if \<not> next_is 58 (skip_ws r) then Inl JSONDecodeError
        else bindR (val (skip_ws (tl (skip_ws r)))) (\<lambda>(v, r'). Inr ((k, v), r'))))"

fun object_items ::
  "(pstr \<Rightarrow> exn + json \<times> pstr) \<Rightarrow> nat \<Rightarrow> (pstr \<times> json) list \<Rightarrow> pstr \<Rightarrow> exn + (pstr \<times> json) list \<times> pstr" where
  "object_items val 0 d s = Inl JSONDecodeError"
| "object_items val (Suc n) d s =
     bindR (scan_member val s) (\<lambda>((k, v), r).
       if next_is 125 (skip_ws r) then Inr (AList.update k v d, tl (skip_ws r))
       else if next_is 44 (skip_ws r)
       then object_items val n (AList.update k v d) (skip_ws (tl (skip_ws r)))
       else Inl JSONDecodeError)"

definition scan_object :: "(pstr \<Rightarrow> exn + json \<times> pstr) \<Rightarrow> pstr \<Rightarrow> exn + json \<times> pstr" where
  "scan_object val s =
     (if next_is 125 (skip_ws s) then Inr (JObj [], tl (skip_ws s))
      else bindR (object_items val (Suc (length s)) [] (skip_ws s)) (\<lambda>(d, r). Inr (JObj d, r)))"

definition recursion_error :: exn where
  "recursion_error = RuntimeError (lit ''maximum recursion depth exceeded while decoding a JSON value'')"

primrec scan_value :: "nat \<Rightarrow> pstr \<Rightarrow> exn + json \<times> pstr" where
  "scan_value 0 = scan_once (\<lambda>_. Inl recursion_error) (\<lambda>_. Inl recursion_error)"
| "scan_value (Suc d) = scan_once (scan_array (scan_value d)) (scan_object (scan_value d))"

text \<open>\<^verbatim>\<open>JSONDecoder.decode\<close>, and \<^verbatim>\<open>json.loads\<close> of bytes.\<close>

definition json_decode :: "nat \<Rightarrow> pstr \<Rightarrow> exn + json" where
  "json_decode depth s =
     bindR (scan_value depth (skip_ws s)) (\<lambda>(v, r).
       if skip_ws r = [] then Inr v else Inl JSONDecodeError)"

definition json_loads :: "nat \<Rightarrow> bytes \<Rightarrow> exn + json" where
  "json_loads depth b = bindR (json_bytes_decode b) (json_decode depth)"

text \<open>\<^verbatim>\<open>json.loads\<close> of a string: a byte order mark is refused.\<close>

definition json_loads_text :: "nat \<Rightarrow> pstr \<Rightarrow> exn + json" where
  "json_loads_text depth s = (if next_is 0xFEFF s then Inl JSONDecodeError else json_decode depth s)"


section \<open>Progress and errors\<close>

lemma scan_string_progress: "scan_string s = Inr (t, r) \<Longrightarrow> length r < length s"
proof (induction s arbitrary: t rule: scan_string.induct)
  case (2 c cs)
  show ?case
  proof (cases "c = 34")
    case False
    show ?thesis
    proof (cases "c = 92")
      case True
      with 2 False show ?thesis
        by (fastforce split: option.splits simp: pushR_Inr_iff)
    next
      case c: False
      with 2 False show ?thesis
        by (fastforce split: if_splits simp: pushR_Inr_iff)
    qed
  qed (use 2 in auto)
qed simp

lemma scan_fraction_length: "scan_fraction s = (f, r) \<Longrightarrow> length r \<le> length s"
  by (auto simp: scan_fraction_def split: if_splits intro: order_trans [OF length_dropWhile_le])

lemma scan_exponent_length: "scan_exponent s = (f, r) \<Longrightarrow> length r \<le> length s"
  by (auto simp: scan_exponent_def Let_def split: if_splits intro: order_trans [OF length_dropWhile_le])

lemma scan_number_progress: "scan_number s = Inr (v, r) \<Longrightarrow> length r < length s"
proof -
  assume ok: "scan_number s = Inr (v, r)"
  define t where "t = (if next_is 45 s then tl s else s)"
  define u where "u = (if hd t = 48 then tl t else dropWhile is_digit t)"
  obtain f r1 where f: "scan_fraction u = (f, r1)" by fastforce
  obtain x r2 where x: "scan_exponent r1 = (x, r2)" by fastforce
  have t: "t \<noteq> []" "is_digit (hd t)"
    using ok unfolding scan_number_def Let_def t_def [symmetric] by (auto split: if_splits)
  then have "length u < length t"
    by (cases t) (auto simp: u_def le_imp_less_Suc length_dropWhile_le)
  moreover have "length t \<le> length s" by (simp add: t_def)
  moreover have "r = r2"
    using ok t unfolding scan_number_def Let_def t_def [symmetric] u_def [symmetric]
    by (simp add: f x split: if_splits)
  ultimately show ?thesis
    using scan_fraction_length [OF f] scan_exponent_length [OF x] by simp
qed

definition progressive :: "(pstr \<Rightarrow> exn + 'a \<times> pstr) \<Rightarrow> bool" where
  "progressive p \<longleftrightarrow> (\<forall>s v r. p s = Inr (v, r) \<longrightarrow> length r < length s)"

lemma progressiveD: "progressive p \<Longrightarrow> p s = Inr (v, r) \<Longrightarrow> length r < length s"
  by (simp add: progressive_def)

lemma length_skip_ws: "length (skip_ws s) \<le> length s"
  by (simp add: skip_ws_def length_dropWhile_le)

lemma next_is_tl: "next_is c s \<Longrightarrow> length (tl s) < length s"
  by (simp add: next_is_def)

lemma starts_with_drop: "starts_with p s \<Longrightarrow> p \<noteq> [] \<Longrightarrow> n > 0 \<Longrightarrow> length (drop n s) < length s"
  by (cases s) (simp_all add: starts_with_def)

lemma array_items_progress:
  "progressive val \<Longrightarrow> array_items val n s = Inr (vs, r) \<Longrightarrow> length r < length s"
proof (induction n arbitrary: s vs r)
  case (Suc n)
  from Suc.prems(2) obtain v r1 where v: "val s = Inr (v, r1)"
    by (auto simp: bindR_Inr_iff)
  have "length (tl (skip_ws r1)) \<le> length r1"
    using length_skip_ws [of r1] by simp
  moreover have "length r1 < length s" using Suc.prems(1) v by (rule progressiveD)
  moreover have "length r < length (skip_ws (tl (skip_ws r1)))"
    if "array_items val n (skip_ws (tl (skip_ws r1))) = Inr (us, r)" for us
    using Suc.IH [OF Suc.prems(1) that] .
  moreover have "length (skip_ws (tl (skip_ws r1))) \<le> length (tl (skip_ws r1))"
    by (rule length_skip_ws)
  ultimately show ?case using Suc.prems(2)
    by (fastforce simp: v pushR_Inr_iff split: if_splits)
qed simp

text \<open>Any counter above the length of the input gives the same result: it never runs out.\<close>

lemma array_items_fuel:
  assumes "progressive val" "length s < n" "length s < m"
  shows "array_items val n s = array_items val m s"
  using assms(2,3)
proof (induction n arbitrary: s m)
  case (Suc n)
  from Suc.prems obtain k where m: "m = Suc k" by (cases m) auto
  have "array_items val n (skip_ws (tl (skip_ws r))) = array_items val k (skip_ws (tl (skip_ws r)))"
    if "val s = Inr (v, r)" for v r
  proof -
    have "length (skip_ws (tl (skip_ws r))) \<le> length r"
      using length_skip_ws [of r] length_skip_ws [of "tl (skip_ws r)"] by simp
    with progressiveD [OF assms(1) that] Suc.prems m show ?thesis by (intro Suc.IH) simp_all
  qed
  then show ?case by (auto simp: m intro!: bindR_cong)
qed simp

lemma scan_member_progress:
  "progressive val \<Longrightarrow> scan_member val s = Inr (kv, r) \<Longrightarrow> length r < length s"
proof -
  assume val: "progressive val" and "scan_member val s = Inr (kv, r)"
  then obtain k r1 v where s: "next_is 34 s" "scan_string (tl s) = Inr (k, r1)"
    "val (skip_ws (tl (skip_ws r1))) = Inr (v, r)"
    by (auto simp: scan_member_def bindR_Inr_iff split: if_splits)
  from progressiveD [OF val s(3)] scan_string_progress [OF s(2)] next_is_tl [OF s(1)]
    length_skip_ws [of r1] length_skip_ws [of "tl (skip_ws r1)"] show ?thesis by simp
qed

lemma object_items_progress:
  "progressive val \<Longrightarrow> object_items val n d s = Inr (d', r) \<Longrightarrow> length r < length s"
proof (induction n arbitrary: d s d' r)
  case (Suc n)
  from Suc.prems(2) obtain k v r1 where v: "scan_member val s = Inr ((k, v), r1)"
    by (auto simp: bindR_Inr_iff)
  have "length (tl (skip_ws r1)) \<le> length r1"
    using length_skip_ws [of r1] by simp
  moreover have "length r1 < length s" using Suc.prems(1) v by (rule scan_member_progress)
  moreover have "length r < length (skip_ws (tl (skip_ws r1)))"
    if "object_items val n e (skip_ws (tl (skip_ws r1))) = Inr (d', r)" for e
    using Suc.IH [OF Suc.prems(1) that] .
  moreover have "length (skip_ws (tl (skip_ws r1))) \<le> length (tl (skip_ws r1))"
    by (rule length_skip_ws)
  ultimately show ?case using Suc.prems(2)
    by (fastforce simp: v split: if_splits)
qed simp

lemma object_items_fuel:
  assumes "progressive val" "length s < n" "length s < m"
  shows "object_items val n d s = object_items val m d s"
  using assms(2,3)
proof (induction n arbitrary: s m d)
  case (Suc n)
  from Suc.prems obtain k where m: "m = Suc k" by (cases m) auto
  have "object_items val n e (skip_ws (tl (skip_ws r))) = object_items val k e (skip_ws (tl (skip_ws r)))"
    if "scan_member val s = Inr (v, r)" for v r e
  proof -
    have "length (skip_ws (tl (skip_ws r))) \<le> length r"
      using length_skip_ws [of r] length_skip_ws [of "tl (skip_ws r)"] by simp
    with scan_member_progress [OF assms(1) that] Suc.prems m show ?thesis by (intro Suc.IH) simp_all
  qed
  then show ?case by (auto simp: m intro!: bindR_cong)
qed simp

lemma scan_array_progress: "progressive val \<Longrightarrow> scan_array val s = Inr (v, r) \<Longrightarrow> length r \<le> length s"
  using length_skip_ws [of s]
  by (auto simp: scan_array_def bindR_Inr_iff simp del: array_items.simps split: if_splits dest!: array_items_progress)

lemma scan_object_progress: "progressive val \<Longrightarrow> scan_object val s = Inr (v, r) \<Longrightarrow> length r \<le> length s"
  using length_skip_ws [of s]
  by (auto simp: scan_object_def bindR_Inr_iff simp del: object_items.simps split: if_splits dest!: object_items_progress)

lemma scan_once_progress:
  assumes "\<And>s v r. arr s = Inr (v, r) \<Longrightarrow> length r \<le> length s"
    and "\<And>s v r. obj s = Inr (v, r) \<Longrightarrow> length r \<le> length s"
  shows "progressive (scan_once arr obj)"
proof -
  have drops: "length (drop n s) < length s" if "starts_with p s" "p \<noteq> []" "n > 0" for p s n
    using that by (rule starts_with_drop)
  have tls: "length (tl s) < length s" if "next_is c s" for c s using that by (rule next_is_tl)
  show ?thesis
    unfolding progressive_def
  proof (intro allI impI)
    fix s v r assume run: "scan_once arr obj s = Inr (v, r)"
    have step: "length r < length s"
      if "(if starts_with p s then Inr (x, drop n s) else rest) = Inr (v, r)" "p \<noteq> []" "n > 0"
        "rest = Inr (v, r) \<Longrightarrow> length r < length s" for p x n rest
      using that drops by (auto split: if_split_asm)
    consider "next_is 34 s" | "next_is 123 s" "obj (tl s) = Inr (v, r)" | "next_is 91 s" "arr (tl s) = Inr (v, r)"
      | "\<not> next_is 34 s" "\<not> next_is 123 s" "\<not> next_is 91 s"
      using run by (simp only: scan_once_def split: if_split_asm) (simp_all only: simp_thms)
    then show "length r < length s"
    proof cases
      case 1
      then have "bindR (scan_string (tl s)) (\<lambda>(t, r). Inr (JStr t, r)) = Inr (v, r)"
        using run by (simp add: scan_once_def)
      then show ?thesis using tls [OF 1] by (fastforce simp: bindR_Inr_iff dest: scan_string_progress)
    next
      case 2
      then show ?thesis using tls [OF 2(1)] assms(2) by fastforce
    next
      case 3
      then show ?thesis using tls [OF 3(1)] assms(1) by fastforce
    next
      case 4
      with run show ?thesis
        unfolding scan_once_def by (simp only: if_False) (elim step, simp_all add: scan_number_progress)
    qed
  qed
qed

lemma scan_value_progressive: "progressive (scan_value d)"
  by (induction d) (auto intro!: scan_once_progress dest: scan_array_progress scan_object_progress)

text \<open>The exceptions that loading may end with.\<close>

definition json_error :: "exn \<Rightarrow> bool" where
  "json_error e \<longleftrightarrow> e = JSONDecodeError \<or> e = UnicodeDecodeError \<or> (\<exists>m. e = ValueError m) \<or> e = recursion_error"

lemma json_error_simps [simp]:
  "json_error JSONDecodeError" "json_error UnicodeDecodeError" "json_error (ValueError m)"
  "json_error recursion_error"
  by (simp_all add: json_error_def)

lemma scan_string_error: "scan_string s = Inl e \<Longrightarrow> json_error e"
  by (induction s rule: scan_string.induct) (auto split: if_splits option.splits)

lemma scan_number_error: "scan_number s = Inl e \<Longrightarrow> json_error e"
  by (auto simp: scan_number_def Let_def split: if_splits prod.splits)

lemma array_items_error:
  assumes "\<And>s e. val s = Inl e \<Longrightarrow> json_error e"
  shows "array_items val n s = Inl e \<Longrightarrow> json_error e"
proof (induction n arbitrary: s)
  case (Suc n)
  then show ?case by (auto simp: bindR_Inl_iff split: if_splits dest: assms)
qed simp

lemma object_items_error:
  assumes "\<And>s e. val s = Inl e \<Longrightarrow> json_error e"
  shows "object_items val n d s = Inl e \<Longrightarrow> json_error e"
proof (induction n arbitrary: s d)
  case (Suc n)
  have "scan_member val s = Inl e \<Longrightarrow> json_error e"
    by (auto simp: scan_member_def bindR_Inl_iff split: if_splits dest: assms scan_string_error)
  with Suc show ?case by (auto simp: bindR_Inl_iff split: if_splits)
qed simp

lemma scan_once_error:
  assumes "\<And>s e. arr s = Inl e \<Longrightarrow> json_error e" "\<And>s e. obj s = Inl e \<Longrightarrow> json_error e"
  shows "scan_once arr obj s = Inl e \<Longrightarrow> json_error e"
  by (auto simp: scan_once_def bindR_Inl_iff split: if_splits dest: assms scan_number_error scan_string_error)

lemma scan_value_error: "scan_value d s = Inl e \<Longrightarrow> json_error e"
proof (induction d arbitrary: s e)
  case 0
  then have "scan_once (\<lambda>_. Inl recursion_error) (\<lambda>_. Inl recursion_error) s = Inl e" by simp
  then show ?case by (rule scan_once_error [rotated 2]) simp_all
next
  case (Suc d)
  have "scan_array (scan_value d) u = Inl f \<Longrightarrow> json_error f" for u f
    using array_items_error [OF Suc.IH]
    by (auto simp: scan_array_def bindR_Inl_iff simp del: array_items.simps split: if_splits)
  moreover have "scan_object (scan_value d) u = Inl f \<Longrightarrow> json_error f" for u f
    using object_items_error [OF Suc.IH]
    by (auto simp: scan_object_def bindR_Inl_iff simp del: object_items.simps split: if_splits)
  ultimately show ?case using Suc.prems scan_once_error by (metis scan_value.simps(2))
qed

lemma json_decode_error: "json_decode d s = Inl e \<Longrightarrow> json_error e"
  by (auto simp: json_decode_def bindR_Inl_iff split: if_splits dest: scan_value_error)

lemma json_loads_error: "json_loads d b = Inl e \<Longrightarrow> json_error e"
  by (auto simp: json_loads_def bindR_Inl_iff dest: json_decode_error json_bytes_decode_error)

section \<open>Loading what was dumped\<close>

text \<open>Text that survives: code points that are no surrogates.\<close>

definition scalar :: "pstr \<Rightarrow> bool" where
  "scalar s \<longleftrightarrow> (\<forall>c \<in> set s. is_scalar c)"

lemma hex_value_digit: "d < 16 \<Longrightarrow> hex_value (hex_digit d) = Some d"
  by (simp add: hex_value_def hex_digit_def digit_value_def)

lemma hex4_digits:
  "a < 16 \<Longrightarrow> b < 16 \<Longrightarrow> c < 16 \<Longrightarrow> d < 16 \<Longrightarrow>
     hex4 (hex_digit a # hex_digit b # hex_digit c # hex_digit d # X) = Some (((a * 16 + b) * 16 + c) * 16 + d)"
  by (simp add: hex4_def hex_value_digit)

lemma hex4_text:
  assumes "n < 65536"
  shows "hex4 (drop 2 (hex4_text n) @ X) = Some n"
proof -
  have split: "a = a div 16 * 16 + a mod 16" for a :: nat
    by (rule div_mult_mod_eq [symmetric])
  have "n div 16 div 16 = n div 256" "n div 256 div 16 = n div 4096"
    by (simp_all add: div_mult2_eq [symmetric])
  moreover have "n div 4096 mod 16 = n div 4096"
    using assms by (simp add: less_mult_imp_div_less)
  ultimately have "((n div 4096 mod 16 * 16 + n div 256 mod 16) * 16 + n div 16 mod 16) * 16 + n mod 16 = n"
    using split [of n] split [of "n div 16"] split [of "n div 256"] by metis
  moreover have "drop 2 (hex4_text n) @ X =
      hex_digit (n div 4096 mod 16) # hex_digit (n div 256 mod 16) # hex_digit (n div 16 mod 16) #
      hex_digit (n mod 16) # X"
    by (simp add: hex4_text_def)
  moreover have "a mod 16 < 16" for a :: nat by simp
  ultimately show ?thesis by (simp only: hex4_digits)
qed

lemma scan_string_hex4:
  assumes "n < 65536" "\<not> is_high n"
  shows "scan_string (hex4_text n @ X) = pushR n (scan_string X)"
  using hex4_text [OF assms(1), of X] assms(2) by (simp add: hex4_text_def scan_escape_def)

lemma scan_string_pair:
  assumes "0x10000 \<le> c" "c < 0x110000"
  shows "scan_string (hex4_text (0xD800 + (c - 0x10000) div 0x400) @
                      hex4_text (0xDC00 + (c - 0x10000) mod 0x400) @ X) = pushR c (scan_string X)"
proof -
  define h l where "h = 0xD800 + (c - 0x10000) div 0x400" and "l = 0xDC00 + (c - 0x10000) mod 0x400"
  have "(c - 0x10000) div 0x400 < 0x400" using assms by (simp add: less_mult_imp_div_less)
  then have "is_high h" "h < 65536" by (simp_all add: h_def is_high_def)
  moreover have m: "(c - 0x10000) mod 0x400 < 0x400" by simp
  then have "is_low l" "l < 65536" by (simp_all add: l_def is_low_def del: mod_less_divisor)
  moreover have "join_pair h l = c"
    using assms(1) div_mult_mod_eq [of "c - 0x10000" "0x400"] by (simp add: join_pair_def h_def l_def)
  ultimately show ?thesis
    using hex4_text [of h "hex4_text l @ X"] hex4_text [of l X]
    unfolding h_def [symmetric] l_def [symmetric]
    by (simp add: hex4_text_def [of h] hex4_text_def [of l] scan_escape_def)
qed

lemma scan_string_char:
  assumes "is_scalar c"
  shows "scan_string (escape_char ascii c @ X) = pushR c (scan_string X)"
proof -
  have "\<not> is_high c" using assms unfolding is_scalar_def is_surrogate_def is_high_def by linarith
  then have "c < 65536 \<Longrightarrow> scan_string (hex4_text c @ X) = pushR c (scan_string X)"
    by (rule scan_string_hex4 [rotated])
  with scan_string_pair [of c X] assms show ?thesis
    by (auto simp: escape_char_def scan_escape_def is_scalar_def)
qed

lemma scan_string_dump:
  assumes "scalar s"
  shows "scan_string (concat (map (escape_char ascii) s) @ 34 # X) = Inr (s, X)"
  using assms by (induction s) (simp_all add: scalar_def scan_string_char)

lemma nat_digits_props:
  assumes "1 < b"
  shows "nat_digits b n \<noteq> [] \<and> (\<forall>d \<in> set (nat_digits b n). d < b) \<and>
         foldl (\<lambda>a d. a * b + d) 0 (nat_digits b n) = n \<and> (0 < n \<longrightarrow> hd (nat_digits b n) \<noteq> 0) \<and>
         (n = 0 \<longrightarrow> nat_digits b n = [0])"
  using assms
proof (induction b n rule: nat_digits.induct)
  case (1 b n)
  show ?case
  proof (cases "n < b")
    case True
    with 1 show ?thesis by (auto simp: nat_digits.simps [of b n] nat_digits.simps [of b 0])
  next
    case False
    with 1 have "0 < n div b" by (simp add: div_greater_zero_iff)
    with False 1 show ?thesis by (simp add: nat_digits.simps [of b n])
  qed
qed

lemma py_str_int_eq:
  "py_str_int i = (if i < 0 then [45] else []) @ map (\<lambda>d. 48 + d) (nat_digits 10 (nat \<bar>i\<bar>))"
  by (cases "i < 0") (simp_all add: py_str_int_def)

definition ends_value :: "pstr \<Rightarrow> bool" where
  "ends_value r \<longleftrightarrow> r = [] \<or> hd r \<in> {44, 93, 125} \<or> is_json_space (hd r)"

lemma scan_number_int:
  assumes "length (nat_digits 10 (nat \<bar>i\<bar>)) \<le> 4300" "ends_value r"
  shows "scan_number (py_str_int i @ r) = Inr (JInt i, r)"
proof -
  define ds where "ds = map (\<lambda>d. 48 + d) (nat_digits 10 (nat \<bar>i\<bar>))"
  note n = nat_digits_props [of 10 "nat \<bar>i\<bar>"]
  have d: "ds \<noteq> []" "\<forall>c \<in> set ds. is_digit c" "length ds \<le> 4300"
    using n assms(1) by (auto simp: ds_def is_digit_def)
  have v: "digits_value ds = nat \<bar>i\<bar>"
    using n by (simp add: ds_def digits_value_def foldl_map)
  have zero: "hd ds = 48 \<Longrightarrow> ds = [48]"
    using n by (cases "nat \<bar>i\<bar> = 0") (auto simp: ds_def hd_map)
  have r: "\<not> next_is 46 r" "\<not> next_is 101 r" "\<not> next_is 69 r" "r = [] \<or> \<not> is_digit (hd r)"
    using assms(2) by (auto simp: ends_value_def next_is_def is_digit_def is_json_space_def)
  have ends: "scan_fraction r = ([], r)" "scan_exponent r = ([], r)"
    using r by (simp_all add: scan_fraction_def scan_exponent_def)
  have run: "takeWhile is_digit (ds @ r) = ds" "dropWhile is_digit (ds @ r) = r"
    using d(2) r(4) by (auto simp: takeWhile_append dropWhile_append takeWhile_eq_Nil_iff dropWhile_eq_self_iff)
  have first: "is_digit (hd (ds @ r))" "hd (ds @ r) = hd ds" "hd ds \<noteq> 45"
    using d by (auto simp: is_digit_def neq_Nil_conv)
  have tl: "tl ds @ r = r" if "hd ds = 48" using zero [OF that] by simp
  show ?thesis
  proof (cases "i < 0")
    case True
    have "py_str_int i @ r = 45 # ds @ r" using True by (simp add: py_str_int_def ds_def)
    then show ?thesis using True d v zero first tl
      by (simp add: scan_number_def Let_def next_is_def ends run)
  next
    case False
    have "py_str_int i @ r = ds @ r" using False by (simp add: py_str_int_def ds_def)
    then show ?thesis using False d v zero first tl
      by (simp add: scan_number_def Let_def next_is_def ends run)
  qed
qed

text \<open>
  The values that survive being dumped and loaded with a nesting of at most \<open>d\<close>: no floating-point
  numbers, integers of at most 4300 digits, text without surrogates, distinct keys.
\<close>

fun json_plain :: "nat \<Rightarrow> json \<Rightarrow> bool" where
  "json_plain d JNull = True"
| "json_plain d (JBool b) = True"
| "json_plain d (JInt i) = (length (nat_digits 10 (nat \<bar>i\<bar>)) \<le> 4300)"
| "json_plain d (JFloat t) = False"
| "json_plain d (JStr s) = scalar s"
| "json_plain 0 (JList vs) = False"
| "json_plain (Suc d) (JList vs) = (\<forall>v \<in> set vs. json_plain d v)"
| "json_plain 0 (JObj ms) = False"
| "json_plain (Suc d) (JObj ms) =
     (distinct (map fst ms) \<and> (\<forall>(k, v) \<in> set ms. scalar k \<and> json_plain d v))"

lemma skip_ws_nonspace: "s = [] \<or> \<not> is_json_space (hd s) \<Longrightarrow> skip_ws s = s"
  by (cases s) (simp_all add: skip_ws_def)

lemma next_is_Cons [simp]: "next_is c (x # s) \<longleftrightarrow> x = c" "\<not> next_is c []"
  by (auto simp: next_is_def)

lemma dumps_head:
  assumes "json_plain d v"
  obtains c cs where "json_dumps ascii v = c # cs" "\<not> is_json_space c" "c \<noteq> 93" "c \<noteq> 125" "c \<noteq> 44" "c < 127"
proof (cases v)
  case (JBool b)
  then show thesis by (cases b; intro that) (auto simp: lit_Cons is_json_space_def)
next
  case (JInt i)
  obtain e es where n: "nat_digits 10 (nat \<bar>i\<bar>) = e # es" "e < 10"
    using nat_digits_props [of 10 "nat \<bar>i\<bar>"] by (cases "nat_digits 10 (nat \<bar>i\<bar>)") simp_all
  have "\<exists>cs. py_str_int i = (if i < 0 then 45 else 48 + e) # cs"
    using n(1) by (simp add: py_str_int_eq)
  then obtain c cs where "py_str_int i = c # cs" "c = 45 \<or> 48 \<le> c \<and> c < 58"
    using n(2) by auto
  with JInt show thesis by (intro that) (auto simp: is_json_space_def)
qed (use assms that in \<open>auto simp: lit_Cons dump_string_def is_json_space_def split: if_splits\<close>)

text \<open>
  What the loops over the items of an array and the members of an object read, for any printing \<open>t\<close> of
  the values and any white space around the separators.
\<close>

definition blank :: "pstr \<Rightarrow> bool" where
  "blank s \<longleftrightarrow> (\<forall>c \<in> set s. is_json_space c)"

lemma blank_simps [simp]: "blank []" "blank (c # s) \<longleftrightarrow> is_json_space c \<and> blank s"
  by (simp_all add: blank_def)

lemma skip_ws_blank [simp]: "blank b \<Longrightarrow> skip_ws (b @ s) = skip_ws s"
  by (induction b) (simp_all add: skip_ws_def)

lemma skip_ws_Cons: "\<not> is_json_space c \<Longrightarrow> skip_ws (c # s) = c # s"
  by (simp add: skip_ws_def)

lemma closers_no_space [simp]: "\<not> is_json_space 44" "\<not> is_json_space 58" "\<not> is_json_space 93"
    "\<not> is_json_space 125" "\<not> is_json_space 34"
  by (simp_all add: is_json_space_def)

lemma ends_value_blank: "blank b \<Longrightarrow> ends_value s \<Longrightarrow> ends_value (b @ s)"
  by (cases b) (auto simp: ends_value_def)

lemma scan_items:
  assumes val: "\<And>v r. v \<in> set (w # vs) \<Longrightarrow> ends_value r \<Longrightarrow> val (t v @ r) = Inr (v, r)"
    and heads: "\<And>v r. v \<in> set (w # vs) \<Longrightarrow> skip_ws (t v @ r) = t v @ r"
    and "length vs < n" and blank: "blank sep" "blank close"
  shows "array_items val n (t w @ concat (map (\<lambda>v. 44 # sep @ t v) vs) @ close @ 93 # r) = Inr (w # vs, r)"
  using assms(1-3)
proof (induction vs arbitrary: w n)
  case Nil
  then obtain m where n: "n = Suc m" by (cases n) auto
  have "ends_value (close @ 93 # r)"
    by (rule ends_value_blank [OF blank(2)]) (simp add: ends_value_def)
  then show ?case using Nil.prems(1) [of w "close @ 93 # r"] blank
    by (simp add: n skip_ws_Cons)
next
  case (Cons u vs)
  then obtain m where n: "n = Suc m" by (cases n) auto
  let ?rest = "t u @ concat (map (\<lambda>v. 44 # sep @ t v) vs) @ close @ 93 # r"
  have "array_items val m ?rest = Inr (u # vs, r)"
    using Cons.prems n by (intro Cons.IH) auto
  moreover have "val (t w @ 44 # sep @ ?rest) = Inr (w, 44 # sep @ ?rest)"
    using Cons.prems(1) [of w] by (simp add: ends_value_def)
  ultimately show ?case using Cons.prems(2) [of u] blank
    by (simp add: n skip_ws_Cons)
qed

lemma scan_member_text:
  assumes "scalar k" "val (x @ r) = Inr (v, r)" "skip_ws (x @ r) = x @ r" "blank sep"
  shows "scan_member val ((dump_string ascii k @ 58 # sep @ x) @ r) = Inr ((k, v), r)"
proof -
  note skip = skip_ws_Cons [of 58] closers_no_space skip_ws_blank [OF assms(4)] assms(3)
  note str = scan_string_dump [OF assms(1), of ascii "58 # sep @ x @ r"]
  show ?thesis
    by (simp only: scan_member_def dump_string_def append.simps append_assoc
        next_is_Cons list.sel str bindR_simps prod.case skip simp_thms if_False if_True assms(2) not_False_eq_True)
qed

lemma scan_members:
  assumes "\<And>k v r. (k, v) \<in> set (w # ms) \<Longrightarrow> ends_value r \<Longrightarrow> scan_member val (t (k, v) @ r) = Inr ((k, v), r)"
    and heads: "\<And>m r. skip_ws (t m @ r) = t m @ r"
    and "length ms < n" "distinct (map fst (d @ w # ms))" and blank: "blank sep" "blank close"
  shows "object_items val n d (t w @ concat (map (\<lambda>m. 44 # sep @ t m) ms) @ close @ 125 # r) =
           Inr (d @ w # ms, r)"
  using assms(1,3,4)
proof (induction ms arbitrary: w n d)
  case Nil
  then obtain m where n: "n = Suc m" by (cases n) auto
  obtain k v where w: "w = (k, v)" by (cases w)
  have "AList.update k v d = d @ [(k, v)]"
    using Nil.prems(3) by (simp add: w update_fresh)
  moreover have "ends_value (close @ 125 # r)"
    by (rule ends_value_blank [OF blank(2)]) (simp add: ends_value_def)
  ultimately show ?case using Nil.prems(1) [of k v "close @ 125 # r"] blank
    by (simp add: n w skip_ws_Cons)
next
  case (Cons u ms)
  then obtain m where n: "n = Suc m" by (cases n) auto
  obtain k v where w: "w = (k, v)" by (cases w)
  let ?rest = "t u @ concat (map (\<lambda>m. 44 # sep @ t m) ms) @ close @ 125 # r"
  have "AList.update k v d = d @ [(k, v)]"
    using Cons.prems(3) by (simp add: w update_fresh)
  moreover have "object_items val m (d @ [(k, v)]) ?rest = Inr ((d @ [(k, v)]) @ u # ms, r)"
    using Cons.prems n w by (intro Cons.IH) auto
  moreover have "scan_member val (t w @ 44 # sep @ ?rest) = Inr (w, 44 # sep @ ?rest)"
    using Cons.prems(1) [of k v] by (simp add: w ends_value_def)
  moreover have "skip_ws (44 # sep @ ?rest) = 44 # sep @ ?rest" "skip_ws (sep @ ?rest) = ?rest"
    using blank heads by (simp_all add: skip_ws_Cons)
  ultimately show ?case by (simp add: n w)
qed

lemma length_separated: "length ws \<le> length (concat (map (\<lambda>v. 44 # f v) ws))"
  by (induction ws) auto

lemma scan_array_text:
  assumes val: "\<And>v r. v \<in> set (w # vs) \<Longrightarrow> ends_value r \<Longrightarrow> val (t v @ r) = Inr (v, r)"
    and heads: "\<And>v r. v \<in> set (w # vs) \<Longrightarrow> skip_ws (t v @ r) = t v @ r"
    and first: "\<And>r. \<not> next_is 93 (t w @ r)" and blank: "blank open" "blank sep" "blank close"
  shows "scan_array val (open @ t w @ concat (map (\<lambda>v. 44 # sep @ t v) vs) @ close @ 93 # r) =
    Inr (JList (w # vs), r)"
proof -
  define s where "s = t w @ concat (map (\<lambda>v. 44 # sep @ t v) vs) @ close @ 93 # r"
  have "array_items val (Suc (length (open @ s))) s = Inr (w # vs, r)"
    unfolding s_def
    by (rule scan_items [OF val heads _ blank(2,3)])
      (use length_separated [of vs "\<lambda>v. sep @ t v"] in simp_all)
  moreover have "skip_ws s = s" "\<not> next_is 93 s"
    using heads [of w] first by (simp_all add: s_def)
  ultimately have "scan_array val (open @ s) = Inr (JList (w # vs), r)"
    using blank by (simp add: scan_array_def del: array_items.simps)
  then show ?thesis by (simp add: s_def)
qed

lemma scan_object_text:
  assumes "\<And>k v r. (k, v) \<in> set (w # ms) \<Longrightarrow> ends_value r \<Longrightarrow> scan_member val (t (k, v) @ r) = Inr ((k, v), r)"
    and heads: "\<And>m r. skip_ws (t m @ r) = t m @ r" and first: "\<And>m r. \<not> next_is 125 (t m @ r)"
    and "distinct (map fst (w # ms))" and blank: "blank open" "blank sep" "blank close"
  shows "scan_object val (open @ t w @ concat (map (\<lambda>m. 44 # sep @ t m) ms) @ close @ 125 # r) =
    Inr (JObj (w # ms), r)"
proof -
  define s where "s = t w @ concat (map (\<lambda>m. 44 # sep @ t m) ms) @ close @ 125 # r"
  have "object_items val (Suc (length (open @ s))) [] s = Inr ([] @ w # ms, r)"
    unfolding s_def
    by (rule scan_members [OF assms(1) heads _ _ blank(2,3)])
      (use length_separated [of ms "\<lambda>v. sep @ t v"] assms(4) in simp_all)
  moreover have "skip_ws s = s" "\<not> next_is 125 s"
    using heads [of w] first by (simp_all add: s_def)
  ultimately have "scan_object val (open @ s) = Inr (JObj (w # ms), r)"
    using blank by (simp add: scan_object_def del: object_items.simps)
  then show ?thesis by (simp add: s_def)
qed

definition dump_member :: "bool \<Rightarrow> pstr \<times> json \<Rightarrow> pstr" where
  "dump_member ascii m = dump_string ascii (fst m) @ 58 # json_dumps ascii (snd m)"

lemma json_dumps_obj:
  "json_dumps ascii (JObj d) = 123 # commas (map (dump_member ascii) d) @ [125]"
proof -
  have "(\<lambda>(k, v). dump_string ascii k @ 58 # json_dumps ascii v) = dump_member ascii"
    by (auto simp: dump_member_def)
  then show ?thesis by simp
qed

lemma next_is_hd: "next_is c (x # s @ t) \<longleftrightarrow> x = c"
  by simp

lemma scan_atom:
  assumes "json_plain d v" "ends_value r" "\<And>vs. v \<noteq> JList vs" "\<And>ms. v \<noteq> JObj ms"
  shows "scan_once arr obj (json_dumps ascii v @ r) = Inr (v, r)"
proof (cases v)
  case (JStr t)
  then show ?thesis using scan_string_dump [of t ascii r] assms(1)
    by (simp add: scan_once_def dump_string_def)
next
  case (JInt i)
  obtain e es where n: "nat_digits 10 (nat \<bar>i\<bar>) = e # es" "e < 10"
    using nat_digits_props [of 10 "nat \<bar>i\<bar>"] by (cases "nat_digits 10 (nat \<bar>i\<bar>)") simp_all
  let ?ds = "map ((+) 48) es"
  have p: "py_str_int i = (if i < 0 then 45 # (48 + e) # ?ds else (48 + e) # ?ds)"
    using n(1) by (simp add: py_str_int_eq)
  have "scan_once arr obj (py_str_int i @ r) = scan_number (py_str_int i @ r)"
    using n(2) by (simp add: p scan_once_def starts_with_def lit_Cons)
  with scan_number_int [of i r] assms(1,2) JInt show ?thesis by simp
qed (use assms in \<open>auto simp: scan_once_def starts_with_def lit_Cons\<close>)

lemma skip_ws_dumps: "json_plain d v \<Longrightarrow> skip_ws (json_dumps ascii v @ r) = json_dumps ascii v @ r"
  by (erule dumps_head [of _ _ ascii]) (auto intro!: skip_ws_nonspace)

lemma dump_member_head:
  "skip_ws (dump_member ascii m @ r) = dump_member ascii m @ r" "\<not> next_is 125 (dump_member ascii m @ r)"
  by (simp_all add: dump_member_def dump_string_def skip_ws_Cons)

lemma scan_array_dump:
  assumes val: "\<And>v r. v \<in> set vs \<Longrightarrow> ends_value r \<Longrightarrow> val (json_dumps ascii v @ r) = Inr (v, r)"
    and plain: "\<forall>v \<in> set vs. json_plain d v"
  shows "scan_array val (commas (map (json_dumps ascii) vs) @ 93 # r) = Inr (JList vs, r)"
proof (cases vs)
  case Nil
  then show ?thesis by (simp add: scan_array_def commas_def skip_ws_Cons)
next
  case (Cons w ws)
  have "skip_ws (json_dumps ascii v @ s) = json_dumps ascii v @ s" if "v \<in> set (w # ws)" for v s
    using that plain Cons by (intro skip_ws_dumps) auto
  moreover have "\<not> next_is 93 (json_dumps ascii w @ s)" for s
    using plain Cons by (auto elim: dumps_head [of _ _ ascii])
  ultimately show ?thesis
    using val Cons scan_array_text [of w ws val "json_dumps ascii" "[]" "[]" "[]" r]
    by (simp add: commas_def comp_def)
qed

lemma scan_object_dump:
  assumes val: "\<And>k v r. (k, v) \<in> set ms \<Longrightarrow> ends_value r \<Longrightarrow> val (json_dumps ascii v @ r) = Inr (v, r)"
    and plain: "\<And>k v. (k, v) \<in> set ms \<Longrightarrow> scalar k \<and> json_plain d v" and "distinct (map fst ms)"
  shows "scan_object val (commas (map (dump_member ascii) ms) @ 125 # r) = Inr (JObj ms, r)"
proof (cases ms)
  case Nil
  then show ?thesis by (simp add: scan_object_def commas_def skip_ws_Cons)
next
  case (Cons w ws)
  have "scan_member val (dump_member ascii (k, v) @ t) = Inr ((k, v), t)"
    if "(k, v) \<in> set (w # ws)" "ends_value t" for k v t
    using that val [of k v t] plain [of k v] Cons
      scan_member_text [of k val "json_dumps ascii v" t v "[]" ascii]
    by (auto simp: dump_member_def skip_ws_dumps)
  from scan_object_text [of w ws val "dump_member ascii" "[]" "[]" "[]" r, OF this] show ?thesis
    using assms(3) Cons by (simp add: commas_def comp_def dump_member_head)
qed

lemma scan_dump:
  "json_plain d v \<Longrightarrow> ends_value r \<Longrightarrow> scan_value d (json_dumps ascii v @ r) = Inr (v, r)"
proof (induction d arbitrary: v r)
  case 0
  have "v \<noteq> JList vs" "v \<noteq> JObj ms" for vs ms using 0 by auto
  with 0 show ?case by (simp add: scan_atom)
next
  case (Suc d)
  consider vs where "v = JList vs" | ms where "v = JObj ms" | "\<And>vs. v \<noteq> JList vs" "\<And>ms. v \<noteq> JObj ms"
    by (cases v) auto
  then show ?case
  proof cases
    case 1
    with Suc have "scan_array (scan_value d) (commas (map (json_dumps ascii) vs) @ 93 # r) = Inr (JList vs, r)"
      by (intro scan_array_dump) auto
    then show ?thesis by (simp add: 1 scan_once_def)
  next
    case 2
    with Suc have "scan_object (scan_value d) (commas (map (dump_member ascii) ms) @ 125 # r) = Inr (JObj ms, r)"
      by (intro scan_object_dump) auto
    then show ?thesis by (simp add: 2 scan_once_def json_dumps_obj del: json_dumps.simps)
  next
    case 3
    with Suc.prems show ?thesis by (simp add: scan_atom)
  qed
qed

lemma json_decode_dumps: "json_plain d v \<Longrightarrow> json_decode d (json_dumps ascii v) = Inr v"
  using scan_dump [of d v "[]" ascii] skip_ws_dumps [of d v ascii "[]"]
  by (simp add: json_decode_def ends_value_def skip_ws_def)

section \<open>The bytes of a dumped value\<close>

text \<open>With \<^verbatim>\<open>ensure_ascii\<close> the text is printable ASCII; without it, no control character is left.\<close>

lemma hex_digit_range: "d < 16 \<Longrightarrow> 32 \<le> hex_digit d \<and> hex_digit d < 127"
  by (simp add: hex_digit_def)

lemma hex4_text_range: "c \<in> set (hex4_text n) \<Longrightarrow> 32 \<le> c \<and> c < 127"
proof -
  have "a mod 16 < 16" for a :: nat by simp
  then show "c \<in> set (hex4_text n) \<Longrightarrow> 32 \<le> c \<and> c < 127"
    using hex_digit_range by (auto simp: hex4_text_def)
qed

lemma escape_char_range:
  "x \<in> set (escape_char ascii c) \<Longrightarrow> 32 \<le> x \<and> (x < 127 \<or> \<not> ascii \<and> x = c)"
  unfolding escape_char_def by (auto split: if_splits dest!: hex4_text_range)

lemma commas_chars: "c \<in> set (commas ts) \<Longrightarrow> c = 44 \<or> (\<exists>t \<in> set ts. c \<in> set t)"
  by (auto simp: commas_def split: list.splits if_splits)

lemma dump_string_chars:
  "scalar s \<Longrightarrow> c \<in> set (dump_string ascii s) \<Longrightarrow>
     32 \<le> c \<and> is_scalar c \<and> (ascii \<longrightarrow> c < 127)"
  by (auto simp: dump_string_def scalar_def is_scalar_def is_surrogate_def dest!: escape_char_range)

lemma dumps_chars:
  "json_plain d v \<Longrightarrow> c \<in> set (json_dumps ascii v) \<Longrightarrow>
     32 \<le> c \<and> is_scalar c \<and> (ascii \<longrightarrow> c < 127)"
proof (induction d v arbitrary: c rule: json_plain.induct)
  case (2 d b)
  then show ?case by (cases b) (auto simp: lit_Cons is_scalar_def is_surrogate_def)
next
  case (3 d i)
  have "\<forall>e \<in> set (nat_digits 10 (nat \<bar>i\<bar>)). e < 10"
    using nat_digits_props [of 10 "nat \<bar>i\<bar>"] by simp
  with 3 show ?case by (auto simp: py_str_int_eq is_scalar_def is_surrogate_def split: if_splits)
next
  case (5 d s)
  then show ?case by (intro dump_string_chars) auto
next
  case (7 d vs)
  then show ?case by (auto simp: is_scalar_def is_surrogate_def dest!: commas_chars)
next
  case (9 d ms)
  from 9(3) consider "c \<in> {123, 125, 44, 58}" | k v where "(k, v) \<in> set ms" "c \<in> set (dump_string ascii k)"
    | k v where "(k, v) \<in> set ms" "c \<in> set (json_dumps ascii v)"
    by (auto simp: dump_member_def json_dumps_obj simp del: json_dumps.simps dest!: commas_chars)
  then show ?case
  proof cases
    case 2
    with 9(2) have "scalar k" by auto
    then show ?thesis using 2(2) by (rule dump_string_chars)
  next
    case 3
    with 9 show ?thesis by fastforce
  qed (auto simp: is_scalar_def is_surrogate_def)
qed (auto simp: lit_Cons is_scalar_def is_surrogate_def)

lemma utf8_char_bytes: "32 \<le> c \<Longrightarrow> b \<in> set (utf8_char c) \<Longrightarrow> 32 \<le> b"
  by (auto simp: utf8_char_def split: if_splits)

lemma json_loads_dumps:
  assumes "json_plain d v"
  obtains b where "utf8_encode (json_dumps ascii v) = Inr b" "\<forall>x \<in> set b. 32 \<le> x" "b \<noteq> []"
    "json_loads d b = Inr v" "ascii \<Longrightarrow> b = json_dumps ascii v"
proof -
  let ?s = "json_dumps ascii v"
  obtain c cs where s: "?s = c # cs" "c < 127" using dumps_head [OF assms] by metis
  have chars: "32 \<le> x" "is_scalar x" "x < 0x110000" "ascii \<longrightarrow> x < 127" if "x \<in> set ?s" for x
    using dumps_chars [OF assms that] by (simp_all add: is_scalar_def)
  let ?b = "concat (map utf8_char ?s)"
  have enc: "utf8_encode ?s = Inr ?b" using chars(2) by (auto simp: utf8_encode_def)
  have uni: "unicode ?s" using chars(3) by (simp add: unicode_def)
  have ge: "\<forall>x \<in> set ?b. 32 \<le> x" using chars(1) by (auto dest: utf8_char_bytes)
  have "hd ?b < 0x80" "?b \<noteq> []" using s by (simp_all add: utf8_char_def)
  moreover have "0 \<notin> set ?b" using ge by fastforce
  ultimately have "json_bytes_decode ?b = utf8_decode ?b" by (intro json_bytes_decode_utf8) simp_all
  then have "json_loads d ?b = Inr v"
    using utf8_decode_chars [OF uni] json_decode_dumps [OF assms, of ascii] by (simp add: json_loads_def)
  moreover have "?b = ?s" if ascii
  proof -
    have "\<forall>x \<in> set ?s. x < 0x80" using that chars(4) by fastforce
    from utf8_encode_ascii [OF this] enc show ?thesis by simp
  qed
  ultimately show thesis using that [OF enc ge] s by (simp add: utf8_char_def)
qed

section \<open>Literals\<close>

lemma of_char_small: "(of_char c :: nat) < 256"
  by (rule String.nat_of_char_less_256)

lemma scalar_lit [simp]: "scalar (lit s)"
proof -
  have "is_scalar (of_char c)" for c
    using of_char_small [of c] unfolding is_scalar_def is_surrogate_def by linarith
  then show ?thesis by (auto simp: scalar_def lit_def)
qed

section \<open>Decimal numbers\<close>

lemma nat_digits_length: "1 < b \<Longrightarrow> n < b ^ Suc k \<Longrightarrow> length (nat_digits b n) \<le> Suc k"
proof (induction k arbitrary: n)
  case (Suc k)
  show ?case
  proof (cases "n < b")
    case False
    have "n div b < b ^ Suc k"
      using Suc.prems by (simp add: div_less_iff_less_mult mult.commute)
    with Suc.IH Suc.prems(1) False show ?thesis by (simp add: nat_digits.simps [of b n])
  qed (simp add: nat_digits.simps)
qed (simp add: nat_digits.simps)

lemma parse_digits_decimal:
  assumes "\<forall>d \<in> set ds. d < 10" "ds \<noteq> [] \<or> us"
  shows "parse_digits 10 us acc (map (\<lambda>d. 48 + d) ds) = Some (foldl (\<lambda>a d. a * 10 + d) acc ds)"
  using assms
proof (induction ds arbitrary: us acc)
  case (Cons d ds)
  then show ?case using Cons.IH [of True] by (simp add: digit_value_def)
qed simp

lemma py_int_decimal:
  assumes "0 \<le> i" "i < 10 ^ 100"
  shows "py_int U 10 (py_str_int i) = Inr i"
proof -
  let ?ds = "nat_digits 10 (nat i)"
  let ?s = "map (\<lambda>d. 48 + d) ?ds"
  note n = nat_digits_props [of 10 "nat i"]
  have len: "length ?ds \<le> 100"
  proof -
    have "nat i < nat (10 ^ 100)" using assms by linarith
    then have "nat i < 10 ^ Suc 99" by simp
    from nat_digits_length [OF _ this] show ?thesis by simp
  qed
  have digit: "48 \<le> c \<and> c < 58" if "c \<in> set ?s" for c
    using that n by auto
  have ne: "?s \<noteq> []" using n by simp
  have ascii: "map (ascii_decimal U) ?s = ?s"
    using digit by (intro map_idI) (fastforce simp: ascii_decimal_def)
  have strip: "rstrip_by is_cspace (lstrip_by is_cspace ?s) = ?s"
    using digit [OF hd_in_set [OF ne]] digit [OF last_in_set [OF ne]]
    by (intro strip_by_id) (simp add: is_cspace_def)
  have sign: "hd ?s \<noteq> 45" "hd ?s \<noteq> 43"
    using digit [OF hd_in_set [OF ne]] by simp_all
  have plain: "filter (\<lambda>c. c \<noteq> 95) ?s = ?s"
    using digit by (intro filter_True) fastforce
  have "parse_digits 10 False 0 ?s = Some (nat i)"
    using n by (subst parse_digits_decimal) simp_all
  then show ?thesis
    using assms(1) len ne sign plain
    by (simp add: py_int_def py_str_int_def Let_def ascii strip del: map_map)
qed

lemma str_int_chars: "c \<in> set (py_str_int i) \<Longrightarrow> c = 45 \<or> (48 \<le> c \<and> c < 58)" "py_str_int i \<noteq> []"
  using nat_digits_props [of 10 "nat \<bar>i\<bar>"] by (auto simp: py_str_int_eq split: if_splits)

end
