(* ===== verification/Sockets.thy ===== *)
theory Sockets
  imports Prelude
begin

text \<open>
  Connected sockets, as both ends of the network daemon's socket use them: a record of the system
  calls that the code makes on one. The streams of the second section are sockets on which the
  bytes of the other end arrive in segments of any size, each after its own delay; the theorems
  about both ends are stated for every way to cut a message into segments.
\<close>

section \<open>System calls\<close>

text \<open>The system calls on a connected socket: \<^verbatim>\<open>recv\<close> is given what is left of the time.\<close>

record 'c sock =
  sock_peercred :: "('c, bytes) io"
  sock_monotonic :: "('c, int) io"
  sock_recv :: "int \<Rightarrow> nat \<Rightarrow> ('c, bytes) io"
  sock_sendall :: "bytes \<Rightarrow> ('c, unit) io"

text \<open>\<^verbatim>\<open>struct.unpack("3i", credentials)\<close> on a little-endian machine; the second is the user.\<close>

definition signed32 :: "bytes \<Rightarrow> int" where
  "signed32 b =
     (let v = (case b of [b0, b1, b2, b3] \<Rightarrow> b0 + 256 * (b1 + 256 * (b2 + 256 * b3)) | _ \<Rightarrow> 0)
      in if v < 2 ^ 31 then int v else int v - 2 ^ 32)"

section \<open>Streams of segments\<close>

text \<open>
  A stream of segments: what \<^verbatim>\<open>recv\<close> gives is a prefix of the first segment, which arrives
  after its delay; at the end of the stream it gives nothing. A segment that does not arrive in
  the time left is a \<^verbatim>\<open>TimeoutError\<close>. What is sent is recorded.
\<close>

record stream =
  st_segments :: "(int \<times> bytes) list"
  st_clock :: int
  st_peer :: bytes
  st_sent :: bytes

definition stream_recv :: "int \<Rightarrow> nat \<Rightarrow> (stream, bytes) io" where
  "stream_recv time n c =
     (case st_segments c of
        [] \<Rightarrow> (Inr [], c)
      | (delay, segment) # rest \<Rightarrow>
          if delay > time then (Inl TimeoutError, c\<lparr>st_clock := st_clock c + time\<rparr>)
          else (Inr (take n segment),
                c\<lparr>st_clock := st_clock c + delay,
                  st_segments := (if length segment \<le> n then rest else (0, drop n segment) # rest)\<rparr>))"

definition stream_sock :: "stream sock" where
  "stream_sock =
     \<lparr>sock_peercred = (\<lambda>c. (Inr (st_peer c), c)),
      sock_monotonic = (\<lambda>c. (Inr (st_clock c), c)),
      sock_recv = stream_recv,
      sock_sendall = (\<lambda>b c. (Inr (), c\<lparr>st_sent := st_sent c @ b\<rparr>))\<rparr>"

definition content :: "(int \<times> bytes) list \<Rightarrow> bytes" where
  "content segments = concat (map snd segments)"

definition delays :: "(int \<times> bytes) list \<Rightarrow> int" where
  "delays segments = sum_list (map fst segments)"

definition segments_ok :: "(int \<times> bytes) list \<Rightarrow> bool" where
  "segments_ok segments \<longleftrightarrow> (\<forall>(d, s) \<in> set segments. 0 \<le> d \<and> s \<noteq> [])"

lemma segments_simps [simp]:
  "content [] = []" "content ((d, s) # ss) = s @ content ss"
  "delays [] = 0" "delays ((d, s) # ss) = d + delays ss"
  "segments_ok []" "segments_ok ((d, s) # ss) \<longleftrightarrow> 0 \<le> d \<and> s \<noteq> [] \<and> segments_ok ss"
  by (auto simp: content_def delays_def segments_ok_def)

lemma delays_nonneg: "segments_ok ss \<Longrightarrow> 0 \<le> delays ss"
  by (induction ss) auto

end
