(* ===== verification/Net_State.thy ===== *)
theory Net_State
  imports Protocol
begin

text \<open>
  The management-network state machine (\<^verbatim>\<open>setup-ui/rave_network_ipc/state.py\<close>): its events
  and its transition table, which \<^verbatim>\<open>transition\<close> looks up and refuses every other pair.
\<close>

datatype network_event =
    BOOT | NO_SAVED_NETWORK | STATION_REQUESTED | STATION_CONNECTED_EV | STATION_TIMEOUT
  | PROVISIONING_REQUESTED | AP_READY | AP_FAILED

fun event_value :: "network_event \<Rightarrow> pstr" where
  "event_value BOOT = lit ''boot''"
| "event_value NO_SAVED_NETWORK = lit ''no_saved_network''"
| "event_value STATION_REQUESTED = lit ''station_requested''"
| "event_value STATION_CONNECTED_EV = lit ''station_connected''"
| "event_value STATION_TIMEOUT = lit ''station_timeout''"
| "event_value PROVISIONING_REQUESTED = lit ''provisioning_requested''"
| "event_value AP_READY = lit ''ap_ready''"
| "event_value AP_FAILED = lit ''ap_failed''"

definition TRANSITIONS :: "((network_mode \<times> network_event) \<times> network_mode) list" where
  "TRANSITIONS =
    [((UNCONFIGURED, BOOT), STATION_CONNECTING),
     ((STATION_CONNECTING, NO_SAVED_NETWORK), TRANSITION),
     ((STATION_CONNECTING, STATION_CONNECTED_EV), STATION_CONNECTED),
     ((STATION_CONNECTING, STATION_TIMEOUT), TRANSITION),
     ((STATION_CONNECTING, PROVISIONING_REQUESTED), TRANSITION),
     ((STATION_CONNECTED, STATION_REQUESTED), TRANSITION),
     ((STATION_CONNECTED, PROVISIONING_REQUESTED), TRANSITION),
     ((STATION_CONNECTED, STATION_TIMEOUT), TRANSITION),
     ((PROVISIONING_AP, STATION_REQUESTED), TRANSITION),
     ((PROVISIONING_AP, PROVISIONING_REQUESTED), TRANSITION),
     ((TRANSITION, STATION_CONNECTED_EV), STATION_CONNECTED),
     ((TRANSITION, STATION_TIMEOUT), TRANSITION),
     ((TRANSITION, AP_READY), PROVISIONING_AP),
     ((TRANSITION, AP_FAILED), ERROR),
     ((ERROR, BOOT), STATION_CONNECTING),
     ((ERROR, PROVISIONING_REQUESTED), TRANSITION)]"

definition transition :: "network_mode \<Rightarrow> network_event \<Rightarrow> exn + network_mode" where
  "transition current event =
     (case map_of TRANSITIONS (current, event) of
        Some next \<Rightarrow> Inr next
      | None \<Rightarrow> Inl (ValueError (lit ''invalid network transition: '' @ mode_value current @
                                lit '' + '' @ event_value event)))"

text \<open>The table evaluated at every pair: the simplification rules of the components above.\<close>

lemma transition_UNCONFIGURED:
  "transition UNCONFIGURED e =
     (case e of BOOT \<Rightarrow> Inr STATION_CONNECTING
      | _ \<Rightarrow> Inl (ValueError (lit ''invalid network transition: '' @ mode_value UNCONFIGURED @
                              lit '' + '' @ event_value e)))"
  by (cases e) (simp_all add: transition_def TRANSITIONS_def)

lemma transition_Inr_cases:
  "transition m e = Inr m' \<longleftrightarrow> ((m, e), m') \<in> set TRANSITIONS"
proof -
  have "distinct (map fst TRANSITIONS)"
    by (simp add: TRANSITIONS_def)
  then have "map_of TRANSITIONS (m, e) = Some m' \<longleftrightarrow> ((m, e), m') \<in> set TRANSITIONS"
    by simp
  then show ?thesis
    by (auto simp: transition_def split: option.splits)
qed

lemma transition_Inr_simps [simp]:
  "transition m e = Inr UNCONFIGURED \<longleftrightarrow> False"
  "transition m e = Inr STATION_CONNECTING \<longleftrightarrow> e = BOOT \<and> (m = UNCONFIGURED \<or> m = ERROR)"
  "transition m e = Inr PROVISIONING_AP \<longleftrightarrow> m = TRANSITION \<and> e = AP_READY"
  "transition m e = Inr STATION_CONNECTED \<longleftrightarrow>
     e = STATION_CONNECTED_EV \<and> (m = STATION_CONNECTING \<or> m = TRANSITION)"
  "transition m e = Inr ERROR \<longleftrightarrow> m = TRANSITION \<and> e = AP_FAILED"
  by (auto simp: transition_Inr_cases TRANSITIONS_def)

lemma transition_total:
  "(\<exists>m'. transition m e = Inr m') \<or> (\<exists>msg. transition m e = Inl (ValueError msg))"
  by (auto simp: transition_def split: option.splits)

lemma transition_Inl: "transition m e = Inl x \<Longrightarrow> \<exists>msg. x = ValueError msg"
  by (auto simp: transition_def split: option.splits)

lemma transition_concrete [simp]:
  "transition UNCONFIGURED BOOT = Inr STATION_CONNECTING"
  "transition STATION_CONNECTING NO_SAVED_NETWORK = Inr TRANSITION"
  "transition STATION_CONNECTING STATION_CONNECTED_EV = Inr STATION_CONNECTED"
  "transition STATION_CONNECTING STATION_TIMEOUT = Inr TRANSITION"
  "transition STATION_CONNECTING PROVISIONING_REQUESTED = Inr TRANSITION"
  "transition STATION_CONNECTED STATION_REQUESTED = Inr TRANSITION"
  "transition STATION_CONNECTED PROVISIONING_REQUESTED = Inr TRANSITION"
  "transition STATION_CONNECTED STATION_TIMEOUT = Inr TRANSITION"
  "transition PROVISIONING_AP STATION_REQUESTED = Inr TRANSITION"
  "transition PROVISIONING_AP PROVISIONING_REQUESTED = Inr TRANSITION"
  "transition TRANSITION STATION_CONNECTED_EV = Inr STATION_CONNECTED"
  "transition TRANSITION STATION_TIMEOUT = Inr TRANSITION"
  "transition TRANSITION AP_READY = Inr PROVISIONING_AP"
  "transition TRANSITION AP_FAILED = Inr ERROR"
  "transition ERROR BOOT = Inr STATION_CONNECTING"
  "transition ERROR PROVISIONING_REQUESTED = Inr TRANSITION"
  by (simp_all add: transition_def TRANSITIONS_def)

lemma transition_BOOT: "transition m BOOT = Inr m' \<longleftrightarrow> m \<in> {UNCONFIGURED, ERROR} \<and> m' = STATION_CONNECTING"
  by (auto simp: transition_Inr_cases TRANSITIONS_def)

lemma transition_STATION_REQUESTED:
  "transition m STATION_REQUESTED = Inr m' \<longleftrightarrow>
     m \<in> {STATION_CONNECTED, PROVISIONING_AP} \<and> m' = TRANSITION"
  by (auto simp: transition_Inr_cases TRANSITIONS_def)

lemma transition_PROVISIONING_REQUESTED:
  "transition m PROVISIONING_REQUESTED = Inr m' \<longleftrightarrow>
     m \<in> {STATION_CONNECTING, STATION_CONNECTED, PROVISIONING_AP, ERROR} \<and> m' = TRANSITION"
  by (auto simp: transition_Inr_cases TRANSITIONS_def)

lemma transition_AP_READY: "transition m AP_READY = Inr m' \<longleftrightarrow> m = TRANSITION \<and> m' = PROVISIONING_AP"
  by (auto simp: transition_Inr_cases TRANSITIONS_def)

lemma transition_AP_FAILED: "transition m AP_FAILED = Inr m' \<longleftrightarrow> m = TRANSITION \<and> m' = ERROR"
  by (auto simp: transition_Inr_cases TRANSITIONS_def)

lemma transition_STATION_TIMEOUT:
  "transition m STATION_TIMEOUT = Inr m' \<longleftrightarrow>
     m \<in> {STATION_CONNECTING, STATION_CONNECTED, TRANSITION} \<and> m' = TRANSITION"
  by (auto simp: transition_Inr_cases TRANSITIONS_def)

lemma transition_NO_SAVED:
  "transition m NO_SAVED_NETWORK = Inr m' \<longleftrightarrow> m = STATION_CONNECTING \<and> m' = TRANSITION"
  by (auto simp: transition_Inr_cases TRANSITIONS_def)

lemma transition_STATION_CONNECTED:
  "transition m STATION_CONNECTED_EV = Inr m' \<longleftrightarrow>
     m \<in> {STATION_CONNECTING, TRANSITION} \<and> m' = STATION_CONNECTED"
  by (auto simp: transition_Inr_cases TRANSITIONS_def)

lemmas transition_iffs = transition_BOOT transition_STATION_REQUESTED
  transition_PROVISIONING_REQUESTED transition_AP_READY transition_AP_FAILED
  transition_STATION_TIMEOUT transition_NO_SAVED transition_STATION_CONNECTED

end
