(* ===== verification/Threads.thy ===== *)
theory Threads
  imports Prelude
begin

text \<open>
  Threads that share a state under locks. A thread is a tree of atomic blocks: a block updates
  the shared state and continues in a way that depends on the state it found. The same thread
  has two readings: run alone (\<open>run_thread\<close>), where it is a computation of \<^verbatim>\<open>Prelude\<close>, and
  interleaved with steps of other threads, where \<open>assured\<close> says what holds when it ends
  whatever the others do in between, and \<open>upholds\<close> what each of its blocks preserves.
\<close>

datatype ('s, 'a) thread =
    Return "exn + 'a"
  | Block "'s \<Rightarrow> 's" "'s \<Rightarrow> ('s, 'a) thread"

definition returnT :: "'a \<Rightarrow> ('s, 'a) thread" where
  "returnT x = Return (Inr x)"

primrec bindT :: "('s, 'a) thread \<Rightarrow> ('a \<Rightarrow> ('s, 'b) thread) \<Rightarrow> ('s, 'b) thread" where
  "bindT (Return r) f = (case r of Inl e \<Rightarrow> Return (Inl e) | Inr x \<Rightarrow> f x)"
| "bindT (Block u k) f = Block u (\<lambda>s. bindT (k s) f)"

primrec catchT ::
  "('s, 'a) thread \<Rightarrow> (exn \<Rightarrow> bool) \<Rightarrow> (exn \<Rightarrow> ('s, 'a) thread) \<Rightarrow> ('s, 'a) thread" where
  "catchT (Return r) p h =
     (case r of Inl e \<Rightarrow> (if p e then h e else Return (Inl e)) | Inr x \<Rightarrow> Return (Inr x))"
| "catchT (Block u k) p h = Block u (\<lambda>s. catchT (k s) p h)"

lemma bindT_assoc: "bindT (bindT m f) g = bindT m (\<lambda>x. bindT (f x) g)"
  by (induction m) (auto split: sum.splits)

text \<open>The statements under a lock, as one block.\<close>

definition atomicT :: "('s, 'a) io \<Rightarrow> ('s, 'a) thread" where
  "atomicT m = Block (\<lambda>s. snd (m s)) (\<lambda>s. Return (fst (m s)))"

section \<open>A thread run alone\<close>

primrec run_thread :: "('s, 'a) thread \<Rightarrow> ('s, 'a) io" where
  "run_thread (Return r) = (\<lambda>s. (r, s))"
| "run_thread (Block u k) = (\<lambda>s. run_thread (k s) (u s))"

lemma run_returnT [simp]: "run_thread (returnT x) = returnE x"
  by (rule ext) (simp add: returnT_def returnE_def)

lemma run_bindT [simp]: "run_thread (bindT m f) = bindE (run_thread m) (\<lambda>x. run_thread (f x))"
proof (rule ext)
  show "run_thread (bindT m f) s = bindE (run_thread m) (\<lambda>x. run_thread (f x)) s" for s
    by (induction m arbitrary: s) (simp_all add: bindE_def split: sum.splits)
qed

lemma run_catchT [simp]: "run_thread (catchT m p h) = catchE (run_thread m) p (\<lambda>e. run_thread (h e))"
proof (rule ext)
  show "run_thread (catchT m p h) s = catchE (run_thread m) p (\<lambda>e. run_thread (h e)) s" for s
    by (induction m arbitrary: s) (simp_all add: catchE_def split: sum.splits)
qed

lemma run_atomicT [simp]: "run_thread (atomicT m) = m"
  by (rule ext) (simp add: atomicT_def)

section \<open>A thread among others\<close>

text \<open>\<open>R\<close> is a step of another thread.\<close>

primrec assured ::
  "('s \<Rightarrow> 's \<Rightarrow> bool) \<Rightarrow> (exn + 'a \<Rightarrow> 's \<Rightarrow> bool) \<Rightarrow> ('s, 'a) thread \<Rightarrow> 's \<Rightarrow> bool" where
  "assured R Q (Return r) = (\<lambda>s. \<forall>s'. R\<^sup>*\<^sup>* s s' \<longrightarrow> Q r s')"
| "assured R Q (Block u k) = (\<lambda>s. \<forall>s'. R\<^sup>*\<^sup>* s s' \<longrightarrow> assured R Q (k s') (u s'))"

lemma assured_env: "assured R Q t s \<Longrightarrow> R\<^sup>*\<^sup>* s s' \<Longrightarrow> assured R Q t s'"
  by (cases t) (auto intro: rtranclp_trans)

text \<open>A thread run alone is a thread among others that do nothing.\<close>

lemma assured_run: "assured R Q t s \<Longrightarrow> run_thread t s = (r, s') \<Longrightarrow> Q r s'"
  by (induction t arbitrary: s) auto

lemma assured_weaken:
  "assured R Q t s \<Longrightarrow> (\<And>r s'. Q r s' \<Longrightarrow> Q' r s') \<Longrightarrow> assured R Q' t s"
  by (induction t arbitrary: s) auto

lemma assured_bindT:
  "assured R (\<lambda>r s. case r of Inl e \<Rightarrow> Q (Inl e) s | Inr x \<Rightarrow> assured R Q (f x) s) t s \<Longrightarrow>
     assured R Q (bindT t f) s"
  by (induction t arbitrary: s) (auto split: sum.splits)

lemma assured_catchT:
  "assured R (\<lambda>r s. case r of Inl e \<Rightarrow> (if p e then assured R Q (h e) s else Q (Inl e) s) | Inr x \<Rightarrow> Q (Inr x) s) t s \<Longrightarrow>
     assured R Q (catchT t p h) s"
  by (induction t arbitrary: s) (auto split: sum.splits)

lemma assured_returnT: "(\<And>s'. R\<^sup>*\<^sup>* s s' \<Longrightarrow> Q (Inr x) s') \<Longrightarrow> assured R Q (returnT x) s"
  by (simp add: returnT_def)

lemma assured_atomicT:
  "(\<And>s' r s'' s'''. R\<^sup>*\<^sup>* s s' \<Longrightarrow> m s' = (r, s'') \<Longrightarrow> R\<^sup>*\<^sup>* s'' s''' \<Longrightarrow> Q r s''') \<Longrightarrow>
     assured R Q (atomicT m) s"
  by (simp add: atomicT_def) (metis prod.collapse)

text \<open>Assertions that the other threads do not invalidate.\<close>

definition stable :: "('s \<Rightarrow> 's \<Rightarrow> bool) \<Rightarrow> ('s \<Rightarrow> bool) \<Rightarrow> bool" where
  "stable R P \<longleftrightarrow> (\<forall>s s'. P s \<longrightarrow> R s s' \<longrightarrow> P s')"

lemma stable_star:
  assumes "stable R P"
  shows "R\<^sup>*\<^sup>* s s' \<Longrightarrow> P s \<Longrightarrow> P s'"
proof (induction rule: rtranclp_induct)
  case (step y z)
  with assms show ?case unfolding stable_def by blast
qed simp

text \<open>
  Triples under interference: \<open>P\<close> before, \<open>Q x\<close> after a return of \<open>x\<close>, \<open>E e\<close> after the exception
  \<open>e\<close>, each in spite of the others.
\<close>

definition ends :: "('a \<Rightarrow> 's \<Rightarrow> bool) \<Rightarrow> (exn \<Rightarrow> 's \<Rightarrow> bool) \<Rightarrow> exn + 'a \<Rightarrow> 's \<Rightarrow> bool" where
  "ends Q E r s = (case r of Inl e \<Rightarrow> E e s | Inr x \<Rightarrow> Q x s)"

lemma ends_simps [simp]: "ends Q E (Inl e) = E e" "ends Q E (Inr x) = Q x"
  by (auto simp: ends_def fun_eq_iff)

definition triple ::
  "('s \<Rightarrow> 's \<Rightarrow> bool) \<Rightarrow> ('s \<Rightarrow> bool) \<Rightarrow> ('s, 'a) thread \<Rightarrow> ('a \<Rightarrow> 's \<Rightarrow> bool) \<Rightarrow> (exn \<Rightarrow> 's \<Rightarrow> bool) \<Rightarrow> bool" where
  "triple R P t Q E \<longleftrightarrow> (\<forall>s. P s \<longrightarrow> assured R (ends Q E) t s)"

lemma tripleD: "triple R P t Q E \<Longrightarrow> P s \<Longrightarrow> assured R (ends Q E) t s"
  by (simp add: triple_def)

lemma triple_bindT:
  assumes m: "triple R P t Q E" and f: "\<And>x. triple R (Q x) (f x) S E"
  shows "triple R P (bindT t f) S E"
  unfolding triple_def
proof (intro allI impI assured_bindT)
  fix s assume "P s"
  with m have "assured R (ends Q E) t s" by (rule tripleD)
  then show "assured R (\<lambda>r s. case r of Inl e \<Rightarrow> ends S E (Inl e) s
      | Inr x \<Rightarrow> assured R (ends S E) (f x) s) t s"
    by (rule assured_weaken) (auto simp: ends_def split: sum.splits intro: tripleD [OF f])
qed

lemma triple_catchT:
  assumes m: "triple R P t Q F" and h: "\<And>e. p e \<Longrightarrow> triple R (F e) (h e) Q E"
    and through: "\<And>e s. \<not> p e \<Longrightarrow> F e s \<Longrightarrow> E e s"
  shows "triple R P (catchT t p h) Q E"
  unfolding triple_def
proof (intro allI impI assured_catchT)
  fix s assume "P s"
  with m have "assured R (ends Q F) t s" by (rule tripleD)
  then show "assured R (\<lambda>r s. case r of Inl e \<Rightarrow> (if p e then assured R (ends Q E) (h e) s else ends Q E (Inl e) s)
      | Inr x \<Rightarrow> ends Q E (Inr x) s) t s"
    by (rule assured_weaken)
       (auto simp: ends_def [of Q F] split: sum.splits intro: tripleD [OF h] through)
qed

lemma triple_returnT: "(\<And>s. P s \<Longrightarrow> Q x s) \<Longrightarrow> stable R (Q x) \<Longrightarrow> triple R P (returnT x) Q E"
  unfolding triple_def by (intro allI impI assured_returnT) (simp add: stable_star)

lemma triple_raiseT: "(\<And>s. P s \<Longrightarrow> E e s) \<Longrightarrow> stable R (E e) \<Longrightarrow> triple R P (Return (Inl e)) Q E"
  unfolding triple_def by (simp add: stable_star)

lemma triple_atomicT:
  assumes P: "stable R P" and Q: "\<And>x. stable R (Q x)" and E: "\<And>e. stable R (E e)"
    and ret: "\<And>s x s'. P s \<Longrightarrow> m s = (Inr x, s') \<Longrightarrow> Q x s'"
    and exc: "\<And>s e s'. P s \<Longrightarrow> m s = (Inl e, s') \<Longrightarrow> E e s'"
  shows "triple R P (atomicT m) Q E"
  unfolding triple_def
proof (intro allI impI assured_atomicT)
  fix s s' r s'' s3 assume "P s" and pre: "R\<^sup>*\<^sup>* s s'" and m: "m s' = (r, s'')" and post: "R\<^sup>*\<^sup>* s'' s3"
  then have "P s'" using stable_star [OF P] by blast
  then have "ends Q E r s''" using m by (cases r) (auto intro: ret exc)
  then show "ends Q E r s3"
    using stable_star [OF Q post] stable_star [OF E post] by (cases r) auto
qed

lemma triple_weaken:
  assumes "triple R P t Q E"
    and "\<And>s. P' s \<Longrightarrow> P s" "\<And>x s. Q x s \<Longrightarrow> Q' x s" "\<And>e s. E e s \<Longrightarrow> E' e s"
  shows "triple R P' t Q' E'"
  unfolding triple_def
proof (intro allI impI)
  fix s assume "P' s"
  with assms(1,2) have "assured R (ends Q E) t s" by (blast intro: tripleD)
  then show "assured R (ends Q' E') t s"
    by (rule assured_weaken) (auto simp: ends_def assms(3,4) split: sum.splits)
qed

lemma triple_if:
  "(b \<Longrightarrow> triple R P t Q E) \<Longrightarrow> (\<not> b \<Longrightarrow> triple R P t' Q E) \<Longrightarrow> triple R P (if b then t else t') Q E"
  by simp

lemma triple_case_prod:
  "(\<And>a b. p = (a, b) \<Longrightarrow> triple R P (f a b) Q E) \<Longrightarrow> triple R P (case p of (a, b) \<Rightarrow> f a b) Q E"
  by (cases p) simp_all

section \<open>What every block preserves\<close>

primrec upholds :: "('s \<Rightarrow> bool) \<Rightarrow> ('s, 'a) thread \<Rightarrow> bool" where
  "upholds J (Return r) = True"
| "upholds J (Block u k) = (\<forall>s. J s \<longrightarrow> J (u s) \<and> upholds J (k s))"

lemma upholds_bindT: "upholds J t \<Longrightarrow> (\<And>x. upholds J (f x)) \<Longrightarrow> upholds J (bindT t f)"
  by (induction t) (auto split: sum.splits)

lemma upholds_catchT: "upholds J t \<Longrightarrow> (\<And>e. upholds J (h e)) \<Longrightarrow> upholds J (catchT t p h)"
  by (induction t) (auto split: sum.splits)

lemma upholds_atomicT: "keeps J m \<Longrightarrow> upholds J (atomicT m)"
  by (simp add: atomicT_def keeps_def)

lemma upholds_returnT: "upholds J (returnT x)"
  by (simp add: returnT_def)

text \<open>What follows a block may rely on the values that the block returns.\<close>

lemma upholds_bind_call:
  "keeps J m \<Longrightarrow> returns_only Q m \<Longrightarrow> (\<And>x. Q x \<Longrightarrow> upholds J (f x)) \<Longrightarrow> upholds J (bindT (atomicT m) f)"
  unfolding atomicT_def keeps_def returns_only_def
  by (auto split: sum.splits) (metis prod.collapse)

lemma upholds_bind_caught:
  "keeps J m \<Longrightarrow> returns_only Q m \<Longrightarrow> Q d \<Longrightarrow> (\<And>x. Q x \<Longrightarrow> upholds J (f x)) \<Longrightarrow>
     upholds J (bindT (catchT (atomicT m) p (\<lambda>_. returnT d)) f)"
  unfolding atomicT_def keeps_def returns_only_def returnT_def
  by (auto split: sum.splits) (metis prod.collapse)

lemma upholds_if: "(b \<Longrightarrow> upholds J t) \<Longrightarrow> (\<not> b \<Longrightarrow> upholds J t') \<Longrightarrow> upholds J (if b then t else t')"
  by simp

lemma upholds_case_prod: "(\<And>a b. p = (a, b) \<Longrightarrow> upholds J (f a b)) \<Longrightarrow> upholds J (case p of (a, b) \<Rightarrow> f a b)"
  by (cases p) simp_all

lemmas upholds_rules = upholds_bindT upholds_catchT upholds_atomicT upholds_returnT upholds_if
  upholds_case_prod

section \<open>What the blocks are and how a thread may end\<close>

text \<open>Every block is a step of \<open>R\<close>.\<close>

primrec blocks :: "('s \<Rightarrow> 's \<Rightarrow> bool) \<Rightarrow> ('s, 'a) thread \<Rightarrow> bool" where
  "blocks R (Return r) = True"
| "blocks R (Block u k) = (\<forall>s. R s (u s) \<and> blocks R (k s))"

lemma blocks_bindT: "blocks R t \<Longrightarrow> (\<And>x. blocks R (f x)) \<Longrightarrow> blocks R (bindT t f)"
  by (induction t) (auto split: sum.splits)

lemma blocks_catchT: "blocks R t \<Longrightarrow> (\<And>e. blocks R (h e)) \<Longrightarrow> blocks R (catchT t p h)"
  by (induction t) (auto split: sum.splits)

lemma blocks_atomicT: "(\<And>s. R s (snd (m s))) \<Longrightarrow> blocks R (atomicT m)"
  by (simp add: atomicT_def)

lemma blocks_returnT: "blocks R (returnT x)" "blocks R (Return r)"
  by (simp_all add: returnT_def)

lemma blocks_weaken: "blocks R t \<Longrightarrow> (\<And>s s'. R s s' \<Longrightarrow> R' s s') \<Longrightarrow> blocks R' t"
  by (induction t) auto

text \<open>Whatever the other threads do, the thread ends with an outcome in \<open>P\<close>.\<close>

primrec outcomes :: "(exn + 'a \<Rightarrow> bool) \<Rightarrow> ('s, 'a) thread \<Rightarrow> bool" where
  "outcomes P (Return r) = P r"
| "outcomes P (Block u k) = (\<forall>s. outcomes P (k s))"

lemma outcomes_weaken: "outcomes P t \<Longrightarrow> (\<And>r. P r \<Longrightarrow> Q r) \<Longrightarrow> outcomes Q t"
  by (induction t) auto

lemma outcomes_bindT:
  "outcomes (\<lambda>r. case r of Inl e \<Rightarrow> Q (Inl e) | Inr x \<Rightarrow> outcomes Q (f x)) t \<Longrightarrow> outcomes Q (bindT t f)"
  by (induction t) (auto split: sum.splits)

lemma outcomes_catchT:
  "outcomes (\<lambda>r. case r of Inl e \<Rightarrow> (if p e then outcomes Q (h e) else Q (Inl e)) | Inr x \<Rightarrow> Q (Inr x)) t \<Longrightarrow>
     outcomes Q (catchT t p h)"
  by (induction t) (auto split: sum.splits)

lemma outcomes_atomicT: "(\<And>s. P (fst (m s))) \<Longrightarrow> outcomes P (atomicT m)"
  by (simp add: atomicT_def)

lemma outcomes_run: "outcomes P t \<Longrightarrow> run_thread t s = (r, s') \<Longrightarrow> P r"
  by (induction t arbitrary: s) auto

end
