(* ===== verification/Controller.thy ===== *)
theory Controller
  imports Net_State Threads Backend
begin

text \<open>
  The network controller (\<^verbatim>\<open>setup-ui/rave_networkd/controller.py\<close>) and the loop of the thread
  that drives it (\<^verbatim>\<open>_work_loop\<close> of \<^verbatim>\<open>server.py\<close>). The requests of the server thread are single
  blocks under the controller's lock; the methods of the worker thread are threads whose blocks
  are the statements under that lock and the calls of the backend. The operation lock keeps the
  backend calls of the two threads apart; a backend call is one block.
\<close>

section \<open>Data\<close>

datatype work_kind = WORK_BOOT | WORK_CONNECT | WORK_PROVISIONING

record work_item =
  work_kind :: work_kind
  work_ssid :: "pstr option"
  work_password :: "pstr option"

record snapshot =
  snap_mode :: network_mode
  snap_ap_active :: bool
  snap_station_ssid :: "pstr option"
  snap_last_error :: "pstr option"

text \<open>The \<^verbatim>\<open>NetworkBackend\<close> protocol.\<close>

record 'w backend =
  b_has_saved_station :: "('w, bool) io"
  b_activate_saved_station :: "('w, bool \<times> pstr option \<times> pstr option) io"
  b_connect_station :: "pstr \<Rightarrow> pstr option \<Rightarrow> ('w, bool \<times> pstr option \<times> pstr option) io"
  b_activate_provisioning :: "('w, bool \<times> pstr option) io"
  b_scan :: "('w, access_point list) io"
  b_active_station_ssid :: "('w, pstr option) io"
  b_provisioning_ready :: "('w, bool) io"

definition nm_backend :: "'w runner \<Rightarrow> 'w backend" where
  "nm_backend R =
     \<lparr>b_has_saved_station = has_saved_station R,
      b_activate_saved_station = activate_saved_station R,
      b_connect_station = connect_station R,
      b_activate_provisioning = activate_provisioning R,
      b_scan = scan R,
      b_active_station_ssid = active_station_ssid R,
      b_provisioning_ready = provisioning_ready R\<rparr>"

text \<open>The state of the controller, its queue of one item, and the world the backend acts on.\<close>

record 'w net =
  net_mode :: network_mode
  net_station_ssid :: "pstr option"
  net_last_error :: "pstr option"
  net_work :: "work_item option"
  net_world :: 'w

definition net_init :: "'w \<Rightarrow> 'w net" where
  "net_init w = \<lparr>net_mode = UNCONFIGURED, net_station_ssid = None, net_last_error = None,
                 net_work = None, net_world = w\<rparr>"

section \<open>Under the lock\<close>

definition snapshot_locked :: "('w net, snapshot) io" where
  "snapshot_locked s =
     (Inr \<lparr>snap_mode = net_mode s, snap_ap_active = (net_mode s = PROVISIONING_AP),
           snap_station_ssid = net_station_ssid s, snap_last_error = net_last_error s\<rparr>, s)"

definition apply_locked :: "network_event \<Rightarrow> ('w net, unit) io" where
  "apply_locked event s =
     (case transition (net_mode s) event of
        Inl e \<Rightarrow> (Inl e, s)
      | Inr next_mode \<Rightarrow> (Inr (), s\<lparr>net_mode := next_mode\<rparr>))"

definition enqueue_locked :: "work_item \<Rightarrow> ('w net, unit) io" where
  "enqueue_locked item s =
     (case net_work s of
        None \<Rightarrow> (Inr (), s\<lparr>net_work := Some item\<rparr>)
      | Some _ \<Rightarrow> (Inl (RuntimeError (lit ''network_transition_busy'')), s))"

definition enqueue_transition_locked :: "work_item \<Rightarrow> network_event \<Rightarrow> ('w net, unit) io" where
  "enqueue_transition_locked item event s =
     (case transition (net_mode s) event of
        Inl e \<Rightarrow> (Inl e, s)
      | Inr next_mode \<Rightarrow>
          bindE (enqueue_locked item) (\<lambda>_ s. (Inr (), s\<lparr>net_mode := next_mode\<rparr>)) s)"

definition clear_error :: "('w net, unit) io" where
  "clear_error s = (Inr (), s\<lparr>net_last_error := None\<rparr>)"

section \<open>Requests\<close>

definition request_boot :: "('w net, snapshot) io" where
  "request_boot =
     bindE (enqueue_transition_locked
              \<lparr>work_kind = WORK_BOOT, work_ssid = None, work_password = None\<rparr> BOOT) (\<lambda>_.
     snapshot_locked)"

definition request_connect :: "pstr \<Rightarrow> pstr option \<Rightarrow> ('w net, snapshot) io" where
  "request_connect name password =
     bindE (enqueue_transition_locked
              \<lparr>work_kind = WORK_CONNECT, work_ssid = Some name, work_password = password\<rparr>
              STATION_REQUESTED) (\<lambda>_.
     bindE clear_error (\<lambda>_.
     snapshot_locked))"

definition request_provisioning :: "('w net, snapshot) io" where
  "request_provisioning s =
     (if net_mode s = PROVISIONING_AP then snapshot_locked s
      else bindE (enqueue_transition_locked
                    \<lparr>work_kind = WORK_PROVISIONING, work_ssid = None, work_password = None\<rparr>
                    PROVISIONING_REQUESTED) (\<lambda>_.
           bindE clear_error (\<lambda>_.
           snapshot_locked)) s)"

section \<open>Calls of the backend\<close>

definition on_world :: "('w, 'a) io \<Rightarrow> ('w net, 'a) io" where
  "on_world m s = (case m (net_world s) of (r, w) \<Rightarrow> (r, s\<lparr>net_world := w\<rparr>))"

definition scan_allowed :: "('w net, unit) io" where
  "scan_allowed s =
     (if net_mode s \<notin> {PROVISIONING_AP, STATION_CONNECTED}
      then (Inl (RuntimeError (lit ''network_transition_busy'')), s) else (Inr (), s))"

definition controller_scan :: "'w backend \<Rightarrow> ('w net, access_point list) thread" where
  "controller_scan B = bindT (atomicT scan_allowed) (\<lambda>_. atomicT (on_world (b_scan B)))"

section \<open>The worker\<close>

text \<open>\<^verbatim>\<open>e or default\<close> for an optional string: an empty string is false.\<close>

definition or_default :: "pstr option \<Rightarrow> pstr \<Rightarrow> pstr" where
  "or_default e d = (case e of Some (c # cs) \<Rightarrow> c # cs | _ \<Rightarrow> d)"

definition apply_event :: "network_event \<Rightarrow> ('w net, unit) thread" where
  "apply_event event = atomicT (apply_locked event)"

definition station_connected :: "pstr option \<Rightarrow> ('w net, unit) thread" where
  "station_connected name =
     atomicT (bindE (apply_locked STATION_CONNECTED_EV) (\<lambda>_ s.
       (Inr (), s\<lparr>net_station_ssid := name, net_last_error := None\<rparr>)))"

definition restore_outcome :: "bool \<Rightarrow> pstr option \<Rightarrow> pstr option \<Rightarrow> ('w net, unit) io" where
  "restore_outcome success ap_error prior_error =
     (if success
      then bindE (apply_locked AP_READY) (\<lambda>_ s.
             (Inr (), s\<lparr>net_station_ssid := None, net_last_error := prior_error\<rparr>))
      else bindE (apply_locked AP_FAILED) (\<lambda>_ s.
             (Inr (), s\<lparr>net_station_ssid := None,
                        net_last_error := Some (or_default ap_error (lit ''ap_activation_failed''))\<rparr>)))"

definition restore_provisioning :: "'w backend \<Rightarrow> pstr option \<Rightarrow> ('w net, unit) thread" where
  "restore_provisioning B prior_error =
     bindT (catchT (atomicT (on_world (b_activate_provisioning B))) is_operational
              (\<lambda>_. returnT (False, Some (lit ''ap_activation_failed'')))) (\<lambda>(success, ap_error).
     atomicT (restore_outcome success ap_error prior_error))"

definition process_boot :: "'w backend \<Rightarrow> ('w net, unit) thread" where
  "process_boot B =
     bindT (atomicT (on_world (b_has_saved_station B))) (\<lambda>saved.
     if \<not> saved
     then bindT (apply_event NO_SAVED_NETWORK) (\<lambda>_. restore_provisioning B None)
     else bindT (atomicT (on_world (b_activate_saved_station B))) (\<lambda>(success, name, error).
       if success then station_connected name
       else bindT (apply_event STATION_TIMEOUT) (\<lambda>_.
              restore_provisioning B (Some (or_default error (lit ''saved_station_timeout''))))))"

definition process_connect :: "'w backend \<Rightarrow> pstr \<Rightarrow> pstr option \<Rightarrow> ('w net, unit) thread" where
  "process_connect B name password =
     bindT (atomicT (on_world (b_connect_station B name password))) (\<lambda>(success, connected, error).
       if success then station_connected connected
       else bindT (apply_event STATION_TIMEOUT) (\<lambda>_.
              restore_provisioning B (Some (or_default error (lit ''station_timeout'')))))"

definition recover_locked :: "('w net, bool) io" where
  "recover_locked s =
     (if net_mode s = STATION_CONNECTING then bindE (apply_locked STATION_TIMEOUT) (\<lambda>_. returnE True) s
      else if net_mode s \<noteq> TRANSITION
      then (Inr False, s\<lparr>net_mode := ERROR, net_station_ssid := None,
                        net_last_error := Some (lit ''network_operation_failed'')\<rparr>)
      else (Inr True, s))"

definition recover_unexpected_failure :: "'w backend \<Rightarrow> ('w net, unit) thread" where
  "recover_unexpected_failure B =
     bindT (atomicT recover_locked) (\<lambda>restore.
       if restore then restore_provisioning B (Some (lit ''network_operation_failed'')) else returnT ())"

definition process_item :: "'w backend \<Rightarrow> work_item \<Rightarrow> ('w net, unit) thread" where
  "process_item B item =
     (case work_kind item of
        WORK_BOOT \<Rightarrow> process_boot B
      | WORK_CONNECT \<Rightarrow>
          (case work_ssid item of
             None \<Rightarrow> Return (Inl AssertionError)
           | Some name \<Rightarrow> process_connect B name (work_password item))
      | WORK_PROVISIONING \<Rightarrow> restore_provisioning B None)"

text \<open>\<^verbatim>\<open>self._work.get(timeout)\<close>: \<open>None\<close> for \<^verbatim>\<open>queue.Empty\<close>.\<close>

definition get_work :: "('w net, work_item option) io" where
  "get_work s = (Inr (net_work s), s\<lparr>net_work := None\<rparr>)"

definition process_guarded :: "'w backend \<Rightarrow> work_item \<Rightarrow> ('w net, unit) thread" where
  "process_guarded B item =
     catchT (process_item B item) is_operational
       (\<lambda>e. bindT (recover_unexpected_failure B) (\<lambda>_. Return (Inl e)))"

definition process_next :: "'w backend \<Rightarrow> ('w net, bool) thread" where
  "process_next B =
     bindT (atomicT get_work) (\<lambda>item.
     case item of
       None \<Rightarrow> returnT False
     | Some i \<Rightarrow> bindT (process_guarded B i) (\<lambda>_. returnT True))"

definition station_lost :: "pstr option \<Rightarrow> ('w net, bool) io" where
  "station_lost name s =
     (if net_mode s \<noteq> STATION_CONNECTED then (Inr False, s)
      else if name \<noteq> None then (Inr False, s\<lparr>net_station_ssid := name\<rparr>)
      else bindE (apply_locked STATION_TIMEOUT) (\<lambda>_. returnE True) s)"

definition reconcile_station :: "'w backend \<Rightarrow> ('w net, unit) thread" where
  "reconcile_station B =
     bindT (catchT (atomicT (on_world (b_active_station_ssid B))) is_operational (\<lambda>_. returnT None)) (\<lambda>name.
     bindT (atomicT (station_lost name)) (\<lambda>lost.
     if lost then restore_provisioning B (Some (lit ''station_connection_lost'')) else returnT ()))"

definition provisioning_lost :: "('w net, bool) io" where
  "provisioning_lost s =
     (if net_mode s \<noteq> PROVISIONING_AP then (Inr False, s)
      else bindE (apply_locked PROVISIONING_REQUESTED) (\<lambda>_. returnE True) s)"

definition reconcile_provisioning :: "'w backend \<Rightarrow> ('w net, unit) thread" where
  "reconcile_provisioning B =
     bindT (catchT (atomicT (on_world (b_provisioning_ready B))) is_operational (\<lambda>_. returnT False)) (\<lambda>ready.
     if ready then returnT ()
     else bindT (atomicT provisioning_lost) (\<lambda>lost.
     if lost then restore_provisioning B (Some (lit ''provisioning_ap_lost'')) else returnT ()))"

definition reconcile :: "'w backend \<Rightarrow> ('w net, unit) thread" where
  "reconcile B =
     bindT (atomicT snapshot_locked) (\<lambda>s.
       if snap_mode s = STATION_CONNECTED then reconcile_station B
       else if snap_mode s = PROVISIONING_AP then reconcile_provisioning B
       else returnT ())"

text \<open>One round of \<^verbatim>\<open>_work_loop\<close>: \<^verbatim>\<open>except Exception\<close> logs and goes on.\<close>

definition is_exception :: "exn \<Rightarrow> bool" where
  "is_exception e \<longleftrightarrow> e \<noteq> Interrupt"

definition work_round :: "'w backend \<Rightarrow> ('w net, unit) thread" where
  "work_round B =
     catchT (bindT (process_next B) (\<lambda>processed. if processed then returnT () else reconcile B))
       is_exception (\<lambda>_. returnT ())"

section \<open>Requests that are refused\<close>

lemmas request_defs = request_boot_def request_connect_def request_provisioning_def
  enqueue_transition_locked_def enqueue_locked_def clear_error_def snapshot_locked_def

lemma apply_locked_cases:
  "apply_locked e s = (r, s') \<Longrightarrow>
     (\<exists>m. r = Inr () \<and> transition (net_mode s) e = Inr m \<and> s' = s\<lparr>net_mode := m\<rparr>) \<or>
     (\<exists>msg. r = Inl (ValueError msg) \<and> s' = s)"
  by (auto simp: apply_locked_def split: sum.splits dest: transition_Inl)

text \<open>A request that raises leaves the controller as it was.\<close>

lemma refused_unchanged:
  "request_boot s = (Inl e, s') \<Longrightarrow> s' = s"
  "request_connect name p s = (Inl e, s') \<Longrightarrow> s' = s"
  "request_provisioning s = (Inl e, s') \<Longrightarrow> s' = s"
  by (auto simp: request_defs bindE_def split: sum.splits option.splits if_splits)

text \<open>What an accepted request does.\<close>

lemma request_boot_accepted:
  "request_boot s = (Inr x, s') \<longleftrightarrow>
     net_mode s \<in> {UNCONFIGURED, ERROR} \<and> net_work s = None \<and>
     s' = s\<lparr>net_mode := STATION_CONNECTING,
            net_work := Some \<lparr>work_kind = WORK_BOOT, work_ssid = None, work_password = None\<rparr>\<rparr> \<and>
     (Inr x, s') = snapshot_locked s'"
  by (cases "transition (net_mode s) BOOT")
     (auto simp: request_defs bindE_def transition_iffs split: option.splits
       dest: transition_BOOT [THEN iffD2])

lemma request_connect_accepted:
  "request_connect name p s = (Inr x, s') \<longleftrightarrow>
     net_mode s \<in> {STATION_CONNECTED, PROVISIONING_AP} \<and> net_work s = None \<and>
     s' = s\<lparr>net_mode := TRANSITION, net_last_error := None,
            net_work := Some \<lparr>work_kind = WORK_CONNECT, work_ssid = Some name, work_password = p\<rparr>\<rparr> \<and>
     (Inr x, s') = snapshot_locked s'"
  by (cases "transition (net_mode s) STATION_REQUESTED")
     (auto simp: request_defs bindE_def transition_iffs split: option.splits
       dest: transition_STATION_REQUESTED [THEN iffD2])

lemma request_provisioning_accepted:
  "request_provisioning s = (Inr x, s') \<longleftrightarrow>
     (net_mode s = PROVISIONING_AP \<and> s' = s \<or>
      net_mode s \<in> {STATION_CONNECTING, STATION_CONNECTED, ERROR} \<and> net_work s = None \<and>
      s' = s\<lparr>net_mode := TRANSITION, net_last_error := None,
             net_work := Some \<lparr>work_kind = WORK_PROVISIONING, work_ssid = None, work_password = None\<rparr>\<rparr>) \<and>
     (Inr x, s') = snapshot_locked s'"
proof (cases "net_mode s = PROVISIONING_AP")
  case False
  then show ?thesis
    by (cases "transition (net_mode s) PROVISIONING_REQUESTED")
       (auto simp: request_defs bindE_def transition_iffs split: option.splits
         dest: transition_PROVISIONING_REQUESTED [THEN iffD2])
qed (auto simp: request_defs)

text \<open>A refused request raises the busy error only if the mode would have allowed it.\<close>

lemma request_connect_refused:
  "request_connect name p s = (Inl e, s') \<longleftrightarrow> s' = s \<and>
     (if net_mode s \<in> {STATION_CONNECTED, PROVISIONING_AP}
      then net_work s \<noteq> None \<and> e = RuntimeError (lit ''network_transition_busy'')
      else transition (net_mode s) STATION_REQUESTED = Inl e)"
  by (cases "transition (net_mode s) STATION_REQUESTED")
     (auto simp: request_defs bindE_def transition_iffs split: option.splits
       dest: transition_STATION_REQUESTED [THEN iffD2])

end
