(* ===== verification/Server.thy ===== *)
theory Server
  imports PyJson Sockets Controller
begin

text \<open>
  The daemon's end of the socket (\<^verbatim>\<open>setup-ui/rave_networkd/server.py\<close>): the framing of a request
  under a deadline, its validation, the dispatch to the controller, the mapping of every
  exception to a reply, and the life of the socket file. A thread that serves a connection acts on the connection and
  on the controller, whose blocks are those of \<^verbatim>\<open>Controller\<close>.
\<close>

section \<open>Constants\<close>

text \<open>Times are in nanoseconds.\<close>

definition RECONCILE_INTERVAL_SECONDS :: int where "RECONCILE_INTERVAL_SECONDS = 10 * 10 ^ 9"
definition REQUEST_FRAMING_TIMEOUT_SECONDS :: int where "REQUEST_FRAMING_TIMEOUT_SECONDS = 2 * 10 ^ 9"

definition PUBLIC_PROTOCOL_ERROR_CODES :: "pstr list" where
  "PUBLIC_PROTOCOL_ERROR_CODES =
     [lit ''action_invalid'', lit ''api_version_invalid'', lit ''network_credentials_invalid'',
      lit ''peer_not_authorized'', lit ''request_empty'', lit ''request_fields_invalid'',
      lit ''request_not_object'', lit ''request_timeout'', lit ''request_too_large'']"

definition PUBLIC_OPERATION_ERROR_CODES :: "pstr list" where
  "PUBLIC_OPERATION_ERROR_CODES = [lit ''network_transition_busy'']"

section \<open>Requests\<close>

record request =
  req_action :: network_action
  req_ssid :: "pstr option"
  req_password :: "pstr option"

definition expected_fields :: "network_action \<Rightarrow> pstr set" where
  "expected_fields action =
     (case action of
        CONNECT \<Rightarrow> {lit ''api_version'', lit ''action'', lit ''ssid'', lit ''password''}
      | _ \<Rightarrow> {lit ''api_version'', lit ''action''})"

definition parse_credentials :: "(pstr \<times> json) list \<Rightarrow> exn + pstr \<times> pstr option" where
  "parse_credentials payload =
     catchR
       (bindR (dict_item payload (lit ''ssid'')) (\<lambda>v.
        bindR (validate_ssid v) (\<lambda>name.
        bindR (dict_item payload (lit ''password'')) (\<lambda>password.
        if password = JNull then Inr (name, None)
        else bindR (validate_password password) (\<lambda>p. Inr (name, Some p))))))
       (\<lambda>e. e = KeyError \<or> is_type_error e \<or> is_value_error e)
       (ProtocolError (lit ''network_credentials_invalid''))"

definition parse_request :: "json \<Rightarrow> exn + request" where
  "parse_request v =
     (case v of
        JObj payload \<Rightarrow>
          if dict_get payload (lit ''api_version'') \<noteq> JStr API_VERSION
          then Inl (ProtocolError (lit ''api_version_invalid''))
          else bindR (catchR (network_action_of (dict_get payload (lit ''action'')))
                        (\<lambda>e. is_type_error e \<or> is_value_error e) (ProtocolError (lit ''action_invalid''))) (\<lambda>action.
            if dict_keys payload \<noteq> expected_fields action
            then Inl (ProtocolError (lit ''request_fields_invalid''))
            else if action = CONNECT
            then bindR (parse_credentials payload) (\<lambda>(name, password).
                   Inr \<lparr>req_action = action, req_ssid = Some name, req_password = password\<rparr>)
            else Inr \<lparr>req_action = action, req_ssid = None, req_password = None\<rparr>)
      | _ \<Rightarrow> Inl (ProtocolError (lit ''request_not_object'')))"

section \<open>Replies\<close>

definition snapshot_response :: "snapshot \<Rightarrow> (pstr \<times> json) list" where
  "snapshot_response s =
     (let text = (\<lambda>t. case t of None \<Rightarrow> JNull | Some x \<Rightarrow> JStr x) in
      [(lit ''api_version'', JStr API_VERSION), (lit ''ok'', JBool True),
       (lit ''mode'', JStr (mode_value (snap_mode s))),
       (lit ''provisioning_ap_active'', JBool (snap_ap_active s)),
       (lit ''station_ssid'', text (snap_station_ssid s)),
       (lit ''last_error'', text (snap_last_error s))])"

definition network_response :: "access_point \<Rightarrow> json" where
  "network_response item =
     JObj [(lit ''ssid'', JStr (ap_ssid item)), (lit ''signal_percent'', JInt (ap_signal_percent item)),
           (lit ''security'', JStr (security_value (ap_security item))),
           (lit ''connected'', JBool (ap_connected item))]"

definition error_response_code :: "pstr \<Rightarrow> json" where
  "error_response_code code =
     JObj [(lit ''api_version'', JStr API_VERSION), (lit ''ok'', JBool False), (lit ''error'', JStr code)]"

definition internal_error_response :: json where
  "internal_error_response = error_response_code (lit ''internal_error'')"

definition error_response :: "pstr \<Rightarrow> pstr list \<Rightarrow> json" where
  "error_response code public_codes =
     (if code \<in> set public_codes then error_response_code code else internal_error_response)"

text \<open>The \<^verbatim>\<open>except\<close> clauses of \<^verbatim>\<open>_serve_connection\<close>, in their order.\<close>

definition error_reply :: "exn \<Rightarrow> json" where
  "error_reply e =
     (case e of
        ProtocolError code \<Rightarrow> error_response code PUBLIC_PROTOCOL_ERROR_CODES
      | JSONDecodeError \<Rightarrow> error_response_code (lit ''request_json_invalid'')
      | RuntimeError code \<Rightarrow> error_response code PUBLIC_OPERATION_ERROR_CODES
      | NetworkdUnavailable code \<Rightarrow> error_response code PUBLIC_OPERATION_ERROR_CODES
      | ExpansionError code \<Rightarrow> error_response code PUBLIC_OPERATION_ERROR_CODES
      | _ \<Rightarrow> internal_error_response)"

definition dispatch :: "'w backend \<Rightarrow> request \<Rightarrow> ('w net, json) thread" where
  "dispatch B req =
     (let accepted = (\<lambda>reason. [(lit ''accepted'', JBool True), (lit ''reason'', JStr reason)]) in
      if req_action req = STATUS
      then bindT (atomicT snapshot_locked) (\<lambda>s. returnT (JObj (snapshot_response s)))
      else if req_action req = SCAN
      then bindT (controller_scan B) (\<lambda>items.
             returnT (JObj [(lit ''api_version'', JStr API_VERSION), (lit ''ok'', JBool True),
                            (lit ''networks'', JList (map network_response items))]))
      else if req_action req = CONNECT
      then (case req_ssid req of
              None \<Rightarrow> Return (Inl KeyError)
            | Some name \<Rightarrow>
                bindT (atomicT (request_connect name (req_password req))) (\<lambda>s.
                  returnT (JObj (snapshot_response s @ accepted (lit ''station_connection_requested'')))))
      else bindT (atomicT request_provisioning) (\<lambda>s.
             returnT (JObj (snapshot_response s @ accepted (lit ''provisioning_ap_requested'')))))"

section \<open>A connection\<close>

definition peer_uid :: "'c sock \<Rightarrow> ('c, int) io" where
  "peer_uid K =
     bindE (sock_peercred K) (\<lambda>credentials.
       if length credentials \<noteq> 12 then raiseE OtherException
       else returnE (signed32 (take 4 (drop 4 credentials))))"

function receive_loop :: "'c sock \<Rightarrow> int \<Rightarrow> bytes \<Rightarrow> ('c, bytes) io" where
  "receive_loop K deadline request c =
     (if length request > MAX_REQUEST_BYTES then (Inr request, c)
      else (case sock_monotonic K c of
        (Inl e, c1) \<Rightarrow> (Inl e, c1)
      | (Inr now, c1) \<Rightarrow>
          if deadline - now \<le> 0 then (Inl (ProtocolError (lit ''request_timeout'')), c1)
          else (case sock_recv K (deadline - now) (min 1024 (MAX_REQUEST_BYTES + 1 - length request)) c1 of
            (Inl e, c2) \<Rightarrow> (Inl (if e = TimeoutError then ProtocolError (lit ''request_timeout'') else e), c2)
          | (Inr chunk, c2) \<Rightarrow>
              if chunk = [] then (Inr request, c2)
              else if 10 \<in> set chunk then (Inr (request @ chunk), c2)
              else receive_loop K deadline (request @ chunk) c2)))"

  by pat_completeness auto

termination receive_loop
proof (relation "measure (\<lambda>(K, deadline, request, c). MAX_REQUEST_BYTES + 1 - length request)")
  fix request chunk :: bytes
  assume "\<not> length request > MAX_REQUEST_BYTES" "chunk \<noteq> []"
  then show "((K, deadline, request @ chunk, c2), (K, deadline, request, c)) \<in>
      measure (\<lambda>(K, deadline, request, c). MAX_REQUEST_BYTES + 1 - length request)"
    for K :: "'c sock" and deadline c c2
    by (cases chunk) auto
qed simp

declare receive_loop.simps [simp del]

text \<open>\<^verbatim>\<open>bytes(request).split(b"\n", 1)[0]\<close>\<close>

definition first_line :: "bytes \<Rightarrow> bytes" where
  "first_line b = takeWhile (\<lambda>x. x \<noteq> 10) b"

definition receive_request :: "'c sock \<Rightarrow> ('c, bytes) io" where
  "receive_request K =
     bindE (sock_monotonic K) (\<lambda>start.
     bindE (receive_loop K (start + REQUEST_FRAMING_TIMEOUT_SECONDS) []) (\<lambda>request.
     if length request > MAX_REQUEST_BYTES then raiseE (ProtocolError (lit ''request_too_large''))
     else if first_line request = [] then raiseE (ProtocolError (lit ''request_empty''))
     else returnE (first_line request)))"

text \<open>The state of a thread that serves: the connection and the controller.\<close>

definition on_conn :: "('c, 'a) io \<Rightarrow> ('c \<times> 'n, 'a) io" where
  "on_conn m s = (case m (fst s) of (r, c) \<Rightarrow> (r, (c, snd s)))"

primrec on_net :: "('n, 'a) thread \<Rightarrow> ('c \<times> 'n, 'a) thread" where
  "on_net (Return r) = Return r"
| "on_net (Block u k) = Block (\<lambda>s. (fst s, u (snd s))) (\<lambda>s. on_net (k (snd s)))"

definition read_request :: "'c sock \<Rightarrow> int \<Rightarrow> nat \<Rightarrow> ('c, request) io" where
  "read_request K allowed_uid depth =
     bindE (peer_uid K) (\<lambda>uid.
     if uid \<noteq> allowed_uid then raiseE (ProtocolError (lit ''peer_not_authorized''))
     else bindE (receive_request K) (\<lambda>line.
          bindE (liftR (json_loads depth line)) (\<lambda>payload.
          liftR (parse_request payload))))"

text \<open>\<^verbatim>\<open>connection.sendall(json.dumps(...).encode())\<close>, an \<^verbatim>\<open>OSError\<close> being ignored.\<close>

definition send_response :: "'c sock \<Rightarrow> json \<Rightarrow> ('c, unit) io" where
  "send_response K response =
     catchE (bindE (liftR (utf8_encode (json_dumps True response))) (sock_sendall K))
       is_os_error (\<lambda>_. returnE ())"

definition serve_connection :: "'c sock \<Rightarrow> int \<Rightarrow> nat \<Rightarrow> 'w backend \<Rightarrow> ('c \<times> 'w net, unit) thread" where
  "serve_connection K allowed_uid depth B =
     bindT (catchT (bindT (atomicT (on_conn (read_request K allowed_uid depth))) (\<lambda>req. on_net (dispatch B req)))
              is_exception (\<lambda>e. returnT (error_reply e))) (\<lambda>response.
     atomicT (on_conn (send_response K response)))"

section \<open>The daemon\<close>

text \<open>
  \<^verbatim>\<open>serve\<close>: the boot request, the listening socket (\<open>listening\<close> is the outcome of
  \<^verbatim>\<open>_create_socket\<close>), then one connection after the other. The list holds what \<^verbatim>\<open>accept\<close> gives,
  one entry per round, until the stop flag is set; its \<^verbatim>\<open>TimeoutError\<close> starts the next round.
\<close>

fun serve_accepts ::
  "'c sock \<Rightarrow> int \<Rightarrow> nat \<Rightarrow> 'w backend \<Rightarrow> (exn + 'c) list \<Rightarrow> ('c \<times> 'w net, unit) thread" where
  "serve_accepts K uid depth B [] = returnT ()"
| "serve_accepts K uid depth B (Inl e # rounds) =
     (if e = TimeoutError then serve_accepts K uid depth B rounds else Return (Inl e))"
| "serve_accepts K uid depth B (Inr c # rounds) =
     bindT (atomicT (\<lambda>s. (Inr (), (c, snd s)))) (\<lambda>_.
     bindT (serve_connection K uid depth B) (\<lambda>_.
     serve_accepts K uid depth B rounds))"

definition serve ::
  "'c sock \<Rightarrow> int \<Rightarrow> nat \<Rightarrow> 'w backend \<Rightarrow> exn + unit \<Rightarrow> (exn + 'c) list \<Rightarrow> ('c \<times> 'w net, unit) thread" where
  "serve K uid depth B listening rounds =
     bindT (on_net (atomicT request_boot)) (\<lambda>_.
     bindT (Return listening) (\<lambda>_.
     serve_accepts K uid depth B rounds))"

text \<open>The system calls on the path of the socket; \<^verbatim>\<open>lstat\<close> returns \<^verbatim>\<open>st_mode\<close>.\<close>

record 'f socket_path =
  path_mkdir_parent :: "nat \<Rightarrow> ('f, unit) io"
  path_lstat :: "('f, nat) io"
  path_unlink :: "('f, unit) io"
  path_bind :: "('f, unit) io"
  path_chmod :: "nat \<Rightarrow> ('f, unit) io"
  path_listen :: "nat \<Rightarrow> ('f, unit) io"

text \<open>\<^verbatim>\<open>stat.S_ISSOCK\<close>: the file type, the four bits above the permissions, is 12.\<close>

definition S_ISSOCK :: "nat \<Rightarrow> bool" where
  "S_ISSOCK mode \<longleftrightarrow> mode div 4096 mod 16 = 12"

definition create_socket :: "'f socket_path \<Rightarrow> ('f, unit) io" where
  "create_socket F =
     bindE (path_mkdir_parent F 488) (\<lambda>_.
     bindE (catchE (bindE (path_lstat F) (\<lambda>mode. returnE (Some mode)))
              (\<lambda>e. e = FileNotFoundError) (\<lambda>_. returnE None)) (\<lambda>existing.
     bindE (case existing of
              None \<Rightarrow> returnE ()
            | Some mode \<Rightarrow>
                if \<not> S_ISSOCK mode then raiseE (RuntimeError (lit ''networkd_socket_path_is_not_a_socket''))
                else path_unlink F) (\<lambda>_.
     bindE (path_bind F) (\<lambda>_.
     bindE (path_chmod F 432) (\<lambda>_.
     path_listen F 4)))))"

text \<open>What \<^verbatim>\<open>main\<close> does when the server has ended.\<close>

definition remove_socket :: "'f socket_path \<Rightarrow> ('f, unit) io" where
  "remove_socket F =
     catchE (bindE (path_lstat F) (\<lambda>mode. if S_ISSOCK mode then path_unlink F else returnE ()))
       (\<lambda>e. e = FileNotFoundError) (\<lambda>_. returnE ())"

end
