(* ===== verification/Interleaving.thy ===== *)
theory Interleaving
  imports Controller Backend_Commands
begin

text \<open>
  The worker thread and the server thread interleaved: the steps of the server thread
  (\<open>client_step\<close>), the transition relation of the whole (\<open>net_step\<close>), and what holds in every
  reachable state. \<open>operational_backend\<close> is the interface through which the controller relies
  on its backend: every operation fails only with an exception that the controller handles.
\<close>

section \<open>The two threads\<close>

text \<open>
  What another thread may do between two blocks of the worker: a request is accepted (one that
  is refused changes nothing), or the world outside changes in whatever way, a scan included.
\<close>

inductive client_step :: "'w net \<Rightarrow> 'w net \<Rightarrow> bool" where
  step_boot: "request_boot s = (Inr x, s') \<Longrightarrow> client_step s s'"
| step_connect: "request_connect name p s = (Inr x, s') \<Longrightarrow> client_step s s'"
| step_provisioning: "request_provisioning s = (Inr x, s') \<Longrightarrow> client_step s s'"
| step_world: "client_step s (s\<lparr>net_world := w\<rparr>)"

text \<open>The worker is between two rounds, or has a round left to run.\<close>

type_synonym 'w config = "('w net, unit) thread option \<times> 'w net"

inductive net_step :: "'w backend \<Rightarrow> 'w config \<Rightarrow> 'w config \<Rightarrow> bool" for B where
  round_begins: "net_step B (None, s) (Some (work_round B), s)"
| round_block: "net_step B (Some (Block u k), s) (Some (k s), u s)"
| round_ends: "net_step B (Some (Return r), s) (None, s)"
| other_thread: "client_step s s' \<Longrightarrow> net_step B (t, s) (t, s')"

inductive reachable :: "'w backend \<Rightarrow> 'w config \<Rightarrow> bool" for B where
  reach_init: "reachable B (None, net_init w)"
| reach_step: "reachable B c \<Longrightarrow> net_step B c c' \<Longrightarrow> reachable B c'"

section \<open>What the states satisfy\<close>

definition work_ok :: "'w net \<Rightarrow> bool" where
  "work_ok s \<longleftrightarrow> (\<forall>i. net_work s = Some i \<and> work_kind i = WORK_CONNECT \<longrightarrow> work_ssid i \<noteq> None)"

text \<open>A mode that waits for the worker has work for the worker.\<close>

definition settled :: "'w net \<Rightarrow> bool" where
  "settled s \<longleftrightarrow> (net_mode s \<in> {TRANSITION, STATION_CONNECTING} \<longrightarrow> net_work s \<noteq> None)"

definition consistent :: "'w net \<Rightarrow> bool" where
  "consistent s \<longleftrightarrow>
     (net_station_ssid s \<noteq> None \<longrightarrow> net_mode s \<in> {STATION_CONNECTED, TRANSITION}) \<and>
     (net_mode s = ERROR \<longrightarrow> net_last_error s \<noteq> None) \<and>
     (net_mode s = STATION_CONNECTED \<longrightarrow> net_last_error s = None)"

lemma work_ok_more [simp]:
  "work_ok (s\<lparr>net_world := w\<rparr>) = work_ok s" "work_ok (s\<lparr>net_mode := m\<rparr>) = work_ok s"
  "work_ok (s\<lparr>net_station_ssid := n\<rparr>) = work_ok s" "work_ok (s\<lparr>net_last_error := e\<rparr>) = work_ok s"
  by (simp_all add: work_ok_def)

lemma client_step_cases:
  assumes "client_step s s'"
  obtains (world) w where "s' = s\<lparr>net_world := w\<rparr>"
  | (accepted) i where "net_mode s \<noteq> TRANSITION" "net_work s = None" "net_work s' = Some i"
      "work_kind i = WORK_CONNECT \<longrightarrow> work_ssid i \<noteq> None"
      "net_mode s' = STATION_CONNECTING \<and> net_mode s \<in> {UNCONFIGURED, ERROR} \<or> net_mode s' = TRANSITION"
      "net_station_ssid s' = net_station_ssid s"
  using assms
proof (cases rule: client_step.cases)
  case step_boot
  then show ?thesis by (intro accepted) (auto simp: request_boot_accepted)
next
  case step_connect
  then show ?thesis by (intro accepted) (auto simp: request_connect_accepted)
next
  case step_provisioning
  then show ?thesis
    by (cases "net_mode s = PROVISIONING_AP")
       (auto simp: request_provisioning_accepted intro: world [of "net_world s"] accepted)
qed (rule world)

lemma stable_assertions:
  "stable client_step work_ok" "stable client_step settled" "stable client_step (\<lambda>s. settled s \<and> work_ok s)"
  "stable client_step (\<lambda>s. net_mode s = TRANSITION \<and> work_ok s)"
  "stable client_step (\<lambda>s. b \<and> work_ok s)" "stable client_step (\<lambda>_. False)"
  by (auto simp: stable_def work_ok_def settled_def elim!: client_step_cases)

lemma client_step_consistent: "client_step s s' \<Longrightarrow> consistent s \<Longrightarrow> consistent s'"
  by (erule client_step_cases) (auto simp: consistent_def)

section \<open>The worker under interference\<close>

locale operational_backend =
  fixes B :: "'w backend"
  assumes has_saved: "raises_only is_operational (b_has_saved_station B)"
    and activate_saved: "raises_only is_operational (b_activate_saved_station B)"
    and connect: "raises_only is_operational (b_connect_station B n p)"
    and activate_ap: "raises_only is_operational (b_activate_provisioning B)"
    and active_ssid: "raises_only is_operational (b_active_station_ssid B)"
    and ap_ready: "raises_only is_operational (b_provisioning_ready B)"
begin

abbreviation failing :: "exn \<Rightarrow> 'w net \<Rightarrow> bool" where
  "failing e s \<equiv> is_operational e \<and> work_ok s"

abbreviation never :: "exn \<Rightarrow> 'w net \<Rightarrow> bool" where
  "never e s \<equiv> False"

lemma call_triple:
  assumes "raises_only is_operational m" "stable client_step P"
    and "\<And>s w. P s \<Longrightarrow> P (s\<lparr>net_world := w\<rparr>)" "\<And>s. P s \<Longrightarrow> work_ok s"
  shows "triple client_step P (atomicT (on_world m)) (\<lambda>_. P) (\<lambda>e s. is_operational e \<and> P s)"
proof (rule triple_atomicT)
  show "stable client_step (\<lambda>s. is_operational e \<and> P s)" for e
    using assms(2) by (auto simp: stable_def)
qed (use assms in \<open>auto simp: on_world_def raises_only_def split: prod.splits\<close>)

lemma caught_triple:
  assumes "raises_only is_operational m" "stable client_step P"
    and "\<And>s w. P s \<Longrightarrow> P (s\<lparr>net_world := w\<rparr>)" "\<And>s. P s \<Longrightarrow> work_ok s"
  shows "triple client_step P (catchT (atomicT (on_world m)) is_operational (\<lambda>_. returnT d)) (\<lambda>_. P) never"
  by (rule triple_catchT [OF call_triple [OF assms]]) (auto intro: triple_returnT assms)

lemma caught_work_ok:
  "raises_only is_operational m \<Longrightarrow>
     triple client_step work_ok (catchT (atomicT (on_world m)) is_operational (\<lambda>_. returnT d)) (\<lambda>_. work_ok) E"
  for m :: "('w, 'b) io"
  by (rule triple_weaken [OF caught_triple [where P = work_ok]]) (simp_all add: stable_assertions)

lemma caught_waiting:
  "raises_only is_operational m \<Longrightarrow>
     triple client_step (\<lambda>s. net_mode s = TRANSITION \<and> work_ok s)
       (catchT (atomicT (on_world m)) is_operational (\<lambda>_. returnT d))
       (\<lambda>_ s. net_mode s = TRANSITION \<and> work_ok s) E"
  for m :: "('w, 'b) io"
  by (rule triple_weaken [OF caught_triple [where P = "\<lambda>s. net_mode s = TRANSITION \<and> work_ok s"]])
     (simp_all add: stable_assertions)

abbreviation good :: "'w net \<Rightarrow> bool" where
  "good s \<equiv> settled s \<and> work_ok s"

abbreviation waiting :: "'w net \<Rightarrow> bool" where
  "waiting s \<equiv> net_mode s = TRANSITION \<and> work_ok s"

lemma block_triples:
  "(\<And>s x s'. work_ok s \<Longrightarrow> m s = (Inr x, s') \<Longrightarrow> good s') \<Longrightarrow>
   (\<And>s e s'. work_ok s \<Longrightarrow> m s = (Inl e, s') \<Longrightarrow> failing e s') \<Longrightarrow>
   triple client_step work_ok (atomicT m) (\<lambda>_. good) failing"
  "(\<And>s x s'. waiting s \<Longrightarrow> m s = (Inr x, s') \<Longrightarrow> good s') \<Longrightarrow>
   (\<And>s e s'. waiting s \<Longrightarrow> m s \<noteq> (Inl e, s')) \<Longrightarrow>
   triple client_step waiting (atomicT m) (\<lambda>_. good) never"
  by (rule triple_atomicT; blast intro: stable_assertions)+

lemma apply_triple:
  "triple client_step work_ok (apply_event e) (\<lambda>_. work_ok) failing"
  unfolding apply_event_def
proof (rule triple_atomicT)
  show "work_ok s'" if "work_ok s" "apply_locked e s = (Inr x, s')" for s x s'
    using that apply_locked_cases [OF that(2)] by (auto simp: work_ok_def)
  show "failing x s'" if "work_ok s" "apply_locked e s = (Inl x, s')" for s x s'
    using that apply_locked_cases [OF that(2)] by auto
qed (rule stable_assertions)+

lemma connected_triple:
  "triple client_step work_ok (station_connected n) (\<lambda>_. good) failing"
  unfolding station_connected_def
proof (rule block_triples(1))
  let ?m = "bindE (apply_locked STATION_CONNECTED_EV) (\<lambda>_ s.
    (Inr (), s\<lparr>net_station_ssid := n, net_last_error := None\<rparr>))"
  show "good s'" if "work_ok s" "?m s = (Inr x, s')" for s x s'
    using that by (auto elim!: bindE_eqD dest!: apply_locked_cases simp: transition_STATION_CONNECTED
        work_ok_def settled_def)
  show "failing e s'" if "work_ok s" "?m s = (Inl e, s')" for s e s'
    using that by (auto elim!: bindE_eqD dest!: apply_locked_cases)
qed

lemma restore_outcome_good:
  "restore_outcome b a e s = (Inr x, s') \<Longrightarrow> work_ok s \<Longrightarrow> good s'"
  by (auto simp: restore_outcome_def transition_iffs work_ok_def settled_def split: if_splits
      elim!: bindE_eqD dest!: apply_locked_cases)

lemma restore_outcome_failing:
  "restore_outcome b a e s = (Inl x, s') \<Longrightarrow> work_ok s \<Longrightarrow> failing x s'"
  by (auto simp: restore_outcome_def split: if_splits elim!: bindE_eqD dest!: apply_locked_cases)

lemma restore_outcome_waiting:
  "waiting s \<Longrightarrow> restore_outcome b a e s \<noteq> (Inl x, s')"
  by (auto simp: restore_outcome_def apply_locked_def split: if_splits elim!: bindE_eqD)

lemma restore_triple:
  "triple client_step work_ok (restore_provisioning B e) (\<lambda>_. good) failing"
  "triple client_step waiting (restore_provisioning B e) (\<lambda>_. good) never"
proof -
  have "triple client_step work_ok (atomicT (restore_outcome b a e)) (\<lambda>_. good) failing" for b a
    by (rule block_triples(1)) (erule (1) restore_outcome_good restore_outcome_failing)+
  then show "triple client_step work_ok (restore_provisioning B e) (\<lambda>_. good) failing"
    unfolding restore_provisioning_def
    by (intro triple_bindT [OF caught_work_ok [OF activate_ap]] triple_case_prod)
  have "triple client_step waiting (atomicT (restore_outcome b a e)) (\<lambda>_. good) never" for b a
    by (rule block_triples(2)) (erule restore_outcome_good, simp, erule restore_outcome_waiting)
  then show "triple client_step waiting (restore_provisioning B e) (\<lambda>_. good) never"
    unfolding restore_provisioning_def
    by (intro triple_bindT [OF caught_waiting [OF activate_ap]] triple_case_prod)
qed

lemma timeout_triple:
  "triple client_step work_ok (bindT (apply_event ev) (\<lambda>_. restore_provisioning B e)) (\<lambda>_. good) failing"
  by (rule triple_bindT [OF apply_triple restore_triple(1)])

lemma call_work_ok:
  "raises_only is_operational m \<Longrightarrow> triple client_step work_ok (atomicT (on_world m)) (\<lambda>_. work_ok) failing"
  for m :: "('w, 'b) io"
  by (rule call_triple) (auto simp: stable_assertions work_ok_def)

lemma process_boot_triple: "triple client_step work_ok (process_boot B) (\<lambda>_. good) failing"
  unfolding process_boot_def
  by (intro triple_bindT [OF call_work_ok] triple_if triple_case_prod timeout_triple connected_triple
      has_saved activate_saved)

lemma process_connect_triple: "triple client_step work_ok (process_connect B n p) (\<lambda>_. good) failing"
  unfolding process_connect_def
  by (intro triple_bindT [OF call_work_ok] triple_if triple_case_prod timeout_triple connected_triple connect)

lemma process_item_triple:
  "work_kind i = WORK_CONNECT \<longrightarrow> work_ssid i \<noteq> None \<Longrightarrow>
     triple client_step work_ok (process_item B i) (\<lambda>_. good) failing"
  by (auto simp: process_item_def process_boot_triple process_connect_triple restore_triple split: work_kind.splits)

lemma recover_triple: "triple client_step work_ok (recover_unexpected_failure B) (\<lambda>_. good) never"
proof -
  have "triple client_step work_ok (atomicT recover_locked) (\<lambda>b s. if b then waiting s else good s) never"
  proof (rule triple_atomicT)
    show "stable client_step (\<lambda>s. if b then waiting s else good s)" for b
      by (cases b) (simp_all add: stable_assertions)
  qed (auto simp: recover_locked_def apply_locked_def bindE_def returnE_def settled_def stable_assertions
         split: if_splits)
  then show ?thesis
    unfolding recover_unexpected_failure_def
    by (rule triple_bindT) (auto intro: restore_triple triple_returnT stable_assertions)
qed

lemma process_next_triple:
  "triple client_step good (process_next B) (\<lambda>_. good) (\<lambda>e s. is_operational e \<and> good s)"
proof -
  let ?E = "\<lambda>e s. is_operational e \<and> good s"
  have get: "triple client_step good (atomicT get_work)
      (\<lambda>i s. case i of None \<Rightarrow> good s
        | Some i \<Rightarrow> (work_kind i = WORK_CONNECT \<longrightarrow> work_ssid i \<noteq> None) \<and> work_ok s) ?E"
  proof (rule triple_atomicT)
    show "stable client_step (\<lambda>s. case i of None \<Rightarrow> good s
        | Some i \<Rightarrow> (work_kind i = WORK_CONNECT \<longrightarrow> work_ssid i \<noteq> None) \<and> work_ok s)" for i
      by (cases i) (simp_all add: stable_assertions)
    show "stable client_step (?E e)" for e
      by (cases "is_operational e") (simp_all add: stable_assertions)
    show "case i of None \<Rightarrow> good s'
        | Some i \<Rightarrow> (work_kind i = WORK_CONNECT \<longrightarrow> work_ssid i \<noteq> None) \<and> work_ok s'"
      if "good s" "get_work s = (Inr i, s')" for s i s'
      using that by (auto simp: get_work_def work_ok_def settled_def split: option.splits)
  qed (simp_all add: get_work_def stable_assertions)
  have recover: "triple client_step (failing e)
      (bindT (recover_unexpected_failure B) (\<lambda>_. Return (Inl e))) (\<lambda>_ :: unit. good) ?E" for e
  proof (rule triple_bindT)
    show "triple client_step (failing e) (recover_unexpected_failure B) (\<lambda>_ s. is_operational e \<and> good s) ?E"
    proof (cases "is_operational e")
      case True
      then show ?thesis by (intro triple_weaken [OF recover_triple]) simp_all
    qed (simp add: triple_def)
    show "triple client_step (\<lambda>s. is_operational e \<and> good s) (Return (Inl e)) (\<lambda>_ :: unit. good) ?E" for u :: unit
      by (rule triple_raiseT, assumption, cases "is_operational e") (simp_all add: stable_assertions)
  qed
  have item: "triple client_step (\<lambda>s. (work_kind i = WORK_CONNECT \<longrightarrow> work_ssid i \<noteq> None) \<and> work_ok s)
      (bindT (process_guarded B i) (\<lambda>_. returnT True)) (\<lambda>_. good) ?E" for i
  proof (cases "work_kind i = WORK_CONNECT \<longrightarrow> work_ssid i \<noteq> None")
    case True
    have "triple client_step work_ok (process_guarded B i) (\<lambda>_. good) ?E"
      unfolding process_guarded_def
      by (rule triple_catchT [OF process_item_triple [OF True] recover]) simp
    with True show ?thesis
      by (auto intro!: triple_bindT triple_returnT stable_assertions)
  qed (simp add: triple_def)
  show ?thesis
    unfolding process_next_def
  proof (rule triple_bindT [OF get])
    show "triple client_step
        (\<lambda>s. case i of None \<Rightarrow> good s
           | Some i \<Rightarrow> (work_kind i = WORK_CONNECT \<longrightarrow> work_ssid i \<noteq> None) \<and> work_ok s)
        (case i of None \<Rightarrow> returnT False
           | Some i \<Rightarrow> bindT (process_guarded B i) (\<lambda>_. returnT True)) (\<lambda>_. good) ?E" for i
      using item by (cases i) (auto intro: triple_returnT stable_assertions)
  qed
qed

lemma caught_good:
  "raises_only is_operational m \<Longrightarrow>
     triple client_step good (catchT (atomicT (on_world m)) is_operational (\<lambda>_. returnT d)) (\<lambda>_. good) never"
  for m :: "('w, 'b) io"
  by (rule caught_triple [OF _ stable_assertions(3)]) (auto simp: settled_def)

lemma lost_triple:
  assumes "\<And>s r s'. good s \<Longrightarrow> m s = (r, s') \<Longrightarrow> (\<exists>b. r = Inr b \<and> (if b then waiting s' else good s'))"
  shows "triple client_step good (bindT (atomicT m) (\<lambda>lost.
     if lost then restore_provisioning B e else returnT ())) (\<lambda>_. good) never"
proof (rule triple_bindT)
  show "triple client_step good (atomicT m) (\<lambda>b s. if b then waiting s else good s) never"
  proof (rule triple_atomicT)
    show "stable client_step (\<lambda>s. if b then waiting s else good s)" for b
      by (cases b) (simp_all add: stable_assertions)
  qed (use assms in \<open>fastforce simp: stable_assertions\<close>)+
  show "triple client_step (\<lambda>s. if b then waiting s else good s)
      (if b then restore_provisioning B e else returnT ()) (\<lambda>_. good) never" for b
    by (auto intro: restore_triple triple_returnT stable_assertions)
qed

lemma reconcile_triple: "triple client_step good (reconcile B) (\<lambda>_. good) never"
proof -
  have "triple client_step good (reconcile_station B) (\<lambda>_. good) never"
    unfolding reconcile_station_def
    by (intro triple_bindT [OF caught_good [OF active_ssid]] lost_triple)
       (auto simp: station_lost_def settled_def bindE_def returnE_def apply_locked_def split: if_splits)
  moreover have "triple client_step good (reconcile_provisioning B) (\<lambda>_. good) never"
    unfolding reconcile_provisioning_def
    by (intro triple_bindT [OF caught_good [OF ap_ready]] triple_if lost_triple triple_returnT stable_assertions)
       (auto simp: provisioning_lost_def settled_def bindE_def returnE_def apply_locked_def split: if_splits)
  moreover have "triple client_step good (atomicT snapshot_locked) (\<lambda>_. good) never"
    by (rule triple_atomicT) (auto simp: snapshot_locked_def stable_assertions)
  ultimately show ?thesis
    unfolding reconcile_def
    by (auto intro!: triple_bindT triple_if triple_returnT stable_assertions)
qed

lemma work_round_triple: "triple client_step good (work_round B) (\<lambda>_. good) never"
proof -
  let ?E = "\<lambda>e s. is_operational e \<and> good s"
  have "triple client_step good (bindT (process_next B)
      (\<lambda>processed. if processed then returnT () else reconcile B)) (\<lambda>_. good) ?E"
    by (auto intro!: triple_bindT [OF process_next_triple] triple_if triple_returnT stable_assertions
        triple_weaken [OF reconcile_triple])
  then show ?thesis
    unfolding work_round_def
  proof (rule triple_catchT)
    show "triple client_step (?E e) (returnT ()) (\<lambda>_. good) never" for e
      by (rule triple_returnT) (auto simp: stable_assertions)
    show "\<not> is_exception e \<Longrightarrow> ?E e s \<Longrightarrow> never e s" for e s
      by (cases e) (auto simp: is_exception_def)
  qed
qed

end

section \<open>What every block preserves\<close>

text \<open>No assumption on the backend is needed here.\<close>

lemma keeps_consistent:
  "keeps consistent (on_world m)" "keeps consistent get_work" "keeps consistent snapshot_locked"
  "keeps consistent (apply_locked STATION_TIMEOUT)" "keeps consistent (apply_locked NO_SAVED_NETWORK)"
  "keeps consistent recover_locked" "keeps consistent (station_lost n)" "keeps consistent provisioning_lost"
  "keeps consistent (restore_outcome b a e)"
  by (auto simp: keeps_def consistent_def on_world_def get_work_def snapshot_locked_def apply_locked_def
      recover_locked_def station_lost_def provisioning_lost_def restore_outcome_def bindE_def returnE_def
      transition_iffs split: prod.splits sum.splits)

lemma keeps_consistent_connected:
  "keeps consistent (bindE (apply_locked STATION_CONNECTED_EV) (\<lambda>_ s.
     (Inr (), s\<lparr>net_station_ssid := n, net_last_error := None\<rparr>)))"
  by (auto simp: keeps_def consistent_def apply_locked_def bindE_def transition_iffs split: sum.splits)

lemma upholds_restore: "upholds consistent (restore_provisioning B e)"
  unfolding restore_provisioning_def by (intro upholds_rules keeps_consistent)

lemma upholds_recover: "upholds consistent (recover_unexpected_failure B)"
  unfolding recover_unexpected_failure_def by (intro upholds_rules keeps_consistent upholds_restore)

lemma upholds_process: "upholds consistent (process_item B i)"
proof -
  have "upholds consistent (process_boot B)" "upholds consistent (process_connect B n p)" for n p
    unfolding process_boot_def process_connect_def apply_event_def station_connected_def
    by (intro upholds_rules keeps_consistent keeps_consistent_connected upholds_restore)+
  then show ?thesis
    by (auto simp: process_item_def upholds_restore split: work_kind.splits option.splits)
qed

lemma upholds_round: "upholds consistent (work_round B)"
proof -
  have "upholds consistent (process_next B)"
    unfolding process_next_def
  proof (rule upholds_bindT [OF upholds_atomicT [OF keeps_consistent(2)]])
    show "upholds consistent (case i of None \<Rightarrow> returnT False
           | Some i \<Rightarrow> bindT (process_guarded B i) (\<lambda>_. returnT True))" for i
      unfolding process_guarded_def
      by (cases i) (auto intro!: upholds_rules upholds_process upholds_recover)
  qed
  moreover have "upholds consistent (reconcile B)"
    unfolding reconcile_def reconcile_station_def reconcile_provisioning_def
    by (intro upholds_rules keeps_consistent upholds_restore)
  ultimately show ?thesis
    unfolding work_round_def by (intro upholds_rules)
qed

text \<open>
  A predicate of the initial states that the other thread and the blocks of a round preserve
  holds in every reachable state.
\<close>

lemma reachable_upholds:
  assumes "\<And>w. J (net_init w)" "\<And>s s'. client_step s s' \<Longrightarrow> J s \<Longrightarrow> J s'" "upholds J (work_round B)"
    and "reachable B (t, s)"
  shows "J s"
proof -
  have "J s \<and> (\<forall>u. t = Some u \<longrightarrow> upholds J u)"
    using assms(4)
  proof (induction "(t, s)" arbitrary: t s rule: reachable.induct)
    case (reach_init w)
    then show ?case by (simp add: assms(1))
  next
    case (reach_step c)
    from reach_step(3,1,2) show ?case
    proof (cases rule: net_step.cases)
      case round_begins
      with reach_step(2) show ?thesis using assms(3) by auto
    next
      case (round_block u k)
      with reach_step(2) show ?thesis by fastforce
    next
      case round_ends
      with reach_step(2) show ?thesis by fastforce
    next
      case (other_thread s0)
      with reach_step(2) show ?thesis using assms(2) by fastforce
    qed
  qed
  then show ?thesis ..
qed

text \<open>A round run without interruption.\<close>

lemma reachable_run:
  "reachable B (Some t, s) \<Longrightarrow> run_thread t s = (r, s') \<Longrightarrow> reachable B (None, s')"
proof (induction t arbitrary: s)
  case (Return r)
  then show ?case by (auto intro: reach_step round_ends)
next
  case (Block u k)
  from Block.prems have "reachable B (Some (k s), u s)" by (blast intro: reach_step round_block)
  with Block show ?case by (auto intro: rangeI)
qed

lemma reachable_round:
  "reachable B (None, s) \<Longrightarrow> run_thread (work_round B) s = (r, s') \<Longrightarrow> reachable B (None, s')"
  by (blast intro: reachable_run reach_step round_begins)

lemma reachable_consistent: "reachable B (t, s) \<Longrightarrow> consistent s"
  by (rule reachable_upholds [OF _ client_step_consistent upholds_round])
     (simp_all add: net_init_def consistent_def)

text \<open>
  \<open>held i M\<close>: the queue is full, so that no request is accepted, and the mode is in \<open>M\<close>.
\<close>

definition held :: "work_item \<Rightarrow> network_mode set \<Rightarrow> 'w net \<Rightarrow> bool" where
  "held i M s \<longleftrightarrow> net_work s = Some i \<and> net_mode s \<in> M"

lemma stable_held: "stable client_step (held i M)"
proof -
  have "held i M s'" if "held i M s" "client_step s s'" for s s'
    using that(2,1) by (cases rule: client_step_cases) (auto simp: held_def)
  then show ?thesis by (auto simp: stable_def)
qed

lemma stable_failing_held: "stable client_step (\<lambda>s. is_operational e \<and> held i M s)"
proof (cases "is_operational e")
  case True
  then show ?thesis using stable_held by simp
qed (simp add: stable_def)

abbreviation resting :: "network_mode set" where
  "resting \<equiv> {STATION_CONNECTED, PROVISIONING_AP, ERROR}"

context operational_backend
begin

lemma reachable_assured:
  assumes "reachable B (t, s)"
  shows "case t of None \<Rightarrow> settled s \<and> work_ok s
    | Some u \<Rightarrow> assured client_step (ends (\<lambda>_ s. settled s \<and> work_ok s) (\<lambda>_ _. False)) u s"
  using assms
proof (induction "(t, s)" arbitrary: t s rule: reachable.induct)
  case (reach_init w)
  then show ?case by (simp add: net_init_def settled_def work_ok_def)
next
  case (reach_step c)
  from reach_step(3,1,2) show ?case
  proof (cases rule: net_step.cases)
    case round_begins
    with reach_step(2) show ?thesis using tripleD [OF work_round_triple] by fastforce
  next
    case (round_block u k)
    with reach_step(2) show ?thesis by fastforce
  next
    case (round_ends r)
    with reach_step(2) [of "Some (Return r)" s] show ?thesis by (cases r) auto
  next
    case (other_thread s0)
    then have I: "case t of None \<Rightarrow> settled s0 \<and> work_ok s0
      | Some u \<Rightarrow> assured client_step (ends (\<lambda>_ s. settled s \<and> work_ok s) (\<lambda>_ _. False)) u s0"
      using reach_step(2) by blast
    from other_thread(2) have star: "client_step\<^sup>*\<^sup>* s0 s" by blast
    show ?thesis
    proof (cases t)
      case None
      with I stable_star [OF stable_assertions(3) star] show ?thesis by simp
    next
      case (Some u)
      with I assured_env [OF _ star] show ?thesis by auto
    qed
  qed
qed

subsection \<open>A provisioning request while the controller is booting\<close>

lemma call_held:
  "raises_only is_operational m \<Longrightarrow>
     triple client_step (held i M) (atomicT (on_world m)) (\<lambda>_. held i M) (\<lambda>e s. is_operational e \<and> held i M s)"
  for m :: "('w, 'b) io"
proof (rule triple_atomicT)
  show "stable client_step (\<lambda>s. is_operational e \<and> held i M s)" for e
    by (rule stable_failing_held)
qed (auto simp: stable_held on_world_def raises_only_def held_def split: prod.splits)

lemma restore_held:
  "triple client_step (held i {TRANSITION}) (restore_provisioning B e) (\<lambda>_. held i resting) (\<lambda>_ _. False)"
proof -
  have "triple client_step (held i {TRANSITION})
      (catchT (atomicT (on_world (b_activate_provisioning B))) is_operational (\<lambda>_. returnT d))
      (\<lambda>_. held i {TRANSITION}) (\<lambda>_ _. False)" for d
    by (rule triple_catchT [OF call_held [OF activate_ap]]) (rule triple_returnT, simp, rule stable_held, simp)
  moreover have "triple client_step (held i {TRANSITION}) (atomicT (restore_outcome b a e))
      (\<lambda>_. held i resting) (\<lambda>_ _. False)" for b a
    by (rule triple_atomicT [OF stable_held stable_held stable_assertions(6)])
       (auto simp: restore_outcome_def apply_locked_def held_def split: if_splits elim!: bindE_eqD)
  ultimately show ?thesis
    unfolding restore_provisioning_def by (intro triple_bindT triple_case_prod)
qed

lemma apply_held:
  assumes "\<And>m. transition TRANSITION ev = Inr m \<Longrightarrow> m \<in> M"
  shows "triple client_step (held i {TRANSITION}) (apply_event ev) (\<lambda>_. held i M)
     (\<lambda>e s. is_operational e \<and> held i {TRANSITION} s)"
  unfolding apply_event_def
  by (rule triple_atomicT [OF stable_held stable_held stable_failing_held])
     (use assms in \<open>auto simp: held_def dest!: apply_locked_cases\<close>)

text \<open>Booting with a request in the queue ends in a mode in which the request cannot succeed.\<close>

lemma process_boot_held:
  "triple client_step (held i {TRANSITION}) (process_boot B) (\<lambda>_. held i resting)
     (\<lambda>e s. is_operational e \<and> held i {TRANSITION} s)"
proof -
  let ?E = "\<lambda>e s. is_operational e \<and> held i {TRANSITION} s"
  have restore: "triple client_step (held i {TRANSITION}) (restore_provisioning B e) (\<lambda>_. held i resting) ?E" for e
    by (rule triple_weaken [OF restore_held]) auto
  have none: "triple client_step (held i {TRANSITION})
      (bindT (apply_event NO_SAVED_NETWORK) (\<lambda>_. restore_provisioning B e)) (\<lambda>_. held i resting) ?E" for e
    by (rule triple_bindT [OF apply_held restore]) (simp add: transition_NO_SAVED)
  have timeout: "triple client_step (held i {TRANSITION})
      (bindT (apply_event STATION_TIMEOUT) (\<lambda>_. restore_provisioning B e)) (\<lambda>_. held i resting) ?E" for e
    by (rule triple_bindT [OF apply_held restore]) (simp add: transition_STATION_TIMEOUT)
  have connected: "triple client_step (held i {TRANSITION}) (station_connected n) (\<lambda>_. held i resting) ?E" for n
    unfolding station_connected_def
    by (rule triple_atomicT [OF stable_held stable_held stable_failing_held])
       (auto simp: apply_locked_def held_def elim!: bindE_eqD)
  show ?thesis
    unfolding process_boot_def
    by (intro triple_bindT [OF call_held] triple_if triple_case_prod none timeout connected
        has_saved activate_saved)
qed

lemma recover_held:
  "triple client_step (held i {TRANSITION}) (recover_unexpected_failure B) (\<lambda>_. held i resting) E"
proof -
  have locked: "triple client_step (held i {TRANSITION}) (atomicT recover_locked)
      (\<lambda>b s. b \<and> held i {TRANSITION} s) E"
  proof -
    have "stable client_step (\<lambda>s. b \<and> held i {TRANSITION} s)" for b
      using stable_held by (cases b) (auto simp: stable_def)
    then have "triple client_step (held i {TRANSITION}) (atomicT recover_locked)
        (\<lambda>b s. b \<and> held i {TRANSITION} s) (\<lambda>_ _. False)"
      by (intro triple_atomicT stable_held stable_assertions) (auto simp: recover_locked_def held_def)
    then show ?thesis by (rule triple_weaken) simp_all
  qed
  have restore: "triple client_step (held i {TRANSITION}) (restore_provisioning B e) (\<lambda>_. held i resting) E" for e
    by (rule triple_weaken [OF restore_held]) simp_all
  show ?thesis
    unfolding recover_unexpected_failure_def
  proof (rule triple_bindT [OF locked])
    show "triple client_step (\<lambda>s. b \<and> held i {TRANSITION} s)
        (if b then restore_provisioning B (Some (lit ''network_operation_failed'')) else returnT ())
        (\<lambda>_. held i resting) E" for b
      using restore by (cases b) (simp_all add: triple_def)
  qed
qed

lemma boot_guarded_held:
  assumes "work_kind i0 = WORK_BOOT"
  shows "triple client_step (held i {TRANSITION}) (process_guarded B i0) (\<lambda>_. held i resting) (\<lambda>_. held i resting)"
proof -
  have handler: "triple client_step (\<lambda>s. is_operational e \<and> held i {TRANSITION} s)
      (bindT (recover_unexpected_failure B) (\<lambda>_. Return (Inl e))) (\<lambda>_ :: unit. held i resting) (\<lambda>_. held i resting)" for e
  proof (rule triple_bindT)
    show "triple client_step (\<lambda>s. is_operational e \<and> held i {TRANSITION} s) (recover_unexpected_failure B)
        (\<lambda>_. held i resting) (\<lambda>_. held i resting)"
      by (rule triple_weaken [OF recover_held [where E = "\<lambda>_. held i resting"]]) simp_all
  qed (rule triple_raiseT, assumption, rule stable_held)
  show ?thesis
    unfolding process_guarded_def process_item_def assms work_kind.case
    by (rule triple_catchT [OF process_boot_held handler]) simp
qed

text \<open>A provisioning request processed from a mode other than the transition ends in an error.\<close>

lemma late_provisioning:
  assumes i: "work_kind i = WORK_PROVISIONING" and s: "held i resting s"
    and run: "run_thread (process_next B) s = (r, s')"
  shows "net_mode s' = ERROR"
proof -
  let ?ap = "on_world (b_activate_provisioning B)"
  have ready: "transition (net_mode s) AP_READY \<noteq> Inr m" "transition (net_mode s) AP_FAILED \<noteq> Inr m" for m
    using s by (auto simp: held_def transition_iffs)
  obtain x s1 where called: "catchE ?ap is_operational (\<lambda>_. returnE (False, Some (lit ''ap_activation_failed'')))
      (s\<lparr>net_work := None\<rparr>) = (Inr x, s1)" and mode: "net_mode s1 = net_mode s"
  proof (cases "b_activate_provisioning B (net_world s)")
    case (Pair o1 w)
    then show ?thesis
      using raises_onlyD [OF activate_ap] that
      by (cases o1) (auto simp: catchE_def on_world_def returnE_def)
  qed
  obtain ok err where x: "x = (ok, err)" by fastforce
  obtain msg where refused: "restore_outcome ok err None s1 = (Inl (ValueError msg), s1)"
  proof (cases ok)
    case True
    from ready(1) transition_total [of "net_mode s1" AP_READY] obtain msg where
      "transition (net_mode s1) AP_READY = Inl (ValueError msg)" by (auto simp: mode)
    with True that show ?thesis by (simp add: restore_outcome_def apply_locked_def bindE_def)
  next
    case False
    from ready(2) transition_total [of "net_mode s1" AP_FAILED] obtain msg where
      "transition (net_mode s1) AP_FAILED = Inl (ValueError msg)" by (auto simp: mode)
    with False that show ?thesis by (simp add: restore_outcome_def apply_locked_def bindE_def)
  qed
  have restored: "run_thread (restore_provisioning B None) (s\<lparr>net_work := None\<rparr>) = (Inl (ValueError msg), s1)"
    using called refused x by (simp add: restore_provisioning_def bindE_def)
  have locked: "recover_locked s1 = (Inr False, s1\<lparr>net_mode := ERROR, net_station_ssid := None,
      net_last_error := Some (lit ''network_operation_failed'')\<rparr>)"
    using s mode by (auto simp: recover_locked_def held_def)
  have "run_thread (process_guarded B i) (s\<lparr>net_work := None\<rparr>) = (Inl (ValueError msg),
      s1\<lparr>net_mode := ERROR, net_station_ssid := None, net_last_error := Some (lit ''network_operation_failed'')\<rparr>)"
    using restored locked
    by (simp add: process_guarded_def process_item_def i catchE_def bindE_def recover_unexpected_failure_def returnE_def)
  moreover have "net_work s = Some i" using s by (simp add: held_def)
  ultimately show ?thesis
    using run by (auto simp: process_next_def get_work_def bindE_def)
qed

end

lemma operational_nm_backend: "operational_runner R \<Longrightarrow> operational_backend (nm_backend R)"
  by (rule operational_backend.intro)
     (simp_all add: nm_backend_def operational_runner.operations_raise operational_runner.connect_station_raises)

sublocale operational_runner \<subseteq> nm: operational_backend "nm_backend R"
  by (rule operational_nm_backend) (rule operational_runner_axioms)

section \<open>The outcome of a request that runs undisturbed\<close>

lemma get_work_item:
  "net_work s = Some i \<Longrightarrow> run_thread (process_next B) s =
     bindE (run_thread (process_guarded B i)) (\<lambda>_. returnE True) (s\<lparr>net_work := None\<rparr>)"
  by (simp add: process_next_def get_work_def bindE_def)

lemma restore_run:
  assumes "net_mode s = TRANSITION" "b_activate_provisioning B (net_world s) = (r, w)"
    and "\<And>e. r = Inl e \<Longrightarrow> is_operational e"
  shows "run_thread (restore_provisioning B err) s =
    (Inr (), case r of
       Inr (True, _) \<Rightarrow> s\<lparr>net_mode := PROVISIONING_AP, net_station_ssid := None, net_last_error := err, net_world := w\<rparr>
     | Inr (False, ap_error) \<Rightarrow> s\<lparr>net_mode := ERROR, net_station_ssid := None, net_world := w,
         net_last_error := Some (or_default ap_error (lit ''ap_activation_failed''))\<rparr>
     | Inl _ \<Rightarrow> s\<lparr>net_mode := ERROR, net_station_ssid := None, net_world := w,
         net_last_error := Some (lit ''ap_activation_failed'')\<rparr>)"
  using assms
  by (auto simp: restore_provisioning_def bindE_def catchE_def on_world_def returnE_def restore_outcome_def
      apply_locked_def or_default_def lit_def split: sum.splits bool.splits)

text \<open>A connection request that the worker processes alone, in each of its outcomes.\<close>

lemma process_connect_run:
  assumes work: "net_work s = Some i" "work_kind i = WORK_CONNECT" "work_ssid i = Some name"
    and mode: "net_mode s = TRANSITION"
    and attempt: "b_connect_station B name (work_password i) (net_world s) = (Inr (ok, connected, error), w)"
  shows "ok \<Longrightarrow> run_thread (process_next B) s =
      (Inr True, s\<lparr>net_mode := STATION_CONNECTED, net_station_ssid := connected, net_last_error := None,
                   net_work := None, net_world := w\<rparr>)"
    and "\<not> ok \<Longrightarrow> b_activate_provisioning B w = (Inr (up, ap_error), w') \<Longrightarrow> run_thread (process_next B) s =
      (Inr True, s\<lparr>net_mode := (if up then PROVISIONING_AP else ERROR), net_station_ssid := None,
         net_last_error := Some (if up then or_default error (lit ''station_timeout'')
                                 else or_default ap_error (lit ''ap_activation_failed'')),
         net_work := None, net_world := w'\<rparr>)"
proof -
  note run = get_work_item [OF work(1)] process_guarded_def process_item_def process_connect_def
    bindE_def catchE_def on_world_def returnE_def apply_event_def apply_locked_def
  show "ok \<Longrightarrow> run_thread (process_next B) s =
      (Inr True, s\<lparr>net_mode := STATION_CONNECTED, net_station_ssid := connected, net_last_error := None,
                   net_work := None, net_world := w\<rparr>)"
    using work mode attempt by (simp add: run station_connected_def)
  assume "\<not> ok" and ap: "b_activate_provisioning B w = (Inr (up, ap_error), w')"
  let ?s = "s\<lparr>net_work := None, net_world := w, net_mode := TRANSITION\<rparr>"
  have "run_thread (restore_provisioning B e) ?s =
      (Inr (), ?s\<lparr>net_mode := (if up then PROVISIONING_AP else ERROR), net_station_ssid := None,
         net_last_error := (if up then e else Some (or_default ap_error (lit ''ap_activation_failed''))),
         net_world := w'\<rparr>)" for e
    using restore_run [of ?s B "Inr (up, ap_error)" w' e] ap by (cases up) simp_all
  with \<open>\<not> ok\<close> work mode attempt show "run_thread (process_next B) s =
      (Inr True, s\<lparr>net_mode := (if up then PROVISIONING_AP else ERROR), net_station_ssid := None,
         net_last_error := Some (if up then or_default error (lit ''station_timeout'')
                                 else or_default ap_error (lit ''ap_activation_failed'')),
         net_work := None, net_world := w'\<rparr>)"
    by (simp add: run)
qed

end
