(* ===== verification/Server_Facts.thy ===== *)
theory Server_Facts
  imports Server Interleaving
begin

text \<open>
  What the daemon's end of the socket guarantees: which requests are accepted, that a framed
  request is one bounded line however the stream is cut into chunks, that every reply is one of
  the reviewed ones, that the thread acts on the controller only through its requests, and that
  no connection ends it.
\<close>

section \<open>Requests\<close>

text \<open>What \<^verbatim>\<open>parse_request\<close> accepts.\<close>

definition request_fields :: "network_action \<Rightarrow> (pstr \<times> json) list \<Rightarrow> bool" where
  "request_fields action d \<longleftrightarrow>
     dict_keys d = expected_fields action \<and> dict_get d (lit ''api_version'') = JStr API_VERSION \<and>
     dict_get d (lit ''action'') = JStr (action_value action)"

definition credentials_of :: "(pstr \<times> json) list \<Rightarrow> pstr option \<Rightarrow> pstr option \<Rightarrow> bool" where
  "credentials_of d name password \<longleftrightarrow>
     (\<exists>s. name = Some s \<and> dict_get d (lit ''ssid'') = JStr s \<and> ssid_ok s) \<and>
     (case password of
        None \<Rightarrow> dict_get d (lit ''password'') = JNull
      | Some p \<Rightarrow> dict_get d (lit ''password'') = JStr p \<and> password_ok p)"

lemma parse_credentials_iff:
  assumes "dict_keys d = expected_fields CONNECT"
  shows "parse_credentials d = Inr (name, password) \<longleftrightarrow> credentials_of d (Some name) password"
proof -
  have "dict_item d (lit ''ssid'') = Inr (dict_get d (lit ''ssid''))"
    "dict_item d (lit ''password'') = Inr (dict_get d (lit ''password''))"
    using assms by (auto intro!: dict_item_get simp: expected_fields_def)
  then show ?thesis
    by (cases password)
       (auto simp: parse_credentials_def credentials_of_def bindR_Inr_iff validate_ssid_iff
         validate_password_iff split: if_splits)
qed

lemma network_action_of_error:
  "network_action_of v = Inl e \<Longrightarrow> is_value_error e"
  unfolding network_action_of_def by (rule enum_lookup_InlD)

lemma parse_request_obj:
  "parse_request (JObj d) = Inr req \<longleftrightarrow>
     dict_get d (lit ''api_version'') = JStr API_VERSION \<and>
     (\<exists>a. network_action_of (dict_get d (lit ''action'')) = Inr a \<and> dict_keys d = expected_fields a \<and>
        (if a = CONNECT
         then (\<exists>n p. parse_credentials d = Inr (n, p) \<and>
                 req = \<lparr>req_action = a, req_ssid = Some n, req_password = p\<rparr>)
         else req = \<lparr>req_action = a, req_ssid = None, req_password = None\<rparr>))"
  by (cases "network_action_of (dict_get d (lit ''action''))")
     (auto simp: parse_request_def bindR_Inr_iff)

lemma parse_request_iff:
  "parse_request v = Inr req \<longleftrightarrow>
     (\<exists>d. v = JObj d \<and> request_fields (req_action req) d \<and>
        (if req_action req = CONNECT then credentials_of d (req_ssid req) (req_password req)
         else req_ssid req = None \<and> req_password req = None))"
proof (cases v)
  case (JObj d)
  obtain a n p where req: "req = \<lparr>req_action = a, req_ssid = n, req_password = p\<rparr>" by (cases req)
  have some: "credentials_of d n p \<Longrightarrow> \<exists>s. n = Some s" by (auto simp: credentials_of_def)
  show ?thesis
  proof (cases "a = CONNECT")
    case True
    then show ?thesis
      using parse_credentials_iff [of d _ p] some
      by (auto simp: JObj req parse_request_obj network_action_of_iff request_fields_def)
  next
    case False
    then show ?thesis
      by (auto simp: JObj req parse_request_obj network_action_of_iff request_fields_def)
  qed
qed (simp_all add: parse_request_def)

lemma parse_request_error: "parse_request v = Inl e \<Longrightarrow> \<exists>code. e = ProtocolError code \<and> code \<in> set PUBLIC_PROTOCOL_ERROR_CODES"
proof -
  have cred: "parse_credentials d = Inl e \<Longrightarrow> e = ProtocolError (lit ''network_credentials_invalid'')" for d
  proof -
    have item: "dict_item d k = Inl f \<Longrightarrow> f = KeyError" for k f
      by (simp add: dict_item_def split: option.splits)
    show "parse_credentials d = Inl e \<Longrightarrow> e = ProtocolError (lit ''network_credentials_invalid'')"
      unfolding parse_credentials_def catchR_def
      by (auto simp: bindR_Inl_iff split: sum.splits if_splits dest!: item validate_ssid_error validate_password_error)
  qed
  assume err: "parse_request v = Inl e"
  show ?thesis
  proof (cases v)
    case (JObj d)
    show ?thesis
    proof (cases "network_action_of (dict_get d (lit ''action''))")
      case (Inl f)
      from network_action_of_error [OF this] err Inl show ?thesis
        by (auto simp: JObj parse_request_def PUBLIC_PROTOCOL_ERROR_CODES_def split: if_splits)
    next
      case (Inr a)
      with err show ?thesis
        by (auto simp: JObj parse_request_def PUBLIC_PROTOCOL_ERROR_CODES_def bindR_Inl_iff
            split: if_splits dest: cred)
    qed
  qed (use err in \<open>auto simp: parse_request_def PUBLIC_PROTOCOL_ERROR_CODES_def\<close>)
qed

section \<open>Replies\<close>

definition reviewed_codes :: "pstr list" where
  "reviewed_codes = PUBLIC_PROTOCOL_ERROR_CODES @ PUBLIC_OPERATION_ERROR_CODES @
     [lit ''request_json_invalid'', lit ''internal_error'']"

lemma error_reply_reviewed: "\<exists>code \<in> set reviewed_codes. error_reply e = error_response_code code"
  by (cases e) (auto simp: error_reply_def error_response_def internal_error_response_def reviewed_codes_def)

section \<open>Framing\<close>

lemma first_line_no_newline: "10 \<notin> set (first_line b)"
  by (auto simp: first_line_def dest: set_takeWhileD)

lemma first_line_length: "length (first_line b) \<le> length b"
  by (simp add: first_line_def length_takeWhile_le)

lemma receive_request_line:
  "receive_request K c = (Inr l, c') \<Longrightarrow> l \<noteq> [] \<and> length l \<le> MAX_REQUEST_BYTES \<and> 10 \<notin> set l"
  unfolding receive_request_def
  by (auto elim!: bindE_eqD simp: raiseE_def returnE_def first_line_no_newline split: if_splits)
     (meson first_line_length le_trans not_less)

lemma append_eq_snoc:
  "a @ b = r @ [x] \<Longrightarrow> a = r @ [x] \<or> (\<exists>r'. b = r' @ [x] \<and> r = a @ r')"
  by (cases b rule: rev_cases) auto

text \<open>
  A line that ends the stream is received whole, however it is cut into segments, if it arrives
  in time and fits.
\<close>

lemma receive_loop_line:
  assumes "content ss = rest @ [10]" "10 \<notin> set rest" "segments_ok ss"
    and "length request + length rest < MAX_REQUEST_BYTES"
    and "st_segments c = ss" "st_clock c + delays ss < deadline"
  shows "\<exists>c'. receive_loop stream_sock deadline request c = (Inr (request @ rest @ [10]), c') \<and>
              st_sent c' = st_sent c \<and> st_peer c' = st_peer c"
  using assms
proof (induction "length rest" arbitrary: rest request ss c rule: less_induct)
  case less
  from less.prems(1) obtain d s ss' where ss: "ss = (d, s) # ss'" by (cases ss) auto
  define n where "n = min 1024 (MAX_REQUEST_BYTES + 1 - length request)"
  have n: "0 < n" using less.prems(4) by (simp add: n_def)
  define c2 where "c2 = c\<lparr>st_clock := st_clock c + d,
     st_segments := (if length s \<le> n then ss' else (0, drop n s) # ss')\<rparr>"
  have d: "0 \<le> d" "s \<noteq> []" "segments_ok ss'" using less.prems(3) by (simp_all add: ss)
  have time: "\<not> deadline - st_clock c \<le> 0" "\<not> d > deadline - st_clock c"
    using less.prems(6) d delays_nonneg [OF d(3)] by (simp_all add: ss)
  have recv: "stream_recv (deadline - st_clock c) n c = (Inr (take n s), c2)"
    using less.prems(5) time(2) by (simp add: stream_recv_def ss c2_def)
  have loop: "receive_loop stream_sock deadline request c =
      (if take n s = [] then (Inr request, c2) else if 10 \<in> set (take n s) then (Inr (request @ take n s), c2)
       else receive_loop stream_sock deadline (request @ take n s) c2)"
    unfolding receive_loop.simps [of _ _ request] n_def [symmetric]
    using less.prems(4) time(1) recv by (simp add: stream_sock_def)
  have nonempty: "take n s \<noteq> []" using n d(2) by simp
  have cont: "take n s @ content (st_segments c2) = rest @ [10]"
  proof -
    have "take n s @ content (st_segments c2) = s @ content ss'"
      by (cases "length s \<le> n") (simp_all add: c2_def flip: append_assoc)
    then show ?thesis using less.prems(1) by (simp add: ss)
  qed
  consider "take n s = rest @ [10]" | rest' where "content (st_segments c2) = rest' @ [10]" "rest = take n s @ rest'"
    using append_eq_snoc [OF cont] by blast
  then show ?case
  proof cases
    case 1
    with loop nonempty show ?thesis by (auto simp: c2_def)
  next
    case rest: (2 rest')
    then have False: "10 \<notin> set (take n s)" using less.prems(2) by auto
    have "segments_ok (st_segments c2)" "delays (st_segments c2) = delays ss'"
      using d by (simp_all add: c2_def)
    moreover have "st_clock c2 = st_clock c + d" by (simp add: c2_def)
    ultimately obtain c' where "receive_loop stream_sock deadline (request @ take n s) c2 =
        (Inr ((request @ take n s) @ rest' @ [10]), c') \<and> st_sent c' = st_sent c2 \<and> st_peer c' = st_peer c2"
      using less.hyps [of rest' "st_segments c2" "request @ take n s" c2] less.prems rest nonempty
      by (auto simp: ss)
    with loop False nonempty rest show ?thesis by (auto simp: c2_def)
  qed
qed

lemma receive_request_delivers:
  assumes "content (st_segments c) = line @ [10]" "10 \<notin> set line" "line \<noteq> []" "segments_ok (st_segments c)"
    and "length line < MAX_REQUEST_BYTES" "delays (st_segments c) < REQUEST_FRAMING_TIMEOUT_SECONDS"
  obtains c' where "receive_request stream_sock c = (Inr line, c')" "st_sent c' = st_sent c"
proof -
  have start: "sock_monotonic stream_sock c = (Inr (st_clock c), c)" by (simp add: stream_sock_def)
  from receive_loop_line [OF assms(1,2,4) _ refl, of "[]" "st_clock c + REQUEST_FRAMING_TIMEOUT_SECONDS"]
    assms(5,6) obtain c' where c': "receive_loop stream_sock (st_clock c + REQUEST_FRAMING_TIMEOUT_SECONDS) [] c =
      (Inr (line @ [10]), c')" "st_sent c' = st_sent c"
    by auto
  moreover have "first_line (line @ [10]) = line"
    using assms(2) by (auto simp: first_line_def takeWhile_append)
  ultimately have "receive_request stream_sock c = (Inr line, c')"
    using assms(3,5) start by (simp add: receive_request_def bindE_def returnE_def)
  with c'(2) that show thesis by blast
qed

section \<open>The thread that serves\<close>

text \<open>Its blocks change the controller only as an accepted request or a scan does.\<close>

lemma controller_blocks:
  "client_step\<^sup>=\<^sup>= s (snd (snapshot_locked s))"
  "client_step\<^sup>=\<^sup>= s (snd (scan_allowed s))"
  "client_step\<^sup>=\<^sup>= s (snd (on_world m s))"
  "client_step\<^sup>=\<^sup>= s (snd (request_boot s))"
  "client_step\<^sup>=\<^sup>= s (snd (request_connect n p s))"
  "client_step\<^sup>=\<^sup>= s (snd (request_provisioning s))"
proof -
  show "client_step\<^sup>=\<^sup>= s (snd (snapshot_locked s))" "client_step\<^sup>=\<^sup>= s (snd (scan_allowed s))"
    by (simp_all add: snapshot_locked_def scan_allowed_def)
  show "client_step\<^sup>=\<^sup>= s (snd (on_world m s))"
    by (auto simp: on_world_def split: prod.splits intro: step_world)
  show "client_step\<^sup>=\<^sup>= s (snd (request_boot s))"
    by (cases "request_boot s"; cases "fst (request_boot s)") (auto intro: step_boot dest: refused_unchanged)
  show "client_step\<^sup>=\<^sup>= s (snd (request_connect n p s))"
    by (cases "request_connect n p s"; cases "fst (request_connect n p s)")
       (auto intro: step_connect dest: refused_unchanged)
  show "client_step\<^sup>=\<^sup>= s (snd (request_provisioning s))"
    by (cases "request_provisioning s"; cases "fst (request_provisioning s)")
       (auto intro: step_provisioning dest: refused_unchanged)
qed

lemma dispatch_blocks: "blocks client_step\<^sup>=\<^sup>= (dispatch B req)"
  unfolding dispatch_def controller_scan_def Let_def
  by (auto intro!: blocks_bindT blocks_atomicT controller_blocks blocks_returnT split: option.split)

lemma blocks_on_net: "blocks R t \<Longrightarrow> blocks (\<lambda>s s'. fst s' = fst s \<and> R (snd s) (snd s')) (on_net t)"
  by (induction t) auto

lemma serve_connection_blocks:
  "blocks (\<lambda>s s'. client_step\<^sup>=\<^sup>= (snd s) (snd s')) (serve_connection K uid depth B)"
proof -
  have conn: "blocks (\<lambda>s s'. client_step\<^sup>=\<^sup>= (snd s) (snd s')) (atomicT (on_conn m))" for m :: "('c, 'x) io"
    by (rule blocks_atomicT) (simp add: on_conn_def split: prod.split)
  have "blocks (\<lambda>s s'. client_step\<^sup>=\<^sup>= (snd s) (snd s')) (on_net (dispatch B req))" for req
    by (rule blocks_weaken [OF blocks_on_net [OF dispatch_blocks]]) simp
  then show ?thesis
    unfolding serve_connection_def by (intro blocks_bindT blocks_catchT conn blocks_returnT)
qed

text \<open>A reply is a success or one of the reviewed errors, and is sent as ASCII.\<close>

definition reviewed_reply :: "json \<Rightarrow> bool" where
  "reviewed_reply v \<longleftrightarrow>
     (\<exists>code \<in> set reviewed_codes. v = error_response_code code) \<or>
     (\<exists>d. v = JObj d \<and> dict_get d (lit ''ok'') = JBool True)"

fun float_free :: "json \<Rightarrow> bool" where
  "float_free (JFloat t) = False"
| "float_free (JList vs) = (\<forall>v \<in> set vs. float_free v)"
| "float_free (JObj d) = (\<forall>(k, v) \<in> set d. float_free v)"
| "float_free _ = True"

lemma dumps_ascii: "float_free v \<Longrightarrow> c \<in> set (json_dumps True v) \<Longrightarrow> c < 0x80"
proof (induction v arbitrary: c)
  case (JBool b)
  then show ?case by (cases b) (auto simp: lit_Cons)
next
  case (JInt i)
  have "\<forall>e \<in> set (nat_digits 10 (nat \<bar>i\<bar>)). e < 10"
    using nat_digits_props [of 10 "nat \<bar>i\<bar>"] by simp
  with JInt show ?case by (auto simp: py_str_int_eq split: if_splits)
next
  case (JStr s)
  then show ?case by (fastforce simp: dump_string_def dest!: escape_char_range)
next
  case (JList vs)
  then show ?case by (fastforce dest!: commas_chars)
next
  case (JObj d)
  have str: "x \<in> set (dump_string True k) \<Longrightarrow> x < 0x80" for x k
    by (fastforce simp: dump_string_def dest!: escape_char_range)
  from JObj(3) consider "c \<in> {123, 125, 44, 58}" | k v where "(k, v) \<in> set d" "c \<in> set (dump_string True k)"
    | k v where "(k, v) \<in> set d" "c \<in> set (json_dumps True v)"
    by (auto simp: dump_member_def json_dumps_obj simp del: json_dumps.simps dest!: commas_chars)
  then show ?case
  proof cases
    case 3
    with JObj show ?thesis by fastforce
  qed (auto dest: str)
qed (auto simp: lit_Cons)

lemma dumps_encode: "float_free v \<Longrightarrow> utf8_encode (json_dumps True v) = Inr (json_dumps True v)"
  by (rule utf8_encode_ascii) (blast dest: dumps_ascii)

lemma error_reply_ok: "reviewed_reply (error_reply e) \<and> float_free (error_reply e)"
proof -
  obtain code where "code \<in> set reviewed_codes" "error_reply e = error_response_code code"
    using error_reply_reviewed by blast
  then show ?thesis by (auto simp: reviewed_reply_def error_response_code_def)
qed

lemma snapshot_response_ok:
  "dict_get (snapshot_response s @ extra) (lit ''ok'') = JBool True"
  "\<forall>(k, v) \<in> set (snapshot_response s). float_free v"
  by (auto simp: snapshot_response_def Let_def dict_get_def split: option.split)

lemma network_response_float_free: "float_free (network_response ap)"
  by (simp add: network_response_def)

definition reply_outcome :: "exn + json \<Rightarrow> bool" where
  "reply_outcome r = (case r of Inl e \<Rightarrow> is_exception e | Inr v \<Rightarrow> reviewed_reply v \<and> float_free v)"

lemma reply_outcome_simps [simp]:
  "reply_outcome (Inl e) = is_exception e" "reply_outcome (Inr v) = (reviewed_reply v \<and> float_free v)"
  by (simp_all add: reply_outcome_def)

lemma reply_call:
  assumes "raises_only is_exception m" "\<And>x. outcomes reply_outcome (f x)"
  shows "outcomes reply_outcome (bindT (atomicT m) f)"
proof (rule outcomes_bindT, rule outcomes_atomicT)
  show "case fst (m s) of Inl e \<Rightarrow> reply_outcome (Inl e) | Inr x \<Rightarrow> outcomes reply_outcome (f x)" for s
    using assms by (cases "m s") (auto simp: raises_only_def split: sum.split)
qed

lemma controller_exceptions:
  "raises_only is_exception snapshot_locked" "raises_only is_exception scan_allowed"
  "raises_only is_exception request_provisioning" "raises_only is_exception (request_connect n p)"
  by (auto simp: raises_only_def request_defs scan_allowed_def bindE_def is_exception_def
      split: if_splits option.splits sum.splits dest!: transition_Inl)

lemma dispatch_outcomes:
  assumes "raises_only is_exception (b_scan B)"
  shows "outcomes reply_outcome (dispatch B req)"
proof -
  have ok: "reply_outcome (Inr (JObj (snapshot_response s @ extra)))"
    if "\<forall>(k, v) \<in> set extra. float_free v" for s extra
    using snapshot_response_ok [of s] that by (auto simp: reviewed_reply_def)
  have ret: "outcomes reply_outcome (returnT x)" if "reply_outcome (Inr x)" for x
    using that by (simp add: returnT_def)
  have world: "raises_only is_exception (on_world (b_scan B))"
    using assms by (auto simp: raises_only_def on_world_def split: prod.splits)
  have "outcomes reply_outcome (bindT (controller_scan B) (\<lambda>items. returnT (JObj
      [(lit ''api_version'', JStr API_VERSION), (lit ''ok'', JBool True),
       (lit ''networks'', JList (map network_response items))])))"
    unfolding controller_scan_def bindT_assoc
    by (intro reply_call controller_exceptions world ret)
       (simp add: reviewed_reply_def dict_get_def network_response_float_free)
  moreover have "outcomes reply_outcome (bindT (atomicT snapshot_locked) (\<lambda>s. returnT (JObj (snapshot_response s))))"
    using ok [of "[]"] by (intro reply_call controller_exceptions ret) simp
  moreover have "outcomes reply_outcome (bindT (atomicT m) (\<lambda>s. returnT (JObj (snapshot_response s @
      [(lit ''accepted'', JBool True), (lit ''reason'', JStr reason)]))))"
    if "raises_only is_exception m" for m :: "('a net, snapshot) io" and reason
    using that by (intro reply_call controller_exceptions ret ok) auto
  ultimately show ?thesis
    unfolding dispatch_def Let_def
    by (auto simp: controller_exceptions is_exception_def split: option.split)
qed

lemma outcomes_on_net: "outcomes P t \<Longrightarrow> outcomes P (on_net t)"
  by (induction t) auto

text \<open>The exceptions that reading a request ends with are those of the socket and of the request.\<close>

definition plain_sock :: "'c sock \<Rightarrow> bool" where
  "plain_sock K \<longleftrightarrow>
     raises_only is_exception (sock_peercred K) \<and> raises_only is_exception (sock_monotonic K) \<and>
     (\<forall>t n. raises_only is_exception (sock_recv K t n)) \<and> (\<forall>b. raises_only is_os_error (sock_sendall K b))"

lemma receive_loop_exceptions:
  assumes "plain_sock K"
  shows "receive_loop K deadline request c = (Inl e, c') \<Longrightarrow> is_exception e"
proof (induction "MAX_REQUEST_BYTES + 1 - length request" arbitrary: request c rule: less_induct)
  case less
  have K: "sock_monotonic K c = (Inl f, d) \<Longrightarrow> is_exception f" "sock_recv K t n c = (Inl f, d) \<Longrightarrow> is_exception f"
    for c t n f d
    using assms unfolding plain_sock_def by (blast dest: raises_onlyD)+
  have step: "is_exception e"
    if "\<not> length request > MAX_REQUEST_BYTES" "chunk \<noteq> []"
      "receive_loop K deadline (request @ chunk) d = (Inl e, c')" for chunk d
  proof -
    have "0 < length chunk" using that by simp
    then have "MAX_REQUEST_BYTES + 1 - length (request @ chunk) < MAX_REQUEST_BYTES + 1 - length request"
      using that unfolding length_append by linarith
    from less.hyps [OF this that(3)] show ?thesis .
  qed
  from less.prems show ?case
    unfolding receive_loop.simps [of K deadline request c]
    by (auto split: if_splits prod.splits sum.splits simp: is_exception_def dest: K step)
qed

lemma on_conn_exceptions: "raises_only P m \<Longrightarrow> raises_only P (on_conn m)"
  unfolding raises_only_def on_conn_def by (auto split: prod.splits)

lemma read_request_exceptions:
  assumes "plain_sock K"
  shows "raises_only is_exception (read_request K uid depth)"
proof -
  have "json_error e \<Longrightarrow> is_exception e" for e
    by (auto simp: json_error_def is_exception_def recursion_error_def)
  moreover have "raises_only is_exception (receive_loop K t r)" for t r
    using receive_loop_exceptions [OF assms] by (auto simp: raises_only_def)
  ultimately show ?thesis
    using assms unfolding read_request_def peer_uid_def receive_request_def plain_sock_def
    by (auto intro!: raises_rules simp: is_exception_def dest!: json_loads_error parse_request_error)
qed

lemma serve_attempt_outcomes:
  assumes "plain_sock K" "raises_only is_exception (b_scan B)"
  shows "outcomes (\<lambda>r. \<exists>v. r = Inr v \<and> reviewed_reply v \<and> float_free v)
     (catchT (bindT (atomicT (on_conn (read_request K uid depth))) (\<lambda>req. on_net (dispatch B req)))
        is_exception (\<lambda>e. returnT (error_reply e)))"
proof (rule outcomes_catchT, rule outcomes_weaken)
  have "raises_only is_exception (on_conn (read_request K uid depth))"
    by (rule on_conn_exceptions) (rule read_request_exceptions [OF assms(1)])
  then show "outcomes reply_outcome
      (bindT (atomicT (on_conn (read_request K uid depth))) (\<lambda>req. on_net (dispatch B req)))"
    by (rule reply_call) (rule outcomes_on_net [OF dispatch_outcomes [OF assms(2)]])
  show "case r of Inl e \<Rightarrow> if is_exception e
      then outcomes (\<lambda>r. \<exists>v. r = Inr v \<and> reviewed_reply v \<and> float_free v) (returnT (error_reply e))
      else \<exists>v. Inl e = Inr v \<and> reviewed_reply v \<and> float_free v
    | Inr v \<Rightarrow> \<exists>u. Inr v = Inr u \<and> reviewed_reply u \<and> float_free u" if "reply_outcome r" for r :: "exn + json"
    using that error_reply_ok by (auto simp: returnT_def split: sum.split)
qed

lemma send_response_run:
  assumes "float_free v" "raises_only is_os_error (sock_sendall K (json_dumps True v))"
  shows "send_response K v c = (Inr (), snd (sock_sendall K (json_dumps True v) c))"
  using assms(2) dumps_encode [OF assms(1)]
  by (auto simp: send_response_def catchE_def bindE_def liftR_def returnE_def raises_only_def
      split: sum.splits prod.splits)

lemma serve_connection_outcomes:
  assumes "plain_sock K" "raises_only is_exception (b_scan B)"
  shows "outcomes (\<lambda>r. r = Inr ()) (serve_connection K uid depth B)"
  unfolding serve_connection_def
proof (rule outcomes_bindT, rule outcomes_weaken [OF serve_attempt_outcomes [OF assms]])
  fix r :: "exn + json"
  assume "\<exists>v. r = Inr v \<and> reviewed_reply v \<and> float_free v"
  then obtain v where v: "r = Inr v" "float_free v" by blast
  have "raises_only is_os_error (sock_sendall K (json_dumps True v))"
    using assms(1) by (simp add: plain_sock_def)
  with v show "case r of Inl e \<Rightarrow> Inl e = Inr () | Inr x \<Rightarrow> outcomes (\<lambda>r. r = Inr ()) (atomicT (on_conn (send_response K x)))"
    by (auto intro!: outcomes_atomicT simp: on_conn_def send_response_run split: prod.split)
qed

lemma serve_accepts_outcomes:
  assumes "plain_sock K" "raises_only is_exception (b_scan B)"
  shows "outcomes (\<lambda>r. r = Inr () \<or> (\<exists>e. r = Inl e \<and> Inl e \<in> set rounds \<and> e \<noteq> TimeoutError))
     (serve_accepts K uid depth B rounds)"
proof (induction rounds rule: list.induct)
  case (Cons a rounds)
  show ?case
  proof (cases a)
    case (Inr c)
    have "outcomes (\<lambda>r. r = Inr () \<or> (\<exists>e. r = Inl e \<and> Inl e \<in> set (a # rounds) \<and> e \<noteq> TimeoutError))
        (serve_accepts K uid depth B rounds)"
      by (rule outcomes_weaken [OF Cons]) auto
    then show ?thesis unfolding Inr serve_accepts.simps
      by (auto intro!: outcomes_bindT outcomes_atomicT outcomes_weaken [OF serve_connection_outcomes [OF assms]])
  qed (auto intro: outcomes_weaken [OF Cons])
qed (simp add: returnT_def)

text \<open>A peer that is not the web service is told so, and nothing else happens.\<close>

lemma serve_stranger:
  assumes "peer_uid K c = (Inr u, c')" "u \<noteq> uid"
  shows "run_thread (serve_connection K uid depth B) (c, n) =
    (fst (send_response K (error_response_code (lit ''peer_not_authorized'')) c'),
     (snd (send_response K (error_response_code (lit ''peer_not_authorized'')) c'), n))"
proof -
  have "read_request K uid depth c = (Inl (ProtocolError (lit ''peer_not_authorized'')), c')"
    using assms by (simp add: read_request_def bindE_def raiseE_def)
  moreover have "error_reply (ProtocolError (lit ''peer_not_authorized'')) =
      error_response_code (lit ''peer_not_authorized'')"
    by (simp add: error_reply_def error_response_def PUBLIC_PROTOCOL_ERROR_CODES_def)
  ultimately show ?thesis
    by (simp add: serve_connection_def bindE_def catchE_def on_conn_def is_exception_def returnE_def split: prod.split)
qed

end
