(* ===== verification/Client.thy ===== *)
theory Client
  imports PyJson Sockets
begin

text \<open>
  The web service's end of the socket (\<^verbatim>\<open>setup-ui/rave_network_ipc/client.py\<close>): the request that
  each method sends, the bounded reading of the response, and the validation of what was
  received before any of it is used.
\<close>

record 'c client_sock = "'c sock" +
  sock_open :: "('c, unit) io"
  sock_connect :: "('c, unit) io"
  sock_shutdown :: "('c, unit) io"

section \<open>Validation of responses\<close>

definition invalid_response :: exn where
  "invalid_response = NetworkdUnavailable (lit ''network_management_invalid_response'')"

definition STATUS_RESPONSE_FIELDS :: "pstr set" where
  "STATUS_RESPONSE_FIELDS =
     {lit ''api_version'', lit ''ok'', lit ''mode'', lit ''provisioning_ap_active'',
      lit ''station_ssid'', lit ''last_error''}"

definition required_reason :: "json \<Rightarrow> bool" where
  "required_reason v = (case v of JStr s \<Rightarrow> 1 \<le> length s \<and> length s \<le> 64 \<and> 10 \<notin> set s | _ \<Rightarrow> False)"

definition optional_reason :: "json \<Rightarrow> bool" where
  "optional_reason v \<longleftrightarrow> v = JNull \<or> required_reason v"

definition is_bool :: "json \<Rightarrow> bool" where
  "is_bool v = (case v of JBool _ \<Rightarrow> True | _ \<Rightarrow> False)"

definition rejected_value :: "exn \<Rightarrow> bool" where
  "rejected_value e \<longleftrightarrow> is_type_error e \<or> is_value_error e"

definition validate_status_response :: "(pstr \<times> json) list \<Rightarrow> exn + (pstr \<times> json) list" where
  "validate_status_response response =
     (if dict_keys response \<noteq> STATUS_RESPONSE_FIELDS then Inl invalid_response
      else bindR (catchR
             (bindR (dict_item response (lit ''mode'')) (\<lambda>mode.
              bindR (network_mode_of mode) (\<lambda>_.
              bindR (dict_item response (lit ''station_ssid'')) (\<lambda>name.
              if name \<noteq> JNull then bindR (validate_ssid name) (\<lambda>_. Inr ()) else Inr ()))))
             rejected_value invalid_response) (\<lambda>_.
           if \<not> is_bool (dict_get response (lit ''provisioning_ap_active'')) then Inl invalid_response
           else if \<not> optional_reason (dict_get response (lit ''last_error'')) then Inl invalid_response
           else Inr response))"

definition validate_network :: "json \<Rightarrow> exn + unit" where
  "validate_network v =
     (case v of
        JObj network \<Rightarrow>
          if dict_keys network \<noteq> {lit ''ssid'', lit ''signal_percent'', lit ''security'', lit ''connected''}
          then Inl invalid_response
          else bindR (catchR
                 (bindR (dict_item network (lit ''ssid'')) (\<lambda>name.
                  bindR (validate_ssid name) (\<lambda>_.
                  bindR (dict_item network (lit ''security'')) (\<lambda>security.
                  bindR (wifi_security_of security) (\<lambda>_. Inr ())))))
                 rejected_value invalid_response) (\<lambda>_.
               guardR ((case dict_get network (lit ''signal_percent'') of
                          JInt signal \<Rightarrow> 0 \<le> signal \<and> signal \<le> 100 | _ \<Rightarrow> False) \<and>
                       is_bool (dict_get network (lit ''connected''))) invalid_response)
      | _ \<Rightarrow> Inl invalid_response)"

fun validate_networks :: "json list \<Rightarrow> exn + unit" where
  "validate_networks [] = Inr ()"
| "validate_networks (network # networks) = bindR (validate_network network) (\<lambda>_. validate_networks networks)"

definition validate_scan_response :: "(pstr \<times> json) list \<Rightarrow> exn + (pstr \<times> json) list" where
  "validate_scan_response response =
     (if dict_keys response \<noteq> {lit ''api_version'', lit ''ok'', lit ''networks''} then Inl invalid_response
      else (case dict_get response (lit ''networks'') of
              JList networks \<Rightarrow>
                if length networks > MAX_NETWORKS then Inl invalid_response
                else bindR (validate_networks networks) (\<lambda>_. Inr response)
            | _ \<Rightarrow> Inl invalid_response))"

definition validate_action_response :: "(pstr \<times> json) list \<Rightarrow> exn + (pstr \<times> json) list" where
  "validate_action_response response =
     bindR (validate_status_response
              (filter (\<lambda>(key, _). key \<notin> {lit ''accepted'', lit ''reason''}) response)) (\<lambda>_.
     if dict_keys response \<noteq> STATUS_RESPONSE_FIELDS \<union> {lit ''accepted'', lit ''reason''}
     then Inl invalid_response
     else if \<not> is_bool (dict_get response (lit ''accepted'')) \<or>
             \<not> required_reason (dict_get response (lit ''reason''))
     then Inl invalid_response
     else Inr response)"

section \<open>One request\<close>

function client_receive :: "('c, 'x) sock_scheme \<Rightarrow> int \<Rightarrow> bytes \<Rightarrow> ('c, bytes) io" where
  "client_receive K timeout received c =
     (case sock_recv K timeout (min 4096 (MAX_RESPONSE_BYTES + 1 - length received)) c of
        (Inl e, c') \<Rightarrow> (Inl e, c')
      | (Inr chunk, c') \<Rightarrow>
          if chunk = [] then (Inr received, c')
          else if length (received @ chunk) > MAX_RESPONSE_BYTES
          then (Inl (ValueError (lit ''network_management_response_too_large'')), c')
          else client_receive K timeout (received @ chunk) c')"
  by pat_completeness auto

termination client_receive
proof (relation "measure (\<lambda>(K, timeout, received, c). MAX_RESPONSE_BYTES + 1 - length received)")
  fix received chunk :: bytes
  assume "chunk \<noteq> []" "\<not> length (received @ chunk) > MAX_RESPONSE_BYTES"
  then show "((K, timeout, received @ chunk, c'), (K, timeout, received, c)) \<in>
      measure (\<lambda>(K, timeout, received, c). MAX_RESPONSE_BYTES + 1 - length received)"
    for K :: "('c, 'x) sock_scheme" and timeout c c'
    by (cases chunk) auto
qed simp

declare client_receive.simps [simp del]

definition validate_server :: "('c, 'x) sock_scheme \<Rightarrow> int \<Rightarrow> ('c, unit) io" where
  "validate_server K expected_server_uid =
     bindE (sock_peercred K) (\<lambda>credentials.
       if length credentials \<noteq> 12 then raiseE OtherException
       else if signed32 (take 4 (drop 4 credentials)) \<noteq> expected_server_uid
       then raiseE (NetworkdUnavailable (lit ''network_management_peer_invalid''))
       else returnE ())"

definition exchange ::
  "'c client_sock \<Rightarrow> int \<Rightarrow> nat \<Rightarrow> int \<Rightarrow> bytes \<Rightarrow> ('c, json) io" where
  "exchange K server_uid depth timeout serialized =
     bindE (sock_open K) (\<lambda>_.
     bindE (sock_connect K) (\<lambda>_.
     bindE (validate_server K server_uid) (\<lambda>_.
     bindE (sock_sendall K (serialized @ [10])) (\<lambda>_.
     bindE (sock_shutdown K) (\<lambda>_.
     bindE (client_receive K timeout []) (\<lambda>received.
     liftR (json_loads depth received)))))))"

definition request_object :: "network_action \<Rightarrow> (pstr \<times> json) list \<Rightarrow> json" where
  "request_object action payload =
     JObj ([(lit ''api_version'', JStr API_VERSION), (lit ''action'', JStr (action_value action))] @ payload)"

definition check_response :: "json \<Rightarrow> exn + (pstr \<times> json) list" where
  "check_response v =
     (case v of
        JObj response \<Rightarrow>
          if dict_get response (lit ''api_version'') \<noteq> JStr API_VERSION then Inl invalid_response
          else if dict_get response (lit ''ok'') \<noteq> JBool True
          then (case dict_get response (lit ''error'') of
                  JStr reason \<Rightarrow>
                    Inl (NetworkdUnavailable (if required_reason (JStr reason) then reason
                                              else lit ''network_management_rejected''))
                | _ \<Rightarrow> Inl (NetworkdUnavailable (lit ''network_management_rejected'')))
          else Inr response
      | _ \<Rightarrow> Inl invalid_response)"

definition client_request ::
  "'c client_sock \<Rightarrow> int \<Rightarrow> nat \<Rightarrow> network_action \<Rightarrow> (pstr \<times> json) list \<Rightarrow> int \<Rightarrow> ('c, (pstr \<times> json) list) io" where
  "client_request K server_uid depth action payload timeout =
     bindE (liftR (utf8_encode (json_dumps False (request_object action payload)))) (\<lambda>serialized.
     bindE (catchE (exchange K server_uid depth timeout serialized)
              (\<lambda>e. is_os_error e \<or> is_value_error e)
              (\<lambda>_. raiseE (NetworkdUnavailable (lit ''network_management_unavailable'')))) (\<lambda>response.
     liftR (check_response response)))"

section \<open>The methods\<close>

text \<open>Times are in nanoseconds.\<close>

definition client_status :: "'c client_sock \<Rightarrow> int \<Rightarrow> nat \<Rightarrow> ('c, (pstr \<times> json) list) io" where
  "client_status K uid depth =
     bindE (client_request K uid depth STATUS [] (10 ^ 9)) (\<lambda>r. liftR (validate_status_response r))"

definition client_scan :: "'c client_sock \<Rightarrow> int \<Rightarrow> nat \<Rightarrow> ('c, (pstr \<times> json) list) io" where
  "client_scan K uid depth =
     bindE (client_request K uid depth SCAN [] (30 * 10 ^ 9)) (\<lambda>r. liftR (validate_scan_response r))"

definition connect_payload :: "pstr \<Rightarrow> pstr option \<Rightarrow> exn + (pstr \<times> json) list" where
  "connect_payload name password =
     bindR (validate_ssid (JStr name)) (\<lambda>valid.
     case password of
       None \<Rightarrow> Inr [(lit ''ssid'', JStr valid), (lit ''password'', JNull)]
     | Some p \<Rightarrow> bindR (validate_password (JStr p)) (\<lambda>secret.
         Inr [(lit ''ssid'', JStr valid), (lit ''password'', JStr secret)]))"

definition client_connect ::
  "'c client_sock \<Rightarrow> int \<Rightarrow> nat \<Rightarrow> pstr \<Rightarrow> pstr option \<Rightarrow> ('c, (pstr \<times> json) list) io" where
  "client_connect K uid depth name password =
     bindE (liftR (connect_payload name password)) (\<lambda>payload.
     bindE (client_request K uid depth CONNECT payload (2 * 10 ^ 9)) (\<lambda>r. liftR (validate_action_response r)))"

definition client_provisioning :: "'c client_sock \<Rightarrow> int \<Rightarrow> nat \<Rightarrow> ('c, (pstr \<times> json) list) io" where
  "client_provisioning K uid depth =
     bindE (client_request K uid depth PROVISIONING [] (2 * 10 ^ 9)) (\<lambda>r. liftR (validate_action_response r))"

end
