(* ===== verification/Wire.thy ===== *)
theory Wire
  imports Server_Facts Client
begin

text \<open>
  The two ends of the socket together: what the daemon answers passes the validation of the
  client, what the client sends is read by the daemon as the same request, both fit their
  bounds, and a whole exchange is carried through however the two streams are cut into segments.
\<close>

section \<open>Answers that the client accepts\<close>

definition reason_ok :: "pstr \<Rightarrow> bool" where
  "reason_ok r \<longleftrightarrow> 1 \<le> length r \<and> length r \<le> 64 \<and> 10 \<notin> set r \<and> scalar r"

definition reportable :: "snapshot \<Rightarrow> bool" where
  "reportable s \<longleftrightarrow>
     (\<forall>n. snap_station_ssid s = Some n \<longrightarrow> ssid_ok n) \<and> (\<forall>e. snap_last_error s = Some e \<longrightarrow> reason_ok e)"

lemma required_reason_str [simp]: "reason_ok r \<Longrightarrow> required_reason (JStr r)"
  by (simp add: required_reason_def reason_ok_def)

lemma validate_ssid_ok: "ssid_ok s \<Longrightarrow> validate_ssid (JStr s) = Inr s"
  by (simp add: validate_ssid_iff)

lemma validate_password_ok: "password_ok s \<Longrightarrow> validate_password (JStr s) = Inr s"
  by (simp add: validate_password_iff)

lemma dict_simps [simp]:
  "dict_get ((k, v) # d) k' = (if k' = k then v else dict_get d k')"
  "dict_item ((k, v) # d) k' = (if k' = k then Inr v else dict_item d k')"
  "dict_keys ((k, v) # d) = insert k (dict_keys d)" "dict_keys [] = {}"
  by (auto simp: dict_get_def dict_item_def dict_keys_def)

lemma status_response_accepted:
  assumes "reportable s"
  shows "validate_status_response (snapshot_response s) = Inr (snapshot_response s)"
proof -
  have "dict_keys (snapshot_response s) = STATUS_RESPONSE_FIELDS"
    by (simp add: snapshot_response_def Let_def STATUS_RESPONSE_FIELDS_def)
  moreover have "network_mode_of (JStr (mode_value (snap_mode s))) = Inr (snap_mode s)" by simp
  ultimately show ?thesis
    using assms
    by (auto simp: validate_status_response_def snapshot_response_def Let_def reportable_def
        is_bool_def optional_reason_def validate_ssid_ok split: option.splits)
qed

lemma action_response_accepted:
  assumes "reportable s" "reason_ok reason"
  shows "validate_action_response (snapshot_response s @
           [(lit ''accepted'', JBool True), (lit ''reason'', JStr reason)]) =
         Inr (snapshot_response s @ [(lit ''accepted'', JBool True), (lit ''reason'', JStr reason)])"
proof -
  let ?r = "snapshot_response s @ [(lit ''accepted'', JBool True), (lit ''reason'', JStr reason)]"
  have "filter (\<lambda>(key, _). key \<notin> {lit ''accepted'', lit ''reason''}) ?r = snapshot_response s"
    by (simp add: snapshot_response_def Let_def)
  moreover have "dict_keys ?r = STATUS_RESPONSE_FIELDS \<union> {lit ''accepted'', lit ''reason''}"
    by (auto simp: snapshot_response_def Let_def STATUS_RESPONSE_FIELDS_def)
  moreover have "dict_get ?r (lit ''accepted'') = JBool True" "dict_get ?r (lit ''reason'') = JStr reason"
    by (simp_all add: snapshot_response_def Let_def)
  ultimately show ?thesis
    using status_response_accepted [OF assms(1)] assms(2)
    by (simp add: validate_action_response_def is_bool_def)
qed

lemma network_accepted:
  assumes "access_point_ok ap"
  shows "validate_network (network_response ap) = Inr ()"
  using assms
  by (simp add: validate_network_def network_response_def access_point_ok_def validate_ssid_ok is_bool_def
      insert_commute)

lemma networks_accepted: "\<forall>ap \<in> set aps. access_point_ok ap \<Longrightarrow> validate_networks (map network_response aps) = Inr ()"
  by (induction aps) (simp_all add: network_accepted)

definition scan_response :: "access_point list \<Rightarrow> (pstr \<times> json) list" where
  "scan_response aps =
     [(lit ''api_version'', JStr API_VERSION), (lit ''ok'', JBool True),
      (lit ''networks'', JList (map network_response aps))]"

lemma scan_response_accepted:
  assumes "\<forall>ap \<in> set aps. access_point_ok ap" "length aps \<le> MAX_NETWORKS"
  shows "validate_scan_response (scan_response aps) = Inr (scan_response aps)"
  using assms networks_accepted [OF assms(1)]
  by (simp add: validate_scan_response_def scan_response_def)

lemma response_checked:
  "dict_get d (lit ''api_version'') = JStr API_VERSION \<Longrightarrow> dict_get d (lit ''ok'') = JBool True \<Longrightarrow>
     check_response (JObj d) = Inr d"
  by (simp add: check_response_def)

section \<open>Sizes\<close>

definition utf8_length :: "pstr \<Rightarrow> nat" where
  "utf8_length s = length (concat (map utf8_char s))"

lemma utf8_length_simps [simp]:
  "utf8_length [] = 0" "utf8_length (c # s) = length (utf8_char c) + utf8_length s"
  "utf8_length (s @ t) = utf8_length s + utf8_length t"
  by (simp_all add: utf8_length_def)

lemma utf8_length_ascii: "\<forall>c \<in> set s. c < 0x80 \<Longrightarrow> utf8_length s = length s"
  by (induction s) (simp_all add: utf8_char_def)

lemma utf8_length_ge: "length s \<le> utf8_length s"
proof (induction s)
  case (Cons c s)
  then show ?case using length_utf8_char [of c] by simp
qed simp

lemma utf8_length_hex4: "utf8_length (hex4_text n) = 6"
proof -
  have "\<forall>c \<in> set (hex4_text n). c < 0x80" using hex4_text_range by fastforce
  from utf8_length_ascii [OF this] show ?thesis by (simp add: hex4_text_def)
qed

lemma escape_char_length: "utf8_length (escape_char ascii c) \<le> 6 * length (utf8_char c)"
proof -
  consider "c < 0x80" | "0x80 \<le> c" "c < 0x10000" | "0x10000 \<le> c" by linarith
  then show ?thesis
  proof cases
    case 1
    then have "length (utf8_char c) = 1" by (simp add: utf8_char_def)
    then show ?thesis by (auto simp: escape_char_def utf8_length_hex4 utf8_char_def)
  next
    case 2
    then show ?thesis using length_utf8_char [of c]
      by (auto simp: escape_char_def utf8_length_hex4)
  next
    case 3
    then have "length (utf8_char c) = 4" by (simp add: utf8_char_def)
    then show ?thesis using 3 by (simp add: escape_char_def utf8_length_hex4)
  qed
qed

lemma dump_string_length: "utf8_length (dump_string ascii s) \<le> 2 + 6 * utf8_length s"
proof -
  have "utf8_length (concat (map (escape_char ascii) s)) \<le> 6 * utf8_length s"
  proof (induction s)
    case (Cons c s)
    then show ?case using escape_char_length [of ascii c] by simp
  qed simp
  then show ?thesis by (simp add: dump_string_def utf8_char_def)
qed

text \<open>A bound on the bytes that a value is dumped to.\<close>

fun json_bound :: "json \<Rightarrow> nat" where
  "json_bound JNull = 4"
| "json_bound (JBool b) = 5"
| "json_bound (JInt i) = 1 + length (nat_digits 10 (nat \<bar>i\<bar>))"
| "json_bound (JFloat t) = utf8_length t"
| "json_bound (JStr s) = 2 + 6 * utf8_length s"
| "json_bound (JList vs) = 2 + sum_list (map (\<lambda>v. 1 + json_bound v) vs)"
| "json_bound (JObj d) = 2 + sum_list (map (\<lambda>(k, v). 4 + 6 * utf8_length k + json_bound v) d)"

lemma commas_length: "utf8_length (commas ts) \<le> sum_list (map (\<lambda>t. 1 + utf8_length t) ts)"
proof -
  have "utf8_length (concat (map (\<lambda>u. 44 # u) ts)) = sum_list (map (\<lambda>t. 1 + utf8_length t) ts)" for ts
    by (induction ts) (simp_all add: utf8_char_def)
  then show ?thesis by (cases ts) (simp_all add: commas_def)
qed

lemma json_dumps_length: "utf8_length (json_dumps ascii v) \<le> json_bound v"
proof (induction v)
  case (JBool b)
  then show ?case by (cases b) (simp_all add: lit_Cons utf8_char_def)
next
  case (JInt i)
  have "\<forall>e \<in> set (nat_digits 10 (nat \<bar>i\<bar>)). e < 10"
    using nat_digits_props [of 10 "nat \<bar>i\<bar>"] by simp
  then have "utf8_length (py_str_int i) = length (py_str_int i)"
    by (intro utf8_length_ascii) (auto simp: py_str_int_eq split: if_splits)
  then show ?case by (simp add: py_str_int_eq)
next
  case (JStr s)
  show ?case using dump_string_length [of ascii s] by simp
next
  case (JList vs)
  have "sum_list (map (\<lambda>v. 1 + utf8_length (json_dumps ascii v)) vs) \<le> sum_list (map (\<lambda>v. 1 + json_bound v) vs)"
    by (rule sum_list_mono) (simp add: JList)
  then show ?case using commas_length [of "map (json_dumps ascii) vs"] by (simp add: utf8_char_def comp_def)
next
  case (JObj d)
  have "utf8_length (dump_member ascii (k, v)) \<le> 3 + 6 * utf8_length k + json_bound v" if "(k, v) \<in> set d" for k v
    using JObj that dump_string_length [of ascii k] by (fastforce simp: dump_member_def utf8_char_def)
  then have "sum_list (map (\<lambda>m. 1 + utf8_length (dump_member ascii m)) d) \<le>
      sum_list (map (\<lambda>(k, v). 4 + 6 * utf8_length k + json_bound v) d)"
    by (intro sum_list_mono) fastforce
  then show ?case using commas_length [of "map (dump_member ascii) d"]
    by (simp add: json_dumps_obj utf8_char_def comp_def del: json_dumps.simps)
qed (simp_all add: lit_Cons utf8_char_def utf8_length_def)

lemma lit_length [simp]: "length (lit s) = length s"
  by (simp add: lit_def)

lemma utf8_length_lit: "utf8_length (lit s) \<le> 2 * length s"
proof (induction s)
  case (Cons c s)
  have "(of_char c :: nat) < 2048" "(of_char c :: nat) < 65536" using of_char_small [of c] by linarith+
  then have "length (utf8_char (of_char c)) \<le> 2" by (simp add: utf8_char_def)
  with Cons show ?case by (simp add: lit_Cons)
qed (simp add: utf8_length_def)

lemma ssid_ok_utf8: "ssid_ok s \<Longrightarrow> utf8_length s \<le> 32"
  by (simp add: ssid_ok_def utf8_length_def)

lemma password_ok_utf8: "password_ok s \<Longrightarrow> utf8_length s \<le> 63"
  by (simp add: password_ok_def utf8_length_def)

section \<open>Requests\<close>

text \<open>What the methods of the client send, and the request that each stands for.\<close>

inductive sends :: "network_action \<Rightarrow> (pstr \<times> json) list \<Rightarrow> request \<Rightarrow> bool" where
  plain: "action \<noteq> CONNECT \<Longrightarrow> sends action [] \<lparr>req_action = action, req_ssid = None, req_password = None\<rparr>"
| connect: "connect_payload name password = Inr payload \<Longrightarrow>
    sends CONNECT payload \<lparr>req_action = CONNECT, req_ssid = Some name, req_password = password\<rparr>"

lemma connect_payload_iff:
  "connect_payload name password = Inr payload \<longleftrightarrow>
     ssid_ok name \<and> (\<forall>p. password = Some p \<longrightarrow> password_ok p) \<and>
     payload = [(lit ''ssid'', JStr name),
                (lit ''password'', case password of None \<Rightarrow> JNull | Some p \<Rightarrow> JStr p)]"
  by (cases password) (auto simp: connect_payload_def bindR_Inr_iff validate_ssid_iff validate_password_iff)

lemma sends_parsed:
  assumes "sends action payload req"
  shows "parse_request (request_object action payload) = Inr req"
  using assms
proof cases
  case plain
  then show ?thesis
    by (auto simp: request_object_def parse_request_obj expected_fields_def split: network_action.split)
next
  case (connect name password)
  have keys: "dict_keys [(lit ''api_version'', JStr API_VERSION), (lit ''action'', JStr (action_value CONNECT)),
      (lit ''ssid'', JStr name), (lit ''password'', v)] = expected_fields CONNECT" for v
    by (auto simp: expected_fields_def)
  have creds: "parse_credentials ((lit ''api_version'', a) # (lit ''action'', b) # payload) = Inr (name, password)" for a b
    using connect(3) by (auto simp: connect_payload_iff parse_credentials_def validate_ssid_ok
        validate_password_ok split: option.splits)
  show ?thesis
    using connect keys creds network_action_of_value [of CONNECT]
    by (auto simp: connect_payload_iff request_object_def parse_request_obj)
qed

lemma scalar_ok: "ssid_ok s \<Longrightarrow> scalar s" "password_ok s \<Longrightarrow> scalar s"
  by (auto simp: scalar_def ssid_ok_def password_ok_def)

lemma request_plain:
  assumes "sends action payload req"
  shows "json_plain (Suc d) (request_object action payload)"
proof -
  have "scalar (action_value a)" for a by (cases a) simp_all
  moreover have "scalar API_VERSION" by (simp add: API_VERSION_def)
  ultimately show ?thesis
    using assms by (auto simp: request_object_def connect_payload_iff scalar_ok
        elim!: sends.cases split: option.split)
qed

text \<open>Every request fits, with its line feed.\<close>

lemma request_size:
  assumes "sends action payload req"
  shows "utf8_length (json_dumps False (request_object action payload)) < MAX_REQUEST_BYTES"
proof -
  have key: "utf8_length (lit k) \<le> 2 * length k" for k by (rule utf8_length_lit)
  have "utf8_length (action_value a) \<le> 24" for a
    using key [of "''status''"] key [of "''scan''"] key [of "''connect''"] key [of "''provisioning''"]
    by (cases a) simp_all
  note bounds = this key [of "''api_version''"] key [of "''action''"] key [of "''ssid''"] key [of "''password''"]
  have version: "utf8_length API_VERSION \<le> 4" using key [of "''v1''"] by (simp add: API_VERSION_def)
  have "json_bound (request_object action payload) \<le> 1200"
    using assms
  proof cases
    case plain
    then show ?thesis using bounds(1) [of action] bounds(2,3) version by (simp add: request_object_def)
  next
    case (connect name password)
    have "ssid_ok name" "\<And>p. password = Some p \<Longrightarrow> password_ok p"
      "payload = [(lit ''ssid'', JStr name), (lit ''password'', case password of None \<Rightarrow> JNull | Some p \<Rightarrow> JStr p)]"
      using connect(3) by (auto simp: connect_payload_iff)
    then show ?thesis
      using bounds(1) [of CONNECT] bounds(2-5) version ssid_ok_utf8 [of name] password_ok_utf8 connect(1)
      by (cases password) (force simp: request_object_def)+
  qed
  then show ?thesis
    using json_dumps_length [of False "request_object action payload"] by (simp add: MAX_REQUEST_BYTES_def)
qed

section \<open>Exchanges\<close>

text \<open>The client's end of a stream.\<close>

definition client_stream :: "stream client_sock" where
  "client_stream =
     \<lparr>sock_peercred = (\<lambda>c. (Inr (st_peer c), c)),
      sock_monotonic = (\<lambda>c. (Inr (st_clock c), c)),
      sock_recv = stream_recv,
      sock_sendall = (\<lambda>b c. (Inr (), c\<lparr>st_sent := st_sent c @ b\<rparr>)),
      sock_open = returnE (), sock_connect = returnE (), sock_shutdown = returnE ()\<rparr>"

text \<open>The credentials that \<^verbatim>\<open>SO_PEERCRED\<close> gives for a user.\<close>

definition peer_is :: "stream \<Rightarrow> int \<Rightarrow> bool" where
  "peer_is c uid \<longleftrightarrow> length (st_peer c) = 12 \<and> signed32 (take 4 (drop 4 (st_peer c))) = uid"

lemma client_receive_sent:
  "client_receive client_stream t received c = (r, c') \<Longrightarrow> st_sent c' = st_sent c"
proof (induction "MAX_RESPONSE_BYTES + 1 - length received" arbitrary: received c rule: less_induct)
  case less
  have recv: "st_sent d = st_sent c" if "sock_recv client_stream t n c = (x, d)" for x d n
    using that by (auto simp: client_stream_def stream_recv_def split: list.splits if_splits)
  have step: "st_sent c' = st_sent d"
    if "client_receive client_stream t (received @ chunk) d = (r, c')" "chunk \<noteq> []"
      "\<not> MAX_RESPONSE_BYTES < length received + length chunk" for chunk d
  proof -
    have "0 < length chunk" using that by simp
    then have "MAX_RESPONSE_BYTES + 1 - length (received @ chunk) < MAX_RESPONSE_BYTES + 1 - length received"
      using that(3) unfolding length_append by linarith
    from less.hyps [OF this that(1)] show ?thesis .
  qed
  from less.prems show ?case
    unfolding client_receive.simps [of _ t received c]
    by (auto split: prod.splits sum.splits if_splits dest: recv) (metis recv step)
qed

lemma client_receive_all:
  assumes "segments_ok ss" "\<forall>(d, s) \<in> set ss. d \<le> t" "0 \<le> t"
    and "length received + length (content ss) \<le> MAX_RESPONSE_BYTES" "st_segments c = ss"
  shows "\<exists>c'. client_receive client_stream t received c = (Inr (received @ content ss), c')"
  using assms(1,2,4,5)
proof (induction "length (content ss)" arbitrary: received ss c rule: less_induct)
  case less
  define n where "n = min 4096 (MAX_RESPONSE_BYTES + 1 - length received)"
  have n: "0 < n" using less.prems(3) by (simp add: n_def)
  show ?case
  proof (cases ss)
    case Nil
    then have "sock_recv client_stream t n c = (Inr [], c)"
      using less.prems(4) by (simp add: client_stream_def stream_recv_def)
    then show ?thesis
      unfolding client_receive.simps [of _ t received c] n_def [symmetric] by (simp add: Nil)
  next
    case (Cons x ss')
    obtain d s where x: "x = (d, s)" by (cases x)
    define c2 where "c2 = c\<lparr>st_clock := st_clock c + d,
       st_segments := (if length s \<le> n then ss' else (0, drop n s) # ss')\<rparr>"
    have d: "0 \<le> d" "s \<noteq> []" "segments_ok ss'" "d \<le> t" using less.prems(1,2) by (simp_all add: Cons x)
    have recv: "sock_recv client_stream t n c = (Inr (take n s), c2)"
      using less.prems(4) d(4) by (simp add: client_stream_def stream_recv_def c2_def Cons x)
    have split: "take n s @ content (st_segments c2) = content ss"
      by (cases "length s \<le> n") (simp_all add: c2_def Cons x flip: append_assoc)
    have len: "length (take n s) + length (content (st_segments c2)) = length (content ss)"
      using split by (metis length_append)
    have pos: "0 < length (take n s)" using n d(2) by simp
    have "\<exists>c'. client_receive client_stream t (received @ take n s) c2 =
        (Inr ((received @ take n s) @ content (st_segments c2)), c')"
    proof (rule less.hyps)
      show "length (content (st_segments c2)) < length (content ss)" using len pos by linarith
      show "segments_ok (st_segments c2)" using d by (simp add: c2_def)
      show "\<forall>(d, s) \<in> set (st_segments c2). d \<le> t"
        using less.prems(2) assms(3) by (auto simp: c2_def Cons x)
      show "length (received @ take n s) + length (content (st_segments c2)) \<le> MAX_RESPONSE_BYTES"
        using len less.prems(3) by simp
    qed simp
    moreover have "\<not> length (received @ take n s) > MAX_RESPONSE_BYTES"
      using len less.prems(3) by simp
    ultimately show ?thesis
      unfolding client_receive.simps [of _ t received c] n_def [symmetric]
      using recv pos split by simp
  qed
qed

lemma exchange_sends:
  assumes "peer_is c uid"
  shows "st_sent (snd (exchange client_stream uid depth t b c)) = st_sent c @ b @ [10]"
proof -
  let ?c = "c\<lparr>st_sent := st_sent c @ b @ [10]\<rparr>"
  have "exchange client_stream uid depth t b c =
      bindE (client_receive client_stream t []) (\<lambda>received. liftR (json_loads depth received)) ?c"
    using assms by (simp add: exchange_def validate_server_def client_stream_def peer_is_def bindE_def returnE_def)
  then show ?thesis
    by (cases "client_receive client_stream t [] ?c"; cases "fst (client_receive client_stream t [] ?c)")
       (auto simp: bindE_def liftR_def dest: client_receive_sent)
qed

text \<open>What is sent does not depend on the recursion limit of the reader.\<close>

lemma client_request_sent_any:
  assumes "peer_is c uid" "sends action payload req"
  shows "st_sent (snd (client_request client_stream uid depth action payload t c)) =
    st_sent c @ (case utf8_encode (json_dumps False (request_object action payload)) of Inr b \<Rightarrow> b @ [10] | Inl _ \<Rightarrow> [])"
proof -
  obtain b where b: "utf8_encode (json_dumps False (request_object action payload)) = Inr b"
    using json_loads_dumps [OF request_plain [OF assms(2)], of False 0] by metis
  have "st_sent (snd (client_request client_stream uid depth action payload t c)) =
      st_sent (snd (exchange client_stream uid depth t b c))"
    by (cases "exchange client_stream uid depth t b c"; cases "fst (exchange client_stream uid depth t b c)")
       (auto simp: client_request_def b bindE_def liftR_def catchE_def raiseE_def)
  with exchange_sends [OF assms(1)] b show ?thesis by simp
qed

lemma client_request_sends:
  assumes "peer_is c uid" "sends action payload req" "0 < depth"
  obtains b where "st_sent (snd (client_request client_stream uid depth action payload t c)) = st_sent c @ b @ [10]"
    "10 \<notin> set b" "b \<noteq> []" "json_loads depth b = Inr (request_object action payload)"
    "length b < MAX_REQUEST_BYTES"
proof -
  obtain d where d: "depth = Suc d" using assms(3) by (cases depth) auto
  let ?v = "request_object action payload"
  obtain b where b: "utf8_encode (json_dumps False ?v) = Inr b" "\<forall>x \<in> set b. 32 \<le> x" "b \<noteq> []"
    "json_loads depth b = Inr ?v"
    using json_loads_dumps [OF request_plain [OF assms(2)], of False d] d by metis
  have "length b = utf8_length (json_dumps False ?v)"
    using b(1) by (auto simp: utf8_encode_def utf8_length_def split: if_splits)
  then have len: "length b < MAX_REQUEST_BYTES" using request_size [OF assms(2)] by simp
  have "st_sent (snd (client_request client_stream uid depth action payload t c)) = st_sent c @ b @ [10]"
    using client_request_sent_any [OF assms(1,2)] b(1) by simp
  with b len show thesis by (intro that [of b]) auto
qed

text \<open>A stream carries \<open>b\<close>: in time for the server, or with no segment later than \<open>t\<close> for the client.\<close>

definition carries :: "stream \<Rightarrow> bytes \<Rightarrow> bool" where
  "carries c b \<longleftrightarrow> content (st_segments c) = b \<and> segments_ok (st_segments c) \<and>
     delays (st_segments c) < REQUEST_FRAMING_TIMEOUT_SECONDS"

definition answers :: "stream \<Rightarrow> int \<Rightarrow> bytes \<Rightarrow> bool" where
  "answers c t b \<longleftrightarrow> content (st_segments c) = b \<and> segments_ok (st_segments c) \<and>
     (\<forall>(d, s) \<in> set (st_segments c). d \<le> t)"

lemma read_request_delivers:
  assumes "peer_is c uid" "carries c (b @ [10])" "10 \<notin> set b" "b \<noteq> []" "length b < MAX_REQUEST_BYTES"
    and "json_loads depth b = Inr v"
  obtains c' where "read_request stream_sock uid depth c = (parse_request v, c')" "st_sent c' = st_sent c"
proof -
  obtain c' where c': "receive_request stream_sock c = (Inr b, c')" "st_sent c' = st_sent c"
    using receive_request_delivers assms(2-5) unfolding carries_def by blast
  have "peer_uid stream_sock c = (Inr uid, c)"
    using assms(1) by (simp add: peer_uid_def peer_is_def stream_sock_def bindE_def returnE_def)
  then have "read_request stream_sock uid depth c = (parse_request v, c')"
    using c'(1) assms(6) by (simp add: read_request_def bindE_def liftR_def)
  with c'(2) that show thesis by blast
qed

lemma run_on_net: "run_thread (on_net t) (c, n) = (fst (run_thread t n), (c, snd (run_thread t n)))"
  by (induction t arbitrary: n) simp_all

lemma stream_send: "float_free v \<Longrightarrow>
    send_response stream_sock v c = (Inr (), c\<lparr>st_sent := st_sent c @ json_dumps True v\<rparr>)"
  using send_response_run [of v stream_sock c] by (simp add: stream_sock_def raises_only_def)

text \<open>The daemon's answer to a request that was read.\<close>

definition answer :: "exn + json \<Rightarrow> json" where
  "answer r = (case r of Inl e \<Rightarrow> error_reply e | Inr v \<Rightarrow> v)"

lemma serve_run:
  assumes "read_request stream_sock uid depth c = (Inr req, d)" "st_sent d = st_sent c"
    and "run_thread (dispatch B req) n = (r, n')" "reply_outcome r"
  shows "\<exists>c'. run_thread (serve_connection stream_sock uid depth B) (c, n) = (Inr (), (c', n')) \<and>
              st_sent c' = st_sent c @ json_dumps True (answer r)"
proof -
  have "float_free (answer r)"
    using assms(4) error_reply_ok by (cases r) (simp_all add: answer_def)
  moreover have "run_thread (catchT (bindT (atomicT (on_conn (read_request stream_sock uid depth)))
        (\<lambda>req. on_net (dispatch B req))) is_exception (\<lambda>e. returnT (error_reply e))) (c, n) =
      (Inr (answer r), (d, n'))"
    using assms(1,3,4) by (cases r) (simp_all add: catchE_def bindE_def on_conn_def run_on_net returnE_def answer_def)
  ultimately show ?thesis
    using assms(2) by (simp add: serve_connection_def bindE_def on_conn_def stream_send)
qed

lemma answer_nonempty: "reply_outcome r \<Longrightarrow> json_dumps True (answer r) \<noteq> []"
proof -
  assume "reply_outcome r"
  then have "reviewed_reply (answer r)"
    using error_reply_ok by (cases r) (simp_all add: answer_def)
  then obtain d where "answer r = JObj d" by (auto simp: reviewed_reply_def error_response_code_def)
  then show ?thesis by simp
qed

lemma exchange_receives:
  assumes "peer_is c uid" "answers c t (json_dumps True v)" "0 \<le> t" "json_plain depth v"
    and "length (json_dumps True v) \<le> MAX_RESPONSE_BYTES"
  shows "\<exists>c'. exchange client_stream uid depth t b c = (Inr v, c')"
proof -
  let ?c = "c\<lparr>st_sent := st_sent c @ b @ [10]\<rparr>"
  obtain c' where "client_receive client_stream t [] ?c = (Inr (json_dumps True v), c')"
    using client_receive_all [of "st_segments c" t "[]" ?c] assms(2,3,5) by (auto simp: answers_def)
  moreover have "json_loads depth (json_dumps True v) = Inr v"
    using json_loads_dumps [OF assms(4), of True] by metis
  ultimately show ?thesis
    using assms(1) by (simp add: exchange_def validate_server_def client_stream_def peer_is_def bindE_def
        returnE_def liftR_def)
qed

lemma client_request_receives:
  assumes "peer_is c uid" "sends action payload req" "0 < depth" "answers c t (json_dumps True v)" "0 \<le> t"
    and "json_plain depth v" "length (json_dumps True v) \<le> MAX_RESPONSE_BYTES"
  shows "\<exists>c'. client_request client_stream uid depth action payload t c = (check_response v, c')"
proof -
  obtain d where d: "depth = Suc d" using assms(3) by (cases depth) auto
  obtain b where b: "utf8_encode (json_dumps False (request_object action payload)) = Inr b"
    using json_loads_dumps [OF request_plain [OF assms(2)], of False d] d by metis
  from exchange_receives [OF assms(1,4,5,6,7), of b] b show ?thesis
    by (auto simp: client_request_def bindE_def liftR_def catchE_def)
qed

section \<open>What is sent can be read\<close>

lemma error_response_plain:
  "json_plain (Suc d) (error_response_code (lit code))"
  by (simp add: error_response_code_def API_VERSION_def)

lemma snapshot_response_plain:
  assumes "reportable s" "\<forall>(k, v) \<in> set extra. scalar k \<and> json_plain d v"
    "distinct (map fst extra)" "fst ` set extra \<subseteq> {lit ''accepted'', lit ''reason''}"
  shows "json_plain (Suc d) (JObj (snapshot_response s @ extra))"
proof -
  have "scalar (mode_value m)" for m by (cases m) simp_all
  moreover have "scalar API_VERSION" by (simp add: API_VERSION_def)
  moreover have "\<And>e. snap_last_error s = Some e \<Longrightarrow> scalar e"
    using assms(1) by (simp add: reportable_def reason_ok_def)
  moreover have "\<And>n. snap_station_ssid s = Some n \<Longrightarrow> scalar n"
    using assms(1) by (simp add: reportable_def scalar_ok)
  moreover have "lit k \<notin> fst ` set extra" if "k \<noteq> ''accepted''" "k \<noteq> ''reason''" for k
    using assms(4) that by auto
  ultimately show ?thesis
    using assms(2,3) by (auto simp: snapshot_response_def Let_def split: option.splits)
qed

text \<open>The responses fit too.\<close>

lemma utf8_length_reason: "reason_ok r \<Longrightarrow> utf8_length r \<le> 256"
proof -
  have "utf8_length r \<le> 4 * length r" for r
  proof (induction r)
    case (Cons c r)
    then show ?case using length_utf8_char [of c] by simp
  qed simp
  from this [of r] show "reason_ok r \<Longrightarrow> utf8_length r \<le> 256" by (auto simp: reason_ok_def)
qed

lemma nat_digits_short: "n < 1000 \<Longrightarrow> length (nat_digits 10 n) \<le> 3"
  by (subst nat_digits.simps, subst nat_digits.simps, subst nat_digits.simps)
     (auto simp: div_mult2_eq [symmetric])

lemma network_response_bound:
  assumes "access_point_ok ap"
  shows "json_bound (network_response ap) \<le> 800"
proof -
  note key = utf8_length_lit
  have ssid: "utf8_length (ap_ssid ap) \<le> 32" and signal: "0 \<le> ap_signal_percent ap" "ap_signal_percent ap \<le> 100"
    using assms by (auto simp: access_point_ok_def ssid_ok_utf8)
  have digits: "length (nat_digits 10 (nat \<bar>ap_signal_percent ap\<bar>)) \<le> 3"
    using signal by (intro nat_digits_short) simp
  have security: "utf8_length (security_value s) \<le> 24" for s
    using key [of "''open''"] key [of "''wpa_personal''"] key [of "''enterprise''"] key [of "''unsupported''"]
    by (cases s) simp_all
  show ?thesis
    using ssid digits security [of "ap_security ap"] key [of "''ssid''"] key [of "''signal_percent''"]
      key [of "''security''"] key [of "''connected''"]
    by (simp add: network_response_def)
qed

lemma scan_response_size:
  assumes "\<forall>ap \<in> set aps. access_point_ok ap" "length aps \<le> MAX_NETWORKS"
  shows "utf8_length (json_dumps ascii (JObj (scan_response aps))) \<le> MAX_RESPONSE_BYTES"
proof -
  note key = utf8_length_lit
  have "sum_list (map (\<lambda>v. 1 + json_bound v) (map network_response aps)) \<le> sum_list (map (\<lambda>_. 801) aps)"
    unfolding map_map comp_def using assms(1) network_response_bound by (intro sum_list_mono) simp
  also have "\<dots> \<le> 801 * 64" using assms(2) by (simp add: sum_list_triv MAX_NETWORKS_def)
  finally have "json_bound (JObj (scan_response aps)) \<le> 65536"
    using key [of "''api_version''"] key [of "''ok''"] key [of "''networks''"] key [of "''v1''"]
    by (simp add: scan_response_def API_VERSION_def)
  then show ?thesis
    using json_dumps_length [of ascii "JObj (scan_response aps)"] by (simp add: MAX_RESPONSE_BYTES_def)
qed

lemma snapshot_response_size:
  assumes "reportable s" "sum_list (map (\<lambda>(k, v). 4 + 6 * utf8_length k + json_bound v) extra) \<le> 4000"
  shows "utf8_length (json_dumps ascii (JObj (snapshot_response s @ extra))) \<le> MAX_RESPONSE_BYTES"
proof -
  note key = utf8_length_lit
  have mode: "utf8_length (mode_value m) \<le> 36" for m
    using key [of "''unconfigured''"] key [of "''station_connecting''"] key [of "''station_connected''"]
      key [of "''provisioning_ap''"] key [of "''transition''"] key [of "''error''"]
    by (cases m) simp_all
  have "json_bound (case snap_station_ssid s of None \<Rightarrow> JNull | Some x \<Rightarrow> JStr x) \<le> 200"
    using assms(1) ssid_ok_utf8 by (fastforce simp: reportable_def split: option.split)
  moreover have "json_bound (case snap_last_error s of None \<Rightarrow> JNull | Some x \<Rightarrow> JStr x) \<le> 1600"
    using assms(1) utf8_length_reason by (fastforce simp: reportable_def split: option.split)
  ultimately have "json_bound (JObj (snapshot_response s @ extra)) \<le> 65536"
    using mode [of "snap_mode s"] assms(2) key [of "''api_version''"] key [of "''ok''"] key [of "''mode''"]
      key [of "''provisioning_ap_active''"] key [of "''station_ssid''"] key [of "''last_error''"] key [of "''v1''"]
    by (simp add: snapshot_response_def Let_def API_VERSION_def)
  then show ?thesis
    using json_dumps_length [of ascii "JObj (snapshot_response s @ extra)"] by (simp add: MAX_RESPONSE_BYTES_def)
qed

lemma dumps_ascii_length: "float_free v \<Longrightarrow> length (json_dumps True v) = utf8_length (json_dumps True v)"
  using utf8_length_ascii dumps_ascii by metis

text \<open>Reading a request sends nothing.\<close>

lemma receive_loop_sent:
  "receive_loop stream_sock deadline request c = (r, c') \<Longrightarrow> st_sent c' = st_sent c"
proof (induction "MAX_REQUEST_BYTES + 1 - length request" arbitrary: request c rule: less_induct)
  case less
  have recv: "st_sent d = st_sent b" if "sock_recv stream_sock t n b = (x, d)" for x d n t b
    using that by (auto simp: stream_sock_def stream_recv_def split: list.splits if_splits)
  have clock: "d = b" if "sock_monotonic stream_sock b = (x, d)" for x d b
    using that by (simp add: stream_sock_def)
  have step: "st_sent c' = st_sent d"
    if "receive_loop stream_sock deadline (request @ chunk) d = (r, c')" "chunk \<noteq> []"
      "\<not> length request > MAX_REQUEST_BYTES" for chunk d
  proof -
    have "0 < length chunk" using that by simp
    then have "MAX_REQUEST_BYTES + 1 - length (request @ chunk) < MAX_REQUEST_BYTES + 1 - length request"
      using that(3) unfolding length_append by linarith
    from less.hyps [OF this that(1)] show ?thesis .
  qed
  from less.prems show ?case
    unfolding receive_loop.simps [of _ deadline request c]
    by (auto split: prod.splits sum.splits if_splits dest: recv clock) (metis recv clock step)
qed

lemma read_request_sent: "read_request stream_sock uid depth c = (r, c') \<Longrightarrow> st_sent c' = st_sent c"
proof -
  let ?I = "\<lambda>d. st_sent d = st_sent c"
  have loop: "keeps ?I (receive_loop stream_sock t [])" for t
    by (rule keepsI) (metis prod.collapse receive_loop_sent)
  have ops: "keeps ?I (sock_peercred stream_sock)" "keeps ?I (sock_monotonic stream_sock)"
    by (auto simp: keeps_def stream_sock_def)
  have "keeps ?I (read_request stream_sock uid depth)"
    unfolding read_request_def peer_uid_def receive_request_def by (intro keeps_rules loop ops)
  then show "read_request stream_sock uid depth c = (r, c') \<Longrightarrow> st_sent c' = st_sent c"
    by (auto dest: keepsD)
qed

lemma stream_plain: "plain_sock stream_sock"
  by (auto simp: plain_sock_def stream_sock_def stream_recv_def raises_only_def is_exception_def
      split: list.splits if_splits)

lemma serve_sends:
  assumes "raises_only is_exception (b_scan B)"
    and "run_thread (serve_connection stream_sock uid depth B) (c, n) = (r, (c', n'))"
  shows "r = Inr () \<and> (\<exists>v. reviewed_reply v \<and> st_sent c' = st_sent c @ json_dumps True v)"
proof -
  let ?attempt = "catchT (bindT (atomicT (on_conn (read_request stream_sock uid depth)))
      (\<lambda>req. on_net (dispatch B req))) is_exception (\<lambda>e. returnT (error_reply e))"
  obtain x d m where x: "run_thread ?attempt (c, n) = (x, (d, m))" by (metis prod.collapse)
  from outcomes_run [OF serve_attempt_outcomes [OF stream_plain assms(1)] x]
  obtain v where v: "x = Inr v" "reviewed_reply v" "float_free v" by blast
  have "st_sent d = st_sent c"
    using x by (cases "read_request stream_sock uid depth c"; cases "fst (read_request stream_sock uid depth c)")
      (auto simp: catchE_def bindE_def on_conn_def run_on_net returnE_def
        dest!: read_request_sent split: sum.splits prod.splits if_splits)
  moreover have "(r, (c', n')) = (Inr (), (d\<lparr>st_sent := st_sent d @ json_dumps True v\<rparr>, m))"
    using assms(2) x v by (simp add: serve_connection_def bindE_def on_conn_def stream_send del: run_bindT run_catchT)
      (simp add: bindE_def on_conn_def stream_send)
  ultimately show ?thesis using v(2) by auto
qed

end
