(* ===== verification/Reporting.thy ===== *)
theory Reporting
  imports Wire
begin

text \<open>
  Every state that the controller reports passes the client's validation: the names that the
  backend returns are valid, and its errors are short codes (\<open>reporting_backend\<close>); the
  controller stores nothing else (\<open>reporting\<close>), under every interleaving of its two threads.
\<close>

section \<open>What the backend returns\<close>

definition name_ok :: "pstr option \<Rightarrow> bool" where
  "name_ok n \<longleftrightarrow> (\<forall>s. n = Some s \<longrightarrow> ssid_ok s)"

definition code_ok :: "pstr option \<Rightarrow> bool" where
  "code_ok c \<longleftrightarrow> (\<forall>e. c = Some e \<longrightarrow> reason_ok e)"

definition station_result_ok :: "bool \<times> pstr option \<times> pstr option \<Rightarrow> bool" where
  "station_result_ok r \<longleftrightarrow> name_ok (fst (snd r)) \<and> code_ok (snd (snd r))"

lemma name_ok_simps [simp]: "name_ok None" "name_ok (Some s) = ssid_ok s"
  by (simp_all add: name_ok_def)

lemma code_ok_simps [simp]: "code_ok None" "code_ok (Some e) = reason_ok e"
  by (simp_all add: code_ok_def)

lemma station_result_ok_simps [simp]: "station_result_ok (b, n, e) = (name_ok n \<and> code_ok e)"
  by (simp add: station_result_ok_def)

lemma reason_ok_lit:
  "s \<noteq> [] \<Longrightarrow> length s \<le> 64 \<Longrightarrow> CHR 0x0A \<notin> set s \<Longrightarrow> reason_ok (lit s)"
proof -
  assume s: "s \<noteq> []" "length s \<le> 64" "CHR 0x0A \<notin> set s"
  have "(of_char c :: nat) = 10 \<Longrightarrow> c = CHR 0x0A" for c
    using inj_of_char [where ?'a = nat, THEN injD, of c "CHR 0x0A"] by simp
  with s have "10 \<notin> set (lit s)" by (auto simp: lit_def)
  with s show ?thesis by (simp add: reason_ok_def Suc_le_eq)
qed

locale reporting_backend =
  fixes B :: "'w backend"
  assumes saved: "returns_only station_result_ok (b_activate_saved_station B)"
    and connect: "returns_only station_result_ok (b_connect_station B n p)"
    and provisioning: "returns_only (\<lambda>r. code_ok (snd r)) (b_activate_provisioning B)"
    and active: "returns_only name_ok (b_active_station_ssid B)"

text \<open>The backend that drives NetworkManager is one, whatever the commands answer.\<close>

lemma saved_ssid_name: "returns_only name_ok (saved_ssid R u)"
  unfolding saved_ssid_def
  by (auto intro!: returns_rules simp: Let_def validate_ssid_iff split: sum.split)

lemma activate_saved_results: "returns_only station_result_ok (activate_saved_station R)"
  unfolding activate_saved_station_def
  by (intro returns_bind [OF saved_ssid_name] returns_rules) (auto intro: reason_ok_lit)

lemma connect_results: "returns_only station_result_ok (connect_station R name p)"
proof -
  have establish: "ssid_ok s \<Longrightarrow> returns_only station_result_ok (establish_candidate R ap s p previous u)" for ap s previous u
    unfolding establish_candidate_def by (intro returns_rules) (auto intro: reason_ok_lit)
  have candidate: "ssid_ok s \<Longrightarrow> returns_only station_result_ok (connect_candidate R ap s p previous)" for ap s previous
    unfolding connect_candidate_def by (intro returns_rules establish) (auto intro: reason_ok_lit)
  have valid: "returns_only ssid_ok (liftR (validate_ssid (JStr name)))"
    by (auto simp: returns_only_def liftR_def validate_ssid_iff)
  have "credential_error sec p = Some e \<Longrightarrow> reason_ok e" for sec e
    by (auto simp: credential_error_def intro!: reason_ok_lit split: if_splits option.splits sum.splits)
  then show ?thesis
    unfolding connect_station_def
    by (intro returns_bind [OF valid] returns_rules candidate) (auto intro: reason_ok_lit)
qed

interpretation reporting: reporting_backend "nm_backend R" for R :: "'w runner"
proof
  show "returns_only station_result_ok (b_activate_saved_station (nm_backend R))"
    by (simp add: nm_backend_def activate_saved_results)
  show "returns_only station_result_ok (b_connect_station (nm_backend R) n p)" for n p
    by (simp add: nm_backend_def connect_results)
  show "returns_only (\<lambda>r. code_ok (snd r)) (b_activate_provisioning (nm_backend R))"
    unfolding nm_backend_def activate_provisioning_def backend.simps
    by (intro returns_rules) (auto intro: reason_ok_lit)
  show "returns_only name_ok (b_active_station_ssid (nm_backend R))"
    unfolding nm_backend_def active_station_ssid_def backend.simps
    by (intro returns_rules saved_ssid_name) simp
qed

section \<open>What the controller stores\<close>

definition reporting :: "'w net \<Rightarrow> bool" where
  "reporting s \<longleftrightarrow> name_ok (net_station_ssid s) \<and> code_ok (net_last_error s)"

lemma reporting_snapshot:
  "reporting s \<Longrightarrow> snapshot_locked s = (Inr x, s') \<Longrightarrow> reportable x"
  by (auto simp: reporting_def snapshot_locked_def reportable_def)

lemma client_step_reporting: "client_step s s' \<Longrightarrow> reporting s \<Longrightarrow> reporting s'"
  by (cases rule: client_step.cases)
     (auto simp: reporting_def request_boot_accepted request_connect_accepted request_provisioning_accepted)

lemma or_default_ok: "code_ok e \<Longrightarrow> reason_ok d \<Longrightarrow> reason_ok (or_default e d)"
  by (auto simp: or_default_def split: option.split list.split)

lemma keeps_reporting:
  "keeps reporting (on_world m)" "keeps reporting get_work" "keeps reporting snapshot_locked"
  "keeps reporting (apply_locked e)" "keeps reporting recover_locked" "keeps reporting provisioning_lost"
  by (auto simp: keeps_def reporting_def on_world_def get_work_def snapshot_locked_def apply_locked_def
      recover_locked_def provisioning_lost_def bindE_def returnE_def
      intro!: reason_ok_lit split: prod.splits sum.splits)

lemma keeps_reporting_named:
  "name_ok n \<Longrightarrow> keeps reporting (station_lost n)"
  "name_ok n \<Longrightarrow> keeps reporting (bindE (apply_locked STATION_CONNECTED_EV) (\<lambda>_ s.
     (Inr (), s\<lparr>net_station_ssid := n, net_last_error := None\<rparr>)))"
  by (auto simp: keeps_def reporting_def station_lost_def apply_locked_def bindE_def returnE_def
      split: sum.splits)

lemma keeps_reporting_restore:
  "code_ok a \<Longrightarrow> code_ok e \<Longrightarrow> keeps reporting (restore_outcome b a e)"
  by (auto simp: keeps_def reporting_def restore_outcome_def apply_locked_def bindE_def
      intro!: or_default_ok reason_ok_lit split: sum.splits)

lemma returns_on_world: "returns_only Q m \<Longrightarrow> returns_only Q (on_world m)"
  by (fastforce simp: returns_only_def on_world_def split: prod.splits)

context reporting_backend
begin

lemma restore: "code_ok e \<Longrightarrow> upholds reporting (restore_provisioning B e)"
  unfolding restore_provisioning_def
  by (rule upholds_bind_caught [OF keeps_reporting(1) returns_on_world [OF provisioning]])
     (auto intro!: upholds_case_prod upholds_atomicT keeps_reporting_restore reason_ok_lit)

lemma connected: "name_ok n \<Longrightarrow> upholds reporting (station_connected n)"
  unfolding station_connected_def by (intro upholds_atomicT keeps_reporting_named)

lemma timed_out: "code_ok e \<Longrightarrow> upholds reporting (bindT (apply_event ev) (\<lambda>_. restore_provisioning B e))"
  unfolding apply_event_def by (intro upholds_bindT upholds_atomicT keeps_reporting restore)

lemma attempt:
  assumes "returns_only station_result_ok m" "reason_ok d"
  shows "upholds reporting (bindT (atomicT (on_world m)) (\<lambda>(success, name, error).
     if success then station_connected name
     else bindT (apply_event STATION_TIMEOUT) (\<lambda>_. restore_provisioning B (Some (or_default error d)))))"
  by (rule upholds_bind_call [OF keeps_reporting(1) returns_on_world [OF assms(1)]])
     (auto intro!: upholds_if connected timed_out or_default_ok assms(2))

lemma process: "upholds reporting (process_item B i)"
proof -
  have "upholds reporting (process_boot B)"
    unfolding process_boot_def
    by (intro upholds_bindT upholds_atomicT keeps_reporting upholds_if timed_out attempt saved)
       (auto intro: reason_ok_lit)
  moreover have "upholds reporting (process_connect B n p)" for n p
    unfolding process_connect_def by (rule attempt [OF connect]) (auto intro: reason_ok_lit)
  ultimately show ?thesis
    by (auto simp: process_item_def restore split: work_kind.split option.split)
qed

lemma recover: "upholds reporting (recover_unexpected_failure B)"
  unfolding recover_unexpected_failure_def
  by (intro upholds_bindT upholds_atomicT keeps_reporting upholds_if restore upholds_returnT)
     (auto intro: reason_ok_lit)

lemma round: "upholds reporting (work_round B)"
proof -
  have "upholds reporting (process_next B)"
    unfolding process_next_def process_guarded_def
    by (rule upholds_bindT [OF upholds_atomicT [OF keeps_reporting(2)]])
       (auto intro!: upholds_rules process recover upholds_returnT split: option.split)
  moreover have "upholds reporting (reconcile_station B)"
    unfolding reconcile_station_def
    by (rule upholds_bind_caught [OF keeps_reporting(1) returns_on_world [OF active]])
       (auto intro!: upholds_rules keeps_reporting_named restore reason_ok_lit)
  moreover have "upholds reporting (reconcile_provisioning B)"
    unfolding reconcile_provisioning_def
    by (intro upholds_rules keeps_reporting restore) (auto intro: reason_ok_lit)
  ultimately show ?thesis
    unfolding work_round_def reconcile_def by (intro upholds_rules keeps_reporting)
qed

lemma reachable_reporting: "reachable B (t, s) \<Longrightarrow> reporting s"
  by (rule reachable_upholds [OF _ client_step_reporting round])
     (simp_all add: net_init_def reporting_def)

end

section \<open>A whole exchange\<close>

text \<open>
  \<open>c\<close> is the client's end and \<open>d\<close> the daemon's: each carries what the other sends.
\<close>

lemma request_read:
  assumes "sends action payload req" "peer_is c server_uid" "peer_is d web_uid" "0 < depth" "0 < depth'"
    and "st_sent c = []"
    and "carries d (st_sent (snd (client_request client_stream server_uid depth action payload t c)))"
  obtains d' where "read_request stream_sock web_uid depth' d = (Inr req, d')" "st_sent d' = st_sent d"
proof -
  obtain b where b: "st_sent (snd (client_request client_stream server_uid depth action payload t c)) = b @ [10]"
    "10 \<notin> set b" "b \<noteq> []" "length b < MAX_REQUEST_BYTES" "\<And>k. 0 < k \<Longrightarrow> json_loads k b = Inr (request_object action payload)"
  proof -
    obtain b where b: "st_sent (snd (client_request client_stream server_uid depth action payload t c)) = st_sent c @ b @ [10]"
      "10 \<notin> set b" "b \<noteq> []" "length b < MAX_REQUEST_BYTES" "json_loads depth b = Inr (request_object action payload)"
      using client_request_sends [OF assms(2,1,4)] by metis
    have "json_loads k b = Inr (request_object action payload)" if k: "0 < k" for k
    proof -
      obtain b' where b': "st_sent (snd (client_request client_stream server_uid k action payload t c)) = st_sent c @ b' @ [10]"
        "json_loads k b' = Inr (request_object action payload)"
        using client_request_sends [OF assms(2,1) k] by metis
      moreover have "st_sent (snd (client_request client_stream server_uid k action payload t c)) =
          st_sent (snd (client_request client_stream server_uid depth action payload t c))"
        by (simp add: client_request_sent_any [OF assms(2,1)])
      ultimately show ?thesis using b(1) by simp
    qed
    with b assms(6) that show thesis by simp
  qed
  obtain d' where "read_request stream_sock web_uid depth' d = (parse_request (request_object action payload), d')"
    "st_sent d' = st_sent d"
    using read_request_delivers [OF assms(3) _ b(2,3,4) b(5) [OF assms(5)]] assms(7) b(1) by metis
  with sends_parsed [OF assms(1)] that show thesis by simp
qed

lemma full_exchange:
  assumes "sends action payload req" "peer_is c server_uid" "peer_is d web_uid" "0 < depth" "0 < depth'" "0 \<le> t"
    and "st_sent c = []" "st_sent d = []"
    and "carries d (st_sent (snd (client_request client_stream server_uid depth action payload t c)))"
    and "run_thread (serve_connection stream_sock web_uid depth' B) (d, n) = (r, (d', n'))"
    and "answers c t (st_sent d')"
    and "run_thread (dispatch B req) n = (x, n2)" "reply_outcome x" "json_plain depth (answer x)"
    and "length (json_dumps True (answer x)) \<le> MAX_RESPONSE_BYTES"
  shows "r = Inr () \<and> n' = n2 \<and>
    fst (client_request client_stream server_uid depth action payload t c) = check_response (answer x)"
proof -
  obtain d1 where "read_request stream_sock web_uid depth' d = (Inr req, d1)" "st_sent d1 = st_sent d"
    using request_read [OF assms(1-5,7,9)] .
  from serve_run [OF this assms(12,13)] assms(8,10)
  have "r = Inr ()" "n' = n2" "st_sent d' = json_dumps True (answer x)" by auto
  moreover from this assms(11) have "answers c t (json_dumps True (answer x))" by simp
  from client_request_receives [OF assms(2,1,4) this assms(6,14,15)]
  have "fst (client_request client_stream server_uid depth action payload t c) = check_response (answer x)"
    by auto
  ultimately show ?thesis by simp
qed

lemma bindE_liftR_run:
  "st_sent (snd (bindE m (\<lambda>x. liftR (f x)) c)) = st_sent (snd (m c))"
  "fst (m c) = Inr x \<Longrightarrow> fst (bindE m (\<lambda>x. liftR (f x)) c) = f x"
  "fst (m c) = Inl e \<Longrightarrow> fst (bindE m (\<lambda>x. liftR (f x)) c) = Inl e"
  by (auto simp: bindE_def liftR_def split: sum.splits prod.splits)

text \<open>The answer to an accepted request.\<close>

definition acceptance :: "snapshot \<Rightarrow> string \<Rightarrow> (pstr \<times> json) list" where
  "acceptance s reason =
     snapshot_response s @ [(lit ''accepted'', JBool True), (lit ''reason'', JStr (lit reason))]"

lemma acceptance_sent:
  assumes "reportable s" "reason_ok (lit reason)" "0 < depth"
  shows "reply_outcome (Inr (JObj (acceptance s reason)))"
    and "json_plain depth (JObj (acceptance s reason))"
    and "length (json_dumps True (JObj (acceptance s reason))) \<le> MAX_RESPONSE_BYTES"
proof -
  let ?v = "JObj (acceptance s reason)"
  have free: "float_free ?v"
    using snapshot_response_ok(2) [of s] by (auto simp: acceptance_def)
  then show "reply_outcome (Inr ?v)"
    by (simp add: reviewed_reply_def acceptance_def snapshot_response_ok(1))
  obtain k where k: "depth = Suc k" using assms(3) by (cases depth) auto
  show "json_plain depth ?v"
    unfolding acceptance_def k by (rule snapshot_response_plain [OF assms(1)]) auto
  have "utf8_length (lit reason) \<le> 256" using assms(2) by (rule utf8_length_reason)
  moreover have "utf8_length (lit ''accepted'') \<le> 16" "utf8_length (lit ''reason'') \<le> 12"
    using utf8_length_lit [of "''accepted''"] utf8_length_lit [of "''reason''"] by simp_all
  ultimately have "utf8_length (json_dumps True ?v) \<le> MAX_RESPONSE_BYTES"
    unfolding acceptance_def by (intro snapshot_response_size [OF assms(1)]) simp
  then show "length (json_dumps True ?v) \<le> MAX_RESPONSE_BYTES"
    using dumps_ascii_length [OF free] by (simp del: json_dumps.simps)
qed

lemma acceptance_received:
  assumes "reportable s" "reason_ok (lit reason)"
  shows "check_response (JObj (acceptance s reason)) = Inr (acceptance s reason)"
    and "validate_action_response (acceptance s reason) = Inr (acceptance s reason)"
  using action_response_accepted [OF assms]
  by (auto simp: acceptance_def snapshot_response_def Let_def intro!: response_checked)

lemma reachable_reportable:
  assumes "reachable (nm_backend R) (t, n)"
  shows "reportable \<lparr>snap_mode = m, snap_ap_active = a, snap_station_ssid = net_station_ssid n, snap_last_error = None\<rparr>"
    and "reportable \<lparr>snap_mode = m, snap_ap_active = a, snap_station_ssid = net_station_ssid n, snap_last_error = net_last_error n\<rparr>"
  using reporting.reachable_reporting [OF assms] by (auto simp: reporting_def reportable_def)

end
