(* ===== verification/Service.thy ===== *)
theory Service
  imports Reporting
begin

text \<open>
  The service of the daemon as one function of the request and the controller: which reply is sent, and what becomes of
  the controller. It does not mention the wire, the dispatch or the queue's exceptions; the thread that serves a connection refines it.
\<close>

definition current :: "'w net \<Rightarrow> snapshot" where
  "current n = \<lparr>snap_mode = net_mode n, snap_ap_active = (net_mode n = PROVISIONING_AP),
     snap_station_ssid = net_station_ssid n, snap_last_error = net_last_error n\<rparr>"

text \<open>A transition is under way from its request on.\<close>

definition started :: "work_item \<Rightarrow> 'w net \<Rightarrow> 'w net" where
  "started item n = n\<lparr>net_mode := TRANSITION, net_last_error := None, net_work := Some item\<rparr>"

definition refusal :: "string \<Rightarrow> json" where
  "refusal code = error_response_code (lit code)"

text \<open>
  A transition is started from some modes only, and not while one is waiting; a refusal for the mode is no public code.
\<close>

definition start_service :: "network_mode set \<Rightarrow> work_item \<Rightarrow> string \<Rightarrow> 'w net \<Rightarrow> json \<times> 'w net" where
  "start_service modes item reason n =
     (if net_mode n \<notin> modes then (refusal ''internal_error'', n)
      else if net_work n \<noteq> None then (refusal ''network_transition_busy'', n)
      else (JObj (acceptance (current (started item n)) reason), started item n))"

definition service :: "'w backend \<Rightarrow> request \<Rightarrow> 'w net \<Rightarrow> json \<times> 'w net" where
  "service B req n =
     (case req_action req of
        STATUS \<Rightarrow> (JObj (snapshot_response (current n)), n)
      | SCAN \<Rightarrow>
          if net_mode n \<notin> {PROVISIONING_AP, STATION_CONNECTED} then (refusal ''network_transition_busy'', n)
          else (case b_scan B (net_world n) of
                  (Inr aps, w) \<Rightarrow> (JObj (scan_response aps), n\<lparr>net_world := w\<rparr>)
                | (Inl e, w) \<Rightarrow> (error_reply e, n\<lparr>net_world := w\<rparr>))
      | CONNECT \<Rightarrow>
          start_service {STATION_CONNECTED, PROVISIONING_AP}
            \<lparr>work_kind = WORK_CONNECT, work_ssid = req_ssid req, work_password = req_password req\<rparr>
            ''station_connection_requested'' n
      | PROVISIONING \<Rightarrow>
          if net_mode n = PROVISIONING_AP then (JObj (acceptance (current n) ''provisioning_ap_requested''), n)
          else start_service {STATION_CONNECTING, STATION_CONNECTED, ERROR}
            \<lparr>work_kind = WORK_PROVISIONING, work_ssid = None, work_password = None\<rparr> ''provisioning_ap_requested'' n)"

section \<open>The daemon refines it\<close>

lemma replies:
  "error_reply (RuntimeError (lit ''network_transition_busy'')) = refusal ''network_transition_busy''"
  "error_reply (ValueError m) = refusal ''internal_error''"
  by (simp_all add: error_reply_def error_response_def refusal_def internal_error_response_def PUBLIC_OPERATION_ERROR_CODES_def)

lemma connect_service:
  "(case request_connect name p n of (Inr s, n') \<Rightarrow> (JObj (acceptance s reason), n') | (Inl e, n') \<Rightarrow> (error_reply e, n')) =
   start_service {STATION_CONNECTED, PROVISIONING_AP}
     \<lparr>work_kind = WORK_CONNECT, work_ssid = Some name, work_password = p\<rparr> reason n"
  by (cases "transition (net_mode n) STATION_REQUESTED")
    (auto simp: request_defs bindE_def start_service_def current_def started_def replies transition_STATION_REQUESTED
      dest: transition_Inl transition_STATION_REQUESTED [THEN iffD2] split: option.split)

lemma provisioning_service:
  "net_mode n \<noteq> PROVISIONING_AP \<Longrightarrow>
   (case request_provisioning n of (Inr s, n') \<Rightarrow> (JObj (acceptance s reason), n') | (Inl e, n') \<Rightarrow> (error_reply e, n')) =
   start_service {STATION_CONNECTING, STATION_CONNECTED, ERROR}
     \<lparr>work_kind = WORK_PROVISIONING, work_ssid = None, work_password = None\<rparr> reason n"
  by (cases "transition (net_mode n) PROVISIONING_REQUESTED")
    (auto simp: request_defs bindE_def start_service_def current_def started_def replies transition_PROVISIONING_REQUESTED
      dest: transition_Inl transition_PROVISIONING_REQUESTED [THEN iffD2] split: option.split)

lemma dispatch_service:
  assumes "req_action req = CONNECT \<longrightarrow> req_ssid req \<noteq> None"
  shows "(case run_thread (dispatch B req) n of (x, n') \<Rightarrow> (answer x, n')) = service B req n"
proof (cases "req_action req")
  case STATUS
  then show ?thesis
    by (simp add: dispatch_def Let_def snapshot_locked_def bindE_def returnE_def answer_def service_def current_def)
next
  case SCAN
  then show ?thesis
    by (auto simp: dispatch_def Let_def controller_scan_def scan_allowed_def bindE_def returnE_def answer_def service_def
        on_world_def replies scan_response_def split: prod.split sum.split)
next
  case CONNECT
  with assms obtain name where name: "req_ssid req = Some name" by auto
  show ?thesis
    using CONNECT connect_service [where name = name and p = "req_password req" and n = n and reason = "''station_connection_requested''"]
    by (auto simp: dispatch_def Let_def name bindE_def returnE_def answer_def service_def acceptance_def
        split: prod.splits sum.splits)
next
  case PROVISIONING
  show ?thesis
  proof (cases "net_mode n = PROVISIONING_AP")
    case True
    then show ?thesis using PROVISIONING
      by (simp add: dispatch_def Let_def request_provisioning_def snapshot_locked_def bindE_def returnE_def answer_def service_def
          acceptance_def current_def)
  next
    case False
    with PROVISIONING provisioning_service [OF False, where reason = "''provisioning_ap_requested''"] show ?thesis
      by (auto simp: dispatch_def Let_def bindE_def returnE_def answer_def service_def acceptance_def split: prod.splits sum.splits)
  qed
qed

lemma parsed_name: "parse_request v = Inr req \<Longrightarrow> req_action req = CONNECT \<longrightarrow> req_ssid req \<noteq> None"
  by (auto simp: parse_request_iff credentials_of_def)

lemma read_request_Inr:
  assumes "read_request stream_sock uid depth d = (Inr req, d')" "peer_is d u"
  shows "u = uid \<and> st_sent d' = st_sent d \<and> (req_action req = CONNECT \<longrightarrow> req_ssid req \<noteq> None)"
proof -
  have "peer_uid stream_sock d = (Inr u, d)"
    using assms(2) by (simp add: peer_uid_def peer_is_def stream_sock_def bindE_def returnE_def)
  with assms(1) have "u = uid" "\<exists>v. parse_request v = Inr req"
    by (auto simp: read_request_def bindE_def raiseE_def liftR_def split: if_splits sum.splits prod.splits)
  with parsed_name read_request_sent [OF assms(1)] show ?thesis by blast
qed

lemma serve_service:
  assumes "peer_is d u" "read_request stream_sock uid depth d = (Inr req, d1)" "raises_only is_exception (b_scan B)"
    and "run_thread (serve_connection stream_sock uid depth B) (d, n) = (r, d', n')"
  shows "u = uid \<and> r = Inr () \<and>
    st_sent d' = st_sent d @ json_dumps True (fst (service B req n)) \<and> n' = snd (service B req n)"
proof -
  obtain x m where x: "run_thread (dispatch B req) n = (x, m)" by fastforce
  note read = read_request_Inr [OF assms(2,1)]
  have "service B req n = (answer x, m)" using dispatch_service [of req B n] read by (simp add: x)
  moreover have "reply_outcome x" by (rule outcomes_run [OF dispatch_outcomes [OF assms(3)] x])
  ultimately show ?thesis
    using serve_run [OF assms(2) _ x] read assms(4) by fastforce
qed

section \<open>The size of a refusal\<close>

lemma error_reply_size: "utf8_length (json_dumps True (error_reply e)) \<le> MAX_RESPONSE_BYTES"
proof -
  have "\<forall>code \<in> set reviewed_codes. utf8_length code \<le> 64"
    unfolding reviewed_codes_def PUBLIC_PROTOCOL_ERROR_CODES_def PUBLIC_OPERATION_ERROR_CODES_def
    by (auto intro!: order_trans [OF utf8_length_lit])
  with error_reply_reviewed [of e] obtain code where code: "error_reply e = error_response_code code" "utf8_length code \<le> 64"
    by blast
  have "json_bound (error_response_code code) \<le> 65536"
    using code(2) utf8_length_lit [of "''api_version''"] utf8_length_lit [of "''ok''"] utf8_length_lit [of "''error''"]
      utf8_length_lit [of "''v1''"] by (simp add: error_response_code_def API_VERSION_def)
  then show ?thesis
    using json_dumps_length [of True "error_response_code code"] by (simp add: code(1) MAX_RESPONSE_BYTES_def)
qed

end
