(* ===== verification/Grow_Rootfs.thy ===== *)
theory Grow_Rootfs
  imports PyJson
begin

text \<open>
  The first-boot expansion of the root file system (\<^verbatim>\<open>scripts/rave_grow_rootfs.py\<close>): the analysis of the
  partition table, the checks of the geometry before and after growing, and the order of the
  commands up to the completion record. The commands, the file system calls and the resolution of paths
  are a parameter (\<open>machine\<close>), and so is what the interpreter knows about text (\<open>python\<close>):
  the \<^verbatim>\<open>repr\<close> of numbers with a fraction, lists and dictionaries, which of these numbers are zero, and
  which strings are digits for \<^verbatim>\<open>str.isdigit\<close>.
\<close>

section \<open>Constants\<close>

definition MAX_TRAILING_BYTES :: int where "MAX_TRAILING_BYTES = 16 * 1024 * 1024"
definition COMPLETION_PATH :: pstr where "COMPLETION_PATH = lit ''/var/lib/rave/storage/root-expanded-v1.json''"
definition FINDMNT :: pstr where "FINDMNT = lit ''/usr/bin/findmnt''"
definition LSBLK :: pstr where "LSBLK = lit ''/usr/bin/lsblk''"
definition GROWPART :: pstr where "GROWPART = lit ''/usr/bin/growpart''"
definition UDEVADM :: pstr where "UDEVADM = lit ''/usr/bin/udevadm''"
definition SFDISK :: pstr where "SFDISK = lit ''/usr/sbin/sfdisk''"
definition BLOCKDEV :: pstr where "BLOCKDEV = lit ''/usr/sbin/blockdev''"
definition BLKID :: pstr where "BLKID = lit ''/usr/sbin/blkid''"
definition RESIZE2FS :: pstr where "RESIZE2FS = lit ''/usr/sbin/resize2fs''"
definition DUMPE2FS :: pstr where "DUMPE2FS = lit ''/usr/sbin/dumpe2fs''"

text \<open>\<^verbatim>\<open>COMPLETION_PATH.parent\<close> and \<^verbatim>\<open>COMPLETION_PATH.with_suffix(".tmp")\<close>\<close>

definition completion_parent :: pstr where "completion_parent = lit ''/var/lib/rave/storage''"
definition completion_temporary :: pstr where
  "completion_temporary = lit ''/var/lib/rave/storage/root-expanded-v1.tmp''"

section \<open>Values read from JSON\<close>

record python = ucd +
  py_repr :: "json \<Rightarrow> pstr"
  py_nonzero :: "pstr \<Rightarrow> bool"
  py_isdigit :: "pstr \<Rightarrow> bool"

definition py_str :: "python \<Rightarrow> json \<Rightarrow> pstr" where
  "py_str Py v =
     (case v of
        JStr s \<Rightarrow> s
      | JNull \<Rightarrow> lit ''None''
      | JBool b \<Rightarrow> if b then lit ''True'' else lit ''False''
      | JInt i \<Rightarrow> py_str_int i
      | _ \<Rightarrow> py_repr Py v)"

definition py_bool :: "python \<Rightarrow> json \<Rightarrow> bool" where
  "py_bool Py v =
     (case v of
        JNull \<Rightarrow> False | JBool b \<Rightarrow> b | JInt i \<Rightarrow> i \<noteq> 0 | JFloat t \<Rightarrow> py_nonzero Py t
      | JStr s \<Rightarrow> s \<noteq> [] | JList vs \<Rightarrow> vs \<noteq> [] | JObj d \<Rightarrow> d \<noteq> [])"

text \<open>A Boolean is an integer, too; it is kept as it was read, since it prints differently.\<close>

definition int_value :: "json \<Rightarrow> int" where
  "int_value v = (case v of JInt i \<Rightarrow> i | JBool b \<Rightarrow> if b then 1 else 0 | _ \<Rightarrow> 0)"

definition is_integer :: "json \<Rightarrow> bool" where
  "is_integer v = (case v of JInt _ \<Rightarrow> True | JBool _ \<Rightarrow> True | _ \<Rightarrow> False)"

text \<open>\<^verbatim>\<open>document[key]\<close>, where the document may be no dictionary.\<close>

definition subscript :: "json \<Rightarrow> pstr \<Rightarrow> exn + json" where
  "subscript v k = (case v of JObj d \<Rightarrow> dict_item d k | _ \<Rightarrow> Inl (TypeError (lit ''indices must be integers'')))"

section \<open>The partition table\<close>

text \<open>The node, start, size, type and boot flag of a partition that must not change.\<close>

type_synonym partition_row = "pstr \<times> int \<times> int \<times> pstr \<times> bool"

record growth_plan =
  gp_disk :: pstr
  gp_root_partition :: pstr
  gp_sector_size :: int
  gp_start_sector :: json
  gp_partition_sectors :: int
  gp_end_sector :: int
  gp_final_usable_sector :: int
  gp_trailing_bytes :: int
  gp_unchanged_partitions :: "partition_row list"

definition needs_partition_growth :: "growth_plan \<Rightarrow> bool" where
  "needs_partition_growth plan \<longleftrightarrow> gp_trailing_bytes plan > MAX_TRAILING_BYTES"

definition require :: "bool \<Rightarrow> string \<Rightarrow> exn + unit" where
  "require condition message = guardR condition (ExpansionError (lit message))"

definition integer :: "json \<Rightarrow> string \<Rightarrow> exn + json" where
  "integer v name =
     bindR (require (is_integer v \<and> int_value v \<ge> 0) (''invalid '' @ name @ '' in partition table'')) (\<lambda>_. Inr v)"

record 'w machine =
  sh_run :: "pstr list \<Rightarrow> ('w, int \<times> pstr \<times> pstr) io"
  sh_resolve :: "bool \<Rightarrow> pstr \<Rightarrow> ('w, pstr) io"
  sh_unlink :: "pstr \<Rightarrow> ('w, unit) io"
  sh_mkdir :: "nat \<Rightarrow> pstr \<Rightarrow> ('w, unit) io"
  sh_open_write :: "pstr \<Rightarrow> ('w, nat) io"
  sh_write :: "nat \<Rightarrow> pstr \<Rightarrow> ('w, unit) io"
  sh_flush :: "nat \<Rightarrow> ('w, unit) io"
  sh_fsync :: "nat \<Rightarrow> ('w, unit) io"
  sh_close :: "nat \<Rightarrow> ('w, unit) io"
  sh_chmod :: "pstr \<Rightarrow> nat \<Rightarrow> ('w, unit) io"
  sh_replace :: "pstr \<Rightarrow> pstr \<Rightarrow> ('w, unit) io"
  sh_open_directory :: "pstr \<Rightarrow> ('w, nat) io"

text \<open>The table and its partitions. The text of the error that was caught is left out.\<close>

definition read_table :: "nat \<Rightarrow> pstr \<Rightarrow> exn + json \<times> json" where
  "read_table depth table_json =
     catchR
       (bindR (json_loads_text depth table_json) (\<lambda>document.
        bindR (subscript document (lit ''partitiontable'')) (\<lambda>table.
        bindR (subscript table (lit ''partitions'')) (\<lambda>partitions.
        Inr (table, partitions)))))
       (\<lambda>e. e = KeyError \<or> is_type_error e \<or> e = JSONDecodeError)
       (ExpansionError (lit ''invalid partition table JSON''))"

text \<open>One entry: the partition, its start and size as read, and its last sector.\<close>

type_synonym entry = "(pstr \<times> json) list \<times> json \<times> json \<times> int"

definition entry_end :: "entry \<Rightarrow> int" where
  "entry_end e = snd (snd (snd e))"

definition read_entry :: "json \<Rightarrow> exn + entry" where
  "read_entry item =
     (case item of
        JObj p \<Rightarrow>
          bindR (integer (dict_get p (lit ''start'')) ''partition start'') (\<lambda>start.
          bindR (integer (dict_get p (lit ''size'')) ''partition size'') (\<lambda>size.
          bindR (require (int_value size > 0) ''partition size is zero'') (\<lambda>_.
          Inr (p, start, size, int_value start + int_value size - 1))))
      | _ \<Rightarrow> Inl (ExpansionError (lit ''invalid partition entry'')))"

fun read_entries :: "json list \<Rightarrow> exn + entry list" where
  "read_entries [] = Inr []"
| "read_entries (p # ps) = bindR (read_entry p) (\<lambda>e. bindR (read_entries ps) (\<lambda>es. Inr (e # es)))"

definition entry_node :: "python \<Rightarrow> entry \<Rightarrow> pstr" where
  "entry_node Py e = py_str Py (dict_get (fst e) (lit ''node''))"

definition partition_row :: "python \<Rightarrow> entry \<Rightarrow> partition_row" where
  "partition_row Py e =
     (case e of (p, start, sectors, _) \<Rightarrow>
        (py_str Py (dict_get p (lit ''node'')), int_value start, int_value sectors,
         py_str Py (dict_get_or p (lit ''type'') (JStr [])),
         py_bool Py (dict_get_or p (lit ''bootable'') (JBool False))))"

text \<open>Which of the entries are the root partition, each path being resolved in turn.\<close>

fun root_flags :: "python \<Rightarrow> 'w machine \<Rightarrow> pstr \<Rightarrow> entry list \<Rightarrow> ('w, bool list) io" where
  "root_flags Py M normalized_root [] = returnE []"
| "root_flags Py M normalized_root (e # es) =
     bindE (sh_resolve M False (entry_node Py e)) (\<lambda>node.
     bindE (root_flags Py M normalized_root es) (\<lambda>flags.
     returnE ((node = normalized_root) # flags)))"

definition flagged :: "bool \<Rightarrow> bool list \<Rightarrow> entry list \<Rightarrow> entry list" where
  "flagged b flags es = map snd (filter (\<lambda>(flag, _). flag = b) (zip flags es))"

text \<open>The checks up to the first resolution of a path.\<close>

definition check_table :: "nat \<Rightarrow> pstr \<Rightarrow> int \<Rightarrow> exn + (pstr \<times> json) list \<times> json list \<times> int" where
  "check_table depth table_json device_bytes =
     bindR (read_table depth table_json) (\<lambda>(table, partitions).
     (case table of
        JObj t \<Rightarrow>
          bindR (require (dict_get t (lit ''label'') = JStr (lit ''dos''))
                   ''boot device must use the expected MBR partition table'') (\<lambda>_.
          bindR (require (dict_get t (lit ''unit'') = JStr (lit ''sectors''))
                   ''partition table must report sector units'') (\<lambda>_.
          (case partitions of
             JList ps \<Rightarrow>
               bindR (require (length ps = 2)
                        ''ROOT must be the final partition in an exact BOOT/ROOT layout'') (\<lambda>_.
               bindR (integer (dict_get t (lit ''sectorsize'')) ''sector size'') (\<lambda>size.
               bindR (require (int_value size > 0) ''partition-table sector size is zero'') (\<lambda>_.
               bindR (require (device_bytes \<ge> int_value size) ''boot device size is invalid'') (\<lambda>_.
               Inr (t, ps, int_value size)))))
           | _ \<Rightarrow> Inl (ExpansionError
                    (lit ''ROOT must be the final partition in an exact BOOT/ROOT layout'')))))
      | _ \<Rightarrow> Inl (ExpansionError (lit ''invalid partition table''))))"

text \<open>What follows once it is known which entries are the root partition.\<close>

definition plan_growth ::
  "python \<Rightarrow> (pstr \<times> json) list \<Rightarrow> int \<Rightarrow> int \<Rightarrow> entry list \<Rightarrow> bool list \<Rightarrow> exn + growth_plan" where
  "plan_growth Py table sector_size device_bytes entries flags =
     (case flagged True flags entries of
        [(root, start_sector, partition_sectors, end_sector)] \<Rightarrow>
          bindR (require (end_sector = Max (set (map entry_end entries))) ''ROOT must be the final partition'') (\<lambda>_.
          let final_usable_sector = device_bytes div sector_size - 1 in
          bindR (require (end_sector \<le> final_usable_sector)
                   ''ROOT extends beyond the physical boot device'') (\<lambda>_.
          Inr \<lparr>gp_disk = py_str Py (dict_get table (lit ''device'')),
               gp_root_partition = py_str Py (dict_get root (lit ''node'')),
               gp_sector_size = sector_size,
               gp_start_sector = start_sector,
               gp_partition_sectors = int_value partition_sectors,
               gp_end_sector = end_sector,
               gp_final_usable_sector = final_usable_sector,
               gp_trailing_bytes = (final_usable_sector - end_sector) * sector_size,
               gp_unchanged_partitions = map (partition_row Py) (flagged False flags entries)\<rparr>))
      | _ \<Rightarrow> Inl (ExpansionError (lit ''ROOT partition is not uniquely present in the partition table'')))"

definition analyze_partition_table ::
  "python \<Rightarrow> 'w machine \<Rightarrow> nat \<Rightarrow> pstr \<Rightarrow> pstr \<Rightarrow> int \<Rightarrow> ('w, growth_plan) io" where
  "analyze_partition_table Py M depth table_json root_partition device_bytes =
     bindE (liftR (check_table depth table_json device_bytes)) (\<lambda>(table, partitions, sector_size).
     bindE (sh_resolve M False root_partition) (\<lambda>normalized_root.
     bindE (liftR (read_entries partitions)) (\<lambda>entries.
     bindE (root_flags Py M normalized_root entries) (\<lambda>flags.
     liftR (plan_growth Py table sector_size device_bytes entries flags)))))"

definition verify_expanded_geometry :: "growth_plan \<Rightarrow> growth_plan \<Rightarrow> exn + unit" where
  "verify_expanded_geometry before after =
     bindR (require (gp_disk after = gp_disk before) ''boot device changed during ROOT expansion'') (\<lambda>_.
     bindR (require (gp_root_partition after = gp_root_partition before)
              ''ROOT partition changed during expansion'') (\<lambda>_.
     bindR (require (int_value (gp_start_sector after) = int_value (gp_start_sector before))
              ''ROOT partition start sector changed'') (\<lambda>_.
     bindR (require (gp_end_sector after \<ge> gp_end_sector before) ''ROOT partition became smaller'') (\<lambda>_.
     bindR (require (gp_final_usable_sector after = gp_final_usable_sector before)
              ''boot device geometry changed'') (\<lambda>_.
     bindR (require (gp_unchanged_partitions after = gp_unchanged_partitions before)
              ''BOOT partition changed'') (\<lambda>_.
     require (gp_trailing_bytes after \<le> MAX_TRAILING_BYTES)
       ''multi-gigabyte trailing capacity remains after ROOT expansion''))))))"

definition verify_filesystem_size :: "int \<Rightarrow> int \<Rightarrow> exn + unit" where
  "verify_filesystem_size partition_bytes filesystem_bytes =
     bindR (require (filesystem_bytes \<le> partition_bytes) ''ext4 filesystem exceeds ROOT partition'') (\<lambda>_.
     require (partition_bytes - filesystem_bytes \<le> MAX_TRAILING_BYTES)
       ''ext4 filesystem does not fill the expanded ROOT partition'')"

section \<open>Commands\<close>

definition command :: "'w machine \<Rightarrow> pstr list \<Rightarrow> ('w, pstr) io" where
  "command M arguments =
     bindE (sh_run M arguments) (\<lambda>(rc, out, err).
     if rc \<noteq> 0 then
       (let detail = (if py_strip err \<noteq> [] then py_strip err
                      else if py_strip out \<noteq> [] then py_strip out
                      else lit ''exit '' @ py_str_int rc)
        in raiseE (ExpansionError (lit ''command failed: '' @ hd arguments @ lit '': '' @ detail)))
     else returnE (py_strip out))"

text \<open>
  \<^verbatim>\<open>re.search(r"^Name:\s+([0-9]+)$", output, re.MULTILINE)\<close>: at the start of a line, the name,
  all the white space that follows, and all the digits, which must end the line. Giving back
  some of the white space or of the digits can never make the rest match.
\<close>

definition match_field :: "pstr \<Rightarrow> pstr \<Rightarrow> pstr option" where
  "match_field name s =
     (let t = drop (length name) s;
          u = dropWhile py_isspace t;
          digits = takeWhile is_digit u;
          r = dropWhile is_digit u
      in if take (length name) s = name \<and> t \<noteq> [] \<and> py_isspace (hd t) \<and> digits \<noteq> [] \<and>
            (r = [] \<or> hd r = 10)
         then Some digits else None)"

fun search_field :: "pstr \<Rightarrow> bool \<Rightarrow> pstr \<Rightarrow> pstr option" where
  "search_field name line_start [] = None"
| "search_field name line_start (c # cs) =
     (case (if line_start then match_field name (c # cs) else None) of
        Some digits \<Rightarrow> Some digits
      | None \<Rightarrow> search_field name (c = 10) cs)"

definition filesystem_size_bytes :: "python \<Rightarrow> 'w machine \<Rightarrow> pstr \<Rightarrow> ('w, int) io" where
  "filesystem_size_bytes Py M root_partition =
     bindE (command M [DUMPE2FS, lit ''-h'', root_partition]) (\<lambda>out.
     case (search_field (lit ''Block count:'') True out, search_field (lit ''Block size:'') True out) of
       (Some block_count, Some block_size) \<Rightarrow>
         liftR (bindR (py_int Py 10 block_count) (\<lambda>n. bindR (py_int Py 10 block_size) (\<lambda>k. Inr (n * k))))
     | _ \<Rightarrow> raiseE (ExpansionError (lit ''cannot read ext4 filesystem size'')))"

definition assert_root_identity :: "'w machine \<Rightarrow> pstr \<Rightarrow> ('w, unit) io" where
  "assert_root_identity M root_partition =
     bindE (sh_resolve M True (lit ''/dev/disk/by-slot/system'')) (\<lambda>alias.
     bindE (liftR (require (alias = root_partition)
                     ''/dev/disk/by-slot/system does not resolve to mounted ROOT'')) (\<lambda>_.
     bindE (command M [FINDMNT, lit ''-n'', lit ''-o'', lit ''FSTYPE'', lit ''/'']) (\<lambda>fstype.
     bindE (liftR (require (fstype = lit ''ext4'') ''ROOT filesystem is not ext4'')) (\<lambda>_.
     bindE (command M [BLKID, lit ''-s'', lit ''LABEL'', lit ''-o'', lit ''value'', root_partition]) (\<lambda>label.
     liftR (require (label = lit ''ROOT'') ''ROOT label changed''))))))"

definition assert_boot_identity :: "'w machine \<Rightarrow> growth_plan \<Rightarrow> ('w, unit) io" where
  "assert_boot_identity M plan =
     (case gp_unchanged_partitions plan of
        [(node, _)] \<Rightarrow>
          bindE (sh_resolve M True (lit ''/dev/disk/by-slot/boot'')) (\<lambda>boot_partition.
          bindE (sh_resolve M True node) (\<lambda>expected_partition.
          bindE (liftR (require (boot_partition = expected_partition)
                          ''/dev/disk/by-slot/boot does not resolve to BOOT'')) (\<lambda>_.
          bindE (command M [BLKID, lit ''-s'', lit ''LABEL'', lit ''-o'', lit ''value'', boot_partition]) (\<lambda>label.
          liftR (require (label = lit ''BOOT'') ''BOOT label changed'')))))
      | _ \<Rightarrow> raiseE (ExpansionError (lit ''BOOT partition is not unique'')))"

section \<open>The completion record\<close>

text \<open>\<^verbatim>\<open>json.dump(record, output, indent=2, sort_keys=True)\<close> of an object of strings and numbers.\<close>

definition dump_indented :: "(pstr \<times> json) list \<Rightarrow> pstr" where
  "dump_indented d =
     (if d = [] then lit ''{}''
      else 123 # commas (map (\<lambda>(k, v). 10 # 32 # 32 # dump_string True k @ 58 # 32 # json_dumps True v) d) @ [10, 125])"

definition completion_record :: "growth_plan \<Rightarrow> int \<Rightarrow> (pstr \<times> json) list" where
  "completion_record plan filesystem_bytes =
     [(lit ''disk'', JStr (gp_disk plan)),
      (lit ''filesystem_bytes'', JInt filesystem_bytes),
      (lit ''final_usable_sector'', JInt (gp_final_usable_sector plan)),
      (lit ''root_end_sector'', JInt (gp_end_sector plan)),
      (lit ''root_partition'', JStr (gp_root_partition plan)),
      (lit ''root_start_sector'', gp_start_sector plan),
      (lit ''status'', JStr (lit ''complete'')),
      (lit ''trailing_bytes'', JInt (gp_trailing_bytes plan))]"

definition write_completion :: "'w machine \<Rightarrow> growth_plan \<Rightarrow> int \<Rightarrow> ('w, unit) io" where
  "write_completion M plan filesystem_bytes =
     bindE (sh_mkdir M 488 completion_parent) (\<lambda>_.
     bindE (bindE (sh_open_write M completion_temporary) (\<lambda>out.
              finallyE
                (bindE (sh_write M out (dump_indented (completion_record plan filesystem_bytes))) (\<lambda>_.
                 bindE (sh_write M out [10]) (\<lambda>_.
                 bindE (sh_flush M out) (\<lambda>_.
                 sh_fsync M out))))
                (sh_close M out))) (\<lambda>_.
     bindE (sh_chmod M completion_temporary 416) (\<lambda>_.
     bindE (sh_replace M completion_temporary COMPLETION_PATH) (\<lambda>_.
     bindE (sh_open_directory M completion_parent) (\<lambda>directory_fd.
     finallyE (sh_fsync M directory_fd) (sh_close M directory_fd))))))"

section \<open>The expansion\<close>

text \<open>
  \<^verbatim>\<open>str(Path("/dev") / parent_name)\<close> of a name without a slash that is not empty.
\<close>

definition dev_path :: "pstr \<Rightarrow> pstr" where
  "dev_path name = (if name = lit ''.'' then lit ''/dev'' else lit ''/dev/'' @ name)"

definition parent_known :: "pstr \<Rightarrow> bool" where
  "parent_known name \<longleftrightarrow> name \<noteq> [] \<and> 47 \<notin> set name"

text \<open>The disk and the number of the root partition on it.\<close>

definition find_disk :: "python \<Rightarrow> 'w machine \<Rightarrow> pstr \<Rightarrow> ('w, pstr \<times> pstr) io" where
  "find_disk Py M root_partition =
     bindE (command M [LSBLK, lit ''-dn'', lit ''-o'', lit ''PKNAME'', root_partition]) (\<lambda>parent_name.
     bindE (command M [LSBLK, lit ''-dn'', lit ''-o'', lit ''PARTN'', root_partition]) (\<lambda>partition_number.
     bindE (liftR (require (parent_known parent_name) ''cannot identify physical ROOT parent device'')) (\<lambda>_.
     bindE (liftR (require (py_isdigit Py partition_number) ''cannot identify ROOT partition number'')) (\<lambda>_.
     bindE (liftR (require (partition_number = lit ''2'')
                     ''ROOT must be partition 2 in the BOOT/ROOT layout'')) (\<lambda>_.
     returnE (dev_path parent_name, partition_number))))))"

text \<open>The table of the disk, now.\<close>

definition read_plan :: "python \<Rightarrow> 'w machine \<Rightarrow> nat \<Rightarrow> pstr \<Rightarrow> pstr \<Rightarrow> int \<Rightarrow> ('w, growth_plan) io" where
  "read_plan Py M depth disk root_partition device_bytes =
     bindE (command M [SFDISK, lit ''--json'', disk]) (\<lambda>table.
     analyze_partition_table Py M depth table root_partition device_bytes)"

definition same_device :: "'w machine \<Rightarrow> growth_plan \<Rightarrow> pstr \<Rightarrow> ('w, unit) io" where
  "same_device M before disk =
     bindE (sh_resolve M True (gp_disk before)) (\<lambda>named.
     bindE (sh_resolve M True disk) (\<lambda>expected.
     liftR (require (named = expected) ''partition table is not for the ROOT boot device'')))"

definition grow_partition :: "'w machine \<Rightarrow> growth_plan \<Rightarrow> pstr \<Rightarrow> pstr \<Rightarrow> ('w, unit) io" where
  "grow_partition M before disk partition_number =
     (if needs_partition_growth before
      then bindE (command M [GROWPART, disk, partition_number]) (\<lambda>_.
           bindE (command M [UDEVADM, lit ''settle'']) (\<lambda>_. returnE ()))
      else returnE ())"

text \<open>What follows the second reading of the table.\<close>

definition grow_filesystem :: "python \<Rightarrow> 'w machine \<Rightarrow> growth_plan \<Rightarrow> pstr \<Rightarrow> ('w, unit) io" where
  "grow_filesystem Py M after root_partition =
     bindE (command M [RESIZE2FS, root_partition]) (\<lambda>_.
     bindE (assert_root_identity M root_partition) (\<lambda>_.
     bindE (assert_boot_identity M after) (\<lambda>_.
     bindE (filesystem_size_bytes Py M root_partition) (\<lambda>filesystem_bytes.
     bindE (liftR (verify_filesystem_size (gp_partition_sectors after * gp_sector_size after) filesystem_bytes)) (\<lambda>_.
     write_completion M after filesystem_bytes)))))"

definition expand_root :: "python \<Rightarrow> 'w machine \<Rightarrow> nat \<Rightarrow> ('w, unit) io" where
  "expand_root Py M depth =
     bindE (sh_unlink M COMPLETION_PATH) (\<lambda>_.
     bindE (command M [FINDMNT, lit ''-n'', lit ''-o'', lit ''SOURCE'', lit ''/'']) (\<lambda>source.
     bindE (sh_resolve M True source) (\<lambda>root_partition.
     bindE (assert_root_identity M root_partition) (\<lambda>_.
     bindE (find_disk Py M root_partition) (\<lambda>(disk, partition_number).
     bindE (command M [BLOCKDEV, lit ''--getsize64'', disk]) (\<lambda>size.
     bindE (liftR (py_int Py 10 size)) (\<lambda>device_bytes.
     bindE (read_plan Py M depth disk root_partition device_bytes) (\<lambda>before.
     bindE (same_device M before disk) (\<lambda>_.
     bindE (assert_boot_identity M before) (\<lambda>_.
     bindE (grow_partition M before disk partition_number) (\<lambda>_.
     bindE (read_plan Py M depth disk root_partition device_bytes) (\<lambda>after.
     bindE (liftR (verify_expanded_geometry before after)) (\<lambda>_.
     bindE (assert_root_identity M root_partition) (\<lambda>_.
     bindE (assert_boot_identity M after) (\<lambda>_.
     grow_filesystem Py M after root_partition)))))))))))))))"

definition grow_main :: "python \<Rightarrow> 'w machine \<Rightarrow> nat \<Rightarrow> ('w, int) io" where
  "grow_main Py M depth =
     catchE (bindE (expand_root Py M depth) (\<lambda>_. returnE 0))
       (\<lambda>e. (case e of ExpansionError _ \<Rightarrow> True | _ \<Rightarrow> is_os_error e \<or> is_value_error e)) (\<lambda>_. returnE 1)"

end
