(* ===== verification/Grow_Facts.thy ===== *)
theory Grow_Facts
  imports Grow_Rootfs "HOL-Library.Sublist"
begin

text \<open>
  What the root expansion guarantees: the geometry of a plan that was accepted, and, over a machine
  that records what is done to it, the order of the operations that change the disk.
\<close>

section \<open>The plan\<close>

lemma require_Inr_iff [simp]: "require b m = Inr u \<longleftrightarrow> b"
  by (simp add: require_def)

lemma bind_require [simp]: "bindR (require b m) f = (if b then f () else Inl (ExpansionError (lit m)))"
  by (simp add: require_def)

lemma integer_Inr_iff [simp]: "integer v m = Inr x \<longleftrightarrow> is_integer v \<and> int_value v \<ge> 0 \<and> x = v"
  by (auto simp: integer_def)

text \<open>An entry that was read starts on the disk and has a last sector.\<close>

definition entry_ok :: "entry \<Rightarrow> bool" where
  "entry_ok e = (case e of (p, start, sectors, last_sector) \<Rightarrow>
     0 \<le> int_value start \<and> 0 < int_value sectors \<and> last_sector = int_value start + int_value sectors - 1)"

lemma read_entries_ok: "read_entries ps = Inr es \<Longrightarrow> length es = length ps \<and> (\<forall>e \<in> set es. entry_ok e)"
proof (induction ps arbitrary: es)
  case (Cons p ps)
  then obtain e es' where e: "read_entry p = Inr e" "read_entries ps = Inr es'" "es = e # es'"
    by (auto simp: bindR_Inr_iff)
  from e(1) have "entry_ok e"
    by (auto simp: read_entry_def entry_ok_def bindR_Inr_iff split: json.splits if_splits)
  with e Cons.IH [OF e(2)] show ?case by simp
qed simp

lemma root_flags_length: "root_flags Py M r es w = (Inr flags, w') \<Longrightarrow> length flags = length es"
  by (induction es arbitrary: flags w w') (auto simp: returnE_def bindE_Inr_iff)

lemma set_flagged: "set (flagged b flags es) \<subseteq> set es"
  by (auto simp: flagged_def dest: set_zip_rightD)

lemma length_flagged:
  "length flags = length es \<Longrightarrow> length (flagged True flags es) + length (flagged False flags es) = length es"
proof (induction flags es rule: list_induct2)
  case (Cons f flags e es)
  then show ?case by (cases f) (simp_all add: flagged_def)
qed (simp add: flagged_def)

text \<open>
  The geometry of a plan: the root partition is one of two, lies on the disk, ends last, and
  what follows it on the disk is counted in whole sectors.
\<close>

definition plan_ok :: "int \<Rightarrow> growth_plan \<Rightarrow> bool" where
  "plan_ok device_bytes plan \<longleftrightarrow>
     0 < gp_sector_size plan \<and> 0 \<le> int_value (gp_start_sector plan) \<and> 0 < gp_partition_sectors plan \<and>
     gp_end_sector plan = int_value (gp_start_sector plan) + gp_partition_sectors plan - 1 \<and>
     (gp_end_sector plan + 1) * gp_sector_size plan + gp_trailing_bytes plan \<le> device_bytes \<and>
     device_bytes < (gp_end_sector plan + 2) * gp_sector_size plan + gp_trailing_bytes plan \<and>
     0 \<le> gp_trailing_bytes plan \<and> gp_sector_size plan dvd gp_trailing_bytes plan \<and>
     (\<exists>node start sectors kind bootable. gp_unchanged_partitions plan = [(node, start, sectors, kind, bootable)] \<and>
        0 \<le> start \<and> 0 < sectors \<and> start + sectors - 1 \<le> gp_end_sector plan)"

lemma whole_sectors:
  assumes "0 < (s :: int)"
  shows "n div s * s \<le> n \<and> n < (n div s + 1) * s"
proof -
  define q where "q = n div s * s"
  have "q + n mod s = n" "0 \<le> n mod s" "n mod s < s"
    using assms by (simp_all add: q_def)
  then have "q \<le> n \<and> n < q + s" by linarith
  then show ?thesis by (simp add: q_def algebra_simps)
qed

lemma plan_growth_ok:
  assumes "plan_growth Py t ss device_bytes es flags = Inr plan"
    and "\<forall>e \<in> set es. entry_ok e" "length es = 2" "length flags = length es" "0 < ss"
  shows "plan_ok device_bytes plan"
proof -
  from assms(1) obtain p start sectors last_sector where
    root: "flagged True flags es = [(p, start, sectors, last_sector)]"
    by (auto simp: plan_growth_def split: list.splits prod.splits)
  then have ok: "entry_ok (p, start, sectors, last_sector)"
    using set_flagged [of True flags es] assms(2) by auto
  let ?final = "device_bytes div ss - 1"
  from assms(1) have plan: "last_sector = Max (set (map entry_end es))" "last_sector \<le> ?final"
    "plan = \<lparr>gp_disk = py_str Py (dict_get t (lit ''device'')), gp_root_partition = py_str Py (dict_get p (lit ''node'')),
       gp_sector_size = ss, gp_start_sector = start, gp_partition_sectors = int_value sectors,
       gp_end_sector = last_sector, gp_final_usable_sector = ?final,
       gp_trailing_bytes = (?final - last_sector) * ss,
       gp_unchanged_partitions = map (partition_row Py) (flagged False flags es)\<rparr>"
    by (simp_all add: plan_growth_def root Let_def split: if_splits)
  have "length (flagged False flags es) = 1"
    using length_flagged [OF assms(4)] assms(3) root by simp
  then obtain q where q: "flagged False flags es = [q]" by (auto simp: length_Suc_conv)
  then have "q \<in> set es" using set_flagged [of False flags es] by simp
  then have "entry_ok q" "entry_end q \<le> last_sector"
    using assms(2) plan(1) by auto
  moreover obtain qp qs qn ql where "q = (qp, qs, qn, ql)" by (metis prod.collapse)
  ultimately have unchanged: "\<exists>node start sectors kind bootable.
      gp_unchanged_partitions plan = [(node, start, sectors, kind, bootable)] \<and>
        0 \<le> start \<and> 0 < sectors \<and> start + sectors - 1 \<le> gp_end_sector plan"
    by (simp add: plan(3) q partition_row_def entry_ok_def entry_end_def)
  have "device_bytes div ss * ss \<le> device_bytes" "device_bytes < (device_bytes div ss + 1) * ss"
    using assms(5) whole_sectors by blast+
  moreover have "(last_sector + 1) * ss + (?final - last_sector) * ss = device_bytes div ss * ss"
    "(last_sector + 2) * ss + (?final - last_sector) * ss = (device_bytes div ss + 1) * ss"
    by (simp_all add: algebra_simps)
  ultimately have "(last_sector + 1) * ss + (?final - last_sector) * ss \<le> device_bytes"
    "device_bytes < (last_sector + 2) * ss + (?final - last_sector) * ss"
    by simp_all
  then show ?thesis
    using ok plan(2) assms(5) unchanged unfolding plan_ok_def plan(3) entry_ok_def by simp
qed

lemma check_table_Inr:
  assumes "check_table depth text device_bytes = Inr (t, ps, ss)"
  shows "length ps = 2 \<and> 0 < ss \<and> ss \<le> device_bytes"
proof -
  from assms obtain table partitions where read: "read_table depth text = Inr (table, partitions)"
    by (cases "read_table depth text") (auto simp: check_table_def)
  show ?thesis
    using assms
    by (auto simp: check_table_def read bindR_Inr_iff split: json.splits if_splits)
qed

lemma analyze_ok:
  assumes "analyze_partition_table Py M depth text root device_bytes w = (Inr plan, w')"
  shows "plan_ok device_bytes plan"
proof -
  from assms obtain t ps ss r es flags w1 w2 where
    run: "check_table depth text device_bytes = Inr (t, ps, ss)" "read_entries ps = Inr es"
      "root_flags Py M r es w1 = (Inr flags, w2)" "plan_growth Py t ss device_bytes es flags = Inr plan"
    by (fastforce simp: analyze_partition_table_def bindE_Inr_iff liftR_def)
  show ?thesis
    using plan_growth_ok [OF run(4)] check_table_Inr [OF run(1)] read_entries_ok [OF run(2)]
      root_flags_length [OF run(3)] by simp
qed

section \<open>A machine that records what is done to it\<close>

datatype event =
    Ran "pstr list"
  | Unlinked pstr
  | Wrote nat pstr
  | Replaced pstr pstr
  | Prepared

definition logged :: "event \<Rightarrow> ('w, 'a) io \<Rightarrow> ('w \<times> event list, 'a) io" where
  "logged e m s = (case m (fst s) of (r, w) \<Rightarrow> (r, (w, snd s @ [e])))"

definition recording :: "'w machine \<Rightarrow> ('w \<times> event list) machine" where
  "recording M =
     \<lparr>sh_run = (\<lambda>c. logged (Ran c) (sh_run M c)),
      sh_resolve = (\<lambda>strict p s. case sh_resolve M strict p (fst s) of (r, w) \<Rightarrow> (r, (w, snd s))),
      sh_unlink = (\<lambda>p. logged (Unlinked p) (sh_unlink M p)),
      sh_mkdir = (\<lambda>mode p. logged Prepared (sh_mkdir M mode p)),
      sh_open_write = (\<lambda>p. logged Prepared (sh_open_write M p)),
      sh_write = (\<lambda>d t. logged (Wrote d t) (sh_write M d t)),
      sh_flush = (\<lambda>d. logged Prepared (sh_flush M d)),
      sh_fsync = (\<lambda>d. logged Prepared (sh_fsync M d)),
      sh_close = (\<lambda>d. logged Prepared (sh_close M d)),
      sh_chmod = (\<lambda>p mode. logged Prepared (sh_chmod M p mode)),
      sh_replace = (\<lambda>p q. logged (Replaced p q) (sh_replace M p q)),
      sh_open_directory = (\<lambda>p. logged Prepared (sh_open_directory M p))\<rparr>"

text \<open>The events that change the disk or the completion record.\<close>

definition changing :: "event \<Rightarrow> bool" where
  "changing e =
     (case e of
        Ran c \<Rightarrow> c \<noteq> [] \<and> (hd c = GROWPART \<or> hd c = RESIZE2FS)
      | Unlinked _ \<Rightarrow> True
      | Replaced _ _ \<Rightarrow> True
      | _ \<Rightarrow> False)"

definition changed :: "event list \<Rightarrow> 'w \<times> event list \<Rightarrow> bool" where
  "changed cs s \<longleftrightarrow> filter changing (snd s) = cs"

lemma changed_logged:
  "\<not> changing e \<Longrightarrow> keeps (changed cs) (logged e m)"
  by (auto simp: keeps_def changed_def logged_def split: prod.splits)

lemma changing_simps [simp]:
  "changing (Unlinked p)" "changing (Replaced p q)" "\<not> changing (Wrote d t)" "\<not> changing Prepared"
  "changing (Ran (c # cs)) \<longleftrightarrow> c = GROWPART \<or> c = RESIZE2FS"
  by (simp_all add: changing_def)

lemma programs_differ [simp]:
  "FINDMNT \<noteq> GROWPART" "LSBLK \<noteq> GROWPART" "UDEVADM \<noteq> GROWPART" "SFDISK \<noteq> GROWPART" "BLOCKDEV \<noteq> GROWPART"
  "BLKID \<noteq> GROWPART" "DUMPE2FS \<noteq> GROWPART" "FINDMNT \<noteq> RESIZE2FS" "LSBLK \<noteq> RESIZE2FS" "UDEVADM \<noteq> RESIZE2FS"
  "SFDISK \<noteq> RESIZE2FS" "BLOCKDEV \<noteq> RESIZE2FS" "BLKID \<noteq> RESIZE2FS" "DUMPE2FS \<noteq> RESIZE2FS"
  "RESIZE2FS \<noteq> GROWPART" "GROWPART \<noteq> RESIZE2FS"
  by (simp_all add: FINDMNT_def LSBLK_def UDEVADM_def SFDISK_def BLOCKDEV_def BLKID_def DUMPE2FS_def
      GROWPART_def RESIZE2FS_def)

lemma recording_keeps [keeps_rules]:
  "keeps (changed cs) (sh_resolve (recording M) strict p)"
  "keeps (changed cs) (sh_mkdir (recording M) mode p)"
  "keeps (changed cs) (sh_open_write (recording M) p)"
  "keeps (changed cs) (sh_write (recording M) d t)"
  "keeps (changed cs) (sh_flush (recording M) d)"
  "keeps (changed cs) (sh_fsync (recording M) d)"
  "keeps (changed cs) (sh_close (recording M) d)"
  "keeps (changed cs) (sh_chmod (recording M) p mode)"
  "keeps (changed cs) (sh_open_directory (recording M) p)"
  by (simp_all add: recording_def changed_logged)
    (auto simp: keeps_def changed_def split: prod.splits)

lemma command_keeps [keeps_rules]:
  assumes "c \<noteq> GROWPART" "c \<noteq> RESIZE2FS"
  shows "keeps (changed cs) (command (recording M) (c # args))"
proof -
  have "keeps (changed cs) (sh_run (recording M) (c # args))"
    using assms by (simp add: recording_def changed_logged)
  then show ?thesis
    unfolding command_def Let_def by (intro keeps_rules)
qed

lemma readers_keep [keeps_rules]:
  "keeps (changed cs) (assert_root_identity (recording M) root)"
  "keeps (changed cs) (find_disk Py (recording M) root)"
  "keeps (changed cs) (same_device (recording M) plan disk)"
  "keeps (changed cs) (filesystem_size_bytes Py (recording M) root)"
  unfolding assert_root_identity_def find_disk_def same_device_def filesystem_size_bytes_def
  by (intro keeps_rules programs_differ)+

lemma boot_identity_keeps [keeps_rules]: "keeps (changed cs) (assert_boot_identity (recording M) plan)"
proof -
  have rows: "keeps (changed cs) (case rows of [(node, _)] \<Rightarrow> f node | _ \<Rightarrow> raiseE e)"
    if "\<And>node. keeps (changed cs) (f node)" for rows :: "partition_row list" and f :: "_ \<Rightarrow> (_, unit) io" and e
    using that by (auto split: list.splits intro: keeps_raise)
  then show ?thesis
    unfolding assert_boot_identity_def by (intro rows keeps_rules programs_differ)
qed

lemma root_flags_keeps [keeps_rules]: "keeps (changed cs) (root_flags Py (recording M) r es)"
  by (induction es) (simp_all add: keeps_rules)

lemma read_plan_keeps [keeps_rules]: "keeps (changed cs) (read_plan Py (recording M) depth disk root n)"
  unfolding read_plan_def analyze_partition_table_def by (intro keeps_rules programs_differ)

section \<open>The order of what is done\<close>

lemma stage_bind:
  assumes "keeps (changed cs) m" "returns_only F m" "\<And>x. F x \<Longrightarrow> hoare (changed cs) (f x) Q E"
    and "\<And>s. changed cs s \<Longrightarrow> E s"
  shows "hoare (changed cs) (bindE m f) Q E"
proof (rule hoare_bind [where Q = "\<lambda>x s. changed cs s \<and> F x"])
  show "hoare (changed cs) m (\<lambda>x s. changed cs s \<and> F x) E"
    by (rule hoareI) (auto intro: assms(4) dest: keepsD [OF assms(1)] returns_onlyD [OF assms(2)])
  show "hoare (\<lambda>s. changed cs s \<and> F x) (f x) Q E" for x
    using assms(3) [of x] by (cases "F x") (auto intro: hoare_empty)
qed

lemmas stage_read = stage_bind [OF _ returns_any]

lemma stage_step:
  assumes "\<And>s r s'. changed cs s \<Longrightarrow> m s = (r, s') \<Longrightarrow> changed (cs @ [e]) s'"
    and "\<And>x. hoare (changed (cs @ [e])) (f x) Q E" "\<And>s. changed (cs @ [e]) s \<Longrightarrow> E s"
  shows "hoare (changed cs) (bindE m f) Q E"
  by (rule hoare_bind [where Q = "\<lambda>_. changed (cs @ [e])"])
    (use assms in \<open>auto intro: hoareI\<close>)

lemma command_changes:
  assumes "changing (Ran c)" "changed cs s" "command (recording M) c s = (r, s')"
  shows "changed (cs @ [Ran c]) s'"
  using assms by (auto simp: command_def bindE_def recording_def logged_def changed_def returnE_def raiseE_def
      Let_def split: prod.splits sum.splits if_splits)

text \<open>
  What may have been done, in this order: the old record is removed, the partition grown, the
  file system resized, the new record put in place.
\<close>

definition record_event :: event where
  "record_event = Replaced completion_temporary COMPLETION_PATH"

definition growth_steps :: "pstr \<Rightarrow> bool \<Rightarrow> pstr \<Rightarrow> event list" where
  "growth_steps disk grows root =
     Unlinked COMPLETION_PATH # (if grows then [Ran [GROWPART, disk, lit ''2'']] else []) @
     [Ran [RESIZE2FS, root], record_event]"

text \<open>The record was written of a plan that fills the disk and a file system that fills the plan.\<close>

definition complete_record :: "event list \<Rightarrow> bool" where
  "complete_record log \<longleftrightarrow>
     (\<exists>d device_bytes plan filesystem_bytes.
        Wrote d (dump_indented (completion_record plan filesystem_bytes)) \<in> set log \<and>
        plan_ok device_bytes plan \<and> gp_trailing_bytes plan \<le> MAX_TRAILING_BYTES \<and>
        filesystem_bytes \<le> gp_partition_sectors plan * gp_sector_size plan \<and>
        gp_partition_sectors plan * gp_sector_size plan - filesystem_bytes \<le> MAX_TRAILING_BYTES)"

definition orderly :: "'w \<times> event list \<Rightarrow> bool" where
  "orderly s \<longleftrightarrow>
     (\<exists>disk grows root. prefix (filter changing (snd s)) (growth_steps disk grows root)) \<and>
     (record_event \<in> set (snd s) \<longrightarrow> complete_record (snd s))"

lemma orderly_changed:
  assumes "changed cs s" "prefix cs (growth_steps disk grows root)" "record_event \<notin> set cs"
  shows "orderly s"
proof -
  have "record_event \<notin> set (snd s)"
    using assms(1,3) by (auto simp: changed_def record_event_def)
  then show ?thesis using assms by (auto simp: orderly_def changed_def)
qed

definition wrote :: "pstr \<Rightarrow> 'w \<times> event list \<Rightarrow> bool" where
  "wrote t s \<longleftrightarrow> (\<exists>d. Wrote d t \<in> set (snd s))"

text \<open>Everything after the text was written.\<close>

definition written :: "event list \<Rightarrow> pstr \<Rightarrow> 'w \<times> event list \<Rightarrow> bool" where
  "written cs t s \<longleftrightarrow> changed cs s \<and> wrote t s"

lemma written_logged: "\<not> changing e \<Longrightarrow> keeps (written cs t) (logged e m)"
  by (auto simp: keeps_def written_def wrote_def changed_def logged_def split: prod.splits)

lemma recording_keeps_written [keeps_rules]:
  "keeps (written cs u) (sh_write (recording M) d t)"
  "keeps (written cs u) (sh_flush (recording M) d)"
  "keeps (written cs u) (sh_fsync (recording M) d)"
  "keeps (written cs u) (sh_close (recording M) d)"
  "keeps (written cs u) (sh_chmod (recording M) p mode)"
  "keeps (written cs u) (sh_open_directory (recording M) p)"
  by (simp_all add: recording_def written_logged)

lemma write_completion_steps:
  "hoare (changed cs) (write_completion (recording M) plan n)
     (\<lambda>_. written (cs @ [record_event]) (dump_indented (completion_record plan n)))
     (\<lambda>s. changed cs s \<or> written (cs @ [record_event]) (dump_indented (completion_record plan n)) s)"
  (is "hoare _ _ (\<lambda>_. written _ ?t) ?E")
proof -
  have E: "\<And>s. changed cs s \<Longrightarrow> ?E s" "\<And>s. written (cs @ [record_event]) ?t s \<Longrightarrow> ?E s"
    "\<And>s. written cs ?t s \<Longrightarrow> ?E s"
    by (auto simp: written_def)
  have wr: "hoare (changed cs) (sh_write (recording M) d ?t) (\<lambda>_. written cs ?t) (changed cs)" for d
    by (rule hoareI) (auto simp: recording_def logged_def changed_def written_def wrote_def split: prod.splits)
  have body: "hoare (changed cs) (finallyE
      (bindE (sh_write (recording M) d ?t) (\<lambda>_. bindE (sh_write (recording M) d [10]) (\<lambda>_.
       bindE (sh_flush (recording M) d) (\<lambda>_. sh_fsync (recording M) d)))) (sh_close (recording M) d))
      (\<lambda>_. written cs ?t) (changed cs)" for d
  proof (rule hoare_finally)
    show "hoare (changed cs) (bindE (sh_write (recording M) d ?t) (\<lambda>_. bindE (sh_write (recording M) d [10]) (\<lambda>_.
       bindE (sh_flush (recording M) d) (\<lambda>_. sh_fsync (recording M) d)))) (\<lambda>_. written cs ?t) (changed cs)"
      by (rule hoare_bind [OF wr], rule hoare_keeps, intro keeps_rules) (simp add: written_def)
    show "hoare (written cs ?t) (sh_close (recording M) d) (\<lambda>_. written cs ?t) (changed cs)"
      by (rule hoare_keeps, intro keeps_rules) (simp add: written_def)
    show "hoare (changed cs) (sh_close (recording M) d) (\<lambda>_. changed cs) (changed cs)"
      by (rule hoare_keeps) (intro keeps_rules, simp)
  qed
  have replace: "hoare (written cs ?t) (sh_replace (recording M) completion_temporary COMPLETION_PATH)
      (\<lambda>_. written (cs @ [record_event]) ?t) (written (cs @ [record_event]) ?t)"
    by (rule hoareI)
      (auto simp: recording_def logged_def changed_def written_def wrote_def record_event_def split: prod.splits)
  have opened: "hoare (changed cs) (bindE (sh_open_write (recording M) p) (\<lambda>d. finallyE
      (bindE (sh_write (recording M) d ?t) (\<lambda>_. bindE (sh_write (recording M) d [10]) (\<lambda>_.
       bindE (sh_flush (recording M) d) (\<lambda>_. sh_fsync (recording M) d)))) (sh_close (recording M) d)))
      (\<lambda>_. written cs ?t) ?E" for p
    by (rule stage_read) (intro keeps_rules, rule hoare_weaken [OF body], simp_all)
  have finish: "hoare (written (cs @ [record_event]) ?t) (bindE (sh_open_directory (recording M) p)
      (\<lambda>d. finallyE (sh_fsync (recording M) d) (sh_close (recording M) d)))
      (\<lambda>_. written (cs @ [record_event]) ?t) ?E" for p
    by (rule hoare_keeps [OF _ E(2)]) (intro keeps_rules)
  have chmod: "hoare (written cs ?t) (sh_chmod (recording M) p mode) (\<lambda>_. written cs ?t) ?E" for p mode
    by (rule hoare_keeps [OF _ E(3)]) (intro keeps_rules)
  have replaced: "hoare (written cs ?t) (sh_replace (recording M) completion_temporary COMPLETION_PATH)
      (\<lambda>_. written (cs @ [record_event]) ?t) ?E"
    by (rule hoare_weaken [OF replace]) simp_all
  show ?thesis
    unfolding write_completion_def
    by (rule stage_read, intro keeps_rules,
        intro hoare_bind [OF opened] hoare_bind [OF chmod] hoare_bind [OF replaced] finish)
      simp
qed

text \<open>The whole expansion.\<close>

definition expanded :: "'w \<times> event list \<Rightarrow> bool" where
  "expanded s \<longleftrightarrow>
     (\<exists>disk grows root. filter changing (snd s) = growth_steps disk grows root) \<and> complete_record (snd s)"

text \<open>What was done before the file system is resized.\<close>

definition begun :: "pstr \<Rightarrow> bool \<Rightarrow> event list" where
  "begun disk grows = Unlinked COMPLETION_PATH # (if grows then [Ran [GROWPART, disk, lit ''2'']] else [])"

lemma growth_prefix [simp]:
  "prefix [] (growth_steps disk grows root)"
  "prefix [Unlinked COMPLETION_PATH] (growth_steps disk grows root)"
  "prefix (begun disk grows) (growth_steps disk grows root)"
  "prefix (begun disk grows @ [Ran [RESIZE2FS, root]]) (growth_steps disk grows root)"
  by (simp_all add: growth_steps_def begun_def)

lemma not_record [simp]: "record_event \<noteq> Unlinked p" "record_event \<noteq> Ran c" "Unlinked p \<noteq> record_event"
  "Ran c \<noteq> record_event" "record_event \<notin> set (begun disk grows)"
  by (simp_all add: record_event_def begun_def)

lemma expanded_orderly: "expanded s \<Longrightarrow> orderly s"
  unfolding expanded_def orderly_def by (metis prefix_order.refl)

text \<open>A sequence of changes that may be left as it is.\<close>

definition safe :: "event list \<Rightarrow> bool" where
  "safe cs \<longleftrightarrow> record_event \<notin> set cs \<and> (\<exists>disk grows root. prefix cs (growth_steps disk grows root))"

lemma safe_simps [simp]:
  "safe []" "safe [Unlinked COMPLETION_PATH]" "safe (begun disk grows)"
  "safe (begun disk grows @ [Ran [RESIZE2FS, root]])"
  unfolding safe_def by (fastforce intro: growth_prefix)+

lemma safe_orderly: "safe cs \<Longrightarrow> changed cs s \<Longrightarrow> orderly s"
  by (auto simp: safe_def intro: orderly_changed)

lemma safe_check:
  assumes "safe cs" "keeps (changed cs) m" "returns_only F m"
    and "\<And>x. F x \<Longrightarrow> hoare (changed cs) (f x) Q orderly"
  shows "hoare (changed cs) (bindE m f) Q orderly"
  using assms(2,3,4) safe_orderly [OF assms(1)] by (rule stage_bind)

lemmas safe_read = safe_check [OF _ _ returns_any]

lemma safe_command:
  assumes "safe (cs @ [Ran c])" "changing (Ran c)"
    and "\<And>x. hoare (changed (cs @ [Ran c])) (f x) Q orderly"
  shows "hoare (changed cs) (bindE (command (recording M) c) f) Q orderly"
  using command_changes [OF assms(2)] assms(3) safe_orderly [OF assms(1)] by (rule stage_step)

lemma completion_steps:
  assumes "plan_ok device_bytes after" "gp_trailing_bytes after \<le> MAX_TRAILING_BYTES"
    and "n \<le> gp_partition_sectors after * gp_sector_size after"
    and "gp_partition_sectors after * gp_sector_size after - n \<le> MAX_TRAILING_BYTES"
  shows "hoare (changed (begun disk grows @ [Ran [RESIZE2FS, root]])) (write_completion (recording M) after n)
     (\<lambda>_. expanded) orderly"
    (is "hoare (changed ?cs) _ _ _")
proof (rule hoare_weaken [OF write_completion_steps])
  have end_state: "expanded s" if "written (?cs @ [record_event]) (dump_indented (completion_record after n)) s"
    for s :: "'a \<times> event list"
  proof -
    have "complete_record (snd s)"
      using that assms unfolding complete_record_def written_def wrote_def by blast
    moreover have "?cs @ [record_event] = growth_steps disk grows root"
      by (simp add: begun_def growth_steps_def)
    ultimately show ?thesis
      using that by (auto simp: expanded_def written_def changed_def)
  qed
  then show "written (?cs @ [record_event]) (dump_indented (completion_record after n)) s \<Longrightarrow> expanded s"
    for s :: "'a \<times> event list" .
  show "changed ?cs s \<or> written (?cs @ [record_event]) (dump_indented (completion_record after n)) s \<Longrightarrow> orderly s"
    for s :: "'a \<times> event list"
    using end_state safe_orderly [OF safe_simps(4)] expanded_orderly by blast
qed simp

lemma grow_filesystem_steps:
  assumes "plan_ok device_bytes after" "gp_trailing_bytes after \<le> MAX_TRAILING_BYTES"
  shows "hoare (changed (begun disk grows)) (grow_filesystem Py (recording M) after root) (\<lambda>_. expanded) orderly"
  unfolding grow_filesystem_def
proof (rule safe_command)
  let ?cs = "begun disk grows @ [Ran [RESIZE2FS, root]]"
  have size: "hoare (changed ?cs)
     (bindE (liftR (verify_filesystem_size (gp_partition_sectors after * gp_sector_size after) n)) (\<lambda>_.
      write_completion (recording M) after n)) (\<lambda>_. expanded) orderly" for n
    by (rule safe_check [OF safe_simps(4) keeps_liftR returns_liftR], rule completion_steps [OF assms])
      (simp_all add: verify_filesystem_size_def split: if_splits)
  show "hoare (changed ?cs)
     (bindE (assert_root_identity (recording M) root) (\<lambda>_.
      bindE (assert_boot_identity (recording M) after) (\<lambda>_.
      bindE (filesystem_size_bytes Py (recording M) root) (\<lambda>n.
      bindE (liftR (verify_filesystem_size (gp_partition_sectors after * gp_sector_size after) n)) (\<lambda>_.
      write_completion (recording M) after n)))))
     (\<lambda>_. expanded) orderly" for x :: pstr
    by (intro safe_read [OF safe_simps(4)] keeps_rules size)
qed simp_all

lemma analyzed: "returns_only (plan_ok n) (read_plan Py M depth disk root n)"
  unfolding read_plan_def by (rule returns_bind_any) (auto simp: returns_only_def dest: analyze_ok)

lemma disk_found: "returns_only (\<lambda>p. snd p = lit ''2'') (find_disk Py M root)"
  unfolding find_disk_def
  by (auto simp: returns_only_def bindE_Inr_iff liftR_def returnE_def)

text \<open>The second half: from the first table that was accepted.\<close>

definition second_half ::
  "python \<Rightarrow> 'w machine \<Rightarrow> nat \<Rightarrow> pstr \<Rightarrow> pstr \<Rightarrow> int \<Rightarrow> growth_plan \<Rightarrow> ('w, unit) io" where
  "second_half Py M depth disk root n before =
     bindE (read_plan Py M depth disk root n) (\<lambda>after.
     bindE (liftR (verify_expanded_geometry before after)) (\<lambda>_.
     bindE (assert_root_identity M root) (\<lambda>_.
     bindE (assert_boot_identity M after) (\<lambda>_.
     grow_filesystem Py M after root))))"

lemma second_half_steps:
  "hoare (changed (begun disk grows)) (second_half Py (recording M) depth disk' root n before) (\<lambda>_. expanded) orderly"
  unfolding second_half_def
proof (rule safe_check [OF safe_simps(3) read_plan_keeps analyzed],
    rule safe_check [OF safe_simps(3) keeps_liftR returns_liftR])
  fix after u assume after: "plan_ok n after" and "verify_expanded_geometry before after = Inr u"
  then have "gp_trailing_bytes after \<le> MAX_TRAILING_BYTES"
    by (simp add: verify_expanded_geometry_def split: if_splits)
  note filesystem = grow_filesystem_steps [OF after this]
  show "hoare (changed (begun disk grows))
     (bindE (assert_root_identity (recording M) root) (\<lambda>_.
      bindE (assert_boot_identity (recording M) after) (\<lambda>_.
      grow_filesystem Py (recording M) after root))) (\<lambda>_. expanded) orderly"
    by (intro safe_read [OF safe_simps(3)] keeps_rules filesystem)
qed

lemma grow_steps:
  "hoare (changed [Unlinked COMPLETION_PATH])
     (bindE (grow_partition (recording M) before disk (lit ''2'')) (\<lambda>_.
      second_half Py (recording M) depth disk root n before)) (\<lambda>_. expanded) orderly"
    (is "hoare _ (bindE _ (\<lambda>_. ?rest)) _ _")
proof (cases "needs_partition_growth before")
  case True
  have begun: "[Unlinked COMPLETION_PATH] @ [Ran [GROWPART, disk, lit ''2'']] = begun disk True"
    by (simp add: begun_def)
  have "hoare (changed [Unlinked COMPLETION_PATH])
     (bindE (command (recording M) [GROWPART, disk, lit ''2'']) (\<lambda>_.
      bindE (command (recording M) [UDEVADM, lit ''settle'']) (\<lambda>_. ?rest))) (\<lambda>_. expanded) orderly"
    by (rule safe_command [where cs = "[Unlinked COMPLETION_PATH]" and c = "[GROWPART, disk, lit ''2'']", unfolded begun])
      (simp_all add: safe_read [OF safe_simps(3)] keeps_rules second_half_steps)
  with True show ?thesis by (simp add: grow_partition_def bindE_assoc)
next
  case False
  with second_half_steps [where grows = False] show ?thesis
    by (simp add: grow_partition_def begun_def)
qed

lemma expand_root_steps:
  "hoare (changed []) (expand_root Py (recording M) depth) (\<lambda>_. expanded) orderly"
proof -
  let ?M = "recording M" and ?cs = "[Unlinked COMPLETION_PATH]"
  have disk: "hoare (changed ?cs)
      (bindE (command ?M [BLOCKDEV, lit ''--getsize64'', disk]) (\<lambda>size.
       bindE (liftR (py_int Py 10 size)) (\<lambda>n.
       bindE (read_plan Py ?M depth disk root n) (\<lambda>before.
       bindE (same_device ?M before disk) (\<lambda>_.
       bindE (assert_boot_identity ?M before) (\<lambda>_.
       bindE (grow_partition ?M before disk (lit ''2'')) (\<lambda>_.
       second_half Py ?M depth disk root n before))))))) (\<lambda>_. expanded) orderly" for disk root
    by (intro safe_read [OF safe_simps(2)] keeps_rules programs_differ grow_steps)
  have found: "hoare (changed ?cs)
      (bindE (find_disk Py ?M root) (\<lambda>(disk, number).
       bindE (command ?M [BLOCKDEV, lit ''--getsize64'', disk]) (\<lambda>size.
       bindE (liftR (py_int Py 10 size)) (\<lambda>n.
       bindE (read_plan Py ?M depth disk root n) (\<lambda>before.
       bindE (same_device ?M before disk) (\<lambda>_.
       bindE (assert_boot_identity ?M before) (\<lambda>_.
       bindE (grow_partition ?M before disk number) (\<lambda>_.
       second_half Py ?M depth disk root n before)))))))) (\<lambda>_. expanded) orderly" for root
    by (rule safe_check [OF safe_simps(2) readers_keep(2) disk_found]) (auto intro!: disk)
  have unlink: "changed ([] @ ?cs) s'" if "changed [] s" "sh_unlink ?M COMPLETION_PATH s = (r, s')" for s r s'
    using that by (auto simp: changed_def recording_def logged_def split: prod.splits)
  show ?thesis
    unfolding expand_root_def second_half_def [symmetric]
    by (rule stage_step [OF unlink])
      (simp_all add: safe_orderly [OF safe_simps(2)], intro safe_read [OF safe_simps(2)] keeps_rules programs_differ found)
qed

end
