(* ===== verification/Grow_Disk.thy ===== *)
theory Grow_Disk
  imports Grow_Facts
begin

text \<open>
  The root expansion on a disk. The interface \<open>disk_tools\<close> states what the tools are documented to do
  to an MBR disk with two partitions, as laws over a view of the machine's state; inside it, a run
  of the expansion is computed. It is interpreted on a simulated disk and on the recording of it.
\<close>

section \<open>A disk with two partitions\<close>

text \<open>Sectors are of 512 bytes, the blocks of the file system of 4096.\<close>

record disk =
  dk_boot_start :: int
  dk_boot_sectors :: int
  dk_start :: int
  dk_sectors :: int
  dk_total :: int
  dk_blocks :: int
  dk_temporary :: pstr
  dk_record :: "pstr option"

definition DISK_NODE :: pstr where "DISK_NODE = lit ''/dev/mmcblk0''"
definition BOOT_NODE :: pstr where "BOOT_NODE = lit ''/dev/mmcblk0p1''"
definition ROOT_NODE :: pstr where "ROOT_NODE = lit ''/dev/mmcblk0p2''"

text \<open>What \<^verbatim>\<open>sfdisk --json\<close> prints.\<close>

definition disk_table :: "disk \<Rightarrow> json" where
  "disk_table d =
     JObj [(lit ''partitiontable'', JObj
       [(lit ''label'', JStr (lit ''dos'')), (lit ''device'', JStr DISK_NODE),
        (lit ''unit'', JStr (lit ''sectors'')), (lit ''sectorsize'', JInt 512),
        (lit ''partitions'', JList
          [JObj [(lit ''node'', JStr BOOT_NODE), (lit ''start'', JInt (dk_boot_start d)),
                 (lit ''size'', JInt (dk_boot_sectors d)), (lit ''type'', JStr (lit ''c'')),
                 (lit ''bootable'', JBool True)],
           JObj [(lit ''node'', JStr ROOT_NODE), (lit ''start'', JInt (dk_start d)),
                 (lit ''size'', JInt (dk_sectors d)), (lit ''type'', JStr (lit ''83''))]])])]"

definition dump_header :: "disk \<Rightarrow> pstr" where
  "dump_header d =
     lit ''Filesystem volume name:   ROOT'' @ [10] @
     lit ''Block count:              '' @ py_str_int (dk_blocks d) @ [10] @
     lit ''Block size:               4096''"

text \<open>The output of each command and the disk that it leaves; \<open>None\<close> for a command of no concern.\<close>

definition disk_tool :: "pstr list \<Rightarrow> disk \<Rightarrow> (pstr \<times> disk) option" where
  "disk_tool c d =
     (if c = [FINDMNT, lit ''-n'', lit ''-o'', lit ''SOURCE'', lit ''/''] then Some (ROOT_NODE @ [10], d)
      else if c = [FINDMNT, lit ''-n'', lit ''-o'', lit ''FSTYPE'', lit ''/''] then Some (lit ''ext4'' @ [10], d)
      else if c = [BLKID, lit ''-s'', lit ''LABEL'', lit ''-o'', lit ''value'', ROOT_NODE]
      then Some (lit ''ROOT'' @ [10], d)
      else if c = [BLKID, lit ''-s'', lit ''LABEL'', lit ''-o'', lit ''value'', BOOT_NODE]
      then Some (lit ''BOOT'' @ [10], d)
      else if c = [LSBLK, lit ''-dn'', lit ''-o'', lit ''PKNAME'', ROOT_NODE] then Some (lit ''mmcblk0'' @ [10], d)
      else if c = [LSBLK, lit ''-dn'', lit ''-o'', lit ''PARTN'', ROOT_NODE] then Some (lit ''2'' @ [10], d)
      else if c = [BLOCKDEV, lit ''--getsize64'', DISK_NODE] then Some (py_str_int (dk_total d * 512) @ [10], d)
      else if c = [SFDISK, lit ''--json'', DISK_NODE] then Some (json_dumps True (disk_table d) @ [10], d)
      else if c = [GROWPART, DISK_NODE, lit ''2''] then Some ([], d\<lparr>dk_sectors := dk_total d - dk_start d\<rparr>)
      else if c = [UDEVADM, lit ''settle''] then Some ([], d)
      else if c = [RESIZE2FS, ROOT_NODE] then Some ([], d\<lparr>dk_blocks := dk_sectors d * 512 div 4096\<rparr>)
      else if c = [DUMPE2FS, lit ''-h'', ROOT_NODE] then Some (dump_header d @ [10], d)
      else None)"

definition disk_path :: "pstr \<Rightarrow> pstr" where
  "disk_path p =
     (if p = lit ''/dev/disk/by-slot/system'' then ROOT_NODE
      else if p = lit ''/dev/disk/by-slot/boot'' then BOOT_NODE else p)"

section \<open>The interface\<close>

text \<open>From a state with the view \<open>d\<close>, the computation returns \<open>x\<close> in one with the view \<open>d'\<close>.\<close>

definition gives :: "('w \<Rightarrow> disk) \<Rightarrow> ('w, 'a) io \<Rightarrow> disk \<Rightarrow> 'a \<Rightarrow> disk \<Rightarrow> bool" where
  "gives view m d x d' \<longleftrightarrow> (\<forall>w. view w = d \<longrightarrow> (\<exists>w'. m w = (Inr x, w') \<and> view w' = d'))"

lemma gives_bind: "gives view m d x d1 \<Longrightarrow> gives view (f x) d1 y d2 \<Longrightarrow> gives view (bindE m f) d y d2"
  unfolding gives_def by (metis bindE_apply(2))

lemma gives_return: "gives view (returnE x) d x d"
  by (simp add: gives_def returnE_def)

lemma gives_liftR: "r = Inr x \<Longrightarrow> gives view (liftR r) d x d"
  by (simp add: gives_def liftR_def)

lemma gives_eq: "gives view m d x d1 \<Longrightarrow> d1 = d2 \<Longrightarrow> gives view m d x d2"
  by simp

lemma gives_finally: "gives view m d x d1 \<Longrightarrow> gives view f d1 u d2 \<Longrightarrow> gives view (finallyE m f) d x d2"
  unfolding gives_def finallyE_def by fastforce

locale disk_tools =
  fixes M :: "'w machine" and view :: "'w \<Rightarrow> disk"
  assumes tool: "disk_tool c d = Some (out, d') \<Longrightarrow> gives view (sh_run M c) d (0, out, []) d'"
    and path: "gives view (sh_resolve M strict p) d (disk_path p) d"
    and unlink: "gives view (sh_unlink M COMPLETION_PATH) d () (d\<lparr>dk_record := None\<rparr>)"
    and mkdir: "gives view (sh_mkdir M mode p) d () d"
    and open_write: "gives view (sh_open_write M completion_temporary) d 3 (d\<lparr>dk_temporary := []\<rparr>)"
    and write_text: "gives view (sh_write M 3 t) d () (d\<lparr>dk_temporary := dk_temporary d @ t\<rparr>)"
    and flush: "gives view (sh_flush M n) d () d"
    and fsync: "gives view (sh_fsync M n) d () d"
    and close: "gives view (sh_close M n) d () d"
    and chmod: "gives view (sh_chmod M p mode) d () d"
    and replace: "gives view (sh_replace M completion_temporary COMPLETION_PATH) d ()
      (d\<lparr>dk_record := Some (dk_temporary d), dk_temporary := []\<rparr>)"
    and open_directory: "gives view (sh_open_directory M completion_parent) d 4 d"

definition sim_disk :: "disk machine" where
  "sim_disk =
     \<lparr>sh_run = (\<lambda>c d. case disk_tool c d of Some (out, d') \<Rightarrow> (Inr (0, out, []), d')
                       | None \<Rightarrow> (Inr (127, [], lit ''command not found''), d)),
      sh_resolve = (\<lambda>strict p d. (Inr (disk_path p), d)),
      sh_unlink = (\<lambda>p d. (Inr (), d\<lparr>dk_record := None\<rparr>)),
      sh_mkdir = (\<lambda>mode p d. (Inr (), d)),
      sh_open_write = (\<lambda>p d. (Inr 3, d\<lparr>dk_temporary := []\<rparr>)),
      sh_write = (\<lambda>n t d. (Inr (), d\<lparr>dk_temporary := dk_temporary d @ t\<rparr>)),
      sh_flush = (\<lambda>n d. (Inr (), d)),
      sh_fsync = (\<lambda>n d. (Inr (), d)),
      sh_close = (\<lambda>n d. (Inr (), d)),
      sh_chmod = (\<lambda>p mode d. (Inr (), d)),
      sh_replace = (\<lambda>p q d. (Inr (), d\<lparr>dk_record := Some (dk_temporary d), dk_temporary := []\<rparr>)),
      sh_open_directory = (\<lambda>p d. (Inr 4, d))\<rparr>"

interpretation simulated: disk_tools sim_disk "\<lambda>d. d"
  by unfold_locales (simp_all add: gives_def sim_disk_def)

lemma gives_recorded:
  "gives (\<lambda>d. d) m d x d' \<Longrightarrow> gives fst (logged e m) d x d'"
  "gives (\<lambda>d. d) m d x d' \<Longrightarrow> gives fst (\<lambda>s. case m (fst s) of (r, w) \<Rightarrow> (r, (w, snd s))) d x d'"
  by (fastforce simp: gives_def logged_def)+

interpretation recorded_disk: disk_tools "recording sim_disk" fst
  by unfold_locales
    (simp_all add: recording_def gives_recorded simulated.tool simulated.path simulated.unlink simulated.mkdir
      simulated.open_write simulated.write_text simulated.flush simulated.fsync simulated.close simulated.chmod
      simulated.replace simulated.open_directory)

section \<open>Readings\<close>

text \<open>
  A table that \<^verbatim>\<open>sfdisk\<close> can print of a disk with a size that \<^verbatim>\<open>blockdev\<close> can print, the root
  partition ending last.
\<close>

definition disk_ok :: "disk \<Rightarrow> bool" where
  "disk_ok d \<longleftrightarrow>
     0 \<le> dk_boot_start d \<and> 0 < dk_boot_sectors d \<and> 0 \<le> dk_start d \<and> 0 < dk_sectors d \<and>
     dk_boot_start d + dk_boot_sectors d \<le> dk_start d + dk_sectors d \<and>
     dk_start d + dk_sectors d \<le> dk_total d \<and> dk_total d * 512 < 2 ^ 64 \<and> 0 \<le> dk_blocks d \<and> dk_blocks d < 2 ^ 64"

definition disk_plan :: "disk \<Rightarrow> growth_plan" where
  "disk_plan d =
     \<lparr>gp_disk = DISK_NODE, gp_root_partition = ROOT_NODE, gp_sector_size = 512,
      gp_start_sector = JInt (dk_start d), gp_partition_sectors = dk_sectors d,
      gp_end_sector = dk_start d + dk_sectors d - 1, gp_final_usable_sector = dk_total d - 1,
      gp_trailing_bytes = (dk_total d - dk_start d - dk_sectors d) * 512,
      gp_unchanged_partitions = [(BOOT_NODE, dk_boot_start d, dk_boot_sectors d, lit ''c'', True)]\<rparr>"

lemma strip_line:
  assumes "t \<noteq> []" "\<not> py_isspace (hd t)" "\<not> py_isspace (last t)"
  shows "py_strip (t @ [10]) = t"
proof -
  have l: "lstrip_by py_isspace (t @ [10]) = t @ [10]"
    using assms(1,2) by (cases t) (simp_all add: lstrip_by_def)
  have "dropWhile py_isspace (rev t) = rev t"
    using assms(1,3) by (cases "rev t") (simp_all add: last_rev flip: hd_rev)
  then show ?thesis by (simp add: py_strip_def l rstrip_by_def py_isspace_def [of 10])
qed

lemma strip_literal:
  assumes "lit t \<noteq> []" "\<not> py_isspace (hd (lit t))" "\<not> py_isspace (last (lit t))"
  shows "py_strip (lit t @ [10]) = lit t"
  by (rule strip_line [OF assms])

lemma last_lit: "t \<noteq> [] \<Longrightarrow> last (lit t) = of_char (last t)" "t \<noteq> [] \<Longrightarrow> hd (lit t) = of_char (hd t)"
  by (simp_all add: lit_def last_map hd_map)

lemma strip_outputs [simp]:
  "py_strip (ROOT_NODE @ [10]) = ROOT_NODE" "py_strip (lit ''ext4'' @ [10]) = lit ''ext4''"
  "py_strip (lit ''ROOT'' @ [10]) = lit ''ROOT''" "py_strip (lit ''BOOT'' @ [10]) = lit ''BOOT''"
  "py_strip (lit ''mmcblk0'' @ [10]) = lit ''mmcblk0''" "py_strip (lit ''2'' @ [10]) = lit ''2''"
  "py_strip [] = []"
  unfolding ROOT_NODE_def
  by (rule strip_literal; simp add: last_lit py_isspace_def)+ (simp add: py_strip_def lstrip_by_def rstrip_by_def)

lemma strip_number [simp]: "py_strip (py_str_int i @ [10]) = py_str_int i"
  using str_int_chars(1) [OF hd_in_set [OF str_int_chars(2)], of i]
    str_int_chars(1) [OF last_in_set [OF str_int_chars(2)], of i]
  by (intro strip_line) (auto simp: str_int_chars py_isspace_def)

lemma strip_table [simp]: "py_strip (json_dumps True (disk_table d) @ [10]) = json_dumps True (disk_table d)"
proof (rule strip_line)
  show "\<not> py_isspace (hd (json_dumps True (disk_table d)))" "\<not> py_isspace (last (json_dumps True (disk_table d)))"
    "json_dumps True (disk_table d) \<noteq> []"
    by (simp_all add: disk_table_def py_isspace_def)
qed

lemma digits_fit: "0 \<le> i \<Longrightarrow> i < 2 ^ 64 \<Longrightarrow> length (nat_digits 10 (nat i)) \<le> 4300"
proof -
  assume "0 \<le> i" "i < 2 ^ 64"
  then have "nat i < 10 ^ Suc 99" by simp
  from nat_digits_length [OF _ this] show ?thesis by simp
qed

lemma nodes_scalar [simp]: "scalar DISK_NODE" "scalar BOOT_NODE" "scalar ROOT_NODE"
  by (simp_all add: DISK_NODE_def BOOT_NODE_def ROOT_NODE_def)

lemma nodes_differ [simp]: "ROOT_NODE \<noteq> BOOT_NODE" "BOOT_NODE \<noteq> ROOT_NODE"
  by (simp_all add: BOOT_NODE_def ROOT_NODE_def)

lemma disk_paths [simp]:
  "disk_path ROOT_NODE = ROOT_NODE" "disk_path BOOT_NODE = BOOT_NODE" "disk_path DISK_NODE = DISK_NODE"
  "disk_path (lit ''/dev/disk/by-slot/system'') = ROOT_NODE" "disk_path (lit ''/dev/disk/by-slot/boot'') = BOOT_NODE"
  by (simp_all add: disk_path_def ROOT_NODE_def BOOT_NODE_def DISK_NODE_def)

lemma table_plain:
  assumes "disk_ok d" "4 \<le> depth"
  shows "json_plain depth (disk_table d)"
proof -
  define n where "n = depth - 4"
  then have depth: "depth = Suc (Suc (Suc (Suc n)))"
    using assms(2) by linarith
  have fit: "length (nat_digits 10 (nat (dk_boot_start d))) \<le> 4300" "length (nat_digits 10 (nat (dk_boot_sectors d))) \<le> 4300"
    "length (nat_digits 10 (nat (dk_start d))) \<le> 4300" "length (nat_digits 10 (nat (dk_sectors d))) \<le> 4300"
    "length (nat_digits 10 512) \<le> 4300"
    using assms(1) digits_fit [of 512] by (auto simp: disk_ok_def intro!: digits_fit)
  then show ?thesis
    using assms(1) by (simp add: depth disk_table_def disk_ok_def)
qed

lemma table_loaded:
  assumes "disk_ok d" "4 \<le> depth"
  shows "json_loads_text depth (json_dumps True (disk_table d)) = Inr (disk_table d)"
proof -
  have "\<not> next_is 0xFEFF (json_dumps True (disk_table d))"
    by (simp add: disk_table_def)
  then show ?thesis
    using json_decode_dumps [OF table_plain [OF assms]] by (simp add: json_loads_text_def)
qed

definition disk_entries :: "disk \<Rightarrow> entry list" where
  "disk_entries d =
     [([(lit ''node'', JStr BOOT_NODE), (lit ''start'', JInt (dk_boot_start d)),
        (lit ''size'', JInt (dk_boot_sectors d)), (lit ''type'', JStr (lit ''c'')), (lit ''bootable'', JBool True)],
       JInt (dk_boot_start d), JInt (dk_boot_sectors d), dk_boot_start d + dk_boot_sectors d - 1),
      ([(lit ''node'', JStr ROOT_NODE), (lit ''start'', JInt (dk_start d)),
        (lit ''size'', JInt (dk_sectors d)), (lit ''type'', JStr (lit ''83''))],
       JInt (dk_start d), JInt (dk_sectors d), dk_start d + dk_sectors d - 1)]"

lemma table_checked:
  assumes "disk_ok d" "4 \<le> depth"
  obtains t ps where
    "check_table depth (json_dumps True (disk_table d)) (dk_total d * 512) = Inr (t, ps, 512)"
    "dict_get t (lit ''device'') = JStr DISK_NODE" "read_entries ps = Inr (disk_entries d)"
proof
  let ?t = "[(lit ''label'', JStr (lit ''dos'')), (lit ''device'', JStr DISK_NODE),
        (lit ''unit'', JStr (lit ''sectors'')), (lit ''sectorsize'', JInt 512),
        (lit ''partitions'', JList
          [JObj [(lit ''node'', JStr BOOT_NODE), (lit ''start'', JInt (dk_boot_start d)),
                 (lit ''size'', JInt (dk_boot_sectors d)), (lit ''type'', JStr (lit ''c'')),
                 (lit ''bootable'', JBool True)],
           JObj [(lit ''node'', JStr ROOT_NODE), (lit ''start'', JInt (dk_start d)),
                 (lit ''size'', JInt (dk_sectors d)), (lit ''type'', JStr (lit ''83''))]])]"
  let ?ps = "[JObj [(lit ''node'', JStr BOOT_NODE), (lit ''start'', JInt (dk_boot_start d)),
                 (lit ''size'', JInt (dk_boot_sectors d)), (lit ''type'', JStr (lit ''c'')),
                 (lit ''bootable'', JBool True)],
           JObj [(lit ''node'', JStr ROOT_NODE), (lit ''start'', JInt (dk_start d)),
                 (lit ''size'', JInt (dk_sectors d)), (lit ''type'', JStr (lit ''83''))]]"
  have "read_table depth (json_dumps True (disk_table d)) = Inr (JObj ?t, JList ?ps)"
    by (simp add: read_table_def table_loaded [OF assms])
      (simp add: disk_table_def subscript_def dict_item_def)
  then show "check_table depth (json_dumps True (disk_table d)) (dk_total d * 512) = Inr (?t, ?ps, 512)"
    using assms(1)
    by (simp add: check_table_def dict_get_def integer_def is_integer_def int_value_def disk_ok_def)
  show "dict_get ?t (lit ''device'') = JStr DISK_NODE" by (simp add: dict_get_def)
  show "read_entries ?ps = Inr (disk_entries d)"
    using assms(1)
    by (simp add: read_entry_def dict_get_def integer_def is_integer_def int_value_def disk_ok_def disk_entries_def)
qed

lemma disk_planned:
  assumes "disk_ok d" "dict_get t (lit ''device'') = JStr DISK_NODE"
  shows "plan_growth Py t 512 (dk_total d * 512) (disk_entries d) [False, True] = Inr (disk_plan d)"
  using assms
  by (simp add: plan_growth_def flagged_def disk_entries_def entry_end_def disk_ok_def Let_def py_str_def
      dict_get_def dict_get_or_def partition_row_def py_bool_def int_value_def disk_plan_def)

lemma match_field_line:
  assumes "ws \<noteq> []" "\<forall>c \<in> set ws. py_isspace c" "ds \<noteq> []" "\<forall>c \<in> set ds. is_digit c"
    and "r = [] \<or> hd r = 10"
  shows "match_field name (name @ ws @ ds @ r) = Some ds"
proof -
  have sp: "\<not> py_isspace c" if "is_digit c" for c using that by (auto simp: is_digit_def py_isspace_def)
  have r: "takeWhile is_digit r = []" "dropWhile is_digit r = r"
    using assms(5) by (cases r; auto simp: is_digit_def)+
  have ds: "dropWhile py_isspace (ds @ r) = ds @ r"
    using assms(3,4) sp by (cases ds) auto
  have ws: "dropWhile py_isspace (ws @ ds @ r) = ds @ r" "py_isspace (hd ws)"
    using assms(1,2) ds by (simp_all add: dropWhile_append)
  moreover have "takeWhile is_digit (ds @ r) = ds" "dropWhile is_digit (ds @ r) = r"
    using assms(4) r by (simp_all add: takeWhile_append dropWhile_append)
  moreover have "takeWhile is_digit ds \<noteq> []" using assms(3,4) by (cases ds) auto
  ultimately show ?thesis
    using assms(1,3,4,5) by (cases "r = []") (simp_all add: match_field_def Let_def)
qed

lemma search_field_skip:
  assumes "st \<Longrightarrow> match_field name (l @ 10 # rest) = None" "10 \<notin> set l"
  shows "search_field name st (l @ 10 # rest) = search_field name True rest"
  using assms
proof (induction l arbitrary: st)
  case (Cons c l)
  have "search_field name False (l @ 10 # rest) = search_field name True rest"
    by (rule Cons.IH) (use Cons.prems(2) in auto)
  with Cons.prems show ?case by (cases st) simp_all
qed simp

lemma match_field_other: "take (length name) s \<noteq> name \<Longrightarrow> match_field name s = None"
  by (simp add: match_field_def Let_def)

lemma search_field_found: "match_field name s = Some ds \<Longrightarrow> s \<noteq> [] \<Longrightarrow> search_field name True s = Some ds"
  by (cases s) simp_all

text \<open>The two numbers that \<^verbatim>\<open>filesystem_size_bytes\<close> looks for.\<close>

lemma header_lines:
  "lit ''Block count:              '' = lit ''Block count:'' @ lit ''              ''"
  "lit ''Block size:               4096'' = lit ''Block size:'' @ lit ''               '' @ lit ''4096''"
  by (simp_all flip: lit_append)

lemma str_int_digits: "0 \<le> i \<Longrightarrow> c \<in> set (py_str_int i) \<Longrightarrow> is_digit c"
  using str_int_chars(1) [of c i] nat_digits_props [of 10 "nat \<bar>i\<bar>"]
  by (auto simp: py_str_int_eq is_digit_def)

lemma header_fields:
  assumes "0 \<le> dk_blocks d"
  shows "search_field (lit ''Block count:'') True (dump_header d) = Some (py_str_int (dk_blocks d))"
    and "search_field (lit ''Block size:'') True (dump_header d) = Some (lit ''4096'')"
proof -
  let ?l1 = "lit ''Filesystem volume name:   ROOT''"
  let ?l2 = "lit ''Block count:'' @ lit ''              '' @ py_str_int (dk_blocks d)"
  let ?l3 = "lit ''Block size:'' @ lit ''               '' @ lit ''4096''"
  have h: "dump_header d = ?l1 @ 10 # ?l2 @ 10 # ?l3"
    by (simp add: dump_header_def header_lines)
  have nl: "10 \<notin> set ?l1" "10 \<notin> set ?l2"
    using str_int_chars(1) [of 10 "dk_blocks d"] by (auto simp: lit_def)
  have skip: "search_field name True (dump_header d) = search_field name True (?l2 @ 10 # ?l3)"
    if "name \<in> {lit ''Block count:'', lit ''Block size:''}" for name
    unfolding h using that nl(1) by (intro search_field_skip match_field_other) (auto simp: lit_def)
  show "search_field (lit ''Block count:'') True (dump_header d) = Some (py_str_int (dk_blocks d))"
    unfolding skip [of "lit ''Block count:''", simplified]
    using match_field_line [of "lit ''              ''" "py_str_int (dk_blocks d)" "10 # ?l3" "lit ''Block count:''"]
      str_int_digits [OF assms] str_int_chars(2)
    by (intro search_field_found) (auto simp: lit_def py_isspace_def)
  have "search_field (lit ''Block size:'') True (?l2 @ 10 # ?l3) = search_field (lit ''Block size:'') True ?l3"
    by (intro search_field_skip match_field_other nl(2)) (simp add: lit_def)
  moreover have "search_field (lit ''Block size:'') True ?l3 = Some (lit ''4096'')"
    using match_field_line [of "lit ''               ''" "lit ''4096''" "[]" "lit ''Block size:''"]
    by (intro search_field_found) (auto simp: lit_def py_isspace_def is_digit_def)
  ultimately show "search_field (lit ''Block size:'') True (dump_header d) = Some (lit ''4096'')"
    using skip [of "lit ''Block size:''"] by simp
qed

section \<open>The run\<close>

text \<open>
  The disk that an expansion leaves: the partition grown where more than 16 MiB follow it, the
  file system of whole blocks in it, and the record of both.
\<close>

definition disk_grown :: "disk \<Rightarrow> disk" where
  "disk_grown d =
     (if needs_partition_growth (disk_plan d) then d\<lparr>dk_sectors := dk_total d - dk_start d\<rparr> else d)"

definition disk_resized :: "disk \<Rightarrow> disk" where
  "disk_resized d = d\<lparr>dk_blocks := dk_sectors d * 512 div 4096\<rparr>"

definition disk_recorded :: "disk \<Rightarrow> disk" where
  "disk_recorded d =
     d\<lparr>dk_record := Some (dump_indented (completion_record (disk_plan d) (dk_blocks d * 4096)) @ [10]),
       dk_temporary := []\<rparr>"

definition disk_expanded :: "disk \<Rightarrow> disk" where
  "disk_expanded d = disk_recorded (disk_resized (disk_grown d))"

lemma programs_distinct [simp]:
  "FINDMNT \<noteq> BLKID" "FINDMNT \<noteq> LSBLK" "FINDMNT \<noteq> BLOCKDEV" "FINDMNT \<noteq> SFDISK" "FINDMNT \<noteq> GROWPART" "FINDMNT \<noteq> UDEVADM"
  "FINDMNT \<noteq> RESIZE2FS" "FINDMNT \<noteq> DUMPE2FS" "BLKID \<noteq> FINDMNT" "LSBLK \<noteq> FINDMNT" "BLOCKDEV \<noteq> FINDMNT"
  "SFDISK \<noteq> FINDMNT" "GROWPART \<noteq> FINDMNT" "UDEVADM \<noteq> FINDMNT" "RESIZE2FS \<noteq> FINDMNT" "DUMPE2FS \<noteq> FINDMNT"
  "BLKID \<noteq> LSBLK" "LSBLK \<noteq> BLKID" "BLOCKDEV \<noteq> BLKID" "BLOCKDEV \<noteq> LSBLK" "SFDISK \<noteq> BLKID" "SFDISK \<noteq> LSBLK"
  "SFDISK \<noteq> BLOCKDEV" "GROWPART \<noteq> BLKID" "GROWPART \<noteq> LSBLK" "GROWPART \<noteq> BLOCKDEV" "GROWPART \<noteq> SFDISK"
  "UDEVADM \<noteq> BLKID" "UDEVADM \<noteq> LSBLK" "UDEVADM \<noteq> BLOCKDEV" "UDEVADM \<noteq> SFDISK" "UDEVADM \<noteq> GROWPART"
  "RESIZE2FS \<noteq> BLKID" "RESIZE2FS \<noteq> LSBLK" "RESIZE2FS \<noteq> BLOCKDEV" "RESIZE2FS \<noteq> SFDISK" "RESIZE2FS \<noteq> UDEVADM"
  "DUMPE2FS \<noteq> BLKID" "DUMPE2FS \<noteq> LSBLK" "DUMPE2FS \<noteq> BLOCKDEV" "DUMPE2FS \<noteq> SFDISK" "DUMPE2FS \<noteq> GROWPART"
  "DUMPE2FS \<noteq> UDEVADM" "DUMPE2FS \<noteq> RESIZE2FS"
  by (simp_all add: FINDMNT_def LSBLK_def UDEVADM_def SFDISK_def BLOCKDEV_def BLKID_def DUMPE2FS_def
      GROWPART_def RESIZE2FS_def)

lemmas gives_rules = gives_bind gives_return gives_liftR gives_finally

context disk_tools
begin

lemma command_gives:
  assumes "disk_tool c d = Some (out, d')" "py_strip out = t"
  shows "gives view (command M c) d t d'"
  unfolding command_def
  by (rule gives_bind [OF tool [OF assms(1)]]) (simp add: assms(2) gives_return)

lemma command_step:
  "disk_tool c d = Some (out, d') \<Longrightarrow> py_strip out = t \<Longrightarrow> gives view (f t) d' y d2 \<Longrightarrow>
     gives view (bindE (command M c) f) d y d2"
  by (rule gives_bind [OF command_gives])

lemma path_step: "gives view (f (disk_path p)) d y d2 \<Longrightarrow> gives view (bindE (sh_resolve M strict p) f) d y d2"
  by (rule gives_bind [OF path])

lemma check_step: "b \<Longrightarrow> gives view (f ()) d y d2 \<Longrightarrow> gives view (bindE (liftR (require b m)) f) d y d2"
  by (rule gives_bind [OF gives_liftR]) (simp_all add: require_def)

lemma check_last: "b \<Longrightarrow> gives view (liftR (require b m)) d () d"
  by (rule gives_liftR) (simp add: require_def)

lemma root_identity: "gives view (assert_root_identity M ROOT_NODE) d () d"
  unfolding assert_root_identity_def
  by (rule path_step check_step command_step check_last strip_outputs | simp add: disk_tool_def)+

lemma boot_identity: "gives view (assert_boot_identity M (disk_plan d')) d () d"
  unfolding assert_boot_identity_def disk_plan_def
  by (simp, (rule path_step check_step command_step check_last strip_outputs | simp add: disk_tool_def)+)

lemma disk_located:
  assumes "py_isdigit Py (lit ''2'')"
  shows "gives view (find_disk Py M ROOT_NODE) d (DISK_NODE, lit ''2'') d"
proof -
  have "dev_path (lit ''mmcblk0'') = DISK_NODE"
    by (simp add: dev_path_def DISK_NODE_def flip: lit_append)
  moreover have "parent_known (lit ''mmcblk0'')"
    by (simp add: parent_known_def lit_def)
  ultimately show ?thesis
    unfolding find_disk_def using assms
    by - (rule check_step command_step strip_outputs gives_return | simp add: disk_tool_def)+
qed

lemma device_size:
  assumes "disk_ok d" "gives view (f (dk_total d * 512)) d y d'"
  shows "gives view (bindE (command M [BLOCKDEV, lit ''--getsize64'', DISK_NODE]) (\<lambda>size.
     bindE (liftR (py_int Py 10 size)) f)) d y d'"
proof (rule command_step [where t = "py_str_int (dk_total d * 512)"])
  show "py_strip (py_str_int (dk_total d * 512) @ [10]) = py_str_int (dk_total d * 512)" by simp
  have "py_int Py 10 (py_str_int (dk_total d * 512)) = Inr (dk_total d * 512)"
    using assms(1) by (intro py_int_decimal) (auto simp: disk_ok_def)
  then show "gives view (bindE (liftR (py_int Py 10 (py_str_int (dk_total d * 512)))) f) d y d'"
    using assms(2) by simp
qed (simp add: disk_tool_def)

lemma table_analyzed:
  assumes "disk_ok d" "4 \<le> depth" "n = dk_total d * 512"
  shows "gives view (analyze_partition_table Py M depth (json_dumps True (disk_table d)) ROOT_NODE n) d (disk_plan d) d"
proof -
  obtain t ps where t: "check_table depth (json_dumps True (disk_table d)) n = Inr (t, ps, 512)"
    "dict_get t (lit ''device'') = JStr DISK_NODE" "read_entries ps = Inr (disk_entries d)"
    using table_checked [OF assms(1,2)] assms(3) by metis
  have flags: "gives view (root_flags Py M ROOT_NODE (disk_entries d)) d [False, True] d"
    unfolding disk_entries_def
    by (simp add: entry_node_def py_str_def dict_get_def, (rule path_step | simp add: gives_return bindE_assoc)+)
  have planned: "plan_growth Py t 512 n (disk_entries d) [False, True] = Inr (disk_plan d)"
    using disk_planned [OF assms(1) t(2)] assms(3) by simp
  have "gives view (bindE (sh_resolve M False ROOT_NODE) (\<lambda>r.
      bindE (root_flags Py M r (disk_entries d)) (\<lambda>flags.
      liftR (plan_growth Py t 512 n (disk_entries d) flags)))) d (disk_plan d) d"
    by (rule path_step) (simp add: gives_bind [OF flags] gives_liftR planned)
  then show ?thesis by (simp add: analyze_partition_table_def t)
qed

lemma table_read:
  assumes "disk_ok d" "4 \<le> depth" "n = dk_total d * 512"
  shows "gives view (read_plan Py M depth DISK_NODE ROOT_NODE n) d (disk_plan d) d"
  unfolding read_plan_def
proof (rule command_step [where t = "json_dumps True (disk_table d)"])
  show "disk_tool [SFDISK, lit ''--json'', DISK_NODE] d = Some (json_dumps True (disk_table d) @ [10], d)"
    by (simp add: disk_tool_def)
qed (simp_all add: table_analyzed [OF assms])

lemma partition_grown:
  "gives view (grow_partition M (disk_plan d) DISK_NODE (lit ''2'')) d () (disk_grown d)"
  unfolding grow_partition_def disk_grown_def
  by (auto intro!: gives_return)
    ((rule command_step gives_return strip_outputs | simp add: disk_tool_def)+)

lemma filesystem_size:
  assumes "disk_ok d"
  shows "gives view (filesystem_size_bytes Py M ROOT_NODE) d (dk_blocks d * 4096) d"
proof -
  have strip: "py_strip (dump_header d @ [10]) = dump_header d"
    by (rule strip_line) (simp_all add: dump_header_def last_lit py_isspace_def)
  have "py_int Py 10 (py_str_int (dk_blocks d)) = Inr (dk_blocks d)"
    using assms by (intro py_int_decimal) (auto simp: disk_ok_def)
  moreover have "py_int Py 10 (lit ''4096'') = Inr 4096"
    using py_int_decimal [of 4096 Py] by (simp add: py_str_int_def nat_digits.simps lit_def)
  moreover have "0 \<le> dk_blocks d" using assms by (simp add: disk_ok_def)
  ultimately show ?thesis
    unfolding filesystem_size_bytes_def
    by - (rule command_step [OF _ strip], simp add: disk_tool_def, simp add: header_fields gives_liftR)
qed

lemma record_written:
  "gives view (write_completion M plan n) d ()
     (d\<lparr>dk_record := Some (dump_indented (completion_record plan n) @ [10]), dk_temporary := []\<rparr>)"
proof -
  let ?t = "dump_indented (completion_record plan n)"
  have body: "gives view (bindE (sh_write M 3 ?t) (\<lambda>_. bindE (sh_write M 3 [10]) (\<lambda>_.
      bindE (sh_flush M 3) (\<lambda>_. sh_fsync M 3)))) (d\<lparr>dk_temporary := []\<rparr>) () (d\<lparr>dk_temporary := ?t @ [10]\<rparr>)"
    by (rule gives_eq, rule gives_bind [OF write_text], rule gives_bind [OF write_text],
        rule gives_bind [OF flush fsync]) simp
  let ?d = "d\<lparr>dk_temporary := ?t @ [10]\<rparr>"
  have "gives view (write_completion M plan n) d () (?d\<lparr>dk_record := Some (dk_temporary ?d), dk_temporary := []\<rparr>)"
    unfolding write_completion_def
    by (rule gives_bind [OF mkdir], rule gives_bind, rule gives_bind [OF open_write], rule gives_finally [OF body close],
        rule gives_bind [OF chmod], rule gives_bind [OF replace], rule gives_bind [OF open_directory],
        rule gives_finally [OF fsync close])
  then show ?thesis by simp
qed

text \<open>A disk that has been expanded: nothing is left to grow.\<close>

lemma expansion:
  assumes "disk_ok d" "4 \<le> depth" "py_isdigit Py (lit ''2'')"
  shows "gives view (expand_root Py M depth) d () (disk_expanded d)"
proof -
  let ?d1 = "d\<lparr>dk_record := None\<rparr>"
  let ?d2 = "disk_grown ?d1"
  let ?d3 = "disk_resized ?d2"
  have ok1: "disk_ok ?d1" using assms(1) by (simp add: disk_ok_def)
  have ok2: "disk_ok ?d2" using assms(1) by (auto simp: disk_ok_def disk_grown_def)
  have ok3: "disk_ok ?d3"
    using ok2 whole_sectors [of 8 "dk_sectors ?d2"] by (simp add: disk_ok_def disk_resized_def)
  have same: "dk_total ?d2 = dk_total ?d1" by (simp add: disk_grown_def)
  have plans: "disk_plan ?d3 = disk_plan ?d2" by (simp add: disk_plan_def disk_resized_def)
  have geometry: "verify_expanded_geometry (disk_plan ?d1) (disk_plan ?d2) = Inr ()"
    using ok1 by (simp add: verify_expanded_geometry_def require_def disk_plan_def disk_grown_def
        needs_partition_growth_def disk_ok_def MAX_TRAILING_BYTES_def)
  have size: "verify_filesystem_size (gp_partition_sectors (disk_plan ?d2) * gp_sector_size (disk_plan ?d2))
      (dk_blocks ?d3 * 4096) = Inr ()"
    using whole_sectors [of 8 "dk_sectors ?d2"]
    by (simp add: verify_filesystem_size_def require_def disk_plan_def disk_resized_def MAX_TRAILING_BYTES_def)
  have resize: "gives view (command M [RESIZE2FS, ROOT_NODE]) ?d2 [] ?d3"
    by (rule command_gives, simp add: disk_tool_def disk_resized_def, rule strip_outputs)
  have filesystem: "gives view (grow_filesystem Py M (disk_plan ?d2) ROOT_NODE) ?d2 () (disk_recorded ?d3)"
    unfolding grow_filesystem_def disk_recorded_def plans
    by (rule gives_bind [OF resize], rule gives_bind [OF root_identity], rule gives_bind [OF boot_identity],
        rule gives_bind [OF filesystem_size [OF ok3]], rule gives_bind [OF gives_liftR [OF size]],
        rule record_written)
  have device: "gives view (same_device M (disk_plan ?d1) DISK_NODE) ?d1 () ?d1"
    unfolding same_device_def by (rule path_step)+ (rule check_last, simp add: disk_plan_def)
  have source: "gives view (command M [FINDMNT, lit ''-n'', lit ''-o'', lit ''SOURCE'', lit ''/'']) ?d1 ROOT_NODE ?d1"
    by (rule command_gives, simp add: disk_tool_def, rule strip_outputs)
  have "disk_recorded ?d3 = disk_expanded d"
    by (simp add: disk_expanded_def disk_recorded_def disk_resized_def disk_grown_def disk_plan_def)
  moreover have "gives view (expand_root Py M depth) d () (disk_recorded ?d3)"
    unfolding expand_root_def
    by (rule gives_bind [OF unlink], rule gives_bind [OF source], rule path_step, simp,
        rule gives_bind [OF root_identity], rule gives_bind [OF disk_located [OF assms(3)]], simp,
        rule device_size [OF ok1], rule gives_bind [OF table_read [OF ok1 assms(2) refl]],
        rule gives_bind [OF device], rule gives_bind [OF boot_identity], rule gives_bind [OF partition_grown],
        rule gives_bind [OF table_read [OF ok2 assms(2)]], simp add: same, rule gives_bind [OF gives_liftR [OF geometry]],
        rule gives_bind [OF root_identity], rule gives_bind [OF boot_identity], rule filesystem)
  ultimately show ?thesis by simp
qed

end

text \<open>Expanding it again changes nothing.\<close>

lemma disk_expanded_ok: "disk_ok d \<Longrightarrow> disk_ok (disk_expanded d)"
  by (auto simp: disk_ok_def disk_expanded_def disk_recorded_def disk_resized_def disk_grown_def)

lemma disk_expanded_again: "disk_expanded (disk_expanded d) = disk_expanded d"
  by (auto simp: disk_expanded_def disk_recorded_def disk_resized_def disk_grown_def disk_plan_def
      needs_partition_growth_def MAX_TRAILING_BYTES_def)

lemma disk_expanded_full:
  assumes "disk_ok d"
  shows "gp_trailing_bytes (disk_plan (disk_expanded d)) \<le> MAX_TRAILING_BYTES"
    and "dk_sectors (disk_expanded d) * 512 - dk_blocks (disk_expanded d) * 4096 < 4096"
    and "dk_blocks (disk_expanded d) * 4096 \<le> dk_sectors (disk_expanded d) * 512"
proof -
  show "gp_trailing_bytes (disk_plan (disk_expanded d)) \<le> MAX_TRAILING_BYTES"
    by (simp add: disk_expanded_def disk_recorded_def disk_resized_def disk_grown_def disk_plan_def
        needs_partition_growth_def MAX_TRAILING_BYTES_def)
  have "dk_blocks (disk_expanded d) = dk_sectors (disk_expanded d) * 512 div 4096"
    by (simp add: disk_expanded_def disk_recorded_def disk_resized_def)
  then show "dk_sectors (disk_expanded d) * 512 - dk_blocks (disk_expanded d) * 4096 < 4096"
    "dk_blocks (disk_expanded d) * 4096 \<le> dk_sectors (disk_expanded d) * 512"
    using whole_sectors [of 4096 "dk_sectors (disk_expanded d) * 512"] by (simp_all add: algebra_simps)
qed

section \<open>The properties\<close>

definition plain_python :: python where
  "plain_python =
     \<lparr>ucd_upper = (\<lambda>c. [c]), ucd_casefold = (\<lambda>c. [c]), ucd_decimal = (\<lambda>_. None),
      py_repr = (\<lambda>_. []), py_nonzero = (\<lambda>_. True), py_isdigit = (\<lambda>s. s \<noteq> [] \<and> list_all is_digit s)\<rparr>"

lemma plain_digit [simp]: "py_isdigit plain_python (lit ''2'')"
  by (simp add: plain_python_def lit_def is_digit_def)

text \<open>A card of 58 GiB that was written with an image of 12.\<close>

definition written_card :: disk where
  "written_card =
     \<lparr>dk_boot_start = 16384, dk_boot_sectors = 1048576, dk_start = 1064960, dk_sectors = 25165824,
      dk_total = 122263961, dk_blocks = 3145728, dk_temporary = [], dk_record = Some (lit ''stale'')\<rparr>"

lemma written_card_ok: "disk_ok written_card"
  by (simp add: disk_ok_def written_card_def)

text \<open>C23: with tools that do what they are documented to do, the expansion returns, whatever the size
  of the card: the root partition then ends within 16 MiB of the end of the disk, the file system
  fills it up to a block, the record of both has replaced any older one, and a second run
  changes nothing.\<close>

theorem root_expanded:
  assumes "disk_tools M view" "disk_ok (view w)" "4 \<le> depth" "py_isdigit Py (lit ''2'')"
  shows "\<exists>w' w''. expand_root Py M depth w = (Inr (), w') \<and> view w' = disk_expanded (view w) \<and>
    gp_trailing_bytes (disk_plan (view w')) \<le> MAX_TRAILING_BYTES \<and>
    dk_blocks (view w') * 4096 \<le> dk_sectors (view w') * 512 \<and>
    dk_sectors (view w') * 512 - dk_blocks (view w') * 4096 < 4096 \<and>
    dk_record (view w') = Some (dump_indented (completion_record (disk_plan (view w')) (dk_blocks (view w') * 4096)) @ [10]) \<and>
    expand_root Py M depth w' = (Inr (), w'') \<and> view w'' = view w'"
proof -
  note run = disk_tools.expansion [OF assms(1) _ assms(3,4)]
  obtain w' where w': "expand_root Py M depth w = (Inr (), w')" "view w' = disk_expanded (view w)"
    using run [OF assms(2)] by (auto simp: gives_def)
  obtain w'' where "expand_root Py M depth w' = (Inr (), w'')" "view w'' = disk_expanded (view w')"
    using run [OF disk_expanded_ok [OF assms(2)]] w'(2) by (auto simp: gives_def)
  moreover have "dk_record (disk_expanded d) =
      Some (dump_indented (completion_record (disk_plan (disk_expanded d)) (dk_blocks (disk_expanded d) * 4096)) @ [10])" for d
    by (simp add: disk_expanded_def disk_recorded_def disk_plan_def)
  ultimately show ?thesis
    using w' disk_expanded_full [OF assms(2)] by (simp add: disk_expanded_again)
qed

theorem root_expanded_witness:
  "\<exists>w' w''. expand_root plain_python sim_disk 4 written_card = (Inr (), w') \<and> w' = disk_expanded written_card \<and>
    gp_trailing_bytes (disk_plan w') \<le> MAX_TRAILING_BYTES \<and> dk_sectors w' = 121199001 \<and>
    expand_root plain_python sim_disk 4 w' = (Inr (), w'')"
proof -
  have "dk_sectors (disk_expanded written_card) = 121199001"
    by (simp add: disk_expanded_def disk_recorded_def disk_resized_def disk_grown_def disk_plan_def
        needs_partition_growth_def MAX_TRAILING_BYTES_def written_card_def)
  then show ?thesis
    using root_expanded [OF simulated.disk_tools_axioms, of written_card 4 plain_python] written_card_ok by auto
qed

text \<open>C24: on any machine, whatever its commands answer and wherever an exception ends the run, the disk and
  the record are changed in one order only: the old record is removed first, then at most one
  growing of the second partition of one disk, then one resizing of a file system, then the new record; and no
  record is put in place unless one was written of a root partition that ends within 16 MiB
  of the end of the disk and of a file system that fills it as closely.\<close>

theorem growth_in_order:
  assumes "expand_root Py (recording M) depth (w, []) = (r, (w', log))"
  shows "(\<exists>disk grows root.
      prefix (filter changing log) (growth_steps disk grows root) \<and>
      (r = Inr () \<longrightarrow> filter changing log = growth_steps disk grows root)) \<and>
    (record_event \<in> set log \<longrightarrow> complete_record log)"
proof -
  have start: "changed [] (w, [])" by (simp add: changed_def)
  show ?thesis
  proof (cases r)
    case (Inl e)
    with hoare_Inl [OF expand_root_steps start, of Py M depth e "(w', log)"] assms show ?thesis
      by (auto simp: orderly_def)
  next
    case (Inr u)
    with hoare_Inr [OF expand_root_steps start, of Py M depth u "(w', log)"] assms
    have "expanded (w', log)" by simp
    then obtain disk grows root where "filter changing log = growth_steps disk grows root" "complete_record log"
      unfolding expanded_def by auto
    then show ?thesis by (metis prefix_order.refl)
  qed
qed

theorem growth_in_order_witness:
  "\<exists>w' log disk grows root. expand_root plain_python (recording sim_disk) 4 (written_card, []) = (Inr (), (w', log)) \<and>
    filter changing log = growth_steps disk grows root \<and> complete_record log"
proof -
  obtain w' log where run: "expand_root plain_python (recording sim_disk) 4 (written_card, []) = (Inr (), (w', log))"
    using recorded_disk.expansion [OF written_card_ok, of 4 plain_python] by (fastforce simp: gives_def)
  from growth_in_order [OF run] obtain disk grows root where
    log: "filter changing log = growth_steps disk grows root" "record_event \<in> set log \<longrightarrow> complete_record log"
    by auto
  have "record_event \<in> set (filter changing log)" by (simp add: log(1) growth_steps_def)
  then have "record_event \<in> set log" by simp
  with log run show ?thesis by blast
qed

text \<open>C25: a partition table that is accepted has the root partition on the disk, after and beyond the
  other one, and the bytes that follow it on the disk are counted exactly, up to a last part of a
  sector.\<close>

theorem plan_geometry:
  assumes "analyze_partition_table Py M depth text root device_bytes w = (Inr plan, w')"
  shows "plan_ok device_bytes plan"
  using assms by (rule analyze_ok)

theorem plan_geometry_witness: "plan_ok (122263961 * 512) (disk_plan written_card)"
proof -
  have "analyze_partition_table plain_python sim_disk 4 (json_dumps True (disk_table written_card)) ROOT_NODE
      (122263961 * 512) written_card = (Inr (disk_plan written_card), written_card)"
    using simulated.table_analyzed [OF written_card_ok, of 4 "122263961 * 512" plain_python]
    by (simp add: gives_def written_card_def)
  then show ?thesis by (rule plan_geometry)
qed

end
