(* ===== verification/Web_Models.thy ===== *)
theory Web_Models
  imports Client
begin

text \<open>
  The models of the management API (\<^verbatim>\<open>setup-ui/rave_web/models.py\<close>). Each model is a record with the
  fields of the class, and a constructor that applies the constraints of its \<^verbatim>\<open>Field\<close> declarations and validators:
  where one fails, constructing the model raises a \<^verbatim>\<open>ValidationError\<close>, which is a \<^verbatim>\<open>ValueError\<close>. Unknown fields
  of what is parsed from outside are refused (\<^verbatim>\<open>extra="forbid"\<close>). What a model becomes in a response
  is a JSON object with its fields in their order.
\<close>

definition validation_error :: exn where
  "validation_error = ValueError (lit ''validation_error'')"

definition checked :: "bool \<Rightarrow> 'a \<Rightarrow> exn + 'a" where
  "checked ok x = (if ok then Inr x else Inl validation_error)"

lemma checked_simps [simp]:
  "checked ok x = Inr y \<longleftrightarrow> ok \<and> x = y" "checked ok x = Inl e \<longleftrightarrow> \<not> ok \<and> e = validation_error"
  by (auto simp: checked_def)

definition text_or_null :: "pstr option \<Rightarrow> json" where
  "text_or_null t = (case t of None \<Rightarrow> JNull | Some s \<Rightarrow> JStr s)"

definition length_within :: "nat \<Rightarrow> nat \<Rightarrow> pstr \<Rightarrow> bool" where
  "length_within least most s \<longleftrightarrow> least \<le> length s \<and> length s \<le> most"

definition optional_within :: "nat \<Rightarrow> pstr option \<Rightarrow> bool" where
  "optional_within most t = (case t of None \<Rightarrow> True | Some s \<Rightarrow> length s \<le> most)"

section \<open>Availability\<close>

text \<open>\<open>FAILED\<close> is \<^verbatim>\<open>Availability.ERROR\<close>.\<close>

datatype availability = UNAVAILABLE | STARTING | READY | DEGRADED | FAILED

fun availability_value :: "availability \<Rightarrow> pstr" where
  "availability_value UNAVAILABLE = lit ''unavailable''"
| "availability_value STARTING = lit ''starting''"
| "availability_value READY = lit ''ready''"
| "availability_value DEGRADED = lit ''degraded''"
| "availability_value FAILED = lit ''error''"

record component_status =
  cs_availability :: availability
  cs_reason :: pstr

definition component_status_model :: "availability \<Rightarrow> pstr \<Rightarrow> exn + component_status" where
  "component_status_model a reason = checked (length_within 1 64 reason) \<lparr>cs_availability = a, cs_reason = reason\<rparr>"

definition component_status_json :: "component_status \<Rightarrow> json" where
  "component_status_json c =
     JObj [(lit ''availability'', JStr (availability_value (cs_availability c))), (lit ''reason'', JStr (cs_reason c))]"

record status_response =
  sr_api_version :: pstr
  sr_valid_for_ms :: int
  sr_overall :: availability
  sr_camera :: component_status
  sr_perception :: component_status
  sr_hailo :: component_status
  sr_comma_link :: component_status

definition status_response_model :: "status_response \<Rightarrow> exn + status_response" where
  "status_response_model m =
     checked (sr_api_version m = lit ''v1'' \<and> 100 \<le> sr_valid_for_ms m \<and> sr_valid_for_ms m \<le> 5000) m"

definition status_response_json :: "status_response \<Rightarrow> json" where
  "status_response_json m =
     JObj [(lit ''api_version'', JStr (sr_api_version m)), (lit ''valid_for_ms'', JInt (sr_valid_for_ms m)),
           (lit ''overall'', JStr (availability_value (sr_overall m))),
           (lit ''camera'', component_status_json (sr_camera m)),
           (lit ''perception'', component_status_json (sr_perception m)),
           (lit ''hailo'', component_status_json (sr_hailo m)),
           (lit ''comma_link'', component_status_json (sr_comma_link m))]"

section \<open>The network\<close>

record network_state_response =
  nr_api_version :: pstr
  nr_availability :: availability
  nr_mode :: network_mode
  nr_management_interface :: "pstr option"
  nr_local_discovery_name :: "pstr option"
  nr_runtime_network :: pstr
  nr_actuation_available :: bool
  nr_provisioning_ap_active :: bool
  nr_station_ssid :: "pstr option"
  nr_last_error :: "pstr option"

definition network_response_model :: "network_state_response \<Rightarrow> exn + network_state_response" where
  "network_response_model m =
     checked (nr_api_version m = lit ''v1'' \<and> optional_within 32 (nr_management_interface m) \<and>
              optional_within 253 (nr_local_discovery_name m) \<and> nr_runtime_network m = lit ''10.77.0.0/24'' \<and>
              optional_within 32 (nr_station_ssid m) \<and> optional_within 64 (nr_last_error m)) m"

definition network_response_json :: "network_state_response \<Rightarrow> json" where
  "network_response_json m =
     JObj [(lit ''api_version'', JStr (nr_api_version m)),
           (lit ''availability'', JStr (availability_value (nr_availability m))),
           (lit ''mode'', JStr (mode_value (nr_mode m))),
           (lit ''management_interface'', text_or_null (nr_management_interface m)),
           (lit ''local_discovery_name'', text_or_null (nr_local_discovery_name m)),
           (lit ''runtime_network'', JStr (nr_runtime_network m)),
           (lit ''actuation_available'', JBool (nr_actuation_available m)),
           (lit ''provisioning_ap_active'', JBool (nr_provisioning_ap_active m)),
           (lit ''station_ssid'', text_or_null (nr_station_ssid m)),
           (lit ''last_error'', text_or_null (nr_last_error m))]"

record wifi_network =
  wn_ssid :: pstr
  wn_signal_percent :: int
  wn_security :: wifi_security
  wn_connected :: bool

text \<open>The value of a Boolean field that may be missing. A value that is no Boolean is refused here.\<close>

definition bool_field :: "(pstr \<times> json) list \<Rightarrow> pstr \<Rightarrow> bool \<Rightarrow> exn + bool" where
  "bool_field d k otherwise =
     (case dict_get_or d k (JBool otherwise) of JBool b \<Rightarrow> Inr b | _ \<Rightarrow> Inl validation_error)"

text \<open>
  Only values of the declared types are taken. What pydantic would convert to them (a number from its
  text) has been refused by the client of the daemon before.
\<close>

definition wifi_network_model :: "json \<Rightarrow> exn + wifi_network" where
  "wifi_network_model v =
     (case v of
        JObj d \<Rightarrow>
          (case (dict_get d (lit ''ssid''), dict_get d (lit ''signal_percent''),
                 wifi_security_of (dict_get d (lit ''security''))) of
             (JStr ssid, JInt signal, Inr security) \<Rightarrow>
               bindR (bool_field d (lit ''connected'') False) (\<lambda>connected.
               checked (length_within 1 32 ssid \<and> validate_ssid (JStr ssid) = Inr ssid \<and> 0 \<le> signal \<and> signal \<le> 100 \<and>
                        dict_keys d \<subseteq> {lit ''ssid'', lit ''signal_percent'', lit ''security'', lit ''connected''})
                 \<lparr>wn_ssid = ssid, wn_signal_percent = signal, wn_security = security, wn_connected = connected\<rparr>)
           | _ \<Rightarrow> Inl validation_error)
      | _ \<Rightarrow> Inl validation_error)"

definition wifi_network_json :: "wifi_network \<Rightarrow> json" where
  "wifi_network_json n =
     JObj [(lit ''ssid'', JStr (wn_ssid n)), (lit ''signal_percent'', JInt (wn_signal_percent n)),
           (lit ''security'', JStr (security_value (wn_security n))), (lit ''connected'', JBool (wn_connected n))]"

fun wifi_networks_model :: "json list \<Rightarrow> exn + wifi_network list" where
  "wifi_networks_model [] = Inr []"
| "wifi_networks_model (v # vs) =
     bindR (wifi_network_model v) (\<lambda>n. bindR (wifi_networks_model vs) (\<lambda>ns. Inr (n # ns)))"

definition wifi_scan_response_model :: "json \<Rightarrow> exn + wifi_network list" where
  "wifi_scan_response_model v =
     (case v of
        JList vs \<Rightarrow> bindR (wifi_networks_model vs) (\<lambda>ns. checked (length ns \<le> 64) ns)
      | _ \<Rightarrow> Inl validation_error)"

definition wifi_scan_response_json :: "wifi_network list \<Rightarrow> json" where
  "wifi_scan_response_json ns =
     JObj [(lit ''api_version'', JStr (lit ''v1'')), (lit ''networks'', JList (map wifi_network_json ns))]"

section \<open>Bodies of requests\<close>

record connect_request =
  cr_ssid :: pstr
  cr_password :: "pstr option"

text \<open>The body of a connection request. A \<^verbatim>\<open>TypeError\<close> of a validator cannot arise: it is given a string.\<close>

definition connect_request_model :: "json \<Rightarrow> exn + connect_request" where
  "connect_request_model v =
     (case v of
        JObj d \<Rightarrow>
          if \<not> dict_keys d \<subseteq> {lit ''ssid'', lit ''password''} then Inl validation_error
          else (case (dict_get d (lit ''ssid''), dict_get d (lit ''password'')) of
             (JStr ssid, JNull) \<Rightarrow>
               catchR (bindR (validate_ssid (JStr ssid)) (\<lambda>s. Inr \<lparr>cr_ssid = s, cr_password = None\<rparr>))
                 is_value_error validation_error
           | (JStr ssid, JStr password) \<Rightarrow>
               catchR (bindR (validate_ssid (JStr ssid)) (\<lambda>s.
                       bindR (validate_password (JStr password)) (\<lambda>_.
                       Inr \<lparr>cr_ssid = s, cr_password = Some password\<rparr>)))
                 is_value_error validation_error
           | _ \<Rightarrow> Inl validation_error)
      | _ \<Rightarrow> Inl validation_error)"

definition provisioning_request_model :: "json \<Rightarrow> exn + unit" where
  "provisioning_request_model v = (case v of JObj [] \<Rightarrow> Inr () | _ \<Rightarrow> Inl validation_error)"

section \<open>Actions\<close>

record action_response =
  ar_accepted :: bool
  ar_mode :: network_mode
  ar_reason :: pstr

definition action_response_model :: "json \<Rightarrow> json \<Rightarrow> json \<Rightarrow> exn + action_response" where
  "action_response_model accepted mode reason =
     (case (accepted, network_mode_of mode, reason) of
        (JBool a, Inr m, JStr r) \<Rightarrow>
          checked (length_within 1 64 r) \<lparr>ar_accepted = a, ar_mode = m, ar_reason = r\<rparr>
      | _ \<Rightarrow> Inl validation_error)"

definition action_response_json :: "action_response \<Rightarrow> json" where
  "action_response_json a =
     JObj [(lit ''api_version'', JStr (lit ''v1'')), (lit ''accepted'', JBool (ar_accepted a)),
           (lit ''mode'', JStr (mode_value (ar_mode a))), (lit ''reason'', JStr (ar_reason a))]"

section \<open>The system\<close>

text \<open>The time is the text that it becomes; the temperature is in thousandths of a degree.\<close>

record time_status =
  ts_current_utc :: pstr
  ts_synchronized :: bool
  ts_rtc_available :: bool

record system_response =
  sy_availability :: availability
  sy_os_version :: "pstr option"
  sy_web_version :: pstr
  sy_update_status :: component_status
  sy_temperature_milli :: "int option"
  sy_time :: time_status

definition system_response_model :: "system_response \<Rightarrow> exn + system_response" where
  "system_response_model m =
     checked (optional_within 64 (sy_os_version m) \<and> length_within 1 32 (sy_web_version m) \<and>
              (case sy_temperature_milli m of None \<Rightarrow> True | Some t \<Rightarrow> - 40000 \<le> t \<and> t \<le> 125000)) m"

end
