(* ===== verification/Web.thy ===== *)
theory Web
  imports Web_Models
begin

text \<open>
  The web service: its providers (\<^verbatim>\<open>setup-ui/rave_web/providers.py\<close>), which observe the appliance and
  talk to the network daemon, and the handlers of its API (\<^verbatim>\<open>setup-ui/rave_web/app.py\<close>) with the
  mapping of their outcomes to HTTP responses. The files, the clock and the \<^verbatim>\<open>ioctl\<close> are a
  parameter (\<open>appliance\<close>), and so is the socket of the client.
\<close>

section \<open>Constants\<close>

definition NOT_INTEGRATED :: component_status where
  "NOT_INTEGRATED = \<lparr>cs_availability = UNAVAILABLE, cs_reason = lit ''not_integrated''\<rparr>"
definition WEB_VERSION :: pstr where "WEB_VERSION = lit ''0.3.0''"
definition MANAGEMENT_INTERFACE :: pstr where "MANAGEMENT_INTERFACE = lit ''wlan0''"
definition MANAGEMENT_ADDRESS :: pstr where "MANAGEMENT_ADDRESS = lit ''192.168.77.1''"
definition MAX_LOCAL_FILE_BYTES :: nat where "MAX_LOCAL_FILE_BYTES = 64 * 1024"

section \<open>Providers\<close>

record 'w status_provider =
  pv_status :: "('w, status_response) io"
  pv_network :: "('w, network_state_response) io"
  pv_system :: "('w, system_response) io"
  pv_wifi_networks :: "('w, wifi_network list) io"
  pv_connect_wifi :: "connect_request \<Rightarrow> ('w, action_response) io"
  pv_enable_provisioning :: "('w, action_response) io"

text \<open>The system calls. Reading a file opens it, reads at most so many bytes and closes it.\<close>

record 'w appliance = ucd +
  ap_read :: "pstr \<Rightarrow> nat \<Rightarrow> ('w, bytes) io"
  ap_is_file :: "pstr \<Rightarrow> ('w, bool) io"
  ap_exists :: "pstr \<Rightarrow> ('w, bool) io"
  ap_utc_now :: "('w, pstr) io"
  ap_interface_address :: "bytes \<Rightarrow> ('w, bytes) io"
  ap_environ :: "pstr \<Rightarrow> ('w, pstr option) io"

subsection \<open>The provider without an appliance\<close>

definition unavailable_status :: "('w, status_response) io" where
  "unavailable_status = liftR (status_response_model
     \<lparr>sr_api_version = lit ''v1'', sr_valid_for_ms = 1000, sr_overall = UNAVAILABLE, sr_camera = NOT_INTEGRATED,
      sr_perception = NOT_INTEGRATED, sr_hailo = NOT_INTEGRATED, sr_comma_link = NOT_INTEGRATED\<rparr>)"

definition unavailable_network :: "('w, network_state_response) io" where
  "unavailable_network = liftR (network_response_model
     \<lparr>nr_api_version = lit ''v1'', nr_availability = UNAVAILABLE, nr_mode = UNCONFIGURED,
      nr_management_interface = None, nr_local_discovery_name = None, nr_runtime_network = lit ''10.77.0.0/24'',
      nr_actuation_available = False, nr_provisioning_ap_active = False, nr_station_ssid = None,
      nr_last_error = None\<rparr>)"

definition unavailable_system :: "('w, 'x) appliance_scheme \<Rightarrow> ('w, system_response) io" where
  "unavailable_system A =
     bindE (ap_utc_now A) (\<lambda>now. liftR (system_response_model
       \<lparr>sy_availability = UNAVAILABLE, sy_os_version = None, sy_web_version = WEB_VERSION,
        sy_update_status = NOT_INTEGRATED, sy_temperature_milli = None,
        sy_time = \<lparr>ts_current_utc = now, ts_synchronized = False, ts_rtc_available = False\<rparr>\<rparr>))"

definition actuation_unavailable :: exn where
  "actuation_unavailable = NetworkdUnavailable (lit ''network_actuation_unavailable'')"

definition unavailable_provider :: "('w, 'x) appliance_scheme \<Rightarrow> 'w status_provider" where
  "unavailable_provider A =
     \<lparr>pv_status = unavailable_status, pv_network = unavailable_network, pv_system = unavailable_system A,
      pv_wifi_networks = raiseE actuation_unavailable,
      pv_connect_wifi = (\<lambda>_. raiseE actuation_unavailable),
      pv_enable_provisioning = raiseE actuation_unavailable\<rparr>"

subsection \<open>Observations\<close>

text \<open>
  \<^verbatim>\<open>bytes.decode("utf-8", errors="replace")\<close>: the character that starts with the first byte, or the replacement
  character for the longest start of one, and how many of the bytes after the first are used.
\<close>

definition utf8_replace_step :: "nat \<Rightarrow> bytes \<Rightarrow> nat \<times> nat" where
  "utf8_replace_step b bs =
     (let second = (\<lambda>lo hi. 1 \<le> length bs \<and> lo \<le> bs ! 0 \<and> bs ! 0 \<le> hi);
          cont = (\<lambda>i. i < length bs \<and> is_cont (bs ! i))
      in if b < 0x80 then (b, 0)
         else if 0xC2 \<le> b \<and> b \<le> 0xDF then
           (if second 0x80 0xBF then ((b - 0xC0) * 64 + (bs ! 0 - 0x80), 1) else (0xFFFD, 0))
         else if 0xE0 \<le> b \<and> b \<le> 0xEF then
           (if \<not> second (if b = 0xE0 then 0xA0 else 0x80) (if b = 0xED then 0x9F else 0xBF) then (0xFFFD, 0)
            else if \<not> cont 1 then (0xFFFD, 1)
            else ((b - 0xE0) * 4096 + (bs ! 0 - 0x80) * 64 + (bs ! 1 - 0x80), 2))
         else if 0xF0 \<le> b \<and> b \<le> 0xF4 then
           (if \<not> second (if b = 0xF0 then 0x90 else 0x80) (if b = 0xF4 then 0x8F else 0xBF) then (0xFFFD, 0)
            else if \<not> cont 1 then (0xFFFD, 1)
            else if \<not> cont 2 then (0xFFFD, 2)
            else ((b - 0xF0) * 262144 + (bs ! 0 - 0x80) * 4096 + (bs ! 1 - 0x80) * 64 + (bs ! 2 - 0x80), 3))
         else (0xFFFD, 0))"

fun utf8_replace :: "bytes \<Rightarrow> pstr" where
  "utf8_replace [] = []"
| "utf8_replace (b # bs) = (case utf8_replace_step b bs of (c, n) \<Rightarrow> c # utf8_replace (drop n bs))"

definition read_bounded :: "('w, 'x) appliance_scheme \<Rightarrow> pstr \<Rightarrow> nat \<Rightarrow> ('w, pstr option) io" where
  "read_bounded A path limit =
     bindE (catchE (bindE (ap_read A path (limit + 1)) (\<lambda>data. returnE (Some data)))
              is_os_error (\<lambda>_. returnE None)) (\<lambda>data.
     returnE (case data of
                None \<Rightarrow> None
              | Some data \<Rightarrow> if length data > limit then None else Some (py_strip (utf8_replace data))))"

text \<open>One line of \<^verbatim>\<open>os-release\<close>; a later line for a key replaces an earlier one.\<close>

definition os_line :: "pstr \<Rightarrow> (pstr \<rightharpoonup> pstr) \<Rightarrow> (pstr \<rightharpoonup> pstr)" where
  "os_line line values =
     (case py_partition 61 line of (key, separator, value) \<Rightarrow>
        if separator \<and> key \<in> {lit ''PRETTY_NAME'', lit ''NAME'', lit ''VERSION_ID''}
        then values(key \<mapsto> take 64 (rstrip_by (\<lambda>c. c = 34) (lstrip_by (\<lambda>c. c = 34) (py_strip value))))
        else values)"

text \<open>\<^verbatim>\<open>" ".join(part for part in parts if part)\<close>\<close>

fun join_parts :: "pstr list \<Rightarrow> pstr" where
  "join_parts [] = []"
| "join_parts [p] = p"
| "join_parts (p # ps) = p @ 32 # join_parts ps"

definition os_identity :: "pstr \<Rightarrow> pstr option" where
  "os_identity text =
     (let values = fold os_line (py_splitlines text) Map.empty;
          given = (\<lambda>key. case values (lit key) of None \<Rightarrow> [] | Some v \<Rightarrow> v);
          joined = join_parts (filter (\<lambda>p. p \<noteq> []) [given ''NAME'', given ''VERSION_ID''])
      in if given ''PRETTY_NAME'' \<noteq> [] then Some (given ''PRETTY_NAME'')
         else if joined = [] then None else Some joined)"

definition os_identification :: "('w, 'x) appliance_scheme \<Rightarrow> pstr \<Rightarrow> ('w, pstr option) io" where
  "os_identification A path =
     bindE (read_bounded A path MAX_LOCAL_FILE_BYTES) (\<lambda>content.
     returnE (case content of None \<Rightarrow> None | Some text \<Rightarrow> if text = [] then None else os_identity text))"

text \<open>
  In thousandths of a degree. The quotient by 1000 rounds correctly and both bounds are exact, so
  comparing it with them is comparing the integers.
\<close>

definition temperature_milli :: "('w, 'x) appliance_scheme \<Rightarrow> pstr \<Rightarrow> ('w, int option) io" where
  "temperature_milli A path =
     bindE (read_bounded A path 32) (\<lambda>text.
     returnE (case text of
                None \<Rightarrow> None
              | Some value \<Rightarrow>
                  (case py_int A 10 value of
                     Inl _ \<Rightarrow> None
                   | Inr t \<Rightarrow> if - 40000 \<le> t \<and> t \<le> 125000 then Some t else None)))"

text \<open>\<^verbatim>\<open>socket.inet_ntoa\<close>\<close>

definition inet_ntoa :: "bytes \<Rightarrow> exn + pstr" where
  "inet_ntoa packed =
     (case packed of
        [a, b, c, d] \<Rightarrow>
          Inr (py_str_int (int a) @ 46 # py_str_int (int b) @ 46 # py_str_int (int c) @ 46 # py_str_int (int d))
      | _ \<Rightarrow> Inl OSError)"

text \<open>The name of the interface is padded to 256 bytes, as \<^verbatim>\<open>struct.pack("256s", ...)\<close> does.\<close>

definition ipv4_address :: "('w, 'x) appliance_scheme \<Rightarrow> pstr \<Rightarrow> ('w, pstr option) io" where
  "ipv4_address A interface =
     (if \<exists>c \<in> set interface. c \<ge> 128 then raiseE UnicodeEncodeError
      else if length interface > 15 then returnE None
      else bindE (catchE (bindE (ap_interface_address A (interface @ replicate (256 - length interface) 0))
                            (\<lambda>response. returnE (Some response)))
                    is_os_error (\<lambda>_. returnE None)) (\<lambda>response.
           case response of
             None \<Rightarrow> returnE None
           | Some r \<Rightarrow> bindE (liftR (inet_ntoa (take 4 (drop 20 r)))) (\<lambda>a. returnE (Some a))))"

subsection \<open>The provider on the appliance\<close>

definition network_availability :: "network_mode \<Rightarrow> availability" where
  "network_availability mode =
     (if mode \<in> {PROVISIONING_AP, STATION_CONNECTED} then READY
      else if mode \<in> {STATION_CONNECTING, TRANSITION} then STARTING
      else if mode = ERROR then FAILED
      else DEGRADED)"

definition network_fallback :: "('w, 'x) appliance_scheme \<Rightarrow> ('w, network_state_response) io" where
  "network_fallback A =
     bindE (ipv4_address A MANAGEMENT_INTERFACE) (\<lambda>address.
     let active = (address = Some MANAGEMENT_ADDRESS) in
     liftR (network_response_model
       \<lparr>nr_api_version = lit ''v1'', nr_availability = DEGRADED,
        nr_mode = (if active then PROVISIONING_AP else ERROR),
        nr_management_interface = Some MANAGEMENT_INTERFACE, nr_local_discovery_name = None,
        nr_runtime_network = lit ''10.77.0.0/24'', nr_actuation_available = False,
        nr_provisioning_ap_active = active, nr_station_ssid = None,
        nr_last_error = Some (lit ''network_daemon_unavailable'')\<rparr>))"

text \<open>A field that is text or \<^verbatim>\<open>None\<close>; any other value is refused by the model.\<close>

definition optional_text :: "json \<Rightarrow> exn + pstr option" where
  "optional_text v = (case v of JNull \<Rightarrow> Inr None | JStr s \<Rightarrow> Inr (Some s) | _ \<Rightarrow> Inl validation_error)"

text \<open>The truth of a value that the client has checked to be a Boolean.\<close>

definition is_true :: "json \<Rightarrow> bool" where
  "is_true v \<longleftrightarrow> v = JBool True"

definition network_of_status :: "(pstr \<times> json) list \<Rightarrow> exn + network_state_response" where
  "network_of_status status =
     bindR (dict_item status (lit ''mode'')) (\<lambda>m.
     bindR (network_mode_of m) (\<lambda>mode.
     bindR (dict_item status (lit ''provisioning_ap_active'')) (\<lambda>active.
     bindR (optional_text (dict_get status (lit ''station_ssid''))) (\<lambda>ssid.
     bindR (optional_text (dict_get status (lit ''last_error''))) (\<lambda>last_error.
     network_response_model
       \<lparr>nr_api_version = lit ''v1'', nr_availability = network_availability mode, nr_mode = mode,
        nr_management_interface = Some MANAGEMENT_INTERFACE, nr_local_discovery_name = None,
        nr_runtime_network = lit ''10.77.0.0/24'', nr_actuation_available = True,
        nr_provisioning_ap_active = is_true active, nr_station_ssid = ssid, nr_last_error = last_error\<rparr>)))))"

definition is_unavailable :: "exn \<Rightarrow> bool" where
  "is_unavailable e = (case e of NetworkdUnavailable _ \<Rightarrow> True | _ \<Rightarrow> False)"

definition pi_network ::
  "('w, 'x) appliance_scheme \<Rightarrow> 'w client_sock \<Rightarrow> int \<Rightarrow> nat \<Rightarrow> ('w, network_state_response) io" where
  "pi_network A K uid depth =
     bindE (catchE (bindE (client_status K uid depth) (\<lambda>status. returnE (Some status)))
              is_unavailable (\<lambda>_. returnE None)) (\<lambda>status.
     case status of
       None \<Rightarrow> network_fallback A
     | Some s \<Rightarrow> liftR (network_of_status s))"

definition pi_wifi_networks :: "'w client_sock \<Rightarrow> int \<Rightarrow> nat \<Rightarrow> ('w, wifi_network list) io" where
  "pi_wifi_networks K uid depth =
     bindE (client_scan K uid depth) (\<lambda>response.
     liftR (bindR (dict_item response (lit ''networks'')) wifi_scan_response_model))"

definition action_of_response :: "(pstr \<times> json) list \<Rightarrow> exn + action_response" where
  "action_of_response response =
     bindR (dict_item response (lit ''accepted'')) (\<lambda>accepted.
     bindR (dict_item response (lit ''mode'')) (\<lambda>mode.
     bindR (dict_item response (lit ''reason'')) (\<lambda>reason.
     action_response_model accepted mode reason)))"

definition pi_connect_wifi :: "'w client_sock \<Rightarrow> int \<Rightarrow> nat \<Rightarrow> connect_request \<Rightarrow> ('w, action_response) io" where
  "pi_connect_wifi K uid depth request =
     bindE (client_connect K uid depth (cr_ssid request) (cr_password request)) (\<lambda>response.
     liftR (action_of_response response))"

definition pi_enable_provisioning :: "'w client_sock \<Rightarrow> int \<Rightarrow> nat \<Rightarrow> ('w, action_response) io" where
  "pi_enable_provisioning K uid depth =
     bindE (client_provisioning K uid depth) (\<lambda>response. liftR (action_of_response response))"

definition pi_system :: "('w, 'x) appliance_scheme \<Rightarrow> ('w, system_response) io" where
  "pi_system A =
     bindE (os_identification A (lit ''/etc/os-release'')) (\<lambda>os_version.
     bindE (temperature_milli A (lit ''/sys/class/thermal/thermal_zone0/temp'')) (\<lambda>temperature.
     bindE (ap_utc_now A) (\<lambda>now.
     bindE (ap_is_file A (lit ''/run/systemd/timesync/synchronized'')) (\<lambda>synchronized.
     bindE (ap_exists A (lit ''/sys/class/rtc/rtc0'')) (\<lambda>rtc.
     liftR (system_response_model
       \<lparr>sy_availability = (if os_version = None \<or> os_version = Some [] then DEGRADED else READY),
        sy_os_version = os_version, sy_web_version = WEB_VERSION, sy_update_status = NOT_INTEGRATED,
        sy_temperature_milli = temperature,
        sy_time = \<lparr>ts_current_utc = now, ts_synchronized = synchronized, ts_rtc_available = rtc\<rparr>\<rparr>))))))"

definition pi_provider ::
  "('w, 'x) appliance_scheme \<Rightarrow> 'w client_sock \<Rightarrow> int \<Rightarrow> nat \<Rightarrow> 'w status_provider" where
  "pi_provider A K uid depth =
     \<lparr>pv_status = unavailable_status, pv_network = pi_network A K uid depth, pv_system = pi_system A,
      pv_wifi_networks = pi_wifi_networks K uid depth,
      pv_connect_wifi = pi_connect_wifi K uid depth,
      pv_enable_provisioning = pi_enable_provisioning K uid depth\<rparr>"

definition configured_provider ::
  "('w, 'x) appliance_scheme \<Rightarrow> 'w client_sock \<Rightarrow> int \<Rightarrow> nat \<Rightarrow> ('w, 'w status_provider) io" where
  "configured_provider A K uid depth =
     bindE (ap_environ A (lit ''RAVE_PROVIDER'')) (\<lambda>value.
     let provider = (case value of None \<Rightarrow> lit ''gate1'' | Some v \<Rightarrow> v) in
     if provider = lit ''gate1'' then returnE (unavailable_provider A)
     else if provider = lit ''pi'' then returnE (pi_provider A K uid depth)
     else raiseE (RuntimeError (lit ''unsupported RAVE_PROVIDER: '' @ provider)))"

section \<open>Handlers\<close>

text \<open>
  A response: its status and its body. An exception that no handler maps becomes the framework's
  response 500.
\<close>

record http_response =
  http_status :: nat
  http_body :: json

definition http_error :: "nat \<Rightarrow> pstr \<Rightarrow> http_response" where
  "http_error code detail = \<lparr>http_status = code, http_body = JObj [(lit ''detail'', JStr detail)]\<rparr>"

definition request_validation_failed :: http_response where
  "request_validation_failed = http_error 422 (lit ''request_validation_failed'')"

text \<open>\<^verbatim>\<open>except NetworkdUnavailable as error: raise HTTPException(503, detail=str(error))\<close>\<close>

definition service_unavailable :: "('w, http_response) io \<Rightarrow> ('w, http_response) io" where
  "service_unavailable m =
     catchE m is_unavailable (\<lambda>e. returnE (http_error 503 (case e of NetworkdUnavailable code \<Rightarrow> code | _ \<Rightarrow> [])))"

definition get_status :: "'w status_provider \<Rightarrow> ('w, http_response) io" where
  "get_status P =
     bindE (pv_status P) (\<lambda>m. returnE \<lparr>http_status = 200, http_body = status_response_json m\<rparr>)"

definition get_network :: "'w status_provider \<Rightarrow> ('w, http_response) io" where
  "get_network P =
     bindE (pv_network P) (\<lambda>m. returnE \<lparr>http_status = 200, http_body = network_response_json m\<rparr>)"

definition get_system :: "(system_response \<Rightarrow> json) \<Rightarrow> 'w status_provider \<Rightarrow> ('w, http_response) io" where
  "get_system printed P = bindE (pv_system P) (\<lambda>m. returnE \<lparr>http_status = 200, http_body = printed m\<rparr>)"

definition get_wifi_networks :: "'w status_provider \<Rightarrow> ('w, http_response) io" where
  "get_wifi_networks P =
     service_unavailable (bindE (pv_wifi_networks P) (\<lambda>ns.
       returnE \<lparr>http_status = 200, http_body = wifi_scan_response_json ns\<rparr>))"

definition connect_wifi :: "'w status_provider \<Rightarrow> json \<Rightarrow> ('w, http_response) io" where
  "connect_wifi P body =
     (case connect_request_model body of
        Inl _ \<Rightarrow> returnE request_validation_failed
      | Inr request \<Rightarrow>
          service_unavailable (bindE (pv_connect_wifi P request) (\<lambda>a.
            returnE \<lparr>http_status = 202, http_body = action_response_json a\<rparr>)))"

definition enable_provisioning :: "'w status_provider \<Rightarrow> json \<Rightarrow> ('w, http_response) io" where
  "enable_provisioning P body =
     (case provisioning_request_model body of
        Inl _ \<Rightarrow> returnE request_validation_failed
      | Inr _ \<Rightarrow>
          service_unavailable (bindE (pv_enable_provisioning P) (\<lambda>a.
            returnE \<lparr>http_status = 202, http_body = action_response_json a\<rparr>)))"

end
