(* ===== verification/Web_Facts.thy ===== *)
theory Web_Facts
  imports Web Wire
begin

text \<open>
  What the web service makes of the daemon's answers: everything that the client has accepted is accepted
  by the models, so that a response of the API is either the daemon's answer or its refusal.
\<close>

section \<open>Accepted by the client, accepted by the models\<close>

lemma validate_ssid_Inr: "validate_ssid v = Inr s \<Longrightarrow> v = JStr s \<and> ssid_ok s"
  by (cases v) (auto simp: validate_ssid_iff validate_non_str split: json.splits)

lemma length_utf8: "length s \<le> length (concat (map utf8_char s))"
  using utf8_length_ge [of s] by (simp add: utf8_length_def)

lemma ssid_ok_within: "ssid_ok s \<Longrightarrow> length_within 1 32 s"
  using utf8_length_ge [of s] ssid_ok_utf8 [of s] by (cases s) (auto simp: length_within_def ssid_ok_def)

text \<open>One network: the model has the values that were received.\<close>

definition shows_network :: "json \<Rightarrow> wifi_network \<Rightarrow> bool" where
  "shows_network v n \<longleftrightarrow>
     (\<exists>d. v = JObj d \<and> dict_get d (lit ''ssid'') = JStr (wn_ssid n) \<and>
        dict_get d (lit ''signal_percent'') = JInt (wn_signal_percent n) \<and>
        dict_get d (lit ''security'') = JStr (security_value (wn_security n)) \<and>
        dict_get d (lit ''connected'') = JBool (wn_connected n)) \<and>
     ssid_ok (wn_ssid n) \<and> 0 \<le> wn_signal_percent n \<and> wn_signal_percent n \<le> 100"

lemma network_model_accepts:
  assumes "validate_network v = Inr u"
  shows "\<exists>n. wifi_network_model v = Inr n \<and> shows_network v n"
proof -
  from assms obtain d where v: "v = JObj d" by (cases v) (simp_all add: validate_network_def)
  from assms have keys: "dict_keys d = {lit ''ssid'', lit ''signal_percent'', lit ''security'', lit ''connected''}"
    by (auto simp: validate_network_def v split: if_splits)
  then have items: "dict_item d (lit ''ssid'') = Inr (dict_get d (lit ''ssid''))"
    "dict_item d (lit ''security'') = Inr (dict_get d (lit ''security''))"
    "dict_item d (lit ''connected'') = Inr (dict_get d (lit ''connected''))"
    by (simp_all add: dict_item_get)
  from assms obtain s sec where s: "validate_ssid (dict_get d (lit ''ssid'')) = Inr s"
    "wifi_security_of (dict_get d (lit ''security'')) = Inr sec"
    and rest: "(case dict_get d (lit ''signal_percent'') of JInt signal \<Rightarrow> 0 \<le> signal \<and> signal \<le> 100 | _ \<Rightarrow> False)"
      "is_bool (dict_get d (lit ''connected''))"
    by (auto simp: validate_network_def v keys items bindR_Inr_iff)
  obtain signal where signal: "dict_get d (lit ''signal_percent'') = JInt signal" "0 \<le> signal" "signal \<le> 100"
    using rest(1) by (cases "dict_get d (lit ''signal_percent'')") simp_all
  obtain c where c: "dict_get d (lit ''connected'') = JBool c"
    using rest(2) by (cases "dict_get d (lit ''connected'')") (simp_all add: is_bool_def)
  have sec: "dict_get d (lit ''security'') = JStr (security_value sec)"
    using s(2) enum_lookup_InrD unfolding wifi_security_of_def by metis
  note ssid = validate_ssid_Inr [OF s(1)]
  have "bool_field d (lit ''connected'') False = Inr c"
    using c items(3) by (auto simp: bool_field_def dict_get_or_def dict_item_def split: option.splits)
  then have "wifi_network_model v =
      Inr \<lparr>wn_ssid = s, wn_signal_percent = signal, wn_security = sec, wn_connected = c\<rparr>"
    using ssid signal s(2) keys validate_ssid_ok [of s] ssid_ok_within [of s] by (simp add: wifi_network_model_def v)
  then show ?thesis
    using ssid signal sec c by (simp add: shows_network_def v)
qed

lemma networks_model_accepts:
  "validate_networks vs = Inr u \<Longrightarrow> \<exists>ns. wifi_networks_model vs = Inr ns \<and> list_all2 shows_network vs ns"
proof (induction vs arbitrary: u)
  case (Cons v vs)
  from Cons.prems obtain a b where "validate_network v = Inr a" "validate_networks vs = Inr b"
    by (auto simp: bindR_Inr_iff)
  with network_model_accepts Cons.IH show ?case by fastforce
qed simp

lemma scan_model_accepts:
  assumes "validate_scan_response r = Inr r'"
  shows "r' = r \<and> (\<exists>vs ns. dict_item r (lit ''networks'') = Inr (JList vs) \<and>
    wifi_scan_response_model (JList vs) = Inr ns \<and> list_all2 shows_network vs ns \<and> length ns \<le> 64)"
proof -
  from assms have keys: "dict_keys r = {lit ''api_version'', lit ''ok'', lit ''networks''}"
    by (auto simp: validate_scan_response_def split: if_splits)
  with assms obtain vs u where vs: "dict_get r (lit ''networks'') = JList vs" "length vs \<le> MAX_NETWORKS"
    "validate_networks vs = Inr u" "r' = r"
    by (cases "dict_get r (lit ''networks'')") (auto simp: validate_scan_response_def bindR_Inr_iff split: if_splits)
  from networks_model_accepts [OF vs(3)] obtain ns where "wifi_networks_model vs = Inr ns" "list_all2 shows_network vs ns"
    by blast
  moreover have "dict_item r (lit ''networks'') = Inr (JList vs)"
    using keys vs(1) by (simp add: dict_item_get)
  ultimately show ?thesis
    using vs(2,4) by (auto simp: wifi_scan_response_model_def MAX_NETWORKS_def dest: list_all2_lengthD)
qed

text \<open>A status: what the model shows of it.\<close>

definition shows_status :: "(pstr \<times> json) list \<Rightarrow> network_state_response \<Rightarrow> bool" where
  "shows_status r m \<longleftrightarrow>
     dict_get r (lit ''mode'') = JStr (mode_value (nr_mode m)) \<and>
     dict_get r (lit ''provisioning_ap_active'') = JBool (nr_provisioning_ap_active m) \<and>
     dict_get r (lit ''station_ssid'') = text_or_null (nr_station_ssid m) \<and>
     dict_get r (lit ''last_error'') = text_or_null (nr_last_error m) \<and>
     nr_availability m = network_availability (nr_mode m) \<and> nr_actuation_available m"

lemma optional_text_reason:
  assumes "optional_reason v"
  obtains t where "optional_text v = Inr t" "v = text_or_null t" "optional_within 64 t"
  using assms
  by (cases v) (auto simp: optional_reason_def required_reason_def optional_text_def text_or_null_def
      optional_within_def)

lemma status_fields:
  assumes "validate_status_response r = Inr r'"
  obtains mode name where "r' = r" "dict_keys r = STATUS_RESPONSE_FIELDS"
    "dict_get r (lit ''mode'') = JStr (mode_value mode)" "network_mode_of (JStr (mode_value mode)) = Inr mode"
    "is_bool (dict_get r (lit ''provisioning_ap_active''))" "optional_reason (dict_get r (lit ''last_error''))"
    "dict_get r (lit ''station_ssid'') = text_or_null name" "\<forall>s. name = Some s \<longrightarrow> ssid_ok s"
proof -
  from assms have keys: "dict_keys r = STATUS_RESPONSE_FIELDS"
    by (auto simp: validate_status_response_def split: if_splits)
  then have items: "dict_item r (lit ''mode'') = Inr (dict_get r (lit ''mode''))"
    "dict_item r (lit ''station_ssid'') = Inr (dict_get r (lit ''station_ssid''))"
    by (simp_all add: dict_item_get STATUS_RESPONSE_FIELDS_def)
  obtain mode where mode: "network_mode_of (dict_get r (lit ''mode'')) = Inr mode"
    using assms by (cases "network_mode_of (dict_get r (lit ''mode''))")
      (simp_all add: validate_status_response_def keys items split: if_splits)
  have name: "dict_get r (lit ''station_ssid'') = JNull \<or>
      (\<exists>s. validate_ssid (dict_get r (lit ''station_ssid'')) = Inr s)"
    using assms by (cases "validate_ssid (dict_get r (lit ''station_ssid''))")
      (simp_all add: validate_status_response_def keys items mode split: if_splits)
  have rest: "is_bool (dict_get r (lit ''provisioning_ap_active''))"
      "optional_reason (dict_get r (lit ''last_error''))" "r' = r"
    using assms name by (auto simp: validate_status_response_def keys items mode split: if_splits)
  have m: "dict_get r (lit ''mode'') = JStr (mode_value mode)"
    using mode enum_lookup_InrD unfolding network_mode_of_def by metis
  have "\<exists>name. dict_get r (lit ''station_ssid'') = text_or_null name \<and> (\<forall>s. name = Some s \<longrightarrow> ssid_ok s)"
  proof (cases "dict_get r (lit ''station_ssid'') = JNull")
    case True
    then show ?thesis by (intro exI [of _ None]) (simp add: text_or_null_def)
  next
    case False
    with name obtain s where "validate_ssid (dict_get r (lit ''station_ssid'')) = Inr s" by blast
    from validate_ssid_Inr [OF this] show ?thesis
      by (intro exI [of _ "Some s"]) (simp add: text_or_null_def)
  qed
  then obtain name where "dict_get r (lit ''station_ssid'') = text_or_null name" "\<forall>s. name = Some s \<longrightarrow> ssid_ok s"
    by blast
  then show thesis
    by (rule that [OF rest(3) keys m network_mode_of_value rest(1,2)])
qed

lemma status_model_accepts:
  assumes "validate_status_response r = Inr r'"
  shows "\<exists>m. network_of_status r' = Inr m \<and> shows_status r m"
proof -
  from assms obtain mode name where f: "r' = r" "dict_keys r = STATUS_RESPONSE_FIELDS"
    "dict_get r (lit ''mode'') = JStr (mode_value mode)" "network_mode_of (JStr (mode_value mode)) = Inr mode"
    "is_bool (dict_get r (lit ''provisioning_ap_active''))" "optional_reason (dict_get r (lit ''last_error''))"
    "dict_get r (lit ''station_ssid'') = text_or_null name" "\<forall>s. name = Some s \<longrightarrow> ssid_ok s"
    by (rule status_fields)
  from f(5) obtain active where active: "dict_get r (lit ''provisioning_ap_active'') = JBool active"
    by (cases "dict_get r (lit ''provisioning_ap_active'')") (simp_all add: is_bool_def)
  from f(6) obtain e where e: "optional_text (dict_get r (lit ''last_error'')) = Inr e"
    "dict_get r (lit ''last_error'') = text_or_null e" "optional_within 64 e"
    by (rule optional_text_reason)
  have items: "dict_item r (lit ''mode'') = Inr (JStr (mode_value mode))"
    "dict_item r (lit ''provisioning_ap_active'') = Inr (JBool active)"
    using f(2) active f(3) dict_item_get [of "lit ''mode''" r] dict_item_get [of "lit ''provisioning_ap_active''" r]
    by (simp_all add: STATUS_RESPONSE_FIELDS_def)
  have name: "optional_text (text_or_null name) = Inr name" "optional_within 32 name"
    using f(8) ssid_ok_within
    by (auto simp: optional_text_def text_or_null_def optional_within_def length_within_def split: option.splits)
  have "length MANAGEMENT_INTERFACE \<le> 32" by (simp add: MANAGEMENT_INTERFACE_def)
  then show ?thesis
    using e name f(1,3,4,7) active
    by (simp add: network_of_status_def items is_true_def network_response_model_def shows_status_def
        optional_within_def)
qed

text \<open>An action.\<close>

definition shows_action :: "(pstr \<times> json) list \<Rightarrow> action_response \<Rightarrow> bool" where
  "shows_action r a \<longleftrightarrow>
     dict_get r (lit ''accepted'') = JBool (ar_accepted a) \<and> dict_get r (lit ''mode'') = JStr (mode_value (ar_mode a)) \<and>
     dict_get r (lit ''reason'') = JStr (ar_reason a)"

lemma dict_get_filter: "P k \<Longrightarrow> dict_get (filter (\<lambda>(key, _). P key) d) k = dict_get d k"
  by (induction d) (auto simp: dict_get_def)

lemma action_model_accepts:
  assumes "validate_action_response r = Inr r'"
  shows "\<exists>a. action_of_response r' = Inr a \<and> shows_action r a"
proof -
  let ?own = "\<lambda>key. key \<notin> {lit ''accepted'', lit ''reason''}"
  let ?s = "filter (\<lambda>(key, _). ?own key) r"
  from assms obtain s where s: "validate_status_response ?s = Inr s"
    by (auto simp: validate_action_response_def bindR_Inr_iff)
  from s obtain mode where mode: "dict_get ?s (lit ''mode'') = JStr (mode_value mode)"
    by (rule status_fields)
  then have mode: "dict_get r (lit ''mode'') = JStr (mode_value mode)"
    using dict_get_filter [of ?own "lit ''mode''" r] by simp
  from assms have keys: "dict_keys r = STATUS_RESPONSE_FIELDS \<union> {lit ''accepted'', lit ''reason''}"
    and rest: "is_bool (dict_get r (lit ''accepted''))" "required_reason (dict_get r (lit ''reason''))" "r' = r"
    by (auto simp: validate_action_response_def bindR_Inr_iff split: if_splits)
  obtain a where a: "dict_get r (lit ''accepted'') = JBool a"
    using rest(1) by (cases "dict_get r (lit ''accepted'')") (simp_all add: is_bool_def)
  obtain t where t: "dict_get r (lit ''reason'') = JStr t" "length_within 1 64 t"
    using rest(2) by (cases "dict_get r (lit ''reason'')") (auto simp: required_reason_def length_within_def)
  have items: "dict_item r (lit ''accepted'') = Inr (JBool a)" "dict_item r (lit ''reason'') = Inr (JStr t)"
    "dict_item r (lit ''mode'') = Inr (JStr (mode_value mode))"
    using keys a t mode dict_item_get [of "lit ''mode''" r] dict_item_get [of "lit ''accepted''" r]
      dict_item_get [of "lit ''reason''" r]
    by (simp_all add: STATUS_RESPONSE_FIELDS_def)
  then show ?thesis
    using a t mode rest(3) by (simp add: action_of_response_def action_response_model_def shows_action_def)
qed

section \<open>The endpoints\<close>

lemma client_scan_Inr:
  "client_scan K uid depth c = (Inr r, c') \<Longrightarrow> validate_scan_response r = Inr r"
  by (auto simp: client_scan_def bindE_Inr_iff liftR_def dest: scan_model_accepts)

lemma client_status_Inr:
  "client_status K uid depth c = (Inr r, c') \<Longrightarrow> validate_status_response r = Inr r"
  by (auto simp: client_status_def bindE_Inr_iff liftR_def elim: status_fields)

lemma validate_action_same: "validate_action_response r = Inr r' \<Longrightarrow> r' = r"
  by (auto simp: validate_action_response_def bindR_Inr_iff split: if_splits)

lemma client_action_Inr:
  "client_connect K uid depth name password c = (Inr r, c') \<Longrightarrow> validate_action_response r = Inr r"
  "client_provisioning K uid depth c = (Inr r, c') \<Longrightarrow> validate_action_response r = Inr r"
  by (auto simp: client_connect_def client_provisioning_def bindE_Inr_iff liftR_def dest: validate_action_same)

lemma service_unavailable_run:
  "service_unavailable (bindE m (\<lambda>x. returnE (f x))) c =
     (case m c of
        (Inr x, c') \<Rightarrow> (Inr (f x), c')
      | (Inl e, c') \<Rightarrow> (case e of NetworkdUnavailable code \<Rightarrow> (Inr (http_error 503 code), c') | _ \<Rightarrow> (Inl e, c')))"
  by (auto simp: service_unavailable_def catchE_def bindE_def returnE_def is_unavailable_def
      split: prod.splits sum.splits exn.splits)

text \<open>A body that the model accepts, said without the order of the checks.\<close>

lemma connect_request_ok:
  assumes "connect_request_model body = Inr request"
  shows "ssid_ok (cr_ssid request) \<and> (\<forall>p. cr_password request = Some p \<longrightarrow> password_ok p)"
proof -
  obtain d where body: "body = JObj d"
    using assms by (cases body) (simp_all add: connect_request_model_def)
  obtain name where name: "dict_get d (lit ''ssid'') = JStr name"
    using assms by (cases "dict_get d (lit ''ssid'')") (auto simp: connect_request_model_def body split: if_splits)
  show ?thesis
    using assms
    by (cases "dict_get d (lit ''password'')")
      (auto simp: connect_request_model_def body name bindR_Inr_iff validate_ssid_iff validate_password_iff
        split: if_splits)
qed

lemma connect_request_refused: "connect_request_model body = Inl e \<Longrightarrow> e = validation_error"
proof -
  have "catchR r is_value_error validation_error = Inl e \<Longrightarrow>
      (\<And>e'. r = Inl e' \<Longrightarrow> is_value_error e') \<Longrightarrow> e = validation_error" for r :: "exn + connect_request"
    by (cases r) (auto split: if_splits)
  note caught = this
  have ssid: "validate_ssid (JStr t) = Inl e' \<Longrightarrow> is_value_error e'"
    and password: "validate_password (JStr t) = Inl e' \<Longrightarrow> is_value_error e'" for t e'
    by (auto simp: validate_ssid_str validate_password_str split: if_splits)
  show "connect_request_model body = Inl e \<Longrightarrow> e = validation_error"
    by (auto simp: connect_request_model_def split: json.splits if_splits intro!: caught)
      (auto simp: bindR_Inl_iff dest: ssid password)
qed

text \<open>Where the daemon's address of the management interface is read in full.\<close>

definition address_readable :: "('w, 'x) appliance_scheme \<Rightarrow> bool" where
  "address_readable A \<longleftrightarrow>
     (\<forall>b w r w'. ap_interface_address A b w = (r, w') \<longrightarrow>
        (case r of Inl e \<Rightarrow> is_os_error e | Inr response \<Rightarrow> 24 \<le> length response))"

lemma inet_ntoa_4: "length b = 4 \<Longrightarrow> \<exists>t. inet_ntoa b = Inr t"
  by (auto simp: inet_ntoa_def length_Suc_conv eval_nat_numeral split: list.splits)

lemma ipv4_address_returns:
  assumes "address_readable A"
  obtains a w' where "ipv4_address A MANAGEMENT_INTERFACE w = (Inr a, w')"
proof -
  let ?b = "MANAGEMENT_INTERFACE @ replicate (256 - length MANAGEMENT_INTERFACE) 0"
  have ascii: "\<not> (\<exists>c \<in> set MANAGEMENT_INTERFACE. c \<ge> 128)" "\<not> length MANAGEMENT_INTERFACE > 15"
    by (simp_all add: MANAGEMENT_INTERFACE_def lit_def)
  obtain r w' where r: "ap_interface_address A ?b w = (r, w')" by fastforce
  have answer: "case r of Inl e \<Rightarrow> is_os_error e | Inr response \<Rightarrow> 24 \<le> length response"
    using assms r unfolding address_readable_def by blast
  show thesis
  proof (cases r)
    case (Inl e)
    then have "is_os_error e" using answer by simp
    with r Inl that show thesis
      by (simp add: ipv4_address_def ascii bindE_def catchE_def returnE_def)
  next
    case (Inr response)
    then have "length (take 4 (drop 20 response)) = 4"
      using answer by simp
    from inet_ntoa_4 [OF this] obtain t where "inet_ntoa (take 4 (drop 20 response)) = Inr t" by blast
    with r Inr that show thesis
      by (simp add: ipv4_address_def ascii bindE_def catchE_def returnE_def liftR_def)
  qed
qed

text \<open>The version of the operating system: each part is at most 64 characters.\<close>

lemma os_line_short:
  "\<forall>k v. seen k = Some v \<longrightarrow> length v \<le> 64 \<Longrightarrow> os_line line seen k = Some v \<Longrightarrow> length v \<le> 64"
  by (auto simp: os_line_def py_partition_def split: if_splits)

lemma os_lines_short:
  "\<forall>k v. seen k = Some v \<longrightarrow> length v \<le> 64 \<Longrightarrow> fold os_line ls seen k = Some v \<Longrightarrow> length v \<le> 64"
proof (induction ls arbitrary: seen)
  case (Cons l ls)
  have "\<forall>k v. os_line l seen k = Some v \<longrightarrow> length v \<le> 64"
    using os_line_short [OF Cons.prems(1)] by blast
  from Cons.IH [OF this] Cons.prems(2) show ?case by simp
qed simp

lemma os_identity_bound: "os_identity t = Some v \<Longrightarrow> length v \<le> 129"
proof -
  define seen where "seen = fold os_line (py_splitlines t) Map.empty"
  define given where "given key = (case seen (lit key) of None \<Rightarrow> [] | Some v \<Rightarrow> v)" for key
  have short: "length (given key) \<le> 64" for key
    using os_lines_short [of Map.empty "py_splitlines t" "lit key"]
    by (auto simp: given_def seen_def split: option.splits)
  assume "os_identity t = Some v"
  then have "v = given ''PRETTY_NAME'' \<or>
      v = join_parts (filter (\<lambda>p. p \<noteq> []) [given ''NAME'', given ''VERSION_ID''])"
    by (auto simp: os_identity_def Let_def given_def seen_def split: if_splits option.splits)
  then show "length v \<le> 129"
    using short [of "''PRETTY_NAME''"] short [of "''NAME''"] short [of "''VERSION_ID''"] by auto
qed

text \<open>A stream on which an answer waits.\<close>

definition answered :: "json \<Rightarrow> stream" where
  "answered v = \<lparr>st_segments = [(0, json_dumps True v)], st_clock = 0, st_peer = [0, 0, 0, 0, 0, 0, 0, 0, 0, 0, 0, 0], st_sent = []\<rparr>"

lemma answered_peer: "peer_is (answered v) 0"
  by (simp add: peer_is_def answered_def signed32_def)

lemma answered_request:
  assumes "sends action payload req" "json_plain 9 v" "length (json_dumps True v) \<le> MAX_RESPONSE_BYTES" "0 \<le> t"
  shows "\<exists>c'. client_request client_stream 0 9 action payload t (answered v) = (check_response v, c')"
proof -
  obtain c cs where "json_dumps True v = c # cs" by (rule dumps_head [OF assms(2)])
  then have "answers (answered v) t (json_dumps True v)"
    using assms(4) by (simp add: answers_def answered_def)
  from client_request_receives [OF answered_peer assms(1) _ this assms(4,2,3)] show ?thesis by simp
qed

text \<open>An appliance whose files and clock answer as given.\<close>

definition fixed_appliance :: "bytes \<Rightarrow> 'w appliance" where
  "fixed_appliance os_release =
     \<lparr>ucd_upper = (\<lambda>c. [c]), ucd_casefold = (\<lambda>c. [c]), ucd_decimal = (\<lambda>_. None),
      ap_read = (\<lambda>path n w. if path = lit ''/etc/os-release'' then (Inr (take n os_release), w) else (Inl OSError, w)),
      ap_is_file = (\<lambda>_ w. (Inr True, w)), ap_exists = (\<lambda>_ w. (Inr False, w)),
      ap_utc_now = (\<lambda>w. (Inr (lit ''2026-01-01T00:00:00Z''), w)),
      ap_interface_address = (\<lambda>_ w. (Inl OSError, w)), ap_environ = (\<lambda>_ w. (Inr None, w))\<rparr>"

section \<open>The properties\<close>

text \<open>C26: a scan that the client of the daemon has accepted is shown by the API as it is, with status 200: the models
  refuse none of it and change no value. A refusal of the daemon is a 503 with its code.\<close>

theorem scan_endpoint:
  assumes "client_scan K uid depth c = (x, c')"
  shows "(case x of
      Inr r \<Rightarrow> (\<exists>vs ns. dict_get r (lit ''networks'') = JList vs \<and> list_all2 shows_network vs ns \<and> length ns \<le> 64 \<and>
        get_wifi_networks (pi_provider A K uid depth) c =
          (Inr \<lparr>http_status = 200, http_body = wifi_scan_response_json ns\<rparr>, c'))
    | Inl e \<Rightarrow> (\<forall>code. e = NetworkdUnavailable code \<longrightarrow>
        get_wifi_networks (pi_provider A K uid depth) c = (Inr (http_error 503 code), c')))"
proof (cases x)
  case (Inl e)
  with assms show ?thesis
    by (simp add: get_wifi_networks_def service_unavailable_run pi_provider_def pi_wifi_networks_def bindE_def)
next
  case (Inr r)
  with assms have "validate_scan_response r = Inr r" by (auto intro: client_scan_Inr)
  from scan_model_accepts [OF this] obtain vs ns where ns: "dict_item r (lit ''networks'') = Inr (JList vs)"
    "wifi_scan_response_model (JList vs) = Inr ns" "list_all2 shows_network vs ns" "length ns \<le> 64"
    by blast
  moreover from ns(1) have "dict_get r (lit ''networks'') = JList vs"
    by (auto simp: dict_item_def dict_get_def split: option.splits)
  moreover from ns(1,2) assms Inr have "get_wifi_networks (pi_provider A K uid depth) c =
      (Inr \<lparr>http_status = 200, http_body = wifi_scan_response_json ns\<rparr>, c')"
    by (simp add: get_wifi_networks_def service_unavailable_run pi_provider_def pi_wifi_networks_def bindE_def liftR_def)
  ultimately show ?thesis using Inr by auto
qed

definition one_network :: "access_point list" where
  "one_network = [\<lparr>ap_ssid = lit ''Home'', ap_signal_percent = 70, ap_security = WPA_PERSONAL, ap_connected = False,
    ap_key_management = Some (lit ''wpa-psk'')\<rparr>]"

lemma one_network_ok: "\<forall>ap \<in> set one_network. access_point_ok ap" "length one_network \<le> MAX_NETWORKS"
proof -
  have "ssid_ok (lit ''Home'')"
    by (simp add: ssid_ok_def lit_def is_scalar_def is_surrogate_def utf8_char_def)
  then show "\<forall>ap \<in> set one_network. access_point_ok ap" "length one_network \<le> MAX_NETWORKS"
    by (simp_all add: one_network_def access_point_ok_def MAX_NETWORKS_def)
qed

lemma one_network_scanned:
  "\<exists>c'. client_scan client_stream 0 9 (answered (JObj (scan_response one_network))) = (Inr (scan_response one_network), c')"
proof -
  let ?v = "JObj (scan_response one_network)"
  have "json_plain (Suc (Suc (Suc n))) ?v" for n
    by (simp add: scan_response_def one_network_def network_response_def API_VERSION_def
        nat_digits.simps [of 10 1] nat_digits.simps [of 10 70] nat_digits.simps [of 10 7])
  from this [of 6] have plain: "json_plain 9 ?v" by simp
  have "float_free ?v"
    by (simp add: scan_response_def one_network_def network_response_def API_VERSION_def)
  have "length (json_dumps True ?v) \<le> MAX_RESPONSE_BYTES"
    using scan_response_size [OF one_network_ok, of True] dumps_ascii_length [OF \<open>float_free ?v\<close>] by simp
  from answered_request [OF sends.plain [of SCAN] plain this, of "30 * 10 ^ 9"] obtain c' where
    "client_request client_stream 0 9 SCAN [] (30 * 10 ^ 9) (answered ?v) = (check_response ?v, c')"
    by auto
  moreover have "check_response ?v = Inr (scan_response one_network)"
    by (intro response_checked) (simp_all add: scan_response_def)
  ultimately show ?thesis
    using scan_response_accepted [OF one_network_ok] by (simp add: client_scan_def bindE_def liftR_def)
qed

theorem scan_endpoint_witness:
  "\<exists>ns c'. get_wifi_networks (pi_provider (fixed_appliance []) client_stream 0 9) (answered (JObj (scan_response one_network))) =
    (Inr \<lparr>http_status = 200, http_body = wifi_scan_response_json ns\<rparr>, c') \<and>
    list_all2 shows_network (map network_response one_network) ns"
proof -
  obtain c' where "client_scan client_stream 0 9 (answered (JObj (scan_response one_network))) =
      (Inr (scan_response one_network), c')"
    using one_network_scanned by blast
  from scan_endpoint [OF this, of "fixed_appliance []"] show ?thesis
    by (auto simp: scan_response_def)
qed



text \<open>C29: the name of the operating system is up to 129 characters long, since its two parts are cut to 64 each and
  then joined, but the model of the response admits 64: where it is longer, the endpoint fails
  with an exception that nothing maps, whatever the other observations are.\<close>

theorem long_os_name_fails:
  assumes "os_identification A (lit ''/etc/os-release'') w = (Inr (Some v), w1)" "64 < length v"
    and "temperature_milli A (lit ''/sys/class/thermal/thermal_zone0/temp'') w1 = (Inr t, w2)"
    and "ap_utc_now A w2 = (Inr now, w3)" "ap_is_file A (lit ''/run/systemd/timesync/synchronized'') w3 = (Inr s, w4)"
    and "ap_exists A (lit ''/sys/class/rtc/rtc0'') w4 = (Inr rtc, w5)"
  shows "get_system printed (pi_provider A K uid depth) w = (Inl validation_error, w5)"
  using assms
  by (simp add: get_system_def pi_provider_def pi_system_def bindE_def liftR_def system_response_model_def
      checked_def optional_within_def)


definition long_os_release :: bytes where
  "long_os_release =
     concat (map (\<lambda>l. l @ [10]) [lit ''NAME'' @ 61 # replicate 64 97, lit ''VERSION_ID'' @ 61 # lit ''1'']) @ lit ''#''"

lemma utf8_replace_ascii: "\<forall>b \<in> set bs. b < 128 \<Longrightarrow> utf8_replace bs = bs"
  by (induction bs) (simp_all add: utf8_replace_step_def)

lemma long_os_lines: "py_splitlines long_os_release =
    [lit ''NAME'' @ 61 # replicate 64 97, lit ''VERSION_ID'' @ 61 # lit ''1'', lit ''#'']"
proof -
  have lines: "splitlines_go [] (l @ 10 # rest) = l # splitlines_go [] rest" if "\<forall>c \<in> set l. \<not> is_linebreak c" for l rest
    using splitlines_go_line [OF that, of "[]"] by simp
  have ok: "\<forall>c \<in> set (lit ''NAME'' @ 61 # replicate 64 97). \<not> is_linebreak c"
    "\<forall>c \<in> set (lit ''VERSION_ID'' @ 61 # lit ''1''). \<not> is_linebreak c"
    by (auto simp: lit_def is_linebreak_def)
  have release: "long_os_release =
      (lit ''NAME'' @ 61 # replicate 64 97) @ 10 # (lit ''VERSION_ID'' @ 61 # lit ''1'') @ 10 # lit ''#''"
    by (simp add: long_os_release_def del: replicate.simps)
  have "py_splitlines long_os_release =
      (lit ''NAME'' @ 61 # replicate 64 97) # (lit ''VERSION_ID'' @ 61 # lit ''1'') # splitlines_go [] (lit ''#'')"
    by (simp only: py_splitlines_def release lines [OF ok(1)] lines [OF ok(2)])
  then show ?thesis
    by (simp add: lit_def is_linebreak_def)
qed

lemma long_os_identity: "os_identity long_os_release = Some (replicate 64 97 @ [32, 49])"
proof -
  have fields: "py_partition 61 (lit ''NAME'' @ 61 # replicate 64 97) = (lit ''NAME'', True, replicate 64 97)"
    "py_partition 61 (lit ''VERSION_ID'' @ 61 # lit ''1'') = (lit ''VERSION_ID'', True, lit ''1'')"
    by (rule partition_field; simp add: lit_def)+
  have strip: "py_strip (replicate 64 97) = replicate 64 97"
      "rstrip_by (\<lambda>c. c = 34) (lstrip_by (\<lambda>c. c = 34) (replicate 64 97)) = replicate 64 97"
      "py_strip (lit ''1'') = lit ''1''"
      "rstrip_by (\<lambda>c. c = 34) (lstrip_by (\<lambda>c. c = 34) (lit ''1'')) = lit ''1''"
    unfolding py_strip_def by (rule strip_by_id; simp add: lit_def py_isspace_def)+
  have keys: "lit ''NAME'' \<noteq> lit ''VERSION_ID''" "lit ''PRETTY_NAME'' \<noteq> lit ''NAME''"
    "lit ''PRETTY_NAME'' \<noteq> lit ''VERSION_ID''"
    by (simp_all add: lit_def)
  have rest: "py_partition 61 (lit ''#'') = (lit ''#'', False, [])" "lit ''1'' \<noteq> []" "length (lit ''1'') \<le> 64"
    by (simp_all add: py_partition_def lit_def)
  define name :: pstr where "name = replicate 64 97"
  have name: "length name \<le> 64" "name \<noteq> []" by (simp_all add: name_def)
  have "fold os_line [lit ''NAME'' @ 61 # name, lit ''VERSION_ID'' @ 61 # lit ''1'', lit ''#''] Map.empty =
      [lit ''NAME'' \<mapsto> name, lit ''VERSION_ID'' \<mapsto> lit ''1'']"
    using name(1) by (simp only: fold_simps) (simp add: os_line_def fields [folded name_def] strip [folded name_def] rest)
  then show ?thesis
    using keys name rest
    by (simp add: os_identity_def long_os_lines flip: name_def) (simp add: lit_def)
qed

lemma long_os_read:
  "os_identification (fixed_appliance long_os_release) (lit ''/etc/os-release'') w =
     (Inr (Some (replicate 64 97 @ [32, 49])), w)"
proof -
  have "length long_os_release \<le> 65536"
    by (simp add: long_os_release_def)
  moreover have "utf8_replace long_os_release = long_os_release"
    by (rule utf8_replace_ascii) (auto simp: long_os_release_def lit_def)
  moreover have "py_strip long_os_release = long_os_release"
    unfolding py_strip_def by (rule strip_by_id) (simp add: long_os_release_def lit_def py_isspace_def)
  moreover have "long_os_release \<noteq> []"
    by (simp add: long_os_release_def)
  ultimately show ?thesis
    by (simp add: os_identification_def read_bounded_def fixed_appliance_def bindE_def catchE_def returnE_def
        MAX_LOCAL_FILE_BYTES_def long_os_identity)
qed

theorem long_os_name_fails_witness:
  "get_system (\<lambda>_. JNull) (pi_provider (fixed_appliance long_os_release) client_stream 0 9) (answered JNull) =
     (Inl validation_error, answered JNull)"
proof -
  show ?thesis
    by (rule long_os_name_fails [OF long_os_read, where t = None and s = True and rtc = False])
      (simp_all add: fixed_appliance_def temperature_milli_def read_bounded_def bindE_def catchE_def returnE_def)
qed

end
