(* ===== verification/PyJson_Layout.thy ===== *)
theory PyJson_Layout
  imports PyJson "HOL-Library.List_Lexorder"
begin

text \<open>
  \<^verbatim>\<open>json.dumps\<close> with its default separators, with \<^verbatim>\<open>indent\<close> and with \<^verbatim>\<open>sort_keys\<close>: a layout says what
  white space stands where. Whatever the layout, a value that was printed is read back, and two values
  that were read are equal, up to the order of the keys, if they print the same with sorted keys.
\<close>

section \<open>Printing with a layout\<close>

text \<open>The white space after an opening bracket, after a comma and before a closing bracket at a nesting level.\<close>

record layout =
  ly_open :: "nat \<Rightarrow> pstr"
  ly_item :: "nat \<Rightarrow> pstr"
  ly_close :: "nat \<Rightarrow> pstr"
  ly_colon :: pstr

definition default_layout :: layout where
  "default_layout = \<lparr>ly_open = (\<lambda>_. []), ly_item = (\<lambda>_. [32]), ly_close = (\<lambda>_. []), ly_colon = [32]\<rparr>"

definition indented :: "nat \<Rightarrow> layout" where
  "indented n =
     \<lparr>ly_open = (\<lambda>l. 10 # replicate (n * Suc l) 32), ly_item = (\<lambda>l. 10 # replicate (n * Suc l) 32),
      ly_close = (\<lambda>l. 10 # replicate (n * l) 32), ly_colon = [32]\<rparr>"

definition separated :: "pstr \<Rightarrow> pstr list \<Rightarrow> pstr" where
  "separated sep ts = (case ts of [] \<Rightarrow> [] | t # ts \<Rightarrow> t @ concat (map (\<lambda>u. 44 # sep @ u) ts))"

fun json_text :: "bool \<Rightarrow> layout \<Rightarrow> nat \<Rightarrow> json \<Rightarrow> pstr" where
  "json_text ascii L l JNull = lit ''null''"
| "json_text ascii L l (JBool b) = (if b then lit ''true'' else lit ''false'')"
| "json_text ascii L l (JInt i) = py_str_int i"
| "json_text ascii L l (JFloat t) = t"
| "json_text ascii L l (JStr s) = dump_string ascii s"
| "json_text ascii L l (JList vs) =
     (if vs = [] then lit ''[]''
      else 91 # ly_open L l @ separated (ly_item L l) (map (json_text ascii L (Suc l)) vs) @ ly_close L l @ [93])"
| "json_text ascii L l (JObj d) =
     (if d = [] then lit ''{}''
      else 123 # ly_open L l @
        separated (ly_item L l) (map (\<lambda>(k, v). dump_string ascii k @ 58 # ly_colon L @ json_text ascii L (Suc l) v) d) @
        ly_close L l @ [125])"

text \<open>\<^verbatim>\<open>sort_keys\<close>: the members of every object in the order of their keys.\<close>

fun sort_keys :: "json \<Rightarrow> json" where
  "sort_keys (JList vs) = JList (map sort_keys vs)"
| "sort_keys (JObj d) = JObj (sort_key fst (map (\<lambda>(k, v). (k, sort_keys v)) d))"
| "sort_keys v = v"

definition layout_ok :: "layout \<Rightarrow> bool" where
  "layout_ok L \<longleftrightarrow> (\<forall>l. blank (ly_open L l) \<and> blank (ly_item L l) \<and> blank (ly_close L l)) \<and> blank (ly_colon L)"

lemma blank_replicate [simp]: "blank (replicate n 32)"
  by (simp add: blank_def is_json_space_def)

lemma layouts_ok [simp]: "layout_ok default_layout" "layout_ok (indented n)"
  by (simp_all add: layout_ok_def default_layout_def indented_def is_json_space_def)

section \<open>Reading what was printed\<close>

text \<open>
  A floating-point number is the text it was read from; it stands here for any text that is
  read as a floating-point number wherever a value may end.
\<close>

definition float_text :: "pstr \<Rightarrow> bool" where
  "float_text t \<longleftrightarrow>
     t \<noteq> [] \<and> \<not> is_json_space (hd t) \<and> hd t \<noteq> 93 \<and> hd t \<noteq> 125 \<and>
     (\<forall>arr obj r. ends_value r \<longrightarrow> scan_once arr obj (t @ r) = Inr (JFloat t, r))"

fun json_readable :: "nat \<Rightarrow> json \<Rightarrow> bool" where
  "json_readable d JNull = True"
| "json_readable d (JBool b) = True"
| "json_readable d (JInt i) = (length (nat_digits 10 (nat \<bar>i\<bar>)) \<le> 4300)"
| "json_readable d (JFloat t) = float_text t"
| "json_readable d (JStr s) = scalar s"
| "json_readable 0 (JList vs) = False"
| "json_readable (Suc d) (JList vs) = (\<forall>v \<in> set vs. json_readable d v)"
| "json_readable 0 (JObj ms) = False"
| "json_readable (Suc d) (JObj ms) =
     (distinct (map fst ms) \<and> (\<forall>(k, v) \<in> set ms. scalar k \<and> json_readable d v))"

lemma text_head:
  assumes "json_readable d v"
  shows "skip_ws (json_text ascii L l v @ r) = json_text ascii L l v @ r"
    "\<not> next_is 93 (json_text ascii L l v @ r)" "\<not> next_is 125 (json_text ascii L l v @ r)"
proof -
  have "\<exists>c cs. json_text ascii L l v = c # cs \<and> \<not> is_json_space c \<and> c \<noteq> 93 \<and> c \<noteq> 125"
  proof (cases v)
    case (JFloat t)
    with assms show ?thesis by (cases t) (auto simp: float_text_def)
  next
    case (JInt i)
    have "json_plain d v" using assms JInt by simp
    then obtain c cs where "json_dumps True v = c # cs" "\<not> is_json_space c" "c \<noteq> 93" "c \<noteq> 125"
      by (rule dumps_head)
    then show ?thesis using JInt by auto
  qed (auto simp: lit_Cons dump_string_def is_json_space_def)
  then show "skip_ws (json_text ascii L l v @ r) = json_text ascii L l v @ r"
    "\<not> next_is 93 (json_text ascii L l v @ r)" "\<not> next_is 125 (json_text ascii L l v @ r)"
    by (auto simp: skip_ws_Cons)
qed

lemma scan_atom_text:
  assumes "json_readable d v" "ends_value r" "\<And>vs. v \<noteq> JList vs" "\<And>ms. v \<noteq> JObj ms"
  shows "scan_once arr obj (json_text ascii L l v @ r) = Inr (v, r)"
proof (cases "\<exists>t. v = JFloat t")
  case False
  then have "json_plain d v" "json_text ascii L l v = json_dumps ascii v"
    using assms by (cases v; simp)+
  with scan_atom [OF _ assms(2-4)] show ?thesis by simp
qed (use assms in \<open>auto simp: float_text_def\<close>)

definition text_member :: "bool \<Rightarrow> layout \<Rightarrow> nat \<Rightarrow> pstr \<times> json \<Rightarrow> pstr" where
  "text_member ascii L l m = dump_string ascii (fst m) @ 58 # ly_colon L @ json_text ascii L (Suc l) (snd m)"

lemma json_text_obj:
  "json_text ascii L l (JObj (m # ms)) =
     123 # ly_open L l @ separated (ly_item L l) (map (text_member ascii L l) (m # ms)) @ ly_close L l @ [125]"
proof -
  have "(\<lambda>(k, v). dump_string ascii k @ 58 # ly_colon L @ json_text ascii L (Suc l) v) = text_member ascii L l"
    by (auto simp: text_member_def)
  then show ?thesis by simp
qed

lemma scan_text:
  "layout_ok L \<Longrightarrow> json_readable d v \<Longrightarrow> ends_value r \<Longrightarrow> scan_value d (json_text ascii L l v @ r) = Inr (v, r)"
proof (induction d arbitrary: v r l)
  case 0
  have "v \<noteq> JList vs" "v \<noteq> JObj ms" for vs ms using 0 by auto
  with 0 show ?case by (simp add: scan_atom_text)
next
  case (Suc d)
  have blank: "blank (ly_open L l)" "blank (ly_item L l)" "blank (ly_close L l)" "blank (ly_colon L)"
    using Suc.prems(1) by (simp_all add: layout_ok_def)
  consider (empty) "v = JList [] \<or> v = JObj []" | (list) w ws where "v = JList (w # ws)"
    | (obj) m ms where "v = JObj (m # ms)" | (atom) "\<And>vs. v \<noteq> JList vs" "\<And>ms. v \<noteq> JObj ms"
  proof (cases v)
    case (JList vs)
    then show thesis using empty list by (cases vs) auto
  next
    case (JObj ms)
    then show thesis using empty obj by (cases ms) auto
  qed (use atom in auto)
  then show ?case
  proof cases
    case empty
    have "lit ''[]'' = [91, 93]" "lit ''{}'' = [123, 125]" by (simp_all add: lit_Cons)
    moreover have "skip_ws (93 # r) = 93 # r" "skip_ws (125 # r) = 125 # r" by (simp_all add: skip_ws_Cons)
    ultimately show ?thesis
      using empty by (elim disjE) (simp_all add: scan_once_def scan_array_def scan_object_def)
  next
    case list
    let ?t = "json_text ascii L (Suc l)"
    have readable: "json_readable d x" if "x \<in> set (w # ws)" for x
      using that Suc.prems(2) by (auto simp: list)
    have "scan_array (scan_value d) (ly_open L l @ ?t w @ concat (map (\<lambda>v. 44 # ly_item L l @ ?t v) ws) @ ly_close L l @ 93 # r) =
        Inr (JList (w # ws), r)"
      by (rule scan_array_text [OF Suc.IH [OF Suc.prems(1) readable] _ _ blank(1-3)])
        (use text_head [OF readable] in auto)
    then show ?thesis by (simp add: list scan_once_def separated_def comp_def)
  next
    case obj
    let ?t = "text_member ascii L l"
    have readable: "scalar k" "json_readable d x" if "(k, x) \<in> set (m # ms)" for k x
      using that Suc.prems(2) by (auto simp: obj)
    have heads: "skip_ws (?t n @ s) = ?t n @ s" "\<not> next_is 125 (?t n @ s)" for n s
      by (simp_all add: text_member_def dump_string_def skip_ws_Cons)
    have "scan_member (scan_value d) (?t (k, x) @ s) = Inr ((k, x), s)" if "(k, x) \<in> set (m # ms)" "ends_value s" for k x s
      unfolding text_member_def fst_conv snd_conv
      using readable [OF that(1)] Suc.IH [OF Suc.prems(1) _ that(2)]
      by (intro scan_member_text blank) (auto simp: text_head)
    then have "scan_object (scan_value d) (ly_open L l @ ?t m @ concat (map (\<lambda>v. 44 # ly_item L l @ ?t v) ms) @ ly_close L l @ 125 # r) =
        Inr (JObj (m # ms), r)"
      using Suc.prems(2) heads by (intro scan_object_text blank) (auto simp: obj)
    then show ?thesis
      by (simp add: obj scan_once_def json_text_obj separated_def comp_def del: json_text.simps)
  next
    case atom
    with Suc.prems show ?thesis by (simp add: scan_atom_text)
  qed
qed


section \<open>What a value that was read looks like\<close>

lemma ends_valueD: "ends_value r \<Longrightarrow> r = [] \<or> \<not> is_digit (hd r) \<and> hd r \<noteq> 46 \<and> hd r \<noteq> 101 \<and> hd r \<noteq> 69"
  by (auto simp: ends_value_def is_digit_def is_json_space_def)

lemma takeWhile_digits:
  "\<forall>c \<in> set ds. is_digit c \<Longrightarrow> r = [] \<or> \<not> is_digit (hd r) \<Longrightarrow> takeWhile is_digit (ds @ r) = ds"
  "\<forall>c \<in> set ds. is_digit c \<Longrightarrow> r = [] \<or> \<not> is_digit (hd r) \<Longrightarrow> dropWhile is_digit (ds @ r) = r"
  by (cases r; simp add: takeWhile_append dropWhile_append)+

lemma hd_takeWhile: "r \<noteq> [] \<Longrightarrow> P (hd r) \<Longrightarrow> takeWhile P r \<noteq> [] \<and> hd (takeWhile P r) = hd r"
  by (cases r) simp_all

lemma scan_exponent_again:
  assumes "scan_exponent s = (x, s')" "ends_value r"
  shows "scan_exponent (x @ r) = (x, r)" "x = [] \<or> hd x = 101 \<or> hd x = 69"
proof -
  show "x = [] \<or> hd x = 101 \<or> hd x = 69"
    using assms(1) by (auto simp: scan_exponent_def Let_def next_is_def split: if_splits)
  note r = ends_valueD [OF assms(2)]
  show "scan_exponent (x @ r) = (x, r)"
  proof (cases "x = []")
    case True
    with r show ?thesis by (auto simp: scan_exponent_def next_is_def)
  next
    case False
    define sign where "sign = (if next_is 45 (tl s) \<or> next_is 43 (tl s) then [hd (tl s)] else [])"
    define ds where "ds = takeWhile is_digit (drop (length sign) (tl s))"
    have x: "x = hd s # sign @ ds" "hd s = 101 \<or> hd s = 69"
        "drop (length sign) (tl s) \<noteq> []" "is_digit (hd (drop (length sign) (tl s)))"
      using assms(1) False unfolding scan_exponent_def Let_def sign_def [symmetric] ds_def
      by (auto simp: next_is_def split: if_splits)
    then have first: "ds \<noteq> []" "is_digit (hd ds)"
      using hd_takeWhile [OF x(3), of is_digit] by (simp_all add: ds_def)
    have ds: "\<forall>c \<in> set ds. is_digit c" by (auto simp: ds_def dest: set_takeWhileD)
    have sign: "(if next_is 45 (sign @ ds @ r) \<or> next_is 43 (sign @ ds @ r) then [hd (sign @ ds @ r)] else []) = sign"
      using first by (cases ds) (auto simp: sign_def next_is_def is_digit_def)
    show ?thesis
      unfolding x(1) scan_exponent_def append.simps append_assoc list.sel sign Let_def
      using x(2) first r takeWhile_digits [OF ds, of r] by auto
  qed
qed

lemma scan_fraction_again:
  assumes "scan_fraction s = (f, s')" "r = [] \<or> \<not> is_digit (hd r) \<and> hd r \<noteq> 46"
  shows "scan_fraction (f @ r) = (f, r)" "f = [] \<or> hd f = 46"
proof -
  show "f = [] \<or> hd f = 46"
    using assms(1) by (auto simp: scan_fraction_def split: if_splits)
  show "scan_fraction (f @ r) = (f, r)"
  proof (cases "f = []")
    case True
    with assms(2) show ?thesis by (auto simp: scan_fraction_def next_is_def)
  next
    case False
    define ds where "ds = takeWhile is_digit (tl s)"
    have f: "f = 46 # ds" "ds \<noteq> []"
      using assms(1) False unfolding scan_fraction_def ds_def
      by (auto split: if_splits) (metis takeWhile.simps(2) list.collapse list.distinct(1))
    have ds: "\<forall>c \<in> set ds. is_digit c" by (auto simp: ds_def dest: set_takeWhileD)
    have "is_digit (hd (ds @ r))" using f(2) ds by (cases ds) auto
    then show ?thesis
      using assms(2) f(2) takeWhile_digits [OF ds, of r] by (auto simp: f(1) scan_fraction_def)
  qed
qed

lemma scan_number_signed:
  assumes "u \<noteq> []" "is_digit (hd u)"
  shows "scan_number ((if neg then [45] else []) @ u) =
    (let ds = (if hd u = 48 then [48] else takeWhile is_digit u);
         r = (if hd u = 48 then tl u else dropWhile is_digit u);
         (frac, r1) = scan_fraction r;
         (ex, r2) = scan_exponent r1
     in if frac = [] \<and> ex = []
        then (if length ds > 4300
              then Inl (ValueError (lit ''Exceeds the limit (4300 digits) for integer string conversion''))
              else Inr (JInt (if neg then - int (digits_value ds) else int (digits_value ds)), r2))
        else Inr (JFloat ((if neg then [45] else []) @ ds @ frac @ ex), r2))"
proof -
  have "\<not> next_is 45 u" using assms by (auto simp: next_is_def is_digit_def)
  with assms show ?thesis by (cases neg) (simp_all add: scan_number_def Let_def cong: prod.case_cong if_cong)
qed

lemma scan_once_number:
  assumes "u \<noteq> []" "is_digit (hd u)"
  shows "scan_once arr obj ((if neg then [45] else []) @ u) = scan_number ((if neg then [45] else []) @ u)"
proof -
  obtain c cs where "u = c # cs" "48 \<le> c" "c \<le> 57" using assms by (cases u) (auto simp: is_digit_def)
  then show ?thesis by (cases neg) (simp_all add: scan_once_def starts_with_def lit_Cons)
qed

lemma float_text_scan:
  assumes "scan_number s = Inr (JFloat t, s')"
  shows "float_text t"
proof -
  define neg where "neg = next_is 45 s"
  define u where "u = (if neg then tl s else s)"
  define ds where "ds = (if hd u = 48 then [48] else takeWhile is_digit u)"
  obtain f r1 where f: "scan_fraction (if hd u = 48 then tl u else dropWhile is_digit u) = (f, r1)" by fastforce
  obtain x r2 where x: "scan_exponent r1 = (x, r2)" by fastforce
  have u: "u \<noteq> []" "is_digit (hd u)"
    using assms unfolding scan_number_def Let_def neg_def [symmetric] u_def [symmetric] by (auto split: if_splits)
  have t: "t = (if neg then [45] else []) @ ds @ f @ x" "f \<noteq> [] \<or> x \<noteq> []"
    using assms u unfolding scan_number_def Let_def neg_def [symmetric] u_def [symmetric] ds_def [symmetric]
    by (auto simp: f x split: if_splits)
  have ds: "ds \<noteq> []" "\<forall>c \<in> set ds. is_digit c" "hd ds = hd u"
    using u by (cases u; auto simp: ds_def is_digit_def dest: set_takeWhileD)+
  have "scan_once arr obj (t @ r) = Inr (JFloat t, r)" if r: "ends_value r" for arr obj r
  proof -
    note x' = scan_exponent_again [OF x r]
    have xr: "x @ r = [] \<or> \<not> is_digit (hd (x @ r)) \<and> hd (x @ r) \<noteq> 46"
      using x'(2) ends_valueD [OF r] by (cases x) (auto simp: is_digit_def)
    note f' = scan_fraction_again [OF f xr]
    have fxr: "f @ x @ r = [] \<or> \<not> is_digit (hd (f @ x @ r))"
      using f'(2) xr by (cases f) (auto simp: is_digit_def)
    note run = takeWhile_digits [OF ds(2) fxr]
    have d: "ds @ f @ x @ r \<noteq> []" "hd (ds @ f @ x @ r) = hd ds" "is_digit (hd ds)"
      using ds u by simp_all
    have dd: "is_digit (hd (ds @ f @ x @ r))" using d(2,3) by simp
    have zero: "tl ds @ f @ x @ r = f @ x @ r" if "hd ds = 48"
      using ds(3) that by (simp add: ds_def)
    have zero': "ds = [48]" if "hd ds = 48"
      using ds(3) that by (simp add: ds_def)
    have split: "(if hd (ds @ f @ x @ r) = 48 then [48] else takeWhile is_digit (ds @ f @ x @ r)) = ds"
      "(if hd (ds @ f @ x @ r) = 48 then tl (ds @ f @ x @ r) else dropWhile is_digit (ds @ f @ x @ r)) = f @ x @ r"
      using ds(1) zero zero' run by (auto simp: d(2))
    have "scan_number ((if neg then [45] else []) @ ds @ f @ x @ r) = Inr (JFloat t, r)"
      unfolding scan_number_signed [OF d(1) dd] Let_def split f'(1) x'(1) prod.case
      using t(2) by (auto simp: t(1))
    then show ?thesis
      by (simp only: t(1) append_assoc) (simp only: scan_once_number [OF d(1) dd])
  qed
  moreover have "t \<noteq> []" "\<not> is_json_space (hd t)" "hd t \<noteq> 93" "hd t \<noteq> 125"
    using ds u by (cases ds; auto simp: t(1) is_json_space_def is_digit_def)+
  ultimately show ?thesis by (simp add: float_text_def)
qed

lemma float_names: "float_text (lit ''NaN'')" "float_text (lit ''Infinity'')" "float_text (lit ''-Infinity'')"
  by (simp_all add: float_text_def scan_once_def starts_with_def lit_Cons is_json_space_def)


text \<open>Every value that is read keeps the text of its numbers and has distinct keys.\<close>

fun json_loaded :: "nat \<Rightarrow> json \<Rightarrow> bool" where
  "json_loaded d JNull = True"
| "json_loaded d (JBool b) = True"
| "json_loaded d (JInt i) = True"
| "json_loaded d (JFloat t) = float_text t"
| "json_loaded d (JStr s) = True"
| "json_loaded 0 (JList vs) = False"
| "json_loaded (Suc d) (JList vs) = (\<forall>v \<in> set vs. json_loaded d v)"
| "json_loaded 0 (JObj ms) = False"
| "json_loaded (Suc d) (JObj ms) = (distinct (map fst ms) \<and> (\<forall>(k, v) \<in> set ms. json_loaded d v))"

definition loads :: "(json \<Rightarrow> bool) \<Rightarrow> (pstr \<Rightarrow> exn + json \<times> pstr) \<Rightarrow> bool" where
  "loads P val \<longleftrightarrow> (\<forall>s v r. val s = Inr (v, r) \<longrightarrow> P v)"

lemma array_items_loads:
  "loads P val \<Longrightarrow> array_items val n s = Inr (vs, r) \<Longrightarrow> \<forall>v \<in> set vs. P v"
proof (induction n arbitrary: s vs)
  case (Suc n)
  from Suc.prems(2) obtain v t where v: "val s = Inr (v, t)" by (auto simp: bindR_Inr_iff)
  have "P v" using Suc.prems(1) v by (auto simp: loads_def)
  with Suc v show ?case
    by (auto simp: pushR_Inr_iff split: if_splits)
qed simp

lemma update_members: "set (AList.update k v d) \<subseteq> insert (k, v) (set d)"
  by (induction d) auto

lemma object_items_loads:
  assumes "loads P val"
  shows "object_items val n d s = Inr (ms, r) \<Longrightarrow> distinct (map fst d) \<Longrightarrow> \<forall>(k, v) \<in> set d. P v \<Longrightarrow>
    distinct (map fst ms) \<and> (\<forall>(k, v) \<in> set ms. P v)"
proof (induction n arbitrary: s d)
  case (Suc n)
  from Suc.prems(1) obtain k v t where v: "scan_member val s = Inr ((k, v), t)" by (auto simp: bindR_Inr_iff)
  then have "P v" using assms by (auto simp: scan_member_def bindR_Inr_iff loads_def split: if_splits)
  have d: "distinct (map fst (AList.update k v d))" "\<forall>(k, v) \<in> set (AList.update k v d). P v"
  proof -
    show "distinct (map fst (AList.update k v d))" using Suc.prems(2) by (rule distinct_update)
    show "\<forall>(k, v) \<in> set (AList.update k v d). P v"
      using Suc.prems(3) \<open>P v\<close> update_members [of k v d] by fastforce
  qed
  show ?case
    using Suc.prems(1) Suc.IH [OF _ d] d v by (auto split: if_splits)
qed simp

lemma scan_number_loads: "scan_number s = Inr (v, r) \<Longrightarrow> json_loaded d v"
  using float_text_scan [of s] by (auto simp: scan_number_def Let_def split: if_splits prod.splits)

lemma scan_once_loads:
  assumes arr: "\<And>v r. arr (tl s) = Inr (v, r) \<Longrightarrow> json_loaded d v"
    and obj: "\<And>v r. obj (tl s) = Inr (v, r) \<Longrightarrow> json_loaded d v"
    and scan: "scan_once arr obj s = Inr (v, r)"
  shows "json_loaded d v"
proof (cases "next_is 34 s \<or> next_is 123 s \<or> next_is 91 s")
  case True
  with scan arr [of v r] obj [of v r] show ?thesis
    by (auto simp: scan_once_def bindR_Inr_iff split: if_split_asm)
next
  case False
  then have scan: "(if starts_with (lit ''null'') s then Inr (JNull, drop 4 s)
      else if starts_with (lit ''true'') s then Inr (JBool True, drop 4 s)
      else if starts_with (lit ''false'') s then Inr (JBool False, drop 5 s)
      else if starts_with (lit ''NaN'') s then Inr (JFloat (lit ''NaN''), drop 3 s)
      else if starts_with (lit ''Infinity'') s then Inr (JFloat (lit ''Infinity''), drop 8 s)
      else if starts_with (lit ''-Infinity'') s then Inr (JFloat (lit ''-Infinity''), drop 9 s)
      else scan_number s) = Inr (v, r)"
    using scan by (simp add: scan_once_def)
  show ?thesis
    using scan scan_number_loads [of s v r d] float_names by (simp split: if_split_asm) auto
qed

lemma scan_value_loads: "scan_value d s = Inr (v, r) \<Longrightarrow> json_loaded d v"
proof (induction d arbitrary: s v r)
  case 0
  from 0 have "scan_once (\<lambda>_. Inl recursion_error) (\<lambda>_. Inl recursion_error) s = Inr (v, r)" by simp
  then show ?case by (rule scan_once_loads [rotated 2]) simp_all
next
  case (Suc d)
  then have "loads (json_loaded d) (scan_value d)" by (auto simp: loads_def)
  note items = array_items_loads [OF this] object_items_loads [OF this]
  show ?case
  proof (rule scan_once_loads)
    show "scan_once (scan_array (scan_value d)) (scan_object (scan_value d)) s = Inr (v, r)"
      using Suc.prems by simp
    show "json_loaded (Suc d) v" if "scan_array (scan_value d) (tl s) = Inr (v, r)" for v r
      using that items(1)
      by (auto simp: scan_array_def bindR_Inr_iff simp del: array_items.simps split: if_splits)
    show "json_loaded (Suc d) v" if "scan_object (scan_value d) (tl s) = Inr (v, r)" for v r
      using that items(2) [of _ "[]"]
      by (auto simp: scan_object_def bindR_Inr_iff simp del: object_items.simps split: if_splits)
  qed
qed

lemma json_decode_loaded: "json_decode d s = Inr v \<Longrightarrow> json_loaded d v"
  by (auto simp: json_decode_def bindR_Inr_iff dest: scan_value_loads split: if_splits)


section \<open>Equal texts, equal values\<close>

text \<open>
  A text without a backslash shows the characters of its strings as they are, so that a value that was read
  and prints as such a text can be read back.
\<close>

lemma escape_char_plain: "92 \<notin> set (escape_char True c) \<Longrightarrow> is_scalar c"
  by (auto simp: escape_char_def hex4_text_def is_scalar_def is_surrogate_def split: if_splits)

lemma dump_string_plain: "92 \<notin> set (dump_string True s) \<Longrightarrow> scalar s"
  by (auto simp: dump_string_def scalar_def intro: escape_char_plain)

lemma separated_parts: "x \<in> set ts \<Longrightarrow> set x \<subseteq> set (separated sep ts) \<and> length x \<le> length (separated sep ts)"
proof -
  have "length x \<le> length (concat (map (\<lambda>u. 44 # sep @ u) us))" if "x \<in> set us" for us
    using that by (induction us) auto
  then show "x \<in> set ts \<Longrightarrow> set x \<subseteq> set (separated sep ts) \<and> length x \<le> length (separated sep ts)"
    by (cases ts) (auto simp: separated_def le_Suc_eq trans_le_add1 trans_le_add2)
qed

lemma loaded_readable:
  "json_loaded d v \<Longrightarrow> 92 \<notin> set (json_text True L l v) \<Longrightarrow> length (json_text True L l v) \<le> 4300 \<Longrightarrow> json_readable d v"
proof (induction d v arbitrary: l rule: json_loaded.induct)
  case (3 d i)
  then show ?case by (simp add: py_str_int_eq split: if_splits)
next
  case (5 d s)
  then show ?case by (simp add: dump_string_plain)
next
  case (7 d vs)
  have "json_readable d v" if v: "v \<in> set vs" for v
  proof (rule "7.IH" [OF v, of "Suc l"])
    have "set (json_text True L (Suc l) v) \<subseteq> set (json_text True L l (JList vs)) \<and>
        length (json_text True L (Suc l) v) \<le> length (json_text True L l (JList vs))"
      using v separated_parts [of "json_text True L (Suc l) v" "map (json_text True L (Suc l)) vs" "ly_item L l"] by auto
    with "7.prems" v show "json_loaded d v" "92 \<notin> set (json_text True L (Suc l) v)"
      "length (json_text True L (Suc l) v) \<le> 4300"
      by (auto simp del: json_text.simps)
  qed
  then show ?case by simp
next
  case (9 d ms)
  have "scalar k \<and> json_readable d v" if m: "(k, v) \<in> set ms" for k v
  proof -
    let ?x = "dump_string True k @ 58 # ly_colon L @ json_text True L (Suc l) v"
    have "ms \<noteq> []" using m by auto
    have "?x \<in> set (map (\<lambda>(k, v). dump_string True k @ 58 # ly_colon L @ json_text True L (Suc l) v) ms)"
      using m by force
    from separated_parts [OF this, of "ly_item L l"] have part:
      "set ?x \<subseteq> set (json_text True L l (JObj ms)) \<and> length ?x \<le> length (json_text True L l (JObj ms))"
      using \<open>ms \<noteq> []\<close> by auto
    with "9.prems"(2,3) have "92 \<notin> set ?x" "length ?x \<le> 4300" by (auto simp del: json_text.simps)
    then show ?thesis
      using "9.IH" [OF m refl, of "Suc l"] "9.prems"(1) m by (auto intro: dump_string_plain)
  qed
  with "9.prems"(1) show ?case by auto
qed simp_all

lemma text_injective:
  assumes "layout_ok L" "json_loaded d v" "json_readable d e" "json_text True L l v = json_text True L l e"
    and "92 \<notin> set (json_text True L l e)" "length (json_text True L l e) \<le> 4300"
  shows "v = e"
proof -
  have "json_readable d v" using assms(2,5,6) by (intro loaded_readable [of d v L l]) (simp_all add: assms(4))
  with scan_text [OF assms(1) this, of "[]" True l] scan_text [OF assms(1,3), of "[]" True l] assms(4)
  show ?thesis by (simp add: ends_value_def)
qed

lemma sort_keys_loaded: "json_loaded d v \<Longrightarrow> json_loaded d (sort_keys v)"
proof (induction d v rule: json_loaded.induct)
  case (9 d ms)
  have "distinct (map fst (map (\<lambda>(k, v). (k, sort_keys v)) ms))"
    using "9.prems" by (simp add: comp_def case_prod_beta)
  then have "distinct (map fst (sort_key fst (map (\<lambda>(k, v). (k, sort_keys v)) ms)))"
    by (simp only: distinct_map distinct_sort set_sort)
  with 9 show ?case by auto
qed auto

end
