(* ===== verification/Model_Store.thy ===== *)
theory Model_Store
  imports PyJson_Layout Protocol
begin

text \<open>
  The store of inference models, \<^verbatim>\<open>scripts/rave_model.py\<close>: the one manifest it accepts, the validation of an
  artifact by its digest, and the commands that publish a version and move the two pointers
  \<^verbatim>\<open>current\<close> and \<^verbatim>\<open>known-good\<close>. The file system and SHA-256 are a parameter, \<open>files\<close>; every operation on
  it may raise. What is printed is left out.
\<close>

unbundle bit_operations_syntax

section \<open>Files\<close>

text \<open>A path is the list of its components; \<^verbatim>\<open>directory / name\<close> adds one.\<close>

type_synonym path = "pstr list"

datatype file_kind = RegularFile | DirectoryFile | SymbolicLink | SpecialFile

record file_stat =
  fs_kind :: file_kind
  fs_perm :: nat
  fs_uid :: int

text \<open>
  The calls, by what they do: \<open>fl_open\<close> opens a file for reading and gives what reading to its end gives,
  \<open>fl_open_lock\<close> opens the lock file, \<open>fl_mkdtemp\<close> and \<open>fl_rmtree\<close> are the entry and the exit of
  \<^verbatim>\<open>tempfile.TemporaryDirectory\<close>.
\<close>

record 'w files =
  fl_sha256 :: "bytes \<Rightarrow> bytes"
  fl_lstat :: "path \<Rightarrow> ('w, file_stat) io"
  fl_open :: "path \<Rightarrow> ('w, bytes) io"
  fl_readlink :: "path \<Rightarrow> ('w, pstr) io"
  fl_listdir :: "path \<Rightarrow> ('w, pstr list) io"
  fl_geteuid :: "('w, int) io"
  fl_open_lock :: "path \<Rightarrow> ('w, nat) io"
  fl_flock :: "nat \<Rightarrow> ('w, unit) io"
  fl_open_fd :: "path \<Rightarrow> ('w, nat) io"
  fl_fsync :: "nat \<Rightarrow> ('w, unit) io"
  fl_close :: "nat \<Rightarrow> ('w, unit) io"
  fl_mkdtemp :: "pstr \<Rightarrow> path \<Rightarrow> ('w, path) io"
  fl_rmtree :: "path \<Rightarrow> ('w, unit) io"
  fl_copyfile :: "path \<Rightarrow> path \<Rightarrow> ('w, unit) io"
  fl_write :: "path \<Rightarrow> bytes \<Rightarrow> ('w, unit) io"
  fl_chmod :: "path \<Rightarrow> nat \<Rightarrow> ('w, unit) io"
  fl_rename :: "path \<Rightarrow> path \<Rightarrow> ('w, unit) io"
  fl_replace :: "path \<Rightarrow> path \<Rightarrow> ('w, unit) io"
  fl_symlink :: "path \<Rightarrow> pstr \<Rightarrow> ('w, unit) io"

section \<open>The manifest\<close>

definition STORE :: path where
  "STORE = [lit ''opt'', lit ''rave'', lit ''models'']"

definition MODEL_ID :: pstr where "MODEL_ID = lit ''RAVE-2026.09.02-001''"
definition ARTIFACT :: pstr where "ARTIFACT = lit ''rave_yolo26n_960.hef''"

definition ARTIFACT_SHA256 :: pstr where
  "ARTIFACT_SHA256 = lit ''913053bb96815b16b79093924ed563844f8edbc02ef6d40129a290eff3e32aea''"

definition SELECTED :: "(pstr \<times> json) list" where
  "SELECTED =
     [(lit ''schema_version'', JInt 1),
      (lit ''model_id'', JStr MODEL_ID),
      (lit ''artifact'', JStr ARTIFACT),
      (lit ''sha256'', JStr ARTIFACT_SHA256),
      (lit ''accelerator'', JStr (lit ''hailo8'')),
      (lit ''hailort'', JStr (lit ''4.23.0'')),
      (lit ''input'', JObj [(lit ''width'', JInt 960), (lit ''height'', JInt 960),
                            (lit ''dtype'', JStr (lit ''UINT8'')), (lit ''layout'', JStr (lit ''NHWC''))]),
      (lit ''classes'', JList [JStr (lit ''vehicle''), JStr (lit ''motorcycle'')]),
      (lit ''output_abi'', JNull)]"

text \<open>
  \<^verbatim>\<open>json.dumps(value, sort_keys=True)\<close>. A floating-point number is kept as the text it was read from,
  which \<^verbatim>\<open>dumps\<close> would normalise; either text has a point, an exponent or a name, and no
  such number is expected anywhere, so that the comparison fails either way.
\<close>

definition canonical :: "json \<Rightarrow> pstr" where
  "canonical v = json_text True default_layout 0 (sort_keys v)"

fun check_fields :: "(pstr \<times> json) list \<Rightarrow> (pstr \<times> json) list \<Rightarrow> exn + unit" where
  "check_fields manifest [] = Inr ()"
| "check_fields manifest ((key, expected) # rest) =
     bindR (dict_item manifest key) (\<lambda>v.
       if canonical v \<noteq> canonical expected then Inl (ValueError (lit ''invalid manifest field: '' @ key))
       else check_fields manifest rest)"

definition check_manifest :: "json \<Rightarrow> exn + (pstr \<times> json) list" where
  "check_manifest v =
     (case v of
        JObj manifest \<Rightarrow>
          if dict_keys manifest \<noteq> dict_keys SELECTED then Inl (ValueError (lit ''invalid manifest fields''))
          else bindR (check_fields manifest SELECTED) (\<lambda>_. Inr manifest)
      | _ \<Rightarrow> Inl (ValueError (lit ''invalid manifest fields'')))"

text \<open>The line ends that reading in text mode gives.\<close>

fun universal_newlines :: "pstr \<Rightarrow> pstr" where
  "universal_newlines [] = []"
| "universal_newlines (c # cs) =
     (if c = 13 then 10 # universal_newlines (if cs \<noteq> [] \<and> hd cs = 10 then tl cs else cs)
      else c # universal_newlines cs)"

definition parse_manifest :: "nat \<Rightarrow> bytes \<Rightarrow> exn + (pstr \<times> json) list" where
  "parse_manifest depth data =
     bindR (utf8_decode data) (\<lambda>text.
     bindR (json_loads_text depth (universal_newlines text)) check_manifest)"

definition load_manifest :: "('w, 'x) files_scheme \<Rightarrow> nat \<Rightarrow> path \<Rightarrow> ('w, (pstr \<times> json) list) io" where
  "load_manifest F depth path =
     bindE (fl_lstat F path) (\<lambda>info.
     if fs_kind info \<noteq> RegularFile
     then raiseE (ValueError (lit ''manifest must be a regular file, not a symlink''))
     else bindE (fl_open F path) (\<lambda>data. liftR (parse_manifest depth data)))"

section \<open>Validation\<close>

text \<open>The digest is fed in blocks; \<open>hash_blocks n fed stream\<close> is the loop, \<open>fed\<close> what the digest has seen.\<close>

function hash_blocks :: "nat \<Rightarrow> bytes \<Rightarrow> bytes \<Rightarrow> bytes" where
  "hash_blocks n fed stream =
     (let chunk = take n stream
      in if chunk = [] then fed else hash_blocks n (fed @ chunk) (drop n stream))"
  by auto
termination
  by (relation "measure (\<lambda>(n, fed, stream). length stream)") auto

declare hash_blocks.simps [simp del]

definition hexdigest :: "bytes \<Rightarrow> pstr" where
  "hexdigest bs = concat (map (\<lambda>b. [hex_digit (b div 16), hex_digit (b mod 16)]) bs)"

definition sha256_file :: "('w, 'x) files_scheme \<Rightarrow> path \<Rightarrow> ('w, pstr) io" where
  "sha256_file F path =
     bindE (fl_open F path) (\<lambda>stream. returnE (hexdigest (fl_sha256 F (hash_blocks (1024 * 1024) [] stream))))"

text \<open>An entry of an accepted manifest that is used as a name.\<close>

definition name_of :: "(pstr \<times> json) list \<Rightarrow> pstr \<Rightarrow> exn + pstr" where
  "name_of manifest key =
     bindR (dict_item manifest key) (\<lambda>v.
       case v of JStr s \<Rightarrow> Inr s
       | _ \<Rightarrow> Inl (TypeError (lit ''argument should be a str or an os.PathLike object'')))"

definition require_regular :: "('w, 'x) files_scheme \<Rightarrow> path \<Rightarrow> ('w, unit) io" where
  "require_regular F artifact =
     bindE (fl_lstat F artifact) (\<lambda>info.
     if fs_kind info \<noteq> RegularFile
     then raiseE (ValueError (lit ''HEF must be a regular file, not a symlink'')) else returnE ())"

definition validate_model ::
  "('w, 'x) files_scheme \<Rightarrow> nat \<Rightarrow> path \<Rightarrow> path \<Rightarrow> ('w, (pstr \<times> json) list) io" where
  "validate_model F depth manifest_path directory =
     bindE (load_manifest F depth manifest_path) (\<lambda>manifest.
     bindE (liftR (name_of manifest (lit ''artifact''))) (\<lambda>name.
     bindE (require_regular F (directory @ [name])) (\<lambda>_.
     bindE (sha256_file F (directory @ [name])) (\<lambda>digest.
     bindE (liftR (dict_item manifest (lit ''sha256''))) (\<lambda>expected.
     if JStr digest \<noteq> expected then raiseE (ValueError (lit ''HEF SHA256 mismatch''))
     else returnE manifest)))))"

definition MANIFEST_NAME :: pstr where "MANIFEST_NAME = lit ''manifest.json''"

definition installed_version :: "('w, 'x) files_scheme \<Rightarrow> nat \<Rightarrow> path \<Rightarrow> pstr \<Rightarrow> ('w, path) io" where
  "installed_version F depth store model_id =
     (if model_id \<noteq> MODEL_ID then raiseE (ValueError (lit ''unsupported model ID''))
      else
        let version = store @ [model_id] in
        bindE (fl_lstat F version) (\<lambda>info.
        if fs_kind info \<noteq> DirectoryFile
        then raiseE (ValueError (lit ''installed version must be a directory, not a symlink''))
        else bindE (validate_model F depth (version @ [MANIFEST_NAME]) version) (\<lambda>_. returnE version)))"

section \<open>Exclusive changes\<close>

definition sync_directory :: "('w, 'x) files_scheme \<Rightarrow> path \<Rightarrow> ('w, unit) io" where
  "sync_directory F directory =
     bindE (fl_open_fd F directory) (\<lambda>fd. finallyE (fl_fsync F fd) (fl_close F fd))"

definition LOCK_NAME :: pstr where "LOCK_NAME = lit ''.admin.lock''"

text \<open>\<^verbatim>\<open>with _store_lock(store): body\<close>\<close>

definition store_lock :: "('w, 'x) files_scheme \<Rightarrow> path \<Rightarrow> ('w, 'a) io \<Rightarrow> ('w, 'a) io" where
  "store_lock F store body =
     bindE (fl_lstat F store) (\<lambda>info.
     if fs_kind info \<noteq> DirectoryFile \<or> fs_perm info AND 18 \<noteq> 0
     then raiseE (ValueError (lit ''model store must be a real directory without group/other write access''))
     else bindE (fl_geteuid F) (\<lambda>uid.
     if fs_uid info \<noteq> uid then raiseE (ValueError (lit ''model administration must run as the store owner''))
     else bindE (fl_open_lock F (store @ [LOCK_NAME])) (\<lambda>fd.
     finallyE (bindE (fl_flock F fd) (\<lambda>_. body)) (fl_close F fd))))"

text \<open>\<^verbatim>\<open>with tempfile.TemporaryDirectory(prefix=prefix, dir=dir) as temporary: body(temporary)\<close>\<close>

definition temporary_directory :: "('w, 'x) files_scheme \<Rightarrow> pstr \<Rightarrow> path \<Rightarrow> (path \<Rightarrow> ('w, 'a) io) \<Rightarrow> ('w, 'a) io" where
  "temporary_directory F prefix dir body =
     bindE (fl_mkdtemp F prefix dir) (\<lambda>temporary. finallyE (body temporary) (fl_rmtree F temporary))"

text \<open>\<^verbatim>\<open>os.path.lexists\<close>\<close>

definition lexists :: "('w, 'x) files_scheme \<Rightarrow> path \<Rightarrow> ('w, bool) io" where
  "lexists F path =
     catchE (bindE (fl_lstat F path) (\<lambda>_. returnE True)) (\<lambda>e. is_os_error e \<or> is_value_error e) (\<lambda>_. returnE False)"

section \<open>The commands\<close>

definition settle_file :: "('w, 'x) files_scheme \<Rightarrow> path \<Rightarrow> ('w, unit) io" where
  "settle_file F path =
     bindE (fl_chmod F path 420) (\<lambda>_.
     bindE (fl_open_fd F path) (\<lambda>fd. finallyE (fl_fsync F fd) (fl_close F fd)))"

primrec settle_files :: "('w, 'x) files_scheme \<Rightarrow> path \<Rightarrow> pstr list \<Rightarrow> ('w, unit) io" where
  "settle_files F stage [] = returnE ()"
| "settle_files F stage (name # names) =
     bindE (settle_file F (stage @ [name])) (\<lambda>_. settle_files F stage names)"

definition manifest_bytes :: "(pstr \<times> json) list \<Rightarrow> bytes" where
  "manifest_bytes manifest = json_text True (indented 2) 0 (JObj manifest) @ [10]"

definition publish_version ::
  "('w, 'x) files_scheme \<Rightarrow> nat \<Rightarrow> (pstr \<times> json) list \<Rightarrow> path \<Rightarrow> path \<Rightarrow> path \<Rightarrow> path \<Rightarrow> ('w, unit) io" where
  "publish_version F depth manifest source store destination stage =
     bindE (liftR (name_of manifest (lit ''artifact''))) (\<lambda>name.
     bindE (require_regular F (source @ [name])) (\<lambda>_.
     bindE (fl_copyfile F (source @ [name]) (stage @ [name])) (\<lambda>_.
     bindE (fl_write F (stage @ [MANIFEST_NAME]) (manifest_bytes manifest)) (\<lambda>_.
     bindE (validate_model F depth (stage @ [MANIFEST_NAME]) stage) (\<lambda>_.
     bindE (fl_listdir F stage) (\<lambda>names.
     bindE (settle_files F stage names) (\<lambda>_.
     bindE (fl_chmod F stage 493) (\<lambda>_.
     bindE (sync_directory F stage) (\<lambda>_.
     bindE (fl_rename F stage destination) (\<lambda>_.
     sync_directory F store))))))))))"

definition install_model :: "('w, 'x) files_scheme \<Rightarrow> nat \<Rightarrow> path \<Rightarrow> path \<Rightarrow> path \<Rightarrow> ('w, path) io" where
  "install_model F depth manifest_path source store =
     bindE (load_manifest F depth manifest_path) (\<lambda>manifest.
     store_lock F store
       (bindE (liftR (name_of manifest (lit ''model_id''))) (\<lambda>model_id.
        let destination = store @ [model_id] in
        bindE (lexists F destination) (\<lambda>present.
        if present then
          bindE (validate_model F depth manifest_path source) (\<lambda>_. installed_version F depth store model_id)
        else
          bindE (temporary_directory F (lit ''.stage-'') store
                   (publish_version F depth manifest source store destination)) (\<lambda>_.
          returnE destination)))))"

definition replace_pointer :: "('w, 'x) files_scheme \<Rightarrow> nat \<Rightarrow> path \<Rightarrow> pstr \<Rightarrow> pstr \<Rightarrow> ('w, path) io" where
  "replace_pointer F depth store name model_id =
     bindE (installed_version F depth store model_id) (\<lambda>version.
     bindE (temporary_directory F (lit ''.pointer-'') store (\<lambda>temporary.
       bindE (fl_symlink F (temporary @ [lit ''link'']) (last version)) (\<lambda>_.
       bindE (fl_replace F (temporary @ [lit ''link'']) (store @ [name])) (\<lambda>_.
       sync_directory F store)))) (\<lambda>_.
     returnE version))"

definition activate_model :: "('w, 'x) files_scheme \<Rightarrow> nat \<Rightarrow> pstr \<Rightarrow> path \<Rightarrow> ('w, path) io" where
  "activate_model F depth model_id store = store_lock F store (replace_pointer F depth store (lit ''current'') model_id)"

definition qualify_model :: "('w, 'x) files_scheme \<Rightarrow> nat \<Rightarrow> pstr \<Rightarrow> path \<Rightarrow> ('w, path) io" where
  "qualify_model F depth model_id store = store_lock F store (replace_pointer F depth store (lit ''known-good'') model_id)"

definition rollback_model :: "('w, 'x) files_scheme \<Rightarrow> nat \<Rightarrow> path \<Rightarrow> ('w, path) io" where
  "rollback_model F depth store =
     store_lock F store
       (bindE (fl_readlink F (store @ [lit ''known-good''])) (\<lambda>model_id.
        replace_pointer F depth store (lit ''current'') model_id))"

datatype store_command =
    Validate path path
  | Install path path
  | Activate pstr
  | Qualify pstr
  | Rollback

definition run_command :: "('w, 'x) files_scheme \<Rightarrow> nat \<Rightarrow> path \<Rightarrow> store_command \<Rightarrow> ('w, unit) io" where
  "run_command F depth store command =
     (case command of
        Validate manifest source \<Rightarrow> bindE (validate_model F depth manifest source) (\<lambda>_. returnE ())
      | Install manifest source \<Rightarrow> bindE (install_model F depth manifest source store) (\<lambda>_. returnE ())
      | Activate model_id \<Rightarrow> bindE (activate_model F depth model_id store) (\<lambda>_. returnE ())
      | Qualify model_id \<Rightarrow> bindE (qualify_model F depth model_id store) (\<lambda>_. returnE ())
      | Rollback \<Rightarrow> bindE (rollback_model F depth store) (\<lambda>_. returnE ()))"

text \<open>The exit status.\<close>

definition model_main :: "('w, 'x) files_scheme \<Rightarrow> nat \<Rightarrow> path \<Rightarrow> store_command \<Rightarrow> ('w, nat) io" where
  "model_main F depth store command =
     catchE (bindE (run_command F depth store command) (\<lambda>_. returnE 0))
       (\<lambda>e. is_os_error e \<or> is_value_error e) (\<lambda>_. returnE 1)"

end
