(* ===== verification/Model_Manifest.thy ===== *)
theory Model_Manifest
  imports Model_Store
begin

text \<open>
  The manifests that the model store accepts: the selected one, up to the order of the members of its objects,
  and that the copy which an installation writes is accepted again.
\<close>

section \<open>Values that print with sorted keys\<close>

lemma json_loaded_mono: "json_loaded d v \<Longrightarrow> d \<le> d' \<Longrightarrow> json_loaded d' v"
proof (induction d v arbitrary: d' rule: json_loaded.induct)
  case (7 d vs)
  then show ?case by (cases d') auto
next
  case (9 d ms)
  then show ?case by (cases d') fastforce+
qed (auto split: nat.splits)

lemma map_sort_keys_fst: "fst \<circ> (\<lambda>(k, v). (k, sort_keys v)) = fst"
  by auto

lemma sorted_keys_distinct:
  fixes ms :: "(pstr \<times> json) list"
  shows "distinct (map fst (sort_key fst (map (\<lambda>(k, v). (k, sort_keys v)) ms))) \<longleftrightarrow> distinct (map fst ms)"
proof -
  have "distinct (map fst (sort_key fst xs)) \<longleftrightarrow> distinct (map fst xs)" for xs :: "(pstr \<times> json) list"
    by (simp add: distinct_map)
  then show ?thesis by (simp add: map_sort_keys_fst)
qed

lemma sort_keys_plain: "json_plain d (sort_keys v) \<longleftrightarrow> json_plain d v"
proof (induction d v rule: json_plain.induct)
  case (9 d ms)
  then show ?case
    by (auto simp: sorted_keys_distinct split: prod.splits)
qed auto

lemma plain_at_depth: "json_plain d v \<Longrightarrow> json_loaded d' v \<Longrightarrow> json_plain d' v"
proof (induction d v arbitrary: d' rule: json_plain.induct)
  case (7 d vs)
  then show ?case by (cases d') auto
next
  case (9 d ms)
  then show ?case by (cases d') fastforce+
qed auto

lemma plain_readable: "json_plain d v \<Longrightarrow> json_readable d v"
  by (induction d v rule: json_plain.induct) auto


section \<open>The accepted manifest\<close>

lemma check_fields_iff:
  "check_fields m fs = Inr u \<longleftrightarrow> (\<forall>(k, e) \<in> set fs. \<exists>v. dict_item m k = Inr v \<and> canonical v = canonical e)"
  by (induction fs) (auto simp: bindR_Inr_iff split: if_splits)

lemma selected_keys: "dict_keys SELECTED = fst ` set SELECTED"
  by (simp add: dict_keys_def)

lemma check_manifest_iff:
  "check_manifest v = Inr m \<longleftrightarrow> v = JObj m \<and> dict_keys m = dict_keys SELECTED \<and>
     (\<forall>(k, e) \<in> set SELECTED. canonical (dict_get m k) = canonical e)"
proof -
  have "check_fields m SELECTED = Inr () \<longleftrightarrow> (\<forall>(k, e) \<in> set SELECTED. canonical (dict_get m k) = canonical e)"
    if "dict_keys m = dict_keys SELECTED" for m
  proof -
    have "dict_item m k = Inr (dict_get m k)" if "(k, e) \<in> set SELECTED" for k e
      using that \<open>dict_keys m = _\<close> by (intro dict_item_get) (force simp: selected_keys)
    then show ?thesis by (fastforce simp: check_fields_iff)
  qed
  then show ?thesis
    by (cases v) (auto simp: check_manifest_def bindR_Inr_iff)
qed

lemma canonical_selected:
  assumes "(k, e) \<in> set SELECTED"
  shows "92 \<notin> set (canonical e)" "length (canonical e) \<le> 4300" "json_plain (Suc d) e"
proof -
  have "\<forall>(k, e) \<in> set SELECTED. 92 \<notin> set (canonical e) \<and> length (canonical e) \<le> 4300"
    by (simp add: SELECTED_def canonical_def MODEL_ID_def ARTIFACT_def ARTIFACT_SHA256_def lit_def
        separated_def default_layout_def dump_string_def escape_char_def py_str_int_eq nat_digits.simps
        insort_key_def)
  moreover have "\<forall>(k, e) \<in> set SELECTED. json_plain (Suc d) e"
    by (simp add: SELECTED_def MODEL_ID_def ARTIFACT_def ARTIFACT_SHA256_def nat_digits.simps)
  ultimately show "92 \<notin> set (canonical e)" "length (canonical e) \<le> 4300" "json_plain (Suc d) e"
    using assms by auto
qed


text \<open>An accepted manifest is the selected one, up to the order of the members of its objects.\<close>

lemma canonical_same:
  assumes "json_loaded d v" "(k, e) \<in> set SELECTED" "canonical v = canonical e"
  shows "sort_keys v = sort_keys e"
proof -
  have "json_loaded (Suc d) (sort_keys v)"
    using json_loaded_mono [OF assms(1), of "Suc d"] sort_keys_loaded by simp
  moreover have "json_readable (Suc d) (sort_keys e)"
    using canonical_selected(3) [OF assms(2)] by (simp add: plain_readable sort_keys_plain)
  ultimately show ?thesis
    using canonical_selected(1,2) [OF assms(2)] assms(3) unfolding canonical_def
    by (intro text_injective [of default_layout]) simp_all
qed

lemma loaded_member:
  assumes "json_loaded d (JObj m)" "k \<in> dict_keys m"
  shows "json_loaded d (dict_get m k)"
proof -
  obtain d' where d: "d = Suc d'" using assms(1) by (cases d) auto
  obtain v where v: "map_of m k = Some v" using assms(2) by (auto simp: dict_keys_def dest: weak_map_of_SomeI)
  then have "json_loaded d' v" using assms(1) by (auto simp: d dest: map_of_SomeD)
  then show ?thesis using v json_loaded_mono [of d' v d] by (simp add: dict_get_def d)
qed

lemma parse_manifestD:
  assumes "parse_manifest depth data = Inr m"
  shows "json_loaded depth (JObj m)" "dict_keys m = dict_keys SELECTED"
    "(k, e) \<in> set SELECTED \<Longrightarrow> sort_keys (dict_get m k) = sort_keys e"
proof -
  from assms obtain s where "json_loads_text depth s = Inr (JObj m)"
    and m: "dict_keys m = dict_keys SELECTED" "\<forall>(k, e) \<in> set SELECTED. canonical (dict_get m k) = canonical e"
    by (auto simp: parse_manifest_def bindR_Inr_iff check_manifest_iff)
  then show loaded: "json_loaded depth (JObj m)"
    by (auto simp: json_loads_text_def split: if_splits intro: json_decode_loaded)
  show "dict_keys m = dict_keys SELECTED" by (rule m)
  show "sort_keys (dict_get m k) = sort_keys e" if k: "(k, e) \<in> set SELECTED"
  proof -
    have "k \<in> dict_keys m" using k m(1) by (force simp: selected_keys)
    with m(2) k show ?thesis
      using canonical_same [OF loaded_member [OF loaded] k] by fastforce
  qed
qed

lemma sort_keys_JStr [simp]: "sort_keys v = JStr s \<longleftrightarrow> v = JStr s"
  by (cases v) auto

lemma parse_manifest_names:
  assumes "parse_manifest depth data = Inr m"
  shows "dict_item m (lit ''artifact'') = Inr (JStr ARTIFACT)" "dict_item m (lit ''model_id'') = Inr (JStr MODEL_ID)"
    "dict_item m (lit ''sha256'') = Inr (JStr ARTIFACT_SHA256)"
proof -
  have "dict_item m k = Inr (JStr s)" if "(k, JStr s) \<in> set SELECTED" for k s
  proof -
    have "dict_get m k = JStr s" using parse_manifestD(3) [OF assms that] by simp
    moreover have "k \<in> dict_keys m" using parse_manifestD(2) [OF assms] that by (force simp: selected_keys)
    ultimately show ?thesis using dict_item_get by metis
  qed
  then show "dict_item m (lit ''artifact'') = Inr (JStr ARTIFACT)" "dict_item m (lit ''model_id'') = Inr (JStr MODEL_ID)"
    "dict_item m (lit ''sha256'') = Inr (JStr ARTIFACT_SHA256)"
    by (simp_all add: SELECTED_def)
qed

lemma name_of_manifest:
  assumes "parse_manifest depth data = Inr m"
  shows "name_of m (lit ''artifact'') = Inr ARTIFACT" "name_of m (lit ''model_id'') = Inr MODEL_ID"
  using parse_manifest_names [OF assms] by (simp_all add: name_of_def)

lemma manifest_plain:
  assumes "parse_manifest depth data = Inr m"
  shows "json_plain depth (JObj m)"
proof -
  note p = parse_manifestD [OF assms]
  obtain d where d: "depth = Suc d" using p(1) by (cases depth) auto
  have "distinct (map fst m)" using p(1) by (simp add: d)
  moreover have "scalar k \<and> json_plain d v" if kv: "(k, v) \<in> set m" for k v
  proof -
    have v: "dict_get m k = v" using kv \<open>distinct (map fst m)\<close> by (simp add: dict_get_def)
    have "k \<in> dict_keys m" using kv by (force simp: dict_keys_def)
    then obtain e where e: "(k, e) \<in> set SELECTED" using p(2) by (auto simp: selected_keys)
    have "sort_keys v = sort_keys e" using p(3) [OF e] v by simp
    moreover have "scalar k" using e by (auto simp: SELECTED_def)
    moreover have "json_loaded d v" using p(1) kv by (auto simp: d)
    ultimately show ?thesis
      using canonical_selected(3) [OF e] plain_at_depth [of "Suc d" v d] sort_keys_plain by metis
  qed
  ultimately show ?thesis by (auto simp: d)
qed


section \<open>The copy of a manifest\<close>

lemma separated_chars: "c \<in> set (separated sep ts) \<Longrightarrow> c = 44 \<or> c \<in> set sep \<or> (\<exists>t \<in> set ts. c \<in> set t)"
  by (auto simp: separated_def split: list.splits if_splits)

lemma indented_chars: "c \<in> set (ly_open (indented n) l) \<Longrightarrow> c = 10 \<or> c = 32"
  "c \<in> set (ly_item (indented n) l) \<Longrightarrow> c = 10 \<or> c = 32" "c \<in> set (ly_close (indented n) l) \<Longrightarrow> c = 10 \<or> c = 32"
  "c \<in> set (ly_colon (indented n)) \<Longrightarrow> c = 10 \<or> c = 32"
  by (auto simp: indented_def split: if_splits)

lemma indented_text_chars:
  "json_plain d v \<Longrightarrow> c \<in> set (json_text True (indented n) l v) \<Longrightarrow> c = 10 \<or> 32 \<le> c \<and> c < 127"
proof (induction d v arbitrary: c l rule: json_plain.induct)
  case (3 d i)
  then show ?case using str_int_chars(1) by fastforce
next
  case (5 d s)
  then show ?case using dump_string_chars by fastforce
next
  case (7 d vs)
  from "7.prems"(2) consider "c \<in> {91, 93, 44, 10, 32}" | v where "v \<in> set vs" "c \<in> set (json_text True (indented n) (Suc l) v)"
    by (auto simp: lit_Cons split: if_splits dest!: separated_chars indented_chars)
  then show ?case
    using "7.IH" "7.prems"(1) by cases auto
next
  case (9 d ms)
  from "9.prems"(2) consider "c \<in> {123, 125, 44, 58, 10, 32}"
    | k v where "(k, v) \<in> set ms" "c \<in> set (dump_string True k)"
    | k v where "(k, v) \<in> set ms" "c \<in> set (json_text True (indented n) (Suc l) v)"
    by (auto simp: lit_Cons split: if_splits prod.splits dest!: separated_chars indented_chars)
  then show ?case
  proof cases
    case 2
    then show ?thesis using "9.prems"(1) dump_string_chars by fastforce
  next
    case 3
    then show ?thesis using "9.IH" "9.prems"(1) by fastforce
  qed auto
qed (auto simp: lit_Cons split: if_splits)

lemma universal_newlines_id: "13 \<notin> set s \<Longrightarrow> universal_newlines s = s"
  by (induction s rule: universal_newlines.induct) auto

lemma copy_parsed:
  assumes plain: "json_plain depth (JObj m)" and check: "check_manifest (JObj m) = Inr m"
  shows "parse_manifest depth (manifest_bytes m) = Inr m"
proof -
  let ?t = "json_text True (indented 2) 0 (JObj m)"
  have chars: "c = 10 \<or> 32 \<le> c \<and> c < 127" if "c \<in> set (manifest_bytes m)" for c
    using that indented_text_chars [OF plain] by (auto simp: manifest_bytes_def simp del: json_text.simps)
  have "utf8_decode (manifest_bytes m) = Inr (manifest_bytes m)"
    using chars by (intro utf8_decode_ascii) fastforce
  moreover have "universal_newlines (manifest_bytes m) = manifest_bytes m"
    using chars by (intro universal_newlines_id) fastforce
  moreover have "\<not> next_is 0xFEFF (manifest_bytes m)"
  proof
    assume "next_is 0xFEFF (manifest_bytes m)"
    then have "0xFEFF \<in> set (manifest_bytes m)" by (metis next_is_def hd_in_set)
    from chars [OF this] show False by simp
  qed
  moreover have "json_decode depth (manifest_bytes m) = Inr (JObj m)"
  proof -
    have "skip_ws (?t @ [10]) = ?t @ [10]"
      by (rule text_head(1) [OF plain_readable [OF plain]])
    moreover have "scan_value depth (?t @ [10]) = Inr (JObj m, [10])"
      by (rule scan_text [OF layouts_ok(2) plain_readable [OF plain]]) (simp add: ends_value_def is_json_space_def)
    moreover have "skip_ws [10] = []" by (simp add: skip_ws_def is_json_space_def)
    ultimately show ?thesis by (simp add: json_decode_def manifest_bytes_def del: json_text.simps)
  qed
  ultimately show ?thesis using check by (simp add: parse_manifest_def json_loads_text_def)
qed

lemma parse_manifest_again: "parse_manifest depth data = Inr m \<Longrightarrow> parse_manifest depth (manifest_bytes m) = Inr m"
  by (rule copy_parsed [OF manifest_plain]) (auto simp: parse_manifest_def bindR_Inr_iff check_manifest_iff)

lemma selected_parses: "parse_manifest (Suc (Suc d)) (manifest_bytes SELECTED) = Inr SELECTED"
proof (rule copy_parsed)
  have "distinct (map fst SELECTED)" "\<forall>(k, e) \<in> set SELECTED. scalar k"
    by (simp_all add: SELECTED_def)
  then show "json_plain (Suc (Suc d)) (JObj SELECTED)"
    using canonical_selected(3) [of _ _ d] by fastforce
  have "dict_get SELECTED k = e" if "(k, e) \<in> set SELECTED" for k e
    using that \<open>distinct (map fst SELECTED)\<close> by (simp add: dict_get_def)
  then show "check_manifest (JObj SELECTED) = Inr SELECTED" by (auto simp: check_manifest_iff)
qed

lemma hash_blocks_all: "0 < n \<Longrightarrow> hash_blocks n fed stream = fed @ stream"
  by (induction n fed stream rule: hash_blocks.induct) (subst hash_blocks.simps, auto simp: Let_def)

end
