(* ===== verification/Model_Facts.thy ===== *)
theory Model_Facts
  imports Model_Manifest
begin

text \<open>
  The model store over what the file system promises (the locale \<open>model_files\<close>): whatever fails, a command
  leaves the published part of the store as it was or exactly as intended, and the pointers
  lead to a complete version.
\<close>

section \<open>What the file system promises\<close>

datatype node = Regular nat int bytes | Folder nat int | Link pstr

fun stat_of :: "node \<Rightarrow> file_stat" where
  "stat_of (Regular perm uid _) = \<lparr>fs_kind = RegularFile, fs_perm = perm, fs_uid = uid\<rparr>"
| "stat_of (Folder perm uid) = \<lparr>fs_kind = DirectoryFile, fs_perm = perm, fs_uid = uid\<rparr>"
| "stat_of (Link _) = \<lparr>fs_kind = SymbolicLink, fs_perm = 511, fs_uid = 0\<rparr>"

fun with_perm :: "nat \<Rightarrow> node \<Rightarrow> node" where
  "with_perm perm (Regular _ uid data) = Regular perm uid data"
| "with_perm perm (Folder _ uid) = Folder perm uid"
| "with_perm perm (Link target) = Link target"

type_synonym tree = "path \<Rightarrow> node option"

definition under :: "path \<Rightarrow> path \<Rightarrow> bool" where
  "under d q \<longleftrightarrow> take (length d) q = d"

definition moved :: "path \<Rightarrow> path \<Rightarrow> tree \<Rightarrow> tree" where
  "moved src dst t q =
     (if under dst q then t (src @ drop (length dst) q) else if under src q then None else t q)"

text \<open>Names that begin with a dot are private to the commands; the rest of the store is published.\<close>

definition dotted :: "path \<Rightarrow> path \<Rightarrow> bool" where
  "dotted S q \<longleftrightarrow> under S q \<and> (case drop (length S) q of [] \<Rightarrow> False | name # _ \<Rightarrow> take 1 name = [46])"

definition published :: "path \<Rightarrow> tree \<Rightarrow> tree" where
  "published S t q = (if dotted S q then None else t q)"

definition valid_model :: "(bytes \<Rightarrow> bytes) \<Rightarrow> nat \<Rightarrow> tree \<Rightarrow> path \<Rightarrow> path \<Rightarrow> (pstr \<times> json) list \<Rightarrow> bool" where
  "valid_model sha depth t manifest_path directory m \<longleftrightarrow>
     (\<exists>perm uid data. t manifest_path = Some (Regular perm uid data) \<and> parse_manifest depth data = Inr m) \<and>
     (\<exists>perm uid c. t (directory @ [ARTIFACT]) = Some (Regular perm uid c) \<and> hexdigest (sha c) = ARTIFACT_SHA256)"

definition version_ok :: "(bytes \<Rightarrow> bytes) \<Rightarrow> nat \<Rightarrow> path \<Rightarrow> tree \<Rightarrow> bool" where
  "version_ok sha depth S t \<longleftrightarrow>
     (\<exists>perm uid. t (S @ [MODEL_ID]) = Some (Folder perm uid)) \<and>
     (\<exists>m. valid_model sha depth t (S @ [MODEL_ID, MANIFEST_NAME]) (S @ [MODEL_ID]) m)"

text \<open>A directory with nothing but a manifest and an artifact, by the path inside it.\<close>

definition files_of :: "node \<Rightarrow> node option \<Rightarrow> node option \<Rightarrow> tree" where
  "files_of folder manifest artifact r =
     (if r = [] then Some folder else if r = [MANIFEST_NAME] then manifest else if r = [ARTIFACT] then artifact else None)"

text \<open>The tree in which a complete version has been published.\<close>

definition installs :: "(bytes \<Rightarrow> bytes) \<Rightarrow> nat \<Rightarrow> path \<Rightarrow> tree \<Rightarrow> tree \<Rightarrow> bool" where
  "installs sha depth S T T' \<longleftrightarrow>
     (\<forall>x q. T (S @ MODEL_ID # x # q) = None) \<and>
     (\<exists>u1 u2 u3 m c data. parse_manifest depth data = Inr m \<and> hexdigest (sha c) = ARTIFACT_SHA256 \<and>
        T' = (\<lambda>q. if under (S @ [MODEL_ID]) q
                   then files_of (Folder 493 u1) (Some (Regular 420 u2 (manifest_bytes m))) (Some (Regular 420 u3 c))
                     (drop (Suc (length S)) q)
                   else T q))"

text \<open>A pointer has been moved to the selected version, which is complete.\<close>

definition points :: "(bytes \<Rightarrow> bytes) \<Rightarrow> nat \<Rightarrow> path \<Rightarrow> pstr \<Rightarrow> tree \<Rightarrow> tree \<Rightarrow> bool" where
  "points sha depth S name T T' \<longleftrightarrow> version_ok sha depth S T \<and> T' = T(S @ [name] \<mapsto> Link MODEL_ID)"

text \<open>Every pointer to the selected version leads to a complete one.\<close>

definition pointers_ok :: "(bytes \<Rightarrow> bytes) \<Rightarrow> nat \<Rightarrow> path \<Rightarrow> tree \<Rightarrow> bool" where
  "pointers_ok sha depth S t \<longleftrightarrow>
     (t (S @ [lit ''current'']) = Some (Link MODEL_ID) \<or> t (S @ [lit ''known-good'']) = Some (Link MODEL_ID)) \<longrightarrow>
     version_ok sha depth S t"

text \<open>What a command may do to the published part of the store.\<close>

fun effect :: "(bytes \<Rightarrow> bytes) \<Rightarrow> nat \<Rightarrow> path \<Rightarrow> store_command \<Rightarrow> tree \<Rightarrow> tree \<Rightarrow> bool" where
  "effect sha depth S (Validate _ _) T T' = (T' = T)"
| "effect sha depth S (Install _ _) T T' = installs sha depth S T T'"
| "effect sha depth S (Activate _) T T' = points sha depth S (lit ''current'') T T'"
| "effect sha depth S (Qualify _) T T' = points sha depth S (lit ''known-good'') T T'"
| "effect sha depth S Rollback T T' =
     (T (S @ [lit ''known-good'']) = Some (Link MODEL_ID) \<and> points sha depth S (lit ''current'') T T')"

lemma under_append [simp]: "under S (S @ q)"
  by (simp add: under_def)

lemma underE: "under S q \<Longrightarrow> (\<And>r. q = S @ r \<Longrightarrow> P) \<Longrightarrow> P"
  by (metis append_take_drop_id under_def)

lemma dotted_simps [simp]: "\<not> dotted S S" "dotted S (S @ name # q) \<longleftrightarrow> take 1 name = [46]"
  by (simp_all add: dotted_def)

lemma names_published [simp]: "take 1 MODEL_ID \<noteq> [46]" "take (Suc 0) MODEL_ID \<noteq> [46]"
  by (simp_all add: MODEL_ID_def lit_Cons)

lemma names_distinct [simp]: "MANIFEST_NAME \<noteq> ARTIFACT" "ARTIFACT \<noteq> MANIFEST_NAME"
  by (simp_all add: MANIFEST_NAME_def ARTIFACT_def)

lemma published_at: "\<not> dotted S q \<Longrightarrow> published S t q = t q"
  by (simp add: published_def)

lemma version_ok_published: "version_ok sha depth S (published S t) \<longleftrightarrow> version_ok sha depth S t"
  by (simp add: version_ok_def valid_model_def published_at)

lemma installs_ok:
  assumes "installs sha depth S T T'"
  shows "version_ok sha depth S T'"
  using assms parse_manifest_again
  by (auto simp: installs_def version_ok_def valid_model_def files_of_def under_def)

lemma version_ok_pointer: "name \<noteq> MODEL_ID \<Longrightarrow> version_ok sha depth S (T(S @ [name] \<mapsto> n)) = version_ok sha depth S T"
  by (simp add: version_ok_def valid_model_def)

lemma pointer_names: "lit ''current'' \<noteq> MODEL_ID" "lit ''known-good'' \<noteq> MODEL_ID"
  by (simp_all add: MODEL_ID_def)

lemma pointers_ok_published: "pointers_ok sha depth S (published S t) \<longleftrightarrow> pointers_ok sha depth S t"
  by (simp add: pointers_ok_def version_ok_published published_at lit_Cons)

lemma effect_pointers_ok:
  assumes "effect sha depth S command T T'" "pointers_ok sha depth S T"
  shows "pointers_ok sha depth S T'"
  using assms by (cases command) (auto simp: pointers_ok_def points_def version_ok_pointer pointer_names installs_ok)

lemma published_upd: "dotted S p \<Longrightarrow> published S (t(p := x)) = published S t"
  by (rule ext) (simp add: published_def)

lemma published_eqI: "(\<And>q. \<not> dotted S q \<Longrightarrow> t q = t' q) \<Longrightarrow> published S t = published S t'"
  by (rule ext) (simp add: published_def)

text \<open>A private directory \<open>d\<close> with the given contents, in a store whose published part is \<open>T\<close>.\<close>

definition staged :: "path \<Rightarrow> tree \<Rightarrow> path \<Rightarrow> node \<Rightarrow> node option \<Rightarrow> node option \<Rightarrow> tree \<Rightarrow> bool" where
  "staged S T d folder manifest artifact t \<longleftrightarrow>
     published S t = T \<and> (\<forall>r. t (d @ r) = files_of folder manifest artifact r) \<and>
     (\<exists>x. d = S @ [x] \<and> take 1 x = [46])"

lemma staged_published: "staged S T d f m a t \<Longrightarrow> published S t = T"
  by (simp add: staged_def)

lemma staged_dotted: "staged S T d f m a t \<Longrightarrow> dotted S (d @ r)"
  by (auto simp: staged_def)

lemma staged_at: "staged S T d f m a t \<Longrightarrow> t (d @ r) = files_of f m a r"
  by (simp add: staged_def)

lemma staged_upd:
  assumes "staged S T d f m a t" "t' (d @ r) = x" "\<And>q. q \<noteq> d @ r \<Longrightarrow> t' q = t q"
    "(files_of f m a)(r := x) = files_of f' m' a'"
  shows "staged S T d f' m' a' t'"
proof -
  have "t' = t(d @ r := x)" using assms(2,3) by fastforce
  moreover have "(t(d @ r := x)) (d @ r') = ((files_of f m a)(r := x)) r'" for r'
    using assms(1) by (simp add: staged_def)
  ultimately show ?thesis
    using assms(1) staged_dotted [OF assms(1), of r] assms(4) by (simp add: staged_def published_upd)
qed

lemma files_upd:
  "(files_of f m a)([] := Some f') = files_of f' m a"
  "(files_of f m a)([MANIFEST_NAME] := m') = files_of f m' a"
  "(files_of f m a)([ARTIFACT] := a') = files_of f m a'"
  by (rule ext; simp add: files_of_def)+

text \<open>
  What a call does to the tree where it succeeds. A call that raises has done this or nothing, except that a
  copy or a write may have left anything at its destination, and a removal anything below its root.
  Nothing is said of the answers that are not listed: any call may raise.
\<close>

locale model_files =
  fixes F :: "'w files" and tree :: "'w \<Rightarrow> tree"
  assumes looks: "tree (snd (fl_lstat F p w)) = tree w" "tree (snd (fl_open F p w)) = tree w"
      "tree (snd (fl_readlink F p w)) = tree w" "tree (snd (fl_listdir F p w)) = tree w"
      "tree (snd (fl_geteuid F w)) = tree w" "tree (snd (fl_flock F fd w)) = tree w"
      "tree (snd (fl_open_fd F p w)) = tree w" "tree (snd (fl_fsync F fd w)) = tree w"
      "tree (snd (fl_close F fd w)) = tree w"
    and lstat: "fl_lstat F p w = (Inr info, w') \<Longrightarrow> \<exists>n. tree w p = Some n \<and> info = stat_of n"
    and opened: "fl_open F p w = (Inr data, w') \<Longrightarrow> tree w p = Some (Regular perm uid c) \<Longrightarrow> data = c"
    and readlink: "fl_readlink F p w = (Inr target, w') \<Longrightarrow> tree w p = Some (Link target)"
    and listdir: "fl_listdir F p w = (Inr names, w') \<Longrightarrow> distinct names \<and> set names = {x. tree w (p @ [x]) \<noteq> None}"
    and open_lock: "q \<noteq> p \<Longrightarrow> tree (snd (fl_open_lock F p w)) q = tree w q"
    and mkdtemp: "fl_mkdtemp F prefix dir w = (made, w') \<Longrightarrow> \<exists>x uid. (\<forall>q. tree w (dir @ (prefix @ x) # q) = None) \<and>
        (tree w' = (tree w)(dir @ [prefix @ x] \<mapsto> Folder 448 uid) \<and> (\<forall>d. made = Inr d \<longrightarrow> d = dir @ [prefix @ x]) \<or>
         tree w' = tree w \<and> (\<exists>e. made = Inl e))"
    and rmtree: "\<not> under d q \<Longrightarrow> tree (snd (fl_rmtree F d w)) q = tree w q"
    and copyfile: "fl_copyfile F src dst w = (r, w') \<Longrightarrow> tree w dst = None \<Longrightarrow> q \<noteq> dst \<Longrightarrow> tree w' q = tree w q"
    and copied: "fl_copyfile F src dst w = (Inr u, w') \<Longrightarrow> tree w dst = None \<Longrightarrow>
        tree w src = Some (Regular perm uid c) \<Longrightarrow> \<exists>perm uid. tree w' dst = Some (Regular perm uid c)"
    and written: "fl_write F p data w = (r, w') \<Longrightarrow> tree w p = None \<Longrightarrow> q \<noteq> p \<Longrightarrow> tree w' q = tree w q"
    and wrote: "fl_write F p data w = (Inr u, w') \<Longrightarrow> tree w p = None \<Longrightarrow>
        \<exists>perm uid. tree w' p = Some (Regular perm uid data)"
    and chmod: "fl_chmod F p perm w = (r, w') \<Longrightarrow> tree w' = (tree w)(p := map_option (with_perm perm) (tree w p)) \<or>
        tree w' = tree w \<and> (\<exists>e. r = Inl e)"
    and rename: "fl_rename F src dst w = (r, w') \<Longrightarrow> tree w src = Some (Folder perm uid) \<Longrightarrow>
        (\<forall>x q. tree w (dst @ x # q) = None) \<and> tree w' = moved src dst (tree w) \<or> tree w' = tree w \<and> (\<exists>e. r = Inl e)"
    and replace: "fl_replace F src dst w = (r, w') \<Longrightarrow> tree w src = Some (Link target) \<Longrightarrow>
        tree w' = (tree w)(src := None, dst \<mapsto> Link target) \<or> tree w' = tree w \<and> (\<exists>e. r = Inl e)"
    and symlink: "fl_symlink F p target w = (r, w') \<Longrightarrow>
        tree w' = (tree w)(p \<mapsto> Link target) \<and> tree w p = None \<or> tree w' = tree w \<and> (\<exists>e. r = Inl e)"
begin

lemma looks_keep [keeps_rules]:
  "keeps (\<lambda>w. P (tree w)) (fl_lstat F p)" "keeps (\<lambda>w. P (tree w)) (fl_open F p)"
  "keeps (\<lambda>w. P (tree w)) (fl_readlink F p)" "keeps (\<lambda>w. P (tree w)) (fl_listdir F p)"
  "keeps (\<lambda>w. P (tree w)) (fl_geteuid F)" "keeps (\<lambda>w. P (tree w)) (fl_flock F fd)"
  "keeps (\<lambda>w. P (tree w)) (fl_open_fd F p)" "keeps (\<lambda>w. P (tree w)) (fl_fsync F fd)"
  "keeps (\<lambda>w. P (tree w)) (fl_close F fd)"
  by (simp_all add: keeps_def looks)

lemma sync_keeps [keeps_rules]: "keeps (\<lambda>w. P (tree w)) (sync_directory F p)"
  unfolding sync_directory_def by (intro keeps_rules)

lemma hoare_look:
  assumes "\<And>P. keeps (\<lambda>w. P (tree w)) m" "\<And>w x w'. m w = (Inr x, w') \<Longrightarrow> Q x (tree w)" "\<And>w. P w \<Longrightarrow> R (tree w)"
    "\<And>w. R (tree w) \<Longrightarrow> E w"
  shows "hoare P m (\<lambda>x w. R (tree w) \<and> Q x (tree w)) E"
proof (rule hoareI)
  fix w e w' assume "P w" "m w = (Inl e, w')"
  with keepsD [OF assms(1), of R w "Inl e" w'] assms(3,4) show "E w'" by blast
next
  fix w x w' assume w: "P w" "m w = (Inr x, w')"
  from keepsD [OF assms(1), of "\<lambda>t. t = tree w" w "Inr x" w'] w(2) have "tree w' = tree w" by simp
  with w assms(2,3) show "R (tree w') \<and> Q x (tree w')" by simp
qed


lemma load_manifest_keeps [keeps_rules]: "keeps (\<lambda>w. P (tree w)) (load_manifest F depth p)"
  unfolding load_manifest_def by (intro keeps_rules)

lemma require_regular_keeps [keeps_rules]: "keeps (\<lambda>w. P (tree w)) (require_regular F p)"
  unfolding require_regular_def by (intro keeps_rules)

lemma validate_keeps [keeps_rules]: "keeps (\<lambda>w. P (tree w)) (validate_model F depth mp dir)"
  unfolding validate_model_def sha256_file_def by (intro keeps_rules)

lemma installed_version_keeps [keeps_rules]: "keeps (\<lambda>w. P (tree w)) (installed_version F depth S model_id)"
  unfolding installed_version_def Let_def by (intro keeps_rules)

lemma lexists_keeps [keeps_rules]: "keeps (\<lambda>w. P (tree w)) (lexists F p)"
  unfolding lexists_def by (intro keeps_rules)

lemma same_tree:
  assumes "\<And>P. keeps (\<lambda>w. P (tree w)) m" "m w = (r, w')"
  shows "tree w' = tree w"
  using keepsD [OF assms(1) _ assms(2), of "\<lambda>t. t = tree w"] by simp

lemma lstat_kind:
  assumes "fl_lstat F p w = (Inr info, w')"
  shows "fs_kind info = RegularFile \<Longrightarrow> \<exists>perm uid c. tree w p = Some (Regular perm uid c)"
    "fs_kind info = DirectoryFile \<Longrightarrow> \<exists>perm uid. tree w p = Some (Folder perm uid)"
proof -
  from lstat [OF assms] obtain n where "tree w p = Some n" "info = stat_of n" by blast
  then show "fs_kind info = RegularFile \<Longrightarrow> \<exists>perm uid c. tree w p = Some (Regular perm uid c)"
    "fs_kind info = DirectoryFile \<Longrightarrow> \<exists>perm uid. tree w p = Some (Folder perm uid)"
    by (cases n; simp)+
qed

lemma load_manifest_returns:
  assumes "load_manifest F depth p w = (Inr m, w')"
  shows "\<exists>perm uid data. tree w p = Some (Regular perm uid data) \<and> parse_manifest depth data = Inr m"
proof -
  from assms obtain info w1 data w2 where l: "fl_lstat F p w = (Inr info, w1)" "fs_kind info = RegularFile"
    "fl_open F p w1 = (Inr data, w2)" "parse_manifest depth data = Inr m"
    by (auto simp: load_manifest_def bindE_Inr_iff raiseE_def liftR_def split: if_splits)
  obtain perm uid c where n: "tree w p = Some (Regular perm uid c)" using lstat_kind(1) [OF l(1,2)] by blast
  moreover have "tree w1 = tree w" by (rule same_tree [OF looks_keep(1) l(1)])
  ultimately have "data = c" using opened [OF l(3)] by simp
  with n l(4) show ?thesis by blast
qed

lemma require_regular_returns:
  assumes "require_regular F p w = (Inr u, w')"
  shows "\<exists>perm uid c. tree w p = Some (Regular perm uid c)"
  using assms lstat_kind(1) [of p w]
  by (auto simp: require_regular_def bindE_Inr_iff raiseE_def returnE_def split: if_splits)

lemma sha256_file_returns:
  assumes "sha256_file F p w = (Inr digest, w')" "tree w p = Some (Regular perm uid c)"
  shows "digest = hexdigest (fl_sha256 F c)"
  using assms opened [OF _ assms(2)]
  by (auto simp: sha256_file_def bindE_Inr_iff returnE_def hash_blocks_all)

lemma validate_returns:
  assumes "validate_model F depth mp dir w = (Inr m, w')"
  shows "valid_model (fl_sha256 F) depth (tree w) mp dir m"
proof -
  from assms obtain w1 name u w2 digest w3 expected where v: "load_manifest F depth mp w = (Inr m, w1)"
    "name_of m (lit ''artifact'') = Inr name" "require_regular F (dir @ [name]) w1 = (Inr u, w2)"
    "sha256_file F (dir @ [name]) w2 = (Inr digest, w3)" "dict_item m (lit ''sha256'') = Inr expected"
    "JStr digest = expected"
    by (auto simp: validate_model_def bindE_Inr_iff raiseE_def returnE_def liftR_def split: if_splits)
  obtain perm uid data where load: "tree w mp = Some (Regular perm uid data)" "parse_manifest depth data = Inr m"
    using load_manifest_returns [OF v(1)] by blast
  then have name: "name = ARTIFACT" "expected = JStr ARTIFACT_SHA256"
    using name_of_manifest(1) parse_manifest_names(3) v(2,5) by fastforce+
  have same: "tree w1 = tree w" "tree w2 = tree w"
    using same_tree [OF load_manifest_keeps v(1)] same_tree [OF require_regular_keeps v(3)] by simp_all
  obtain perm' uid' c where art: "tree w (dir @ [ARTIFACT]) = Some (Regular perm' uid' c)"
    using require_regular_returns [OF v(3)] same name by auto
  then have "digest = hexdigest (fl_sha256 F c)"
    using sha256_file_returns [OF v(4)] same name by simp
  with load art v(6) name show ?thesis by (auto simp: valid_model_def)
qed

lemma installed_version_returns:
  assumes "installed_version F depth S model_id w = (Inr v, w')"
  shows "model_id = MODEL_ID \<and> v = S @ [MODEL_ID] \<and> version_ok (fl_sha256 F) depth S (tree w)"
proof -
  from assms obtain info w1 m w2 where v: "model_id = MODEL_ID" "v = S @ [MODEL_ID]"
    "fl_lstat F v w = (Inr info, w1)" "fs_kind info = DirectoryFile"
    "validate_model F depth (v @ [MANIFEST_NAME]) v w1 = (Inr m, w2)"
    by (auto simp: installed_version_def Let_def bindE_Inr_iff raiseE_def returnE_def split: if_splits)
  from lstat_kind(2) [OF v(3,4)] validate_returns [OF v(5)] same_tree [OF looks_keep(1) v(3)] v(1,2)
  show ?thesis by (auto simp: version_ok_def)
qed


lemma temporary_directory_rule:
  assumes "take 1 prefix = [46]" "E T" "\<And>x T'. Q x T' \<Longrightarrow> E T'"
    and body: "\<And>d uid. hoare (\<lambda>w. staged S T d (Folder 448 uid) None None (tree w)) (body d)
        (\<lambda>x w. Q x (published S (tree w))) (\<lambda>w. E (published S (tree w)))"
  shows "hoare (\<lambda>w. published S (tree w) = T) (temporary_directory F prefix S body)
    (\<lambda>x w. Q x (published S (tree w))) (\<lambda>w. E (published S (tree w)))"
  unfolding temporary_directory_def
proof (rule hoare_bind)
  have made: "published S (tree w') = T \<and> (\<forall>d. r = Inr d \<longrightarrow> (\<exists>uid. staged S T d (Folder 448 uid) None None (tree w')))"
    if run: "fl_mkdtemp F prefix S w = (r, w')" and pub: "published S (tree w) = T" for w r w'
  proof -
    from mkdtemp [OF run] obtain x uid where x: "\<forall>q. tree w (S @ (prefix @ x) # q) = None"
      "tree w' = (tree w)(S @ [prefix @ x] \<mapsto> Folder 448 uid) \<and> (\<forall>d. r = Inr d \<longrightarrow> d = S @ [prefix @ x]) \<or>
       tree w' = tree w \<and> (\<exists>e. r = Inl e)" by blast
    have "take 1 (prefix @ x) = [46]" using assms(1) by (cases prefix) simp_all
    with x pub show ?thesis
      by (auto simp: staged_def published_upd files_of_def)
  qed
  show "hoare (\<lambda>w. published S (tree w) = T) (fl_mkdtemp F prefix S)
      (\<lambda>d w. \<exists>uid. staged S T d (Folder 448 uid) None None (tree w)) (\<lambda>w. E (published S (tree w)))"
    by (rule hoareI; drule made) (use assms(2) in auto)
next
  fix d
  let ?P = "\<lambda>w. \<exists>uid. staged S T d (Folder 448 uid) None None (tree w)"
  show "hoare ?P (finallyE (body d) (fl_rmtree F d)) (\<lambda>x w. Q x (published S (tree w))) (\<lambda>w. E (published S (tree w)))"
  proof (cases "\<exists>x. d = S @ [x] \<and> take 1 x = [46]")
    case True
    have removed: "published S (tree (snd (fl_rmtree F d w))) = published S (tree w)" for w
    proof (rule published_eqI)
      fix q assume "\<not> dotted S q"
      then have "\<not> under d q" using True by (auto elim!: underE)
      then show "tree (snd (fl_rmtree F d w)) q = tree w q" by (rule rmtree)
    qed
    have removal: "hoare (\<lambda>w. P (published S (tree w))) (fl_rmtree F d) (\<lambda>_ w. P (published S (tree w))) (\<lambda>w. E (published S (tree w)))"
      if "\<And>T'. P T' \<Longrightarrow> E T'" for P
      using removed that by (intro hoareI) (metis snd_conv)+
    show ?thesis
    proof (rule hoare_finally)
      show "hoare ?P (body d) (\<lambda>x w. Q x (published S (tree w))) (\<lambda>w. E (published S (tree w)))"
        using body by (auto simp: hoare_def)
    qed (use removal assms(3) in auto)
  qed (auto simp: staged_def intro: hoare_empty)
qed


subsection \<open>Publishing a version\<close>

text \<open>A step that only looks, inside a private directory.\<close>

lemma staged_look:
  assumes "\<And>P. keeps (\<lambda>w. P (tree w)) c" "\<And>w x w'. c w = (Inr x, w') \<Longrightarrow> staged S T d f m a (tree w) \<Longrightarrow> Q x"
  shows "hoare (\<lambda>w. staged S T d f m a (tree w)) c (\<lambda>x w. staged S T d f m a (tree w) \<and> Q x)
    (\<lambda>w. published S (tree w) = T)"
  by (rule hoareI) (use same_tree [OF assms(1)] assms(2) staged_published in metis)+

lemma staged_chmod:
  assumes "r = [] \<and> n = f \<and> f' = with_perm perm f \<and> m' = m \<and> a' = a \<or>
    r = [MANIFEST_NAME] \<and> m = Some n \<and> m' = Some (with_perm perm n) \<and> f' = f \<and> a' = a \<or>
    r = [ARTIFACT] \<and> a = Some n \<and> a' = Some (with_perm perm n) \<and> f' = f \<and> m' = m"
  shows "hoare (\<lambda>w. staged S T d f m a (tree w)) (fl_chmod F (d @ r) perm) (\<lambda>_ w. staged S T d f' m' a' (tree w))
    (\<lambda>w. published S (tree w) = T)"
proof -
  have changed: "staged S T d f' m' a' (tree w')"
    if "staged S T d f m a (tree w)" "tree w' = (tree w)(d @ r := map_option (with_perm perm) (tree w (d @ r)))" for w w'
  proof -
    have "tree w (d @ r) = Some n" using staged_at [OF that(1), of r] assms by (auto simp: files_of_def)
    with that assms show ?thesis
      by (intro staged_upd [OF that(1), of "tree w'" r "Some (with_perm perm n)"]) (auto simp: files_upd)
  qed
  have "published S (tree w') = T \<and> (\<exists>e. x = Inl e \<or> staged S T d f' m' a' (tree w'))"
    if st: "staged S T d f m a (tree w)" and run: "fl_chmod F (d @ r) perm w = (x, w')" for w x w'
  proof (cases "tree w' = tree w \<and> (\<exists>e. x = Inl e)")
    case True
    then show ?thesis using staged_published [OF st] by auto
  next
    case False
    with chmod [OF run] have "staged S T d f' m' a' (tree w')" by (intro changed [OF st]) blast
    then show ?thesis using staged_published by blast
  qed
  then show ?thesis by (intro hoareI) blast+
qed

lemma staged_settle_file:
  assumes "r = [MANIFEST_NAME] \<and> m = Some n \<and> m' = Some (with_perm 420 n) \<and> a' = a \<or>
    r = [ARTIFACT] \<and> a = Some n \<and> a' = Some (with_perm 420 n) \<and> m' = m"
  shows "hoare (\<lambda>w. staged S T d f m a (tree w)) (settle_file F (d @ r)) (\<lambda>_ w. staged S T d f m' a' (tree w))
    (\<lambda>w. published S (tree w) = T)"
  unfolding settle_file_def
proof (rule hoare_bind [OF staged_chmod])
  show "hoare (\<lambda>w. staged S T d f m' a' (tree w)) (bindE (fl_open_fd F (d @ r)) (\<lambda>fd. finallyE (fl_fsync F fd) (fl_close F fd)))
      (\<lambda>_ w. staged S T d f m' a' (tree w)) (\<lambda>w. published S (tree w) = T)"
    by (rule hoare_keeps) (intro keeps_rules | simp add: staged_published)+
qed (use assms in auto)

lemma staged_settle_files:
  assumes "set names \<subseteq> {MANIFEST_NAME, ARTIFACT}"
  shows "hoare (\<lambda>w. staged S T d f (Some m) (Some a) (tree w)) (settle_files F d names)
    (\<lambda>_ w. staged S T d f (Some (if MANIFEST_NAME \<in> set names then with_perm 420 m else m))
       (Some (if ARTIFACT \<in> set names then with_perm 420 a else a)) (tree w)) (\<lambda>w. published S (tree w) = T)"
  using assms
proof (induction names arbitrary: m a)
  case Nil
  then show ?case by (simp add: hoare_return)
next
  case (Cons name names)
  have perm: "(if b then with_perm 420 (with_perm 420 n) else with_perm 420 n) = with_perm 420 n" for b n
    by (cases n) simp_all
  from Cons.prems consider "name = MANIFEST_NAME" | "name = ARTIFACT" by auto
  then show ?case
  proof cases
    case 1
    show ?thesis
      using Cons.IH [of "with_perm 420 m" a] Cons.prems
      by (auto simp: 1 perm intro!: hoare_bind [OF staged_settle_file [of _ _ m]])
  next
    case 2
    show ?thesis
      using Cons.IH [of m "with_perm 420 a"] Cons.prems
      by (auto simp: 2 perm intro!: hoare_bind [OF staged_settle_file [of _ _ a]])
  qed
qed

lemma staged_rename:
  assumes "parse_manifest depth data = Inr m" "hexdigest (fl_sha256 F c) = ARTIFACT_SHA256"
  shows "hoare (\<lambda>w. staged S T d (Folder 493 u1) (Some (Regular 420 u2 (manifest_bytes m))) (Some (Regular 420 u3 c)) (tree w))
    (fl_rename F d (S @ [MODEL_ID])) (\<lambda>_ w. installs (fl_sha256 F) depth S T (published S (tree w)))
    (\<lambda>w. published S (tree w) = T \<or> installs (fl_sha256 F) depth S T (published S (tree w)))"
proof -
  have "published S (tree w') = T \<and> (\<exists>e. r = Inl e) \<or> installs (fl_sha256 F) depth S T (published S (tree w'))"
    if st: "staged S T d (Folder 493 u1) (Some (Regular 420 u2 (manifest_bytes m))) (Some (Regular 420 u3 c)) (tree w)"
      and run: "fl_rename F d (S @ [MODEL_ID]) w = (r, w')" for w w' r
  proof -
    have "tree w d = Some (Folder 493 u1)" using staged_at [OF st, of "[]"] by (simp add: files_of_def)
    from rename [OF run this] consider (none) "tree w' = tree w" "\<exists>e. r = Inl e"
      | (all) "\<forall>x q. tree w ((S @ [MODEL_ID]) @ x # q) = None" "tree w' = moved d (S @ [MODEL_ID]) (tree w)"
      by blast
    then show ?thesis
    proof cases
      case none
      with staged_published [OF st] show ?thesis by simp
    next
      case all
      obtain x where x: "d = S @ [x]" "take 1 x = [46]" using st by (auto simp: staged_def)
      have "published S (tree w') = (\<lambda>q. if under (S @ [MODEL_ID]) q
          then files_of (Folder 493 u1) (Some (Regular 420 u2 (manifest_bytes m))) (Some (Regular 420 u3 c)) (drop (Suc (length S)) q)
          else T q)" (is "_ = ?T")
      proof (rule ext)
        fix q
        show "published S (tree w') q = ?T q"
        proof (cases "under (S @ [MODEL_ID]) q")
          case True
          then obtain r where q: "q = (S @ [MODEL_ID]) @ r" by (rule underE)
          show ?thesis
            using staged_at [OF st, of r] by (simp add: q published_def all(2) moved_def under_def)
        next
          case False
          have "under d q \<Longrightarrow> dotted S q" using x by (auto elim!: underE)
          with False show ?thesis
            using staged_published [OF st] by (auto simp: published_def all(2) moved_def)
        qed
      qed
      moreover have "T (S @ MODEL_ID # x # q) = None" for x q
        using all(1) staged_published [OF st] by (auto simp: published_def)
      ultimately show ?thesis using assms unfolding installs_def by blast
    qed
  qed
  then show ?thesis by (intro hoareI) blast+
qed


lemma hoare_exists: "(\<And>u. hoare (P u) m Q E) \<Longrightarrow> hoare (\<lambda>w. \<exists>u. P u w) m Q E"
  by (auto simp: hoare_def)

lemma hoare_fact: "(b \<Longrightarrow> hoare P m Q E) \<Longrightarrow> hoare (\<lambda>w. P w \<and> b) m Q E"
  by (auto simp: hoare_def)

text \<open>A call that puts a file into a private directory and touches nothing else.\<close>

lemma staged_put:
  assumes none: "files_of f m a [name] = None"
    and same: "\<And>w r w' q. c w = (r, w') \<Longrightarrow> tree w (d @ [name]) = None \<Longrightarrow> q \<noteq> d @ [name] \<Longrightarrow> tree w' q = tree w q"
    and put: "\<And>w u w'. c w = (Inr u, w') \<Longrightarrow> tree w (d @ [name]) = None \<Longrightarrow> P w \<Longrightarrow> \<exists>n. G n \<and> tree w' (d @ [name]) = Some n"
    and files: "\<And>n. (files_of f m a)([name] := Some n) = files_of f (m' n) (a' n)"
  shows "hoare (\<lambda>w. staged S T d f m a (tree w) \<and> P w) c (\<lambda>_ w. \<exists>n. staged S T d f (m' n) (a' n) (tree w) \<and> G n)
    (\<lambda>w. published S (tree w) = T)"
proof (rule hoareI)
  fix w e w' assume st: "staged S T d f m a (tree w) \<and> P w" and run: "c w = (Inl e, w')"
  then have "tree w (d @ [name]) = None" using none staged_at by metis
  from same [OF run this] st staged_dotted [of S T d f m a "tree w" "[name]"]
  have "published S (tree w') = published S (tree w)" by (intro published_eqI) metis
  then show "published S (tree w') = T" using st staged_published by metis
next
  fix w x w' assume st: "staged S T d f m a (tree w) \<and> P w" and run: "c w = (Inr x, w')"
  then have at: "tree w (d @ [name]) = None" using none staged_at by metis
  from put [OF run at] st obtain n where n: "G n" "tree w' (d @ [name]) = Some n" by blast
  have "staged S T d f (m' n) (a' n) (tree w')"
    by (rule staged_upd [of S T d f m a "tree w" "tree w'" "[name]"]) (use st n same [OF run at] files in auto)
  with n(1) show "\<exists>n. staged S T d f (m' n) (a' n) (tree w') \<and> G n" by blast
qed

lemma staged_copyfile:
  "hoare (\<lambda>w. staged S T d f None None (tree w) \<and> (\<exists>perm uid. tree w src = Some (Regular perm uid c)))
    (fl_copyfile F src (d @ [ARTIFACT]))
    (\<lambda>_ w. \<exists>n. staged S T d f None (Some n) (tree w) \<and> (\<exists>perm uid. n = Regular perm uid c))
    (\<lambda>w. published S (tree w) = T)"
  by (rule staged_put) (auto simp: files_of_def files_upd copyfile, blast dest: copied)

lemma staged_write:
  "hoare (\<lambda>w. staged S T d f None a (tree w) \<and> True) (fl_write F (d @ [MANIFEST_NAME]) data)
    (\<lambda>_ w. \<exists>n. staged S T d f (Some n) a (tree w) \<and> (\<exists>perm uid. n = Regular perm uid data))
    (\<lambda>w. published S (tree w) = T)"
  by (rule staged_put [where name = MANIFEST_NAME])
    (auto simp: files_of_def [of _ _ _ "[_]"] files_upd written dest: wrote)

text \<open>From the complete files to the published version.\<close>

lemma publish_settled:
  assumes m: "parse_manifest depth data = Inr m" and digest: "hexdigest (fl_sha256 F c) = ARTIFACT_SHA256"
  shows "hoare (\<lambda>w. staged S T d (Folder 448 uid) (Some (Regular p u (manifest_bytes m))) (Some (Regular p' u' c)) (tree w))
    (bindE (fl_listdir F d) (\<lambda>names. bindE (settle_files F d names) (\<lambda>_. bindE (fl_chmod F d 493) (\<lambda>_.
     bindE (sync_directory F d) (\<lambda>_. bindE (fl_rename F d (S @ [MODEL_ID])) (\<lambda>_. sync_directory F S))))))
    (\<lambda>_ w. installs (fl_sha256 F) depth S T (published S (tree w)))
    (\<lambda>w. published S (tree w) = T \<or> installs (fl_sha256 F) depth S T (published S (tree w)))"
    (is "hoare ?P _ _ ?E")
proof (rule hoare_bind)
  let ?St = "\<lambda>perm q q' w. staged S T d (Folder perm uid) (Some (Regular q u (manifest_bytes m))) (Some (Regular q' u' c)) (tree w)"
  have E: "hoare P c Q (\<lambda>w. published S (tree w) = T) \<Longrightarrow> hoare P c Q ?E" for P Q and c :: "('w, 'b) io"
    by (erule hoare_weaken) auto
  show "hoare ?P (fl_listdir F d) (\<lambda>names w. ?P w \<and> set names = {MANIFEST_NAME, ARTIFACT}) ?E"
  proof (rule E, rule staged_look [OF looks_keep(4)])
    fix w names w'
    assume "fl_listdir F d w = (Inr names, w')" "?P w"
    then show "set names = {MANIFEST_NAME, ARTIFACT}"
      using listdir by (auto simp: staged_at files_of_def split: if_splits)
  qed
  have settle: "hoare ?P (settle_files F d names) (\<lambda>_. ?St 448 420 420) ?E"
    if "set names = {MANIFEST_NAME, ARTIFACT}" for names
    using staged_settle_files [of names S T d "Folder 448 uid" "Regular p u (manifest_bytes m)" "Regular p' u' c"] that
    by (intro E) simp
  have mode: "hoare (?St 448 420 420) (fl_chmod F d 493) (\<lambda>_. ?St 493 420 420) ?E"
    using staged_chmod [of "[]" "Folder 448 uid" "Folder 448 uid" "Folder 493 uid" 493]
    by (intro E) simp
  have sync: "hoare (?St 493 420 420) (sync_directory F d) (\<lambda>_. ?St 493 420 420) ?E"
    by (rule hoare_keeps [OF sync_keeps]) (simp add: staged_published)
  have "hoare (\<lambda>w. installs (fl_sha256 F) depth S T (published S (tree w))) (sync_directory F S)
      (\<lambda>_ w. installs (fl_sha256 F) depth S T (published S (tree w))) ?E"
    by (rule hoare_keeps [OF sync_keeps]) simp
  note tail = hoare_bind [OF mode hoare_bind [OF sync hoare_bind [OF staged_rename [OF m digest] this]]]
  show "hoare (\<lambda>w. ?P w \<and> set names = {MANIFEST_NAME, ARTIFACT})
      (bindE (settle_files F d names) (\<lambda>_. bindE (fl_chmod F d 493) (\<lambda>_.
       bindE (sync_directory F d) (\<lambda>_. bindE (fl_rename F d (S @ [MODEL_ID])) (\<lambda>_. sync_directory F S)))))
      (\<lambda>_ w. installs (fl_sha256 F) depth S T (published S (tree w))) ?E" for names
    by (rule hoare_fact, rule hoare_bind [OF settle tail])
qed


lemma publish_version_rule:
  assumes m: "parse_manifest depth data = Inr m"
  shows "hoare (\<lambda>w. staged S T d (Folder 448 uid) None None (tree w))
    (publish_version F depth m source S (S @ [MODEL_ID]) d)
    (\<lambda>_ w. installs (fl_sha256 F) depth S T (published S (tree w)))
    (\<lambda>w. published S (tree w) = T \<or> installs (fl_sha256 F) depth S T (published S (tree w)))"
    (is "hoare ?P _ ?Q ?E")
proof -
  have E: "hoare P c Q (\<lambda>w. published S (tree w) = T) \<Longrightarrow> hoare P c Q ?E" for P Q and c :: "('w, 'b) io"
    by (erule hoare_weaken) auto
  let ?src = "source @ [ARTIFACT]"
  have regular: "hoare ?P (require_regular F ?src) (\<lambda>_ w. \<exists>c. ?P w \<and> (\<exists>perm uid. tree w ?src = Some (Regular perm uid c))) ?E"
    by (rule E, rule hoareI) (use same_tree [OF require_regular_keeps] require_regular_returns staged_published in metis)+
  have valid: "hoare (\<lambda>w. staged S T d (Folder 448 uid) (Some (Regular p u (manifest_bytes m))) (Some (Regular p' u' c)) (tree w))
      (validate_model F depth (d @ [MANIFEST_NAME]) d)
      (\<lambda>_ w. staged S T d (Folder 448 uid) (Some (Regular p u (manifest_bytes m))) (Some (Regular p' u' c)) (tree w) \<and>
         hexdigest (fl_sha256 F c) = ARTIFACT_SHA256) ?E" for p u p' u' c
    by (rule E, rule staged_look [OF validate_keeps])
      (auto dest!: validate_returns simp: valid_model_def staged_at files_of_def)
  note checked = hoare_bind [OF valid hoare_fact [OF publish_settled [OF m]]]
  let ?tail = "bindE (validate_model F depth (d @ [MANIFEST_NAME]) d) (\<lambda>_. bindE (fl_listdir F d) (\<lambda>names.
       bindE (settle_files F d names) (\<lambda>_. bindE (fl_chmod F d 493) (\<lambda>_. bindE (sync_directory F d) (\<lambda>_.
       bindE (fl_rename F d (S @ [MODEL_ID])) (\<lambda>_. sync_directory F S))))))"
  have rest: "hoare (\<lambda>w. \<exists>n. staged S T d (Folder 448 uid) None (Some n) (tree w) \<and> (\<exists>perm uid. n = Regular perm uid c))
      (bindE (fl_write F (d @ [MANIFEST_NAME]) (manifest_bytes m)) (\<lambda>_. ?tail)) ?Q ?E" for c
  proof (rule hoare_exists, rule hoare_fact, elim exE)
    fix n perm owner assume n: "n = Regular perm owner c"
    have "hoare (\<lambda>w. \<exists>n'. staged S T d (Folder 448 uid) (Some n') (Some n) (tree w) \<and> (\<exists>p u. n' = Regular p u (manifest_bytes m)))
        ?tail ?Q ?E"
      by (rule hoare_exists, rule hoare_fact) (auto simp: n intro: checked)
    moreover have "hoare (\<lambda>w. staged S T d (Folder 448 uid) None (Some n) (tree w)) (fl_write F (d @ [MANIFEST_NAME]) (manifest_bytes m))
        (\<lambda>_ w. \<exists>n'. staged S T d (Folder 448 uid) (Some n') (Some n) (tree w) \<and> (\<exists>p u. n' = Regular p u (manifest_bytes m))) ?E"
      using staged_write [of S T d "Folder 448 uid" "Some n" "manifest_bytes m"] by (intro E) simp
    ultimately show "hoare (\<lambda>w. staged S T d (Folder 448 uid) None (Some n) (tree w))
        (bindE (fl_write F (d @ [MANIFEST_NAME]) (manifest_bytes m)) (\<lambda>_. ?tail)) ?Q ?E"
      by (rule hoare_bind [rotated])
  qed
  show ?thesis
    unfolding publish_version_def name_of_manifest(1) [OF m] bindE_liftR
    by (rule hoare_bind [OF regular hoare_exists [OF hoare_bind [OF E [OF staged_copyfile] rest]]])
qed


subsection \<open>The commands\<close>

lemma store_lock_rule:
  assumes body: "hoare (\<lambda>w. published S (tree w) = T) body (\<lambda>x w. Q x (published S (tree w))) (\<lambda>w. E (published S (tree w)))"
    and "E T" "\<And>x T'. Q x T' \<Longrightarrow> E T'"
  shows "hoare (\<lambda>w. published S (tree w) = T) (store_lock F S body)
    (\<lambda>x w. Q x (published S (tree w))) (\<lambda>w. E (published S (tree w)))"
proof -
  let ?I = "\<lambda>w. published S (tree w) = T" and ?E = "\<lambda>w. E (published S (tree w))"
  have look: "hoare (\<lambda>w. P (published S (tree w))) m (\<lambda>_ w. P (published S (tree w))) ?E"
    if "\<And>P. keeps (\<lambda>w. P (tree w)) m" "\<And>T'. P T' \<Longrightarrow> E T'" for P and m :: "('w, 'b) io"
    by (rule hoare_keeps [OF that(1)]) (rule that(2))
  have locked: "keeps ?I (fl_open_lock F (S @ [LOCK_NAME]))"
  proof (rule keepsI)
    fix w assume "?I w"
    moreover have "published S (tree (snd (fl_open_lock F (S @ [LOCK_NAME]) w))) = published S (tree w)"
      by (rule published_eqI, rule open_lock) (auto simp: LOCK_NAME_def lit_Cons)
    ultimately show "?I (snd (fl_open_lock F (S @ [LOCK_NAME]) w))" by simp
  qed
  have guarded: "hoare ?I (finallyE (bindE (fl_flock F fd) (\<lambda>_. body)) (fl_close F fd))
      (\<lambda>x w. Q x (published S (tree w))) ?E" for fd
  proof (rule hoare_finally)
    show "hoare ?I (bindE (fl_flock F fd) (\<lambda>_. body)) (\<lambda>x w. Q x (published S (tree w))) ?E"
      by (rule hoare_bind [OF look [of _ "\<lambda>T'. T' = T"] body]) (use looks_keep(6) assms(2) in auto)
  qed (intro look looks_keep(9); use assms(3) in blast)+
  show ?thesis
    unfolding store_lock_def
    by (rule hoare_bind [OF look [of _ "\<lambda>T'. T' = T", OF looks_keep(1)]])
      (use assms(2) in \<open>auto intro!: hoare_if hoare_raise hoare_bind [OF look [of _ "\<lambda>T'. T' = T", OF looks_keep(5)]]
         hoare_bind [OF hoare_keeps [OF locked] guarded]\<close>)
qed

lemma installed_version_rule:
  "hoare (\<lambda>w. published S (tree w) = T) (installed_version F depth S model_id)
    (\<lambda>v w. published S (tree w) = T \<and> (model_id = MODEL_ID \<and> v = S @ [MODEL_ID] \<and> version_ok (fl_sha256 F) depth S T))
    (\<lambda>w. published S (tree w) = T)"
proof (rule hoareI)
  fix w e w' assume "published S (tree w) = T" "installed_version F depth S model_id w = (Inl e, w')"
  with same_tree [OF installed_version_keeps] show "published S (tree w') = T" by metis
next
  fix w v w' assume w: "published S (tree w) = T" and run: "installed_version F depth S model_id w = (Inr v, w')"
  have "tree w' = tree w" by (rule same_tree [OF installed_version_keeps run])
  with w installed_version_returns [OF run] version_ok_published
  show "published S (tree w') = T \<and> (model_id = MODEL_ID \<and> v = S @ [MODEL_ID] \<and> version_ok (fl_sha256 F) depth S T)"
    by metis
qed

lemma load_manifest_rule:
  "hoare (\<lambda>w. published S (tree w) = T) (load_manifest F depth p)
    (\<lambda>m w. published S (tree w) = T \<and> (\<exists>data. parse_manifest depth data = Inr m)) (\<lambda>w. published S (tree w) = T)"
proof (rule hoareI)
  fix w e w' assume "published S (tree w) = T" "load_manifest F depth p w = (Inl e, w')"
  with same_tree [OF load_manifest_keeps] show "published S (tree w') = T" by metis
next
  fix w m w' assume "published S (tree w) = T" and run: "load_manifest F depth p w = (Inr m, w')"
  then show "published S (tree w') = T \<and> (\<exists>data. parse_manifest depth data = Inr m)"
    using same_tree [OF load_manifest_keeps run] load_manifest_returns [OF run] by auto
qed

lemma install_model_rule:
  "hoare (\<lambda>w. published S (tree w) = T) (install_model F depth mp source S)
    (\<lambda>v w. v = S @ [MODEL_ID] \<and> version_ok (fl_sha256 F) depth S (published S (tree w)) \<and>
       (published S (tree w) = T \<or> installs (fl_sha256 F) depth S T (published S (tree w))))
    (\<lambda>w. published S (tree w) = T \<or> installs (fl_sha256 F) depth S T (published S (tree w)))"
proof -
  let ?I = "\<lambda>w. published S (tree w) = T"
  let ?R = "\<lambda>T'. T' = T \<or> installs (fl_sha256 F) depth S T T'"
  let ?Q = "\<lambda>v T'. v = S @ [MODEL_ID] \<and> version_ok (fl_sha256 F) depth S T' \<and> ?R T'"
  have E: "hoare P c Q ?I \<Longrightarrow> hoare P c Q (\<lambda>w. ?R (published S (tree w)))" for P Q and c :: "('w, 'b) io"
    by (erule hoare_weaken) auto
  have old: "hoare ?I (bindE (validate_model F depth mp source) (\<lambda>_. installed_version F depth S MODEL_ID))
      (\<lambda>v w. ?Q v (published S (tree w))) (\<lambda>w. ?R (published S (tree w)))"
  proof (rule hoare_bind)
    show "hoare ?I (validate_model F depth mp source) (\<lambda>_. ?I) (\<lambda>w. ?R (published S (tree w)))"
      by (rule hoare_keeps [OF validate_keeps]) simp
    show "hoare ?I (installed_version F depth S MODEL_ID) (\<lambda>v w. ?Q v (published S (tree w))) (\<lambda>w. ?R (published S (tree w)))"
      by (rule hoare_weaken [OF installed_version_rule]) auto
  qed
  have new: "hoare ?I (bindE (temporary_directory F (lit ''.stage-'') S (publish_version F depth m source S (S @ [MODEL_ID])))
        (\<lambda>_. returnE (S @ [MODEL_ID])))
      (\<lambda>v w. ?Q v (published S (tree w))) (\<lambda>w. ?R (published S (tree w)))" if "parse_manifest depth data = Inr m" for data m
  proof (rule hoare_bind)
    show "hoare ?I (temporary_directory F (lit ''.stage-'') S (publish_version F depth m source S (S @ [MODEL_ID])))
        (\<lambda>_ w. installs (fl_sha256 F) depth S T (published S (tree w))) (\<lambda>w. ?R (published S (tree w)))"
      by (rule temporary_directory_rule [where E = ?R]) (auto simp: lit_Cons intro: publish_version_rule [OF that])
    show "hoare (\<lambda>w. installs (fl_sha256 F) depth S T (published S (tree w))) (returnE (S @ [MODEL_ID]))
        (\<lambda>v w. ?Q v (published S (tree w))) (\<lambda>w. ?R (published S (tree w)))"
      by (rule hoare_return) (auto intro: installs_ok)
  qed
  have present: "hoare ?I (lexists F p) (\<lambda>_. ?I) (\<lambda>w. ?R (published S (tree w)))" for p
    by (rule hoare_keeps [OF lexists_keeps]) simp
  have "hoare (\<lambda>w. ?I w \<and> (\<exists>data. parse_manifest depth data = Inr m))
      (store_lock F S (bindE (liftR (name_of m (lit ''model_id''))) (\<lambda>model_id.
        let destination = S @ [model_id] in
        bindE (lexists F destination) (\<lambda>present.
        if present then bindE (validate_model F depth mp source) (\<lambda>_. installed_version F depth S model_id)
        else bindE (temporary_directory F (lit ''.stage-'') S (publish_version F depth m source S destination)) (\<lambda>_.
          returnE destination)))))
      (\<lambda>v w. ?Q v (published S (tree w))) (\<lambda>w. ?R (published S (tree w)))" for m
    by (rule hoare_fact, elim exE, rule store_lock_rule [where E = ?R])
      (auto simp: name_of_manifest Let_def intro!: hoare_bind [OF present] hoare_if old new)
  then show ?thesis
    unfolding install_model_def by (rule hoare_bind [OF E [OF load_manifest_rule]])
qed


lemma pointer_body_rule:
  assumes "take 1 name \<noteq> [46]" "version_ok (fl_sha256 F) depth S T"
  shows "hoare (\<lambda>w. staged S T d (Folder 448 uid) None None (tree w))
    (bindE (fl_symlink F (d @ [lit ''link'']) MODEL_ID) (\<lambda>_.
     bindE (fl_replace F (d @ [lit ''link'']) (S @ [name])) (\<lambda>_. sync_directory F S)))
    (\<lambda>_ w. points (fl_sha256 F) depth S name T (published S (tree w)))
    (\<lambda>w. published S (tree w) = T \<or> points (fl_sha256 F) depth S name T (published S (tree w)))"
proof (cases "\<exists>x. d = S @ [x] \<and> take 1 x = [46]")
  case True
  then obtain x where x: "d = S @ [x]" "take 1 x = [46]" by blast
  let ?l = "d @ [lit ''link'']"
  have dot: "dotted S ?l" using x by simp
  let ?L = "\<lambda>w. published S (tree w) = T \<and> tree w ?l = Some (Link MODEL_ID)"
  let ?Q = "\<lambda>w. points (fl_sha256 F) depth S name T (published S (tree w))"
  have "published S (tree w') = T \<and> ((\<exists>e. r = Inl e) \<or> ?L w')"
    if "published S (tree w) = T" "fl_symlink F ?l MODEL_ID w = (r, w')" for w r w'
    using symlink [OF that(2)] that(1) dot by (auto simp: published_upd)
  then have link: "hoare (\<lambda>w. staged S T d (Folder 448 uid) None None (tree w)) (fl_symlink F ?l MODEL_ID) (\<lambda>_. ?L)
      (\<lambda>w. published S (tree w) = T \<or> ?Q w)"
    by (intro hoareI) (use staged_published in blast)+
  have "published S (tree w') = T \<and> (\<exists>e. r = Inl e) \<or> ?Q w'"
    if "?L w" "fl_replace F ?l (S @ [name]) w = (r, w')" for w r w'
  proof -
    have "published S ((tree w)(?l := None, S @ [name] \<mapsto> Link MODEL_ID)) = T(S @ [name] \<mapsto> Link MODEL_ID)"
    proof (rule ext)
      fix q
      have "T q = (if dotted S q then None else tree w q)" using that(1) by (auto simp: published_def)
      then show "published S ((tree w)(?l := None, S @ [name] \<mapsto> Link MODEL_ID)) q = (T(S @ [name] \<mapsto> Link MODEL_ID)) q"
        using dot assms(1) by (simp add: published_def)
    qed
    with replace [OF that(2)] that(1) assms(2) show ?thesis by (auto simp: points_def)
  qed
  then have "hoare ?L (fl_replace F ?l (S @ [name])) (\<lambda>_. ?Q) (\<lambda>w. published S (tree w) = T \<or> ?Q w)"
    by (intro hoareI) blast+
  moreover have "hoare ?Q (sync_directory F S) (\<lambda>_. ?Q) (\<lambda>w. published S (tree w) = T \<or> ?Q w)"
    by (rule hoare_keeps [OF sync_keeps]) simp
  ultimately show ?thesis by (rule hoare_bind [OF link hoare_bind])
qed (auto simp: staged_def intro: hoare_empty)

lemma replace_pointer_rule:
  assumes "take 1 name \<noteq> [46]"
  shows "hoare (\<lambda>w. published S (tree w) = T) (replace_pointer F depth S name model_id)
    (\<lambda>v w. (model_id = MODEL_ID \<and> v = S @ [MODEL_ID]) \<and> points (fl_sha256 F) depth S name T (published S (tree w)))
    (\<lambda>w. published S (tree w) = T \<or> model_id = MODEL_ID \<and> points (fl_sha256 F) depth S name T (published S (tree w)))"
  unfolding replace_pointer_def
proof (rule hoare_bind)
  let ?E = "\<lambda>T'. T' = T \<or> model_id = MODEL_ID \<and> points (fl_sha256 F) depth S name T T'"
  let ?F = "\<lambda>v. model_id = MODEL_ID \<and> v = S @ [MODEL_ID] \<and> version_ok (fl_sha256 F) depth S T"
  show "hoare (\<lambda>w. published S (tree w) = T) (installed_version F depth S model_id)
      (\<lambda>v w. published S (tree w) = T \<and> ?F v) (\<lambda>w. ?E (published S (tree w)))"
    by (rule hoare_weaken [OF installed_version_rule]) auto
  fix v
  have body: "hoare (\<lambda>w. published S (tree w) = T)
      (temporary_directory F (lit ''.pointer-'') S (\<lambda>temporary.
         bindE (fl_symlink F (temporary @ [lit ''link'']) (last v)) (\<lambda>_.
         bindE (fl_replace F (temporary @ [lit ''link'']) (S @ [name])) (\<lambda>_. sync_directory F S))))
      (\<lambda>_ w. points (fl_sha256 F) depth S name T (published S (tree w))) (\<lambda>w. ?E (published S (tree w)))" if "?F v"
    by (rule temporary_directory_rule [where E = ?E])
      (use that pointer_body_rule [OF assms, of depth S T] in \<open>auto simp: lit_Cons\<close>)
  show "hoare (\<lambda>w. published S (tree w) = T \<and> ?F v)
      (bindE (temporary_directory F (lit ''.pointer-'') S (\<lambda>temporary.
         bindE (fl_symlink F (temporary @ [lit ''link'']) (last v)) (\<lambda>_.
         bindE (fl_replace F (temporary @ [lit ''link'']) (S @ [name])) (\<lambda>_. sync_directory F S)))) (\<lambda>_. returnE v))
      (\<lambda>v w. (model_id = MODEL_ID \<and> v = S @ [MODEL_ID]) \<and> points (fl_sha256 F) depth S name T (published S (tree w)))
      (\<lambda>w. ?E (published S (tree w)))"
    by (rule hoare_fact, rule hoare_bind [OF body]) (auto intro: hoare_return)
qed

text \<open>A command leaves the published part as it was or does exactly what it is meant to, and it has done so if it returns.\<close>

lemma pointers_not_dotted: "take 1 (lit ''current'') \<noteq> [46]" "take 1 (lit ''known-good'') \<noteq> [46]"
  by (simp_all add: lit_Cons)

lemma locked_pointer_rule:
  assumes "take 1 name \<noteq> [46]"
  shows "hoare (\<lambda>w. published S (tree w) = T) (store_lock F S (replace_pointer F depth S name model_id))
    (\<lambda>v w. v = S @ [MODEL_ID] \<and> points (fl_sha256 F) depth S name T (published S (tree w)))
    (\<lambda>w. published S (tree w) = T \<or> points (fl_sha256 F) depth S name T (published S (tree w)))"
  by (rule store_lock_rule [where E = "\<lambda>T'. T' = T \<or> points (fl_sha256 F) depth S name T T'"])
    (auto intro: hoare_weaken [OF replace_pointer_rule [OF assms]])

lemma rollback_rule:
  "hoare (\<lambda>w. published S (tree w) = T) (rollback_model F depth S)
    (\<lambda>v w. v = S @ [MODEL_ID] \<and> effect (fl_sha256 F) depth S Rollback T (published S (tree w)))
    (\<lambda>w. published S (tree w) = T \<or> effect (fl_sha256 F) depth S Rollback T (published S (tree w)))"
  unfolding rollback_model_def
proof (rule store_lock_rule [where E = "\<lambda>T'. T' = T \<or> effect (fl_sha256 F) depth S Rollback T T'"], rule hoare_bind)
  let ?E = "\<lambda>w. published S (tree w) = T \<or> effect (fl_sha256 F) depth S Rollback T (published S (tree w))"
  show "hoare (\<lambda>w. published S (tree w) = T) (fl_readlink F (S @ [lit ''known-good'']))
      (\<lambda>model_id w. published S (tree w) = T \<and> T (S @ [lit ''known-good'']) = Some (Link model_id)) ?E"
  proof (rule hoareI)
    fix w e w' assume "published S (tree w) = T" "fl_readlink F (S @ [lit ''known-good'']) w = (Inl e, w')"
    with same_tree [OF looks_keep(3)] show "?E w'" by metis
  next
    fix w t w' assume w: "published S (tree w) = T" and run: "fl_readlink F (S @ [lit ''known-good'']) w = (Inr t, w')"
    have "T (S @ [lit ''known-good'']) = tree w (S @ [lit ''known-good''])"
      using w pointers_not_dotted(2) by (auto simp: published_def)
    with same_tree [OF looks_keep(3) run] w readlink [OF run]
    show "published S (tree w') = T \<and> T (S @ [lit ''known-good'']) = Some (Link t)" by simp
  qed
  show "hoare (\<lambda>w. published S (tree w) = T \<and> T (S @ [lit ''known-good'']) = Some (Link model_id))
      (replace_pointer F depth S (lit ''current'') model_id)
      (\<lambda>v w. v = S @ [MODEL_ID] \<and> effect (fl_sha256 F) depth S Rollback T (published S (tree w))) ?E" for model_id
    by (rule hoare_fact, rule hoare_weaken [OF replace_pointer_rule [OF pointers_not_dotted(1)]]) auto
qed auto

lemma run_command_rule:
  "hoare (\<lambda>w. published S (tree w) = T) (run_command F depth S command)
    (\<lambda>_ w. effect (fl_sha256 F) depth S command T (published S (tree w)) \<or>
       published S (tree w) = T \<and> (\<exists>mp source. command = Install mp source) \<and> version_ok (fl_sha256 F) depth S T)
    (\<lambda>w. published S (tree w) = T \<or> effect (fl_sha256 F) depth S command T (published S (tree w)))"
proof (cases command)
  case (Validate mp source)
  have "hoare (\<lambda>w. published S (tree w) = T) (validate_model F depth mp source) (\<lambda>_ w. published S (tree w) = T) (\<lambda>w. published S (tree w) = T)"
    by (rule hoare_keeps [OF validate_keeps]) simp
  then show ?thesis
    by (auto simp: Validate run_command_def intro!: hoare_bind [OF _ hoare_return])
next
  case (Install mp source)
  show ?thesis
    unfolding Install run_command_def store_command.case
    by (rule hoare_bind [OF hoare_weaken [OF install_model_rule] hoare_return]) auto
next
  case (Activate model_id)
  show ?thesis
    unfolding Activate run_command_def activate_model_def store_command.case
    by (rule hoare_bind [OF hoare_weaken [OF locked_pointer_rule [OF pointers_not_dotted(1)]] hoare_return]) auto
next
  case (Qualify model_id)
  show ?thesis
    unfolding Qualify run_command_def qualify_model_def store_command.case
    by (rule hoare_bind [OF hoare_weaken [OF locked_pointer_rule [OF pointers_not_dotted(2)]] hoare_return]) auto
next
  case Rollback
  show ?thesis
    unfolding Rollback run_command_def store_command.case
    by (rule hoare_bind [OF hoare_weaken [OF rollback_rule] hoare_return]) auto
qed

end

end
