(* ===== verification/Model_Works.thy ===== *)
theory Model_Works
  imports Model_Facts
begin

text \<open>
  What the commands do where nothing fails: over a file system that answers (the locale
  \<open>working_files\<close>) an installation, a qualification, an activation and a rollback return. A file system of
  nodes in a list, with a list of the calls that fail, meets both locales; the properties of the store.
\<close>

section \<open>Computations that return\<close>

definition works :: "('w \<Rightarrow> bool) \<Rightarrow> ('w \<Rightarrow> bool) \<Rightarrow> ('w, 'a) io \<Rightarrow> bool" where
  "works quiet P m \<longleftrightarrow> (\<forall>w. quiet w \<and> P w \<longrightarrow> (\<exists>x w'. m w = (Inr x, w') \<and> quiet w'))"

lemma works_weaken: "works quiet P m \<Longrightarrow> (\<And>w. P' w \<Longrightarrow> P w) \<Longrightarrow> works quiet P' m"
  by (auto simp: works_def)

lemma works_return: "works quiet P (returnE x)"
  by (simp add: works_def returnE_def)

lemma works_liftR: "(\<And>w. P w \<Longrightarrow> \<exists>x. r = Inr x) \<Longrightarrow> works quiet P (liftR r)"
  by (fastforce simp: works_def liftR_def)

lemma works_bind:
  "works quiet P m \<Longrightarrow> hoare P m Q E \<Longrightarrow> (\<And>x. works quiet (Q x) (f x)) \<Longrightarrow> works quiet P (bindE m f)"
  unfolding works_def by (metis bindE_apply(2) hoare_Inr)

lemma works_finally:
  "works quiet P m \<Longrightarrow> hoare P m Q E \<Longrightarrow> (\<And>x. works quiet (Q x) f) \<Longrightarrow> works quiet P (finallyE m f)"
  unfolding works_def finallyE_def by (fastforce dest: hoare_Inr)

lemma works_exists: "(\<And>u. works quiet (P u) m) \<Longrightarrow> works quiet (\<lambda>w. \<exists>u. P u w) m"
  by (auto simp: works_def)

lemma works_fact: "(b \<Longrightarrow> works quiet P m) \<Longrightarrow> works quiet (\<lambda>w. P w \<and> b) m"
  by (auto simp: works_def)

lemma works_false [simp]: "works quiet (\<lambda>_. False) m"
  by (simp add: works_def)

lemma works_given: "(\<And>w. P w \<Longrightarrow> b) \<Longrightarrow> (b \<Longrightarrow> works quiet P m) \<Longrightarrow> works quiet P m"
  by (auto simp: works_def)

section \<open>A file system that answers\<close>

locale working_files = model_files F tree for F :: "'w files" and tree :: "'w \<Rightarrow> tree" +
  fixes quiet :: "'w \<Rightarrow> bool" and euid :: int
  assumes lstat_works: "works quiet (\<lambda>w. tree w p \<noteq> None) (fl_lstat F p)"
    and lstat_missing: "quiet w \<Longrightarrow> tree w p = None \<Longrightarrow> \<exists>e w'. fl_lstat F p w = (Inl e, w') \<and> is_os_error e \<and> quiet w'"
    and open_works: "works quiet (\<lambda>w. \<exists>perm uid c. tree w p = Some (Regular perm uid c)) (fl_open F p)"
    and readlink_works: "works quiet (\<lambda>w. \<exists>target. tree w p = Some (Link target)) (fl_readlink F p)"
    and listdir_works: "works quiet (\<lambda>w. \<exists>perm uid. tree w p = Some (Folder perm uid)) (fl_listdir F p)"
    and geteuid_works: "works quiet (\<lambda>_. True) (fl_geteuid F)"
    and geteuid: "fl_geteuid F w = (Inr owner, w') \<Longrightarrow> owner = euid"
    and fd_works: "works quiet (\<lambda>_. True) (fl_flock F fd)" "works quiet (\<lambda>_. True) (fl_fsync F fd)"
      "works quiet (\<lambda>_. True) (fl_close F fd)"
    and open_lock_works: "works quiet (\<lambda>w. \<exists>perm uid. tree w p = Some (Folder perm uid)) (fl_open_lock F (p @ [LOCK_NAME]))"
    and open_fd_works: "works quiet (\<lambda>w. tree w p \<noteq> None) (fl_open_fd F p)"
    and mkdtemp_works: "works quiet (\<lambda>w. \<exists>perm uid. tree w p = Some (Folder perm uid)) (fl_mkdtemp F prefix p)"
    and rmtree_works: "works quiet (\<lambda>_. True) (fl_rmtree F p)"
    and copyfile_works: "works quiet (\<lambda>w. (\<exists>perm uid c. tree w p = Some (Regular perm uid c)) \<and> tree w q = None) (fl_copyfile F p q)"
    and write_works: "works quiet (\<lambda>w. tree w p = None) (fl_write F p data)"
    and chmod_works: "works quiet (\<lambda>w. tree w p \<noteq> None) (fl_chmod F p perm)"
    and rename_works: "works quiet (\<lambda>w. (\<exists>perm uid. tree w p = Some (Folder perm uid)) \<and> tree w q = None \<and> \<not> under p q \<and> \<not> under q p \<and>
        (\<forall>x r. tree w (q @ x # r) = None)) (fl_rename F p q)"
    and replace_works: "works quiet (\<lambda>w. (\<exists>target. tree w p = Some (Link target)) \<and>
        (tree w q = None \<or> (\<exists>target. tree w q = Some (Link target)))) (fl_replace F p q)"
    and symlink_works: "works quiet (\<lambda>w. tree w p = None) (fl_symlink F p target)"
begin

lemma look_then:
  assumes "works quiet (\<lambda>w. P (tree w)) m" "\<And>P. keeps (\<lambda>w. P (tree w)) m"
    and "\<And>w x w'. m w = (Inr x, w') \<Longrightarrow> P (tree w) \<Longrightarrow> R x (tree w)"
    and "\<And>x. works quiet (\<lambda>w. P (tree w) \<and> R x (tree w)) (f x)"
  shows "works quiet (\<lambda>w. P (tree w)) (bindE m f)"
proof (rule works_bind [OF assms(1) _ assms(4)])
  show "hoare (\<lambda>w. P (tree w)) m (\<lambda>x w. P (tree w) \<and> R x (tree w)) (\<lambda>_. True)"
    by (rule hoareI) (use same_tree [OF assms(2)] assms(3) in auto)
qed

lemma look_value:
  assumes "works quiet (\<lambda>w. P (tree w)) m" "\<And>P. keeps (\<lambda>w. P (tree w)) m"
    and "\<And>w x w'. m w = (Inr x, w') \<Longrightarrow> P (tree w) \<Longrightarrow> x = y" "works quiet (\<lambda>w. P (tree w)) (f y)"
  shows "works quiet (\<lambda>w. P (tree w)) (bindE m f)"
proof (rule look_then [OF assms(1,2), where R = "\<lambda>x _. x = y"])
  show "x = y" if "m w = (Inr x, w')" "P (tree w)" for w x w' by (rule assms(3) [OF that])
  show "works quiet (\<lambda>w. P (tree w) \<and> x = y) (f x)" for x
    by (rule works_fact) (simp add: assms(4))
qed

lemma sync_works: "works quiet (\<lambda>w. tree w p \<noteq> None) (sync_directory F p)"
  unfolding sync_directory_def
  by (rule look_then [OF open_fd_works looks_keep(7), where R = "\<lambda>_ _. True"])
    (auto intro!: works_finally [where Q = "\<lambda>_ _. True" and E = "\<lambda>_. True"] works_weaken [OF fd_works(2)]
      works_weaken [OF fd_works(3)] simp: hoare_def split: sum.splits)

lemma load_manifest_works:
  "works quiet (\<lambda>w. \<exists>perm uid data. tree w p = Some (Regular perm uid data) \<and> parse_manifest depth data = Inr m)
    (load_manifest F depth p)"
  unfolding load_manifest_def
proof (rule look_then [OF works_weaken [OF lstat_works] looks_keep(1), where R = "\<lambda>info _. fs_kind info = RegularFile"])
  show "fs_kind info = RegularFile"
    if "fl_lstat F p w = (Inr info, w')" "\<exists>perm uid data. tree w p = Some (Regular perm uid data) \<and> parse_manifest depth data = Inr m"
    for w info w'
    using lstat [OF that(1)] that(2) by auto
  show "works quiet (\<lambda>w. (\<exists>perm uid data. tree w p = Some (Regular perm uid data) \<and> parse_manifest depth data = Inr m) \<and>
      fs_kind info = RegularFile)
    (if fs_kind info \<noteq> RegularFile then raiseE (ValueError (lit ''manifest must be a regular file, not a symlink''))
     else bindE (fl_open F p) (\<lambda>data. liftR (parse_manifest depth data)))" for info
  proof (rule works_fact, simp, rule look_then [OF works_weaken [OF open_works] looks_keep(2),
        where R = "\<lambda>data _. parse_manifest depth data = Inr m"])
    show "parse_manifest depth data = Inr m"
      if "fl_open F p w = (Inr data, w')" "\<exists>perm uid data. tree w p = Some (Regular perm uid data) \<and> parse_manifest depth data = Inr m"
      for w data w'
      using opened [OF that(1)] that(2) by auto
  qed (auto intro: works_liftR)
qed auto

lemma require_regular_works:
  "works quiet (\<lambda>w. \<exists>perm uid c. tree w p = Some (Regular perm uid c)) (require_regular F p)"
  unfolding require_regular_def
proof (rule look_then [OF works_weaken [OF lstat_works] looks_keep(1), where R = "\<lambda>info _. fs_kind info = RegularFile"])
  show "fs_kind info = RegularFile"
    if "fl_lstat F p w = (Inr info, w')" "\<exists>perm uid c. tree w p = Some (Regular perm uid c)" for w info w'
    using lstat [OF that(1)] that(2) by auto
qed (auto intro!: works_fact works_return)

lemma sha256_file_works:
  "works quiet (\<lambda>w. \<exists>perm uid c. tree w p = Some (Regular perm uid c)) (sha256_file F p)"
  unfolding sha256_file_def
  by (rule look_then [OF open_works looks_keep(2), where R = "\<lambda>_ _. True"]) (auto intro: works_return)

lemma validate_works:
  "works quiet (\<lambda>w. valid_model (fl_sha256 F) depth (tree w) mp dir m) (validate_model F depth mp dir)"
proof -
  let ?P = "\<lambda>t. valid_model (fl_sha256 F) depth t mp dir m"
  let ?art = "dir @ [ARTIFACT]"
  have "works quiet (\<lambda>w. ?P (tree w)) (bindE (sha256_file F ?art) (\<lambda>digest.
      bindE (liftR (dict_item m (lit ''sha256''))) (\<lambda>expected.
      if JStr digest \<noteq> expected then raiseE (ValueError (lit ''HEF SHA256 mismatch'')) else returnE m)))"
    if m: "parse_manifest depth data = Inr m" for data
  proof (rule look_then [OF works_weaken [OF sha256_file_works], where R = "\<lambda>digest _. digest = ARTIFACT_SHA256"])
    show "digest = ARTIFACT_SHA256" if "sha256_file F ?art w = (Inr digest, w')" "?P (tree w)" for w digest w'
      using that sha256_file_returns [OF that(1)] by (auto simp: valid_model_def)
    show "works quiet (\<lambda>w. ?P (tree w) \<and> digest = ARTIFACT_SHA256) (bindE (liftR (dict_item m (lit ''sha256''))) (\<lambda>expected.
        if JStr digest \<noteq> expected then raiseE (ValueError (lit ''HEF SHA256 mismatch'')) else returnE m))" for digest
      by (rule works_fact) (simp add: parse_manifest_names [OF m] works_return)
  qed (auto simp: valid_model_def sha256_file_def intro!: keeps_rules)
  then have tail: "works quiet (\<lambda>w. ?P (tree w)) (bindE (liftR (name_of m (lit ''artifact''))) (\<lambda>name.
      bindE (require_regular F (dir @ [name])) (\<lambda>_. bindE (sha256_file F (dir @ [name])) (\<lambda>digest.
      bindE (liftR (dict_item m (lit ''sha256''))) (\<lambda>expected.
      if JStr digest \<noteq> expected then raiseE (ValueError (lit ''HEF SHA256 mismatch'')) else returnE m)))))"
    if m: "parse_manifest depth data = Inr m" for data
    unfolding name_of_manifest(1) [OF m] bindE_liftR
    using m by (intro look_then [OF works_weaken [OF require_regular_works] require_regular_keeps, where R = "\<lambda>_ _. True"])
      (auto simp: valid_model_def)
  show ?thesis
    unfolding validate_model_def
  proof (rule look_then [OF works_weaken [OF load_manifest_works] load_manifest_keeps, where R = "\<lambda>m' _. m' = m"])
    show "m' = m" if "load_manifest F depth mp w = (Inr m', w')" "?P (tree w)" for w m' w'
      using load_manifest_returns [OF that(1)] that(2) by (auto simp: valid_model_def)
    show "works quiet (\<lambda>w. ?P (tree w) \<and> m' = m) (bindE (liftR (name_of m' (lit ''artifact''))) (\<lambda>name.
        bindE (require_regular F (dir @ [name])) (\<lambda>_. bindE (sha256_file F (dir @ [name])) (\<lambda>digest.
        bindE (liftR (dict_item m' (lit ''sha256''))) (\<lambda>expected.
        if JStr digest \<noteq> expected then raiseE (ValueError (lit ''HEF SHA256 mismatch'')) else returnE m')))))" for m'
    proof (rule works_fact, rule works_given [where b = "\<exists>data. parse_manifest depth data = Inr m"])
      show "\<exists>data. parse_manifest depth data = Inr m" if "?P (tree w)" for w
        using that by (auto simp: valid_model_def)
    qed (use tail in blast)
  qed (auto simp: valid_model_def)
qed


lemma installed_version_works:
  "works quiet (\<lambda>w. version_ok (fl_sha256 F) depth S (tree w)) (installed_version F depth S MODEL_ID)"
proof -
  have "works quiet (\<lambda>w. version_ok (fl_sha256 F) depth S (tree w))
      (bindE (validate_model F depth (S @ [MODEL_ID, MANIFEST_NAME]) (S @ [MODEL_ID])) (\<lambda>_. returnE (S @ [MODEL_ID])))"
  proof (rule works_bind [OF _ _ works_return])
    show "works quiet (\<lambda>w. version_ok (fl_sha256 F) depth S (tree w))
        (validate_model F depth (S @ [MODEL_ID, MANIFEST_NAME]) (S @ [MODEL_ID]))"
      using works_exists [OF validate_works] by (rule works_weaken) (auto simp: version_ok_def)
  qed (auto simp: hoare_def split: sum.splits)
  then have rest: "works quiet (\<lambda>w. version_ok (fl_sha256 F) depth S (tree w) \<and> fs_kind info = DirectoryFile)
      (if fs_kind info \<noteq> DirectoryFile then raiseE (ValueError (lit ''installed version must be a directory, not a symlink''))
       else bindE (validate_model F depth ((S @ [MODEL_ID]) @ [MANIFEST_NAME]) (S @ [MODEL_ID])) (\<lambda>_. returnE (S @ [MODEL_ID])))" for info
    by (intro works_fact) simp
  have "works quiet (\<lambda>w. version_ok (fl_sha256 F) depth S (tree w)) (bindE (fl_lstat F (S @ [MODEL_ID])) (\<lambda>info.
      if fs_kind info \<noteq> DirectoryFile then raiseE (ValueError (lit ''installed version must be a directory, not a symlink''))
      else bindE (validate_model F depth ((S @ [MODEL_ID]) @ [MANIFEST_NAME]) (S @ [MODEL_ID])) (\<lambda>_. returnE (S @ [MODEL_ID]))))"
  proof (rule look_then [OF works_weaken [OF lstat_works] looks_keep(1) _ rest])
    show "fs_kind info = DirectoryFile"
      if "fl_lstat F (S @ [MODEL_ID]) w = (Inr info, w')" "version_ok (fl_sha256 F) depth S (tree w)" for w info w'
      using lstat [OF that(1)] that(2) by (auto simp: version_ok_def)
  qed (auto simp: version_ok_def)
  then show ?thesis by (simp add: installed_version_def Let_def)
qed

lemma temporary_works:
  assumes "take 1 prefix = [46]"
    and body: "\<And>d uid. works quiet (\<lambda>w. staged S T d (Folder 448 uid) None None (tree w) \<and> tree w p = Some n) (body d)"
  shows "works quiet (\<lambda>w. published S (tree w) = T \<and> tree w S = Some (Folder perm owner) \<and> tree w p = Some n)
    (temporary_directory F prefix S body)"
  unfolding temporary_directory_def
proof (rule works_bind [OF works_weaken [OF mkdtemp_works]])
  show "hoare (\<lambda>w. published S (tree w) = T \<and> tree w S = Some (Folder perm owner) \<and> tree w p = Some n) (fl_mkdtemp F prefix S)
      (\<lambda>d w. \<exists>uid. staged S T d (Folder 448 uid) None None (tree w) \<and> tree w p = Some n) (\<lambda>_. True)"
  proof (rule hoareI)
    fix w d w' assume w: "published S (tree w) = T \<and> tree w S = Some (Folder perm owner) \<and> tree w p = Some n"
      and run: "fl_mkdtemp F prefix S w = (Inr d, w')"
    from mkdtemp [OF run] obtain x uid where x: "\<forall>q. tree w (S @ (prefix @ x) # q) = None"
      "tree w' = (tree w)(S @ [prefix @ x] \<mapsto> Folder 448 uid)" "d = S @ [prefix @ x]" by blast
    have "take 1 (prefix @ x) = [46]" using assms(1) by (cases prefix) simp_all
    moreover have "p \<noteq> S @ [prefix @ x]" using w x(1) by (metis option.distinct(1))
    ultimately show "\<exists>uid. staged S T d (Folder 448 uid) None None (tree w') \<and> tree w' p = Some n"
      using w x by (auto simp: staged_def published_upd files_of_def)
  qed simp
  fix d
  show "works quiet (\<lambda>w. \<exists>uid. staged S T d (Folder 448 uid) None None (tree w) \<and> tree w p = Some n) (finallyE (body d) (fl_rmtree F d))"
    by (rule works_exists, rule works_finally [OF body, where Q = "\<lambda>_ _. True" and E = "\<lambda>_. True"])
      (auto simp: hoare_def rmtree_works split: sum.splits)
qed auto

lemma settle_file_works: "works quiet (\<lambda>w. tree w p \<noteq> None) (settle_file F p)"
  unfolding settle_file_def
proof (rule works_bind [OF chmod_works])
  show "hoare (\<lambda>w. tree w p \<noteq> None) (fl_chmod F p 420) (\<lambda>_ w. tree w p \<noteq> None) (\<lambda>_. True)"
    by (rule hoareI; drule chmod) auto
  show "works quiet (\<lambda>w. tree w p \<noteq> None) (bindE (fl_open_fd F p) (\<lambda>fd. finallyE (fl_fsync F fd) (fl_close F fd)))"
    using sync_works by (simp add: sync_directory_def)
qed

lemma settle_files_works:
  "set names \<subseteq> {MANIFEST_NAME, ARTIFACT} \<Longrightarrow>
    works quiet (\<lambda>w. staged S T d f (Some m) (Some a) (tree w)) (settle_files F d names)"
proof (induction names arbitrary: m a)
  case Nil
  then show ?case by (simp add: works_return)
next
  case (Cons name names)
  let ?m = "if name = MANIFEST_NAME then with_perm 420 m else m" and ?a = "if name = ARTIFACT then with_perm 420 a else a"
  have "works quiet (\<lambda>w. staged S T d f (Some m) (Some a) (tree w)) (settle_file F (d @ [name]))"
    by (rule works_weaken [OF settle_file_works]) (use Cons.prems in \<open>auto simp: staged_at files_of_def\<close>)
  moreover have "hoare (\<lambda>w. staged S T d f (Some m) (Some a) (tree w)) (settle_file F (d @ [name]))
      (\<lambda>_ w. staged S T d f (Some ?m) (Some ?a) (tree w)) (\<lambda>w. published S (tree w) = T)"
    using Cons.prems staged_settle_file [of "[name]" "Some m" m "Some ?m" "Some ?a" "Some a" S T d f]
      staged_settle_file [of "[name]" "Some m" a "Some ?m" "Some ?a" "Some a" S T d f] by auto
  ultimately have "works quiet (\<lambda>w. staged S T d f (Some m) (Some a) (tree w))
      (bindE (settle_file F (d @ [name])) (\<lambda>_. settle_files F d names))"
    by (rule works_bind) (use Cons.prems in \<open>auto intro: Cons.IH\<close>)
  then show ?case by simp
qed


lemma publish_settled_works:
  assumes m: "parse_manifest depth data = Inr m" and digest: "hexdigest (fl_sha256 F c) = ARTIFACT_SHA256"
    and T: "T (S @ [MODEL_ID]) = None" "\<And>x q. T (S @ MODEL_ID # x # q) = None" "T S \<noteq> None"
  shows "works quiet (\<lambda>w. staged S T d (Folder 448 uid) (Some (Regular p u (manifest_bytes m))) (Some (Regular p' u' c)) (tree w))
    (bindE (fl_listdir F d) (\<lambda>names. bindE (settle_files F d names) (\<lambda>_. bindE (fl_chmod F d 493) (\<lambda>_.
     bindE (sync_directory F d) (\<lambda>_. bindE (fl_rename F d (S @ [MODEL_ID])) (\<lambda>_. sync_directory F S))))))"
proof -
  let ?St = "\<lambda>perm q q' w. staged S T d (Folder perm uid) (Some (Regular q u (manifest_bytes m))) (Some (Regular q' u' c)) (tree w)"
  have at: "tree w d = Some (Folder perm uid)" if "?St perm q q' w" for perm q q' w
    using staged_at [OF that, of "[]"] by (simp add: files_of_def)
  have renamed: "works quiet (?St 493 420 420) (fl_rename F d (S @ [MODEL_ID]))"
  proof (rule works_weaken [OF rename_works])
    fix w assume st: "?St 493 420 420 w"
    have T': "T = published S (tree w)" using staged_published [OF st] by simp
    obtain x where "d = S @ [x]" "take 1 x = [46]" using st by (auto simp: staged_def)
    moreover from this have "x \<noteq> MODEL_ID" by auto
    ultimately show "(\<exists>perm uid. tree w d = Some (Folder perm uid)) \<and> tree w (S @ [MODEL_ID]) = None \<and>
        \<not> under d (S @ [MODEL_ID]) \<and> \<not> under (S @ [MODEL_ID]) d \<and> (\<forall>x r. tree w ((S @ [MODEL_ID]) @ x # r) = None)"
      using at [OF st] T(1,2) by (auto simp: T' published_def under_def)
  qed
  have kept: "works quiet (\<lambda>w. installs (fl_sha256 F) depth S T (published S (tree w))) (sync_directory F S)"
  proof (rule works_weaken [OF sync_works])
    fix w assume "installs (fl_sha256 F) depth S T (published S (tree w))"
    then have "published S (tree w) S = T S" by (auto simp: installs_def under_def)
    with T(3) show "tree w S \<noteq> None" by (auto simp: published_def)
  qed
  note sync = hoare_keeps [OF sync_keeps, where E = "\<lambda>_. True"]
  have "works quiet (?St 448 420 420) (bindE (fl_chmod F d 493) (\<lambda>_. bindE (sync_directory F d) (\<lambda>_.
      bindE (fl_rename F d (S @ [MODEL_ID])) (\<lambda>_. sync_directory F S))))"
  proof (rule works_bind [OF works_weaken [OF chmod_works]])
    show "hoare (?St 448 420 420) (fl_chmod F d 493) (\<lambda>_. ?St 493 420 420) (\<lambda>w. published S (tree w) = T)"
      using staged_chmod [of "[]" "Folder 448 uid" "Folder 448 uid" "Folder 493 uid" 493] by simp
    show "works quiet (?St 493 420 420) (bindE (sync_directory F d) (\<lambda>_. bindE (fl_rename F d (S @ [MODEL_ID])) (\<lambda>_. sync_directory F S)))"
      by (rule works_bind [OF works_weaken [OF sync_works] sync works_bind [OF renamed staged_rename [OF m digest] kept]])
        (auto dest: at)
  qed (auto dest: at)
  then have tail: "works quiet (\<lambda>w. ?St 448 p p' w \<and> set names = {MANIFEST_NAME, ARTIFACT})
      (bindE (settle_files F d names) (\<lambda>_. bindE (fl_chmod F d 493) (\<lambda>_. bindE (sync_directory F d) (\<lambda>_.
       bindE (fl_rename F d (S @ [MODEL_ID])) (\<lambda>_. sync_directory F S)))))" for names
    using staged_settle_files [of names S T d "Folder 448 uid" "Regular p u (manifest_bytes m)" "Regular p' u' c"]
    by (intro works_fact works_bind [OF settle_files_works]) auto
  show ?thesis
  proof (rule look_then [OF works_weaken [OF listdir_works] looks_keep(4) _ tail])
    show "set names = {MANIFEST_NAME, ARTIFACT}" if "fl_listdir F d w = (Inr names, w')" "?St 448 p p' w" for w names w'
      using that listdir by (auto simp: staged_at files_of_def split: if_splits)
  qed (auto dest: at)
qed

lemma publish_version_works:
  assumes m: "parse_manifest depth data = Inr m" and digest: "hexdigest (fl_sha256 F c) = ARTIFACT_SHA256"
    and T: "T (S @ [MODEL_ID]) = None" "\<And>x q. T (S @ MODEL_ID # x # q) = None" "T S \<noteq> None"
  shows "works quiet (\<lambda>w. staged S T d (Folder 448 uid) None None (tree w) \<and> tree w (source @ [ARTIFACT]) = Some (Regular perm owner c))
    (publish_version F depth m source S (S @ [MODEL_ID]) d)"
proof -
  let ?St = "\<lambda>mf a w. staged S T d (Folder 448 uid) mf a (tree w)"
  let ?src = "source @ [ARTIFACT]"
  have valid: "works quiet (?St (Some (Regular p u (manifest_bytes m))) (Some (Regular p' u' c)))
      (bindE (validate_model F depth (d @ [MANIFEST_NAME]) d) (\<lambda>_. bindE (fl_listdir F d) (\<lambda>names.
       bindE (settle_files F d names) (\<lambda>_. bindE (fl_chmod F d 493) (\<lambda>_. bindE (sync_directory F d) (\<lambda>_.
       bindE (fl_rename F d (S @ [MODEL_ID])) (\<lambda>_. sync_directory F S)))))))" for p u p' u'
    by (rule works_bind [OF works_weaken [OF validate_works [of depth "d @ [MANIFEST_NAME]" d m]]
          hoare_keeps [OF validate_keeps, where E = "\<lambda>_. True"] publish_settled_works [OF m digest T]])
      (auto simp: valid_model_def staged_at files_of_def parse_manifest_again [OF m] digest)
  have written: "works quiet (?St None (Some (Regular p' u' c)))
      (bindE (fl_write F (d @ [MANIFEST_NAME]) (manifest_bytes m)) (\<lambda>_.
       bindE (validate_model F depth (d @ [MANIFEST_NAME]) d) (\<lambda>_. bindE (fl_listdir F d) (\<lambda>names.
       bindE (settle_files F d names) (\<lambda>_. bindE (fl_chmod F d 493) (\<lambda>_. bindE (sync_directory F d) (\<lambda>_.
       bindE (fl_rename F d (S @ [MODEL_ID])) (\<lambda>_. sync_directory F S))))))))" for p' u'
  proof (rule works_bind [OF works_weaken [OF write_works]])
    show "hoare (?St None (Some (Regular p' u' c))) (fl_write F (d @ [MANIFEST_NAME]) (manifest_bytes m))
        (\<lambda>_ w. \<exists>n. ?St (Some n) (Some (Regular p' u' c)) w \<and> (\<exists>p u. n = Regular p u (manifest_bytes m))) (\<lambda>w. published S (tree w) = T)"
      using staged_write [of S T d "Folder 448 uid" "Some (Regular p' u' c)"] by simp
  qed (auto simp: staged_at files_of_def intro!: works_exists works_fact valid)
  have copied: "works quiet (\<lambda>w. ?St None None w \<and> (\<exists>perm uid. tree w ?src = Some (Regular perm uid c)))
      (bindE (fl_copyfile F ?src (d @ [ARTIFACT])) (\<lambda>_. bindE (fl_write F (d @ [MANIFEST_NAME]) (manifest_bytes m)) (\<lambda>_.
       bindE (validate_model F depth (d @ [MANIFEST_NAME]) d) (\<lambda>_. bindE (fl_listdir F d) (\<lambda>names.
       bindE (settle_files F d names) (\<lambda>_. bindE (fl_chmod F d 493) (\<lambda>_. bindE (sync_directory F d) (\<lambda>_.
       bindE (fl_rename F d (S @ [MODEL_ID])) (\<lambda>_. sync_directory F S)))))))))"
    by (rule works_bind [OF works_weaken [OF copyfile_works] staged_copyfile])
      (auto simp: staged_at files_of_def intro!: works_exists works_fact written)
  show ?thesis
    unfolding publish_version_def name_of_manifest(1) [OF m] bindE_liftR
    by (rule works_bind [OF works_weaken [OF require_regular_works] hoare_keeps [OF require_regular_keeps, where E = "\<lambda>_. True"]
          works_weaken [OF copied]]) auto
qed


lemma store_lock_works:
  assumes body: "works quiet (\<lambda>w. published S (tree w) = T \<and> tree w p = Some n) body"
    and S: "T S = Some (Folder perm euid)" "perm AND 18 = 0" and p: "p \<noteq> S @ [LOCK_NAME]"
  shows "works quiet (\<lambda>w. published S (tree w) = T \<and> tree w p = Some n) (store_lock F S body)"
proof -
  let ?I = "\<lambda>t. published S t = T \<and> t p = Some n"
  have root: "?I t \<Longrightarrow> t S = Some (Folder perm euid)" for t
    using S(1) by (auto simp: published_def)
  have locked: "hoare (\<lambda>w. ?I (tree w)) (fl_open_lock F (S @ [LOCK_NAME])) (\<lambda>_ w. ?I (tree w)) (\<lambda>_. True)"
  proof (rule hoareI)
    fix w fd w' assume w: "?I (tree w)" and run: "fl_open_lock F (S @ [LOCK_NAME]) w = (Inr fd, w')"
    have same: "tree w' q = tree w q" if "q \<noteq> S @ [LOCK_NAME]" for q
      using open_lock [OF that, of w] run by simp
    have "published S (tree w') = published S (tree w)"
      by (rule published_eqI, rule same) (auto simp: LOCK_NAME_def lit_Cons)
    with w same [OF p] show "?I (tree w')" by simp
  qed simp
  have flocked: "works quiet (\<lambda>w. ?I (tree w)) (bindE (fl_flock F fd) (\<lambda>_. body))" for fd
    by (rule works_bind [OF works_weaken [OF fd_works(1)] hoare_keeps [OF looks_keep(6), where E = "\<lambda>_. True"] body]) auto
  have guarded: "works quiet (\<lambda>w. ?I (tree w)) (finallyE (bindE (fl_flock F fd) (\<lambda>_. body)) (fl_close F fd))" for fd
    by (rule works_finally [OF flocked, where Q = "\<lambda>_ _. True" and E = "\<lambda>_. True"])
      (auto simp: hoare_def fd_works split: sum.splits)
  have owned: "works quiet (\<lambda>w. ?I (tree w)) (bindE (fl_geteuid F) (\<lambda>uid.
      if euid \<noteq> uid then raiseE (ValueError (lit ''model administration must run as the store owner''))
      else bindE (fl_open_lock F (S @ [LOCK_NAME])) (\<lambda>fd. finallyE (bindE (fl_flock F fd) (\<lambda>_. body)) (fl_close F fd))))"
  proof (rule look_then [OF works_weaken [OF geteuid_works] looks_keep(5), where R = "\<lambda>uid _. uid = euid"])
    have "works quiet (\<lambda>w. ?I (tree w)) (fl_open_lock F (S @ [LOCK_NAME]))"
      by (rule works_weaken [OF open_lock_works]) (use root in blast)
    from works_bind [OF this locked guarded]
    show "works quiet (\<lambda>w. ?I (tree w) \<and> uid = euid) (if euid \<noteq> uid
        then raiseE (ValueError (lit ''model administration must run as the store owner''))
        else bindE (fl_open_lock F (S @ [LOCK_NAME])) (\<lambda>fd. finallyE (bindE (fl_flock F fd) (\<lambda>_. body)) (fl_close F fd)))" for uid
      by (intro works_fact) simp
  qed (auto dest: geteuid)
  show ?thesis
    unfolding store_lock_def
  proof (rule look_value [OF works_weaken [OF lstat_works] looks_keep(1), where y = "stat_of (Folder perm euid)"])
    show "info = stat_of (Folder perm euid)" if "fl_lstat F S w = (Inr info, w')" "?I (tree w)" for w info w'
      using lstat [OF that(1)] root [OF that(2)] by auto
    show "tree w S \<noteq> None" if "?I (tree w)" for w using root [OF that] by simp
  qed (use S(2) owned in simp)
qed

lemma lexists_missing: "works quiet (\<lambda>w. tree w p = None) (lexists F p)"
  unfolding works_def
proof (intro allI impI)
  fix w assume "quiet w \<and> tree w p = None"
  then obtain e w' where "fl_lstat F p w = (Inl e, w')" "is_os_error e" "quiet w'"
    using lstat_missing by blast
  then show "\<exists>x w'. lexists F p w = (Inr x, w') \<and> quiet w'"
    by (auto simp: lexists_def catchE_def bindE_def returnE_def intro: exI [of _ False])
qed

lemma lexists_returns: "lexists F p w = (Inr b, w') \<Longrightarrow> tree w p = None \<Longrightarrow> \<not> b"
  by (auto simp: lexists_def catchE_def bindE_def returnE_def split: sum.splits prod.splits if_splits dest: lstat)

lemma install_model_works:
  assumes m: "parse_manifest depth data = Inr m" and digest: "hexdigest (fl_sha256 F c) = ARTIFACT_SHA256"
    and T: "T (S @ [MODEL_ID]) = None" "\<And>x q. T (S @ MODEL_ID # x # q) = None"
    and S: "T S = Some (Folder perm euid)" "perm AND 18 = 0"
  shows "works quiet (\<lambda>w. published S (tree w) = T \<and> tree w (source @ [ARTIFACT]) = Some (Regular p u c) \<and>
      tree w mp = Some (Regular p' u' data)) (install_model F depth mp source S)"
proof -
  let ?art = "source @ [ARTIFACT]"
  let ?I = "\<lambda>t. published S t = T \<and> t ?art = Some (Regular p u c)"
  let ?new = "bindE (temporary_directory F (lit ''.stage-'') S (publish_version F depth m source S (S @ [MODEL_ID])))
      (\<lambda>_. returnE (S @ [MODEL_ID]))"
  let ?locked = "\<lambda>m. bindE (liftR (name_of m (lit ''model_id''))) (\<lambda>model_id.
      let destination = S @ [model_id] in
      bindE (lexists F destination) (\<lambda>present.
      if present then bindE (validate_model F depth mp source) (\<lambda>_. installed_version F depth S model_id)
      else bindE (temporary_directory F (lit ''.stage-'') S (publish_version F depth m source S destination)) (\<lambda>_.
        returnE destination)))"
  have new: "works quiet (\<lambda>w. ?I (tree w)) ?new"
  proof (rule works_bind [OF works_weaken [OF temporary_works [of "lit ''.stage-''" S T ?art "Regular p u c"]]])
    show "works quiet (\<lambda>w. staged S T d (Folder 448 uid) None None (tree w) \<and> tree w ?art = Some (Regular p u c))
        (publish_version F depth m source S (S @ [MODEL_ID]) d)" for d uid
      using S(1) by (intro publish_version_works [OF m digest T]) simp
    show "published S (tree w) = T \<and> tree w S = Some (Folder perm euid) \<and> tree w ?art = Some (Regular p u c)"
      if "?I (tree w)" for w
      using that S(1) by (auto simp: published_def)
    show "hoare (\<lambda>w. ?I (tree w)) (temporary_directory F (lit ''.stage-'') S (publish_version F depth m source S (S @ [MODEL_ID])))
        (\<lambda>_ _. True) (\<lambda>_. True)"
      by (simp add: hoare_def split: sum.splits)
  qed (simp_all add: lit_Cons works_return)
  have body: "works quiet (\<lambda>w. ?I (tree w)) (?locked m)"
    unfolding name_of_manifest(2) [OF m] bindE_liftR Let_def
  proof (rule look_then [OF works_weaken [OF lexists_missing] lexists_keeps, where R = "\<lambda>b _. \<not> b"])
    show "\<not> b" if "lexists F (S @ [MODEL_ID]) w = (Inr b, w')" "?I (tree w)" for w b w'
      using lexists_returns [OF that(1)] that(2) T(1) by (auto simp: published_def)
    show "works quiet (\<lambda>w. ?I (tree w) \<and> \<not> b) (if b then bindE (validate_model F depth mp source) (\<lambda>_. installed_version F depth S MODEL_ID)
        else ?new)" for b
      using new by (intro works_fact) simp
  qed (use T(1) in \<open>auto simp: published_def\<close>)
  have lock: "works quiet (\<lambda>w. ?I (tree w)) (store_lock F S (?locked m))"
    by (rule store_lock_works [OF body S]) (simp add: ARTIFACT_def LOCK_NAME_def)
  show ?thesis
    unfolding install_model_def
  proof (rule look_value [OF works_weaken [OF load_manifest_works [of mp depth m]] load_manifest_keeps, where y = m])
    show "m' = m" if "load_manifest F depth mp w = (Inr m', w')"
      "published S (tree w) = T \<and> tree w ?art = Some (Regular p u c) \<and> tree w mp = Some (Regular p' u' data)" for w m' w'
      using load_manifest_returns [OF that(1)] that(2) m by auto
  qed (use m in \<open>auto intro: works_weaken [OF lock]\<close>)
qed


lemma pointer_body_works:
  assumes "take 1 name \<noteq> [46]" "T (S @ [name]) = None \<or> (\<exists>target. T (S @ [name]) = Some (Link target))" "T S \<noteq> None"
  shows "works quiet (\<lambda>w. staged S T d (Folder 448 uid) None None (tree w) \<and> tree w p = Some n)
    (bindE (fl_symlink F (d @ [lit ''link'']) MODEL_ID) (\<lambda>_.
     bindE (fl_replace F (d @ [lit ''link'']) (S @ [name])) (\<lambda>_. sync_directory F S)))"
    (is "works quiet ?P _")
proof -
  let ?l = "d @ [lit ''link'']"
  let ?L = "\<lambda>w. (published S (tree w) = T \<and> tree w ?l = Some (Link MODEL_ID)) \<and> dotted S ?l"
  have missing: "tree w ?l = None" if "?P w" for w
    using that by (auto simp: staged_at files_of_def MANIFEST_NAME_def ARTIFACT_def)
  have link: "hoare ?P (fl_symlink F ?l MODEL_ID) (\<lambda>_. ?L) (\<lambda>_. True)"
  proof (rule hoareI)
    fix w u w' assume w: "?P w" and run: "fl_symlink F ?l MODEL_ID w = (Inr u, w')"
    then have "dotted S ?l" using staged_dotted by blast
    with w symlink [OF run] show "?L w'" by (auto simp: published_upd dest: staged_published)
  qed simp
  have moved: "works quiet ?L (fl_replace F ?l (S @ [name]))"
  proof (rule works_weaken [OF replace_works])
    fix w assume "?L w"
    moreover from this have "T (S @ [name]) = tree w (S @ [name])" using assms(1) by (auto simp: published_def)
    ultimately show "(\<exists>target. tree w ?l = Some (Link target)) \<and>
        (tree w (S @ [name]) = None \<or> (\<exists>target. tree w (S @ [name]) = Some (Link target)))"
      using assms(2) by auto
  qed
  have "hoare ?L (fl_replace F ?l (S @ [name])) (\<lambda>_ w. tree w S \<noteq> None) (\<lambda>_. True)"
  proof (rule hoareI)
    fix w u w' assume L: "?L w" and run: "fl_replace F ?l (S @ [name]) w = (Inr u, w')"
    then have "tree w S \<noteq> None" "?l \<noteq> S" using assms(3) by (auto simp: published_def)
    with replace [OF run] L show "tree w' S \<noteq> None" by auto
  qed simp
  note tail = works_bind [OF moved this sync_works]
  have "works quiet ?P (fl_symlink F ?l MODEL_ID)"
    by (rule works_weaken [OF symlink_works]) (rule missing)
  then show ?thesis by (rule works_bind [OF _ link tail])
qed

lemma replace_pointer_works:
  assumes "take 1 name \<noteq> [46]" "version_ok (fl_sha256 F) depth S T" "T S = Some (Folder perm owner)"
    and "T (S @ [name]) = None \<or> (\<exists>target. T (S @ [name]) = Some (Link target))"
  shows "works quiet (\<lambda>w. published S (tree w) = T) (replace_pointer F depth S name MODEL_ID)"
  unfolding replace_pointer_def
proof (rule look_value [OF works_weaken [OF installed_version_works] installed_version_keeps, where y = "S @ [MODEL_ID]"])
  have root: "tree w S = Some (Folder perm owner)" if "published S (tree w) = T" for w
    using assms(3) that by (auto simp: published_def)
  let ?temporary = "temporary_directory F (lit ''.pointer-'') S (\<lambda>temporary.
      bindE (fl_symlink F (temporary @ [lit ''link'']) MODEL_ID) (\<lambda>_.
      bindE (fl_replace F (temporary @ [lit ''link'']) (S @ [name])) (\<lambda>_. sync_directory F S)))"
  have "works quiet (\<lambda>w. published S (tree w) = T \<and> tree w S = Some (Folder perm owner) \<and> tree w S = Some (Folder perm owner)) ?temporary"
    by (intro temporary_works pointer_body_works assms(1,4)) (simp_all add: lit_Cons assms(3))
  then have "works quiet (\<lambda>w. published S (tree w) = T) ?temporary"
    by (rule works_weaken) (simp add: root)
  then show "works quiet (\<lambda>w. published S (tree w) = T)
      (bindE (temporary_directory F (lit ''.pointer-'') S (\<lambda>temporary.
         bindE (fl_symlink F (temporary @ [lit ''link'']) (last (S @ [MODEL_ID]))) (\<lambda>_.
         bindE (fl_replace F (temporary @ [lit ''link'']) (S @ [name])) (\<lambda>_. sync_directory F S)))) (\<lambda>_. returnE (S @ [MODEL_ID])))"
    by (intro works_bind [OF _ _ works_return, where E = "\<lambda>_. True"]) (auto simp: hoare_def split: sum.splits)
  show "v = S @ [MODEL_ID]" if "installed_version F depth S MODEL_ID w = (Inr v, w')" for w v w'
    using installed_version_returns [OF that] by simp
  show "version_ok (fl_sha256 F) depth S (tree w)" if "published S (tree w) = T" for w
    using assms(2) that version_ok_published by metis
qed

lemma locked_works:
  assumes "works quiet (\<lambda>w. published S (tree w) = T) body" "T S = Some (Folder perm euid)" "perm AND 18 = 0"
  shows "works quiet (\<lambda>w. published S (tree w) = T) (store_lock F S body)"
proof -
  have root: "tree w S = Some (Folder perm euid)" if "published S (tree w) = T" for w
    using assms(2) that by (auto simp: published_def)
  have "works quiet (\<lambda>w. published S (tree w) = T \<and> tree w S = Some (Folder perm euid)) (store_lock F S body)"
    by (intro store_lock_works works_weaken [OF assms(1)]) (use assms(2,3) in auto)
  then show ?thesis by (rule works_weaken) (simp add: root)
qed


text \<open>The four commands in turn.\<close>

lemma install_returns:
  assumes "parse_manifest depth data = Inr m" "hexdigest (fl_sha256 F c) = ARTIFACT_SHA256"
    and T: "T (S @ [MODEL_ID]) = None" "\<And>x q. T (S @ MODEL_ID # x # q) = None"
    and "T S = Some (Folder perm euid)" "perm AND 18 = 0"
    and w: "quiet w" "published S (tree w) = T" "tree w (source @ [ARTIFACT]) = Some (Regular p u c)" "tree w mp = Some (Regular p' u' data)"
  shows "\<exists>w'. install_model F depth mp source S w = (Inr (S @ [MODEL_ID]), w') \<and> quiet w' \<and>
    installs (fl_sha256 F) depth S T (published S (tree w'))"
proof -
  have "\<exists>x w'. install_model F depth mp source S w = (Inr x, w') \<and> quiet w'"
    using install_model_works [OF assms(1,2) T assms(5,6), of source p u mp p' u'] w unfolding works_def by blast
  then obtain x w' where run: "install_model F depth mp source S w = (Inr x, w')" "quiet w'" by blast
  have "\<not> version_ok (fl_sha256 F) depth S T" using T(1) by (simp add: version_ok_def)
  with hoare_Inr [OF install_model_rule w(2) run(1)] run(2) show ?thesis using run(1) by auto
qed

lemma pointer_returns:
  assumes "take 1 name \<noteq> [46]" "version_ok (fl_sha256 F) depth S T" "T S = Some (Folder perm euid)" "perm AND 18 = 0"
    and "T (S @ [name]) = None \<or> (\<exists>target. T (S @ [name]) = Some (Link target))" and w: "quiet w" "published S (tree w) = T"
  shows "\<exists>w'. store_lock F S (replace_pointer F depth S name MODEL_ID) w = (Inr (S @ [MODEL_ID]), w') \<and> quiet w' \<and>
    published S (tree w') = T(S @ [name] \<mapsto> Link MODEL_ID)"
proof -
  have "\<exists>x w'. store_lock F S (replace_pointer F depth S name MODEL_ID) w = (Inr x, w') \<and> quiet w'"
    using locked_works [OF replace_pointer_works [OF assms(1-3,5)] assms(3,4)] w unfolding works_def by blast
  then obtain x w' where run: "store_lock F S (replace_pointer F depth S name MODEL_ID) w = (Inr x, w')" "quiet w'" by blast
  from hoare_Inr [OF locked_pointer_rule [OF assms(1)] w(2) run(1)] run show ?thesis by (auto simp: points_def)
qed

lemma rollback_returns:
  assumes "version_ok (fl_sha256 F) depth S T" "T S = Some (Folder perm euid)" "perm AND 18 = 0"
    and "T (S @ [lit ''known-good'']) = Some (Link MODEL_ID)"
    and "T (S @ [lit ''current'']) = None \<or> (\<exists>target. T (S @ [lit ''current'']) = Some (Link target))"
    and w: "quiet w" "published S (tree w) = T"
  shows "\<exists>w'. rollback_model F depth S w = (Inr (S @ [MODEL_ID]), w') \<and> quiet w' \<and>
    published S (tree w') = T(S @ [lit ''current''] \<mapsto> Link MODEL_ID)"
proof -
  have known: "tree w (S @ [lit ''known-good'']) = Some (Link MODEL_ID)" if "published S (tree w) = T" for w
    using assms(4) that pointers_not_dotted(2) by (auto simp: published_def split: if_splits)
  have readable: "works quiet (\<lambda>w. published S (tree w) = T) (fl_readlink F (S @ [lit ''known-good'']))"
    by (rule works_weaken [OF readlink_works]) (use known in blast)
  have "works quiet (\<lambda>w. published S (tree w) = T) (bindE (fl_readlink F (S @ [lit ''known-good''])) (\<lambda>model_id.
      replace_pointer F depth S (lit ''current'') model_id))"
  proof (rule look_value [OF readable looks_keep(3), where y = MODEL_ID])
    show "works quiet (\<lambda>w. published S (tree w) = T) (replace_pointer F depth S (lit ''current'') MODEL_ID)"
      by (rule replace_pointer_works [OF pointers_not_dotted(1) assms(1,2,5)])
    show "v = MODEL_ID" if "fl_readlink F (S @ [lit ''known-good'']) w = (Inr v, w')" "published S (tree w) = T" for v w w'
      using readlink [OF that(1)] known [OF that(2)] by simp
  qed
  note locked_works [OF this assms(2,3)]
  then have "\<exists>x w'. rollback_model F depth S w = (Inr x, w') \<and> quiet w'"
    using w unfolding works_def rollback_model_def by blast
  then obtain x w' where run: "rollback_model F depth S w = (Inr x, w')" "quiet w'" by blast
  from hoare_Inr [OF rollback_rule w(2) run(1)] run show ?thesis by (auto simp: points_def)
qed

lemma cycle:
  assumes "parse_manifest depth data = Inr m" "hexdigest (fl_sha256 F c) = ARTIFACT_SHA256"
    and "T (S @ [MODEL_ID]) = None" "\<And>x q. T (S @ MODEL_ID # x # q) = None"
    and S: "T S = Some (Folder perm euid)" "perm AND 18 = 0"
    and "quiet w" "published S (tree w) = T" "tree w (source @ [ARTIFACT]) = Some (Regular p u c)" "tree w mp = Some (Regular p' u' data)"
    and links: "\<And>name. name \<in> {lit ''current'', lit ''known-good''} \<Longrightarrow>
      T (S @ [name]) = None \<or> (\<exists>target. T (S @ [name]) = Some (Link target))"
  shows "\<exists>w1 w2 w3 w4. install_model F depth mp source S w = (Inr (S @ [MODEL_ID]), w1) \<and>
    qualify_model F depth MODEL_ID S w1 = (Inr (S @ [MODEL_ID]), w2) \<and>
    activate_model F depth MODEL_ID S w2 = (Inr (S @ [MODEL_ID]), w3) \<and>
    rollback_model F depth S w3 = (Inr (S @ [MODEL_ID]), w4) \<and>
    installs (fl_sha256 F) depth S T (published S (tree w1)) \<and>
    published S (tree w4) = (published S (tree w1))
      (S @ [lit ''known-good''] \<mapsto> Link MODEL_ID, S @ [lit ''current''] \<mapsto> Link MODEL_ID)"
proof -
  let ?C = "S @ [lit ''current'']" and ?G = "S @ [lit ''known-good'']"
  from install_returns [OF assms(1-10)] obtain w1 where
    w1: "install_model F depth mp source S w = (Inr (S @ [MODEL_ID]), w1)" "quiet w1"
      "installs (fl_sha256 F) depth S T (published S (tree w1))" by blast
  define T1 where "T1 = published S (tree w1)"
  have ok: "version_ok (fl_sha256 F) depth S T1" using installs_ok w1(3) by (auto simp: T1_def)
  have T1: "T1 S = T S" "T1 ?C = T ?C" "T1 ?G = T ?G"
    using w1(3) pointer_names by (auto simp: installs_def T1_def under_def)
  let ?T2 = "T1(?G \<mapsto> Link MODEL_ID)" and ?T3 = "T1(?G \<mapsto> Link MODEL_ID, ?C \<mapsto> Link MODEL_ID)"
  have "\<exists>w2. store_lock F S (replace_pointer F depth S (lit ''known-good'') MODEL_ID) w1 = (Inr (S @ [MODEL_ID]), w2) \<and>
      quiet w2 \<and> published S (tree w2) = ?T2"
    by (rule pointer_returns [OF pointers_not_dotted(2) ok _ S(2) _ w1(2)])
      (use T1 S(1) links in \<open>simp_all add: T1_def\<close>)
  then obtain w2 where w2: "qualify_model F depth MODEL_ID S w1 = (Inr (S @ [MODEL_ID]), w2)" "quiet w2" "published S (tree w2) = ?T2"
    unfolding qualify_model_def by blast
  have ok2: "version_ok (fl_sha256 F) depth S ?T2" "version_ok (fl_sha256 F) depth S ?T3"
    using ok pointer_names by (simp_all add: version_ok_pointer)
  have S2: "?T2 S = Some (Folder perm euid)" "?T3 S = Some (Folder perm euid)" using T1(1) S(1) by simp_all
  have "\<exists>w3. store_lock F S (replace_pointer F depth S (lit ''current'') MODEL_ID) w2 = (Inr (S @ [MODEL_ID]), w3) \<and>
      quiet w3 \<and> published S (tree w3) = ?T3"
    by (rule pointer_returns [OF pointers_not_dotted(1) ok2(1) S2(1) S(2) _ w2(2,3)])
      (use T1(2) links in simp)
  then obtain w3 where w3: "activate_model F depth MODEL_ID S w2 = (Inr (S @ [MODEL_ID]), w3)" "quiet w3" "published S (tree w3) = ?T3"
    unfolding activate_model_def by blast
  have "\<exists>w4. rollback_model F depth S w3 = (Inr (S @ [MODEL_ID]), w4) \<and> quiet w4 \<and> published S (tree w4) = ?T3(?C \<mapsto> Link MODEL_ID)"
    by (rule rollback_returns [OF ok2(2) S2(2) S(2) _ _ w3(2,3)]) simp_all
  then obtain w4 where w4: "rollback_model F depth S w3 = (Inr (S @ [MODEL_ID]), w4)" "published S (tree w4) = ?T3"
    by auto
  from w1(1) w2(1) w3(1) w4(1) w1(3) w4(2) show ?thesis unfolding T1_def by blast
qed

end

end
