(* ===== verification/Model_Disk.thy ===== *)
theory Model_Disk
  imports Model_Works
begin

text \<open>
  A file system of nodes in a list, on which chosen calls fail: it meets both interfaces of the
  model store. The properties of the store.
\<close>

section \<open>Nodes in a list\<close>

type_synonym nodes = "(path \<times> node) list"

record store_disk =
  sd_nodes :: nodes
  sd_failing :: "bool list"

definition sd_tree :: "store_disk \<Rightarrow> tree" where
  "sd_tree d = map_of (sd_nodes d)"

definition sd_quiet :: "store_disk \<Rightarrow> bool" where
  "sd_quiet d \<longleftrightarrow> sd_failing d = []"

text \<open>A call fails if the list says so; otherwise it answers and changes the nodes, or refuses.\<close>

definition sd_call :: "(nodes \<Rightarrow> exn + 'a \<times> nodes) \<Rightarrow> (store_disk, 'a) io" where
  "sd_call f d =
     (case (sd_failing d, f (sd_nodes d)) of
        (True # bs, _) \<Rightarrow> (Inl OSError, d\<lparr>sd_failing := bs\<rparr>)
      | (bs, Inl e) \<Rightarrow> (Inl e, d\<lparr>sd_failing := tl bs\<rparr>)
      | (bs, Inr (x, ns)) \<Rightarrow> (Inr x, d\<lparr>sd_nodes := ns, sd_failing := tl bs\<rparr>))"

definition sd_lstat :: "path \<Rightarrow> nodes \<Rightarrow> exn + file_stat \<times> nodes" where
  "sd_lstat p ns = (case map_of ns p of None \<Rightarrow> Inl FileNotFoundError | Some n \<Rightarrow> Inr (stat_of n, ns))"

definition sd_open :: "path \<Rightarrow> nodes \<Rightarrow> exn + bytes \<times> nodes" where
  "sd_open p ns = (case map_of ns p of Some (Regular _ _ data) \<Rightarrow> Inr (data, ns) | _ \<Rightarrow> Inl OSError)"

definition sd_readlink :: "path \<Rightarrow> nodes \<Rightarrow> exn + pstr \<times> nodes" where
  "sd_readlink p ns = (case map_of ns p of Some (Link target) \<Rightarrow> Inr (target, ns) | _ \<Rightarrow> Inl OSError)"

definition sd_listdir :: "path \<Rightarrow> nodes \<Rightarrow> exn + pstr list \<times> nodes" where
  "sd_listdir p ns =
     Inr (remdups (map (last \<circ> fst) (filter (\<lambda>(q, _). q \<noteq> [] \<and> butlast q = p) ns)), ns)"

definition sd_exists :: "'a \<Rightarrow> path \<Rightarrow> nodes \<Rightarrow> exn + 'a \<times> nodes" where
  "sd_exists x p ns = (if map_of ns p = None then Inl FileNotFoundError else Inr (x, ns))"

definition sd_open_lock :: "int \<Rightarrow> path \<Rightarrow> nodes \<Rightarrow> exn + nat \<times> nodes" where
  "sd_open_lock uid p ns = Inr (3, if map_of ns p = None then (p, Regular 384 uid []) # ns else ns)"

text \<open>A name longer than any other.\<close>

definition sd_fresh :: "nodes \<Rightarrow> pstr" where
  "sd_fresh ns = replicate (Suc (sum_list (map (\<lambda>(q, _). length (concat q)) ns))) 97"

definition sd_mkdtemp :: "int \<Rightarrow> pstr \<Rightarrow> path \<Rightarrow> nodes \<Rightarrow> exn + path \<times> nodes" where
  "sd_mkdtemp uid prefix dir ns =
     (let p = dir @ [prefix @ sd_fresh ns]
      in case map_of ns dir of Some (Folder _ _) \<Rightarrow> Inr (p, (p, Folder 448 uid) # ns) | _ \<Rightarrow> Inl OSError)"

definition sd_rmtree :: "path \<Rightarrow> nodes \<Rightarrow> exn + unit \<times> nodes" where
  "sd_rmtree d ns = Inr ((), filter (\<lambda>(q, _). \<not> under d q) ns)"

definition sd_write :: "int \<Rightarrow> path \<Rightarrow> bytes \<Rightarrow> nodes \<Rightarrow> exn + unit \<times> nodes" where
  "sd_write uid p data ns =
     (case map_of ns p of
        None \<Rightarrow> Inr ((), (p, Regular 420 uid data) # ns)
      | Some (Regular perm owner _) \<Rightarrow> Inr ((), (p, Regular perm owner data) # ns)
      | _ \<Rightarrow> Inl OSError)"

definition sd_copyfile :: "int \<Rightarrow> path \<Rightarrow> path \<Rightarrow> nodes \<Rightarrow> exn + unit \<times> nodes" where
  "sd_copyfile uid src dst ns =
     (case map_of ns src of Some (Regular _ _ data) \<Rightarrow> sd_write uid dst data ns | _ \<Rightarrow> Inl OSError)"

definition sd_chmod :: "path \<Rightarrow> nat \<Rightarrow> nodes \<Rightarrow> exn + unit \<times> nodes" where
  "sd_chmod p perm ns =
     (case map_of ns p of None \<Rightarrow> Inl FileNotFoundError | Some n \<Rightarrow> Inr ((), (p, with_perm perm n) # ns))"

definition sd_moved :: "path \<Rightarrow> path \<Rightarrow> nodes \<Rightarrow> nodes" where
  "sd_moved src dst ns =
     map (\<lambda>(q, n). (if under src q then dst @ drop (length src) q else q, n)) (filter (\<lambda>(q, _). \<not> under dst q) ns)"

definition sd_rename :: "path \<Rightarrow> path \<Rightarrow> nodes \<Rightarrow> exn + unit \<times> nodes" where
  "sd_rename src dst ns =
     (case (map_of ns src, map_of ns dst) of
        (Some (Folder _ _), target) \<Rightarrow>
          if under src dst \<or> under dst src \<or> (\<exists>(q, _) \<in> set ns. under dst q \<and> q \<noteq> dst) \<or>
             \<not> (case target of None \<Rightarrow> True | Some (Folder _ _) \<Rightarrow> True | _ \<Rightarrow> False)
          then Inl OSError else Inr ((), sd_moved src dst ns)
      | _ \<Rightarrow> Inl OSError)"

definition sd_replace :: "path \<Rightarrow> path \<Rightarrow> nodes \<Rightarrow> exn + unit \<times> nodes" where
  "sd_replace src dst ns =
     (case (map_of ns src, map_of ns dst) of
        (Some (Link _), Some (Folder _ _)) \<Rightarrow> Inl OSError
      | (Some (Link target), _) \<Rightarrow> Inr ((), (dst, Link target) # filter (\<lambda>(q, _). q \<noteq> src) ns)
      | _ \<Rightarrow> Inl OSError)"

definition sd_symlink :: "path \<Rightarrow> pstr \<Rightarrow> nodes \<Rightarrow> exn + unit \<times> nodes" where
  "sd_symlink p target ns =
     (case map_of ns p of None \<Rightarrow> Inr ((), (p, Link target) # ns) | Some _ \<Rightarrow> Inl OSError)"

definition sd_done :: "'a \<Rightarrow> nodes \<Rightarrow> exn + 'a \<times> nodes" where
  "sd_done x ns = Inr (x, ns)"

definition sd_files :: "(bytes \<Rightarrow> bytes) \<Rightarrow> int \<Rightarrow> store_disk files" where
  "sd_files sha uid =
     \<lparr>fl_sha256 = sha,
      fl_lstat = \<lambda>p. sd_call (sd_lstat p),
      fl_open = \<lambda>p. sd_call (sd_open p),
      fl_readlink = \<lambda>p. sd_call (sd_readlink p),
      fl_listdir = \<lambda>p. sd_call (sd_listdir p),
      fl_geteuid = sd_call (sd_done uid),
      fl_open_lock = \<lambda>p. sd_call (sd_open_lock uid p),
      fl_flock = \<lambda>fd. sd_call (sd_done ()),
      fl_open_fd = \<lambda>p. sd_call (sd_exists 4 p),
      fl_fsync = \<lambda>fd. sd_call (sd_done ()),
      fl_close = \<lambda>fd. sd_call (sd_done ()),
      fl_mkdtemp = \<lambda>prefix dir. sd_call (sd_mkdtemp uid prefix dir),
      fl_rmtree = \<lambda>p. sd_call (sd_rmtree p),
      fl_copyfile = \<lambda>src dst. sd_call (sd_copyfile uid src dst),
      fl_write = \<lambda>p data. sd_call (sd_write uid p data),
      fl_chmod = \<lambda>p perm. sd_call (sd_chmod p perm),
      fl_rename = \<lambda>src dst. sd_call (sd_rename src dst),
      fl_replace = \<lambda>src dst. sd_call (sd_replace src dst),
      fl_symlink = \<lambda>p target. sd_call (sd_symlink p target)\<rparr>"

lemmas sd_ops = sd_lstat_def sd_open_def sd_readlink_def sd_listdir_def sd_exists_def sd_open_lock_def sd_mkdtemp_def
  sd_rmtree_def sd_write_def sd_copyfile_def sd_chmod_def sd_rename_def sd_replace_def sd_symlink_def sd_done_def

section \<open>The laws\<close>

lemma sd_call_cases:
  assumes "sd_call f d = (r, d')"
  obtains e where "r = Inl e" "sd_tree d' = sd_tree d"
  | x ns where "f (sd_nodes d) = Inr (x, ns)" "r = Inr x" "sd_tree d' = map_of ns"
  using assms by (auto simp: sd_call_def sd_tree_def split: list.splits bool.splits sum.splits)

lemma sd_call_keeps:
  assumes "\<And>ns x ns'. f ns = Inr (x, ns') \<Longrightarrow> map_of ns' p = map_of ns p"
  shows "sd_tree (snd (sd_call f d)) p = sd_tree d p"
proof -
  obtain r d' where run: "sd_call f d = (r, d')" by fastforce
  from run show ?thesis by (rule sd_call_cases) (use run assms in \<open>auto simp: sd_tree_def\<close>)
qed

lemma sd_call_works:
  assumes "\<And>ns. P ns \<Longrightarrow> \<exists>x ns'. f ns = Inr (x, ns')"
  shows "works sd_quiet (\<lambda>d. P (sd_nodes d)) (sd_call f)"
  using assms by (fastforce simp: works_def sd_call_def sd_quiet_def)

lemma length_concat: "x \<in> set q \<Longrightarrow> length x \<le> length (concat q)"
  by (induction q) auto

lemma sd_fresh_unused: "(q, n) \<in> set ns \<Longrightarrow> prefix @ sd_fresh ns \<notin> set q"
proof
  assume q: "(q, n) \<in> set ns" and "prefix @ sd_fresh ns \<in> set q"
  from length_concat [OF this(2)] have "length (prefix @ sd_fresh ns) \<le> length (concat q)" .
  moreover have "length (concat q) \<le> sum_list (map (\<lambda>(q, _). length (concat q)) ns)"
    using q by (force intro: member_le_sum_list)
  ultimately show False by (simp add: sd_fresh_def)
qed

lemma map_of_fresh: "map_of ns (dir @ (prefix @ sd_fresh ns) # q) = None"
proof (rule ccontr)
  assume "map_of ns (dir @ (prefix @ sd_fresh ns) # q) \<noteq> None"
  then obtain n where "(dir @ (prefix @ sd_fresh ns) # q, n) \<in> set ns" by (auto dest: map_of_SomeD)
  from sd_fresh_unused [OF this, of prefix] show False by simp
qed

lemma map_of_filtered: "map_of (filter (\<lambda>(q, _). P q) ns) q = (if P q then map_of ns q else None)"
  by (induction ns) (auto split: prod.splits)

lemma map_of_moved:
  assumes "\<not> under src dst" "\<not> under dst src"
  shows "map_of (sd_moved src dst ns) = moved src dst (map_of ns)"
proof
  have apart: "\<not> (under src q \<and> under dst q)" for q
    using assms unfolding under_def by (metis linorder_le_cases min.absorb1 take_take)
  show "map_of (sd_moved src dst ns) q = moved src dst (map_of ns) q" for q
  proof (induction ns)
    case (Cons x ns)
    obtain p n where x: "x = (p, n)" by fastforce
    have at_dst: "src @ drop (length dst) q = p \<longleftrightarrow> under src p \<and> q = dst @ drop (length src) p" if "under dst q"
      by (rule underE [OF that], auto simp: under_def) (metis append_take_drop_id)
    consider "under dst p" "\<not> under src p" | "\<not> under dst p" "under src p" | "\<not> under dst p" "\<not> under src p"
      using apart by blast
    then show ?case
    proof cases
      case 1
      then show ?thesis using Cons at_dst by (auto simp: sd_moved_def moved_def x)
    next
      case 2
      moreover have "p \<noteq> dst @ drop (length src) p" using 2(1) under_append by metis
      ultimately show ?thesis using Cons at_dst apart [of q] by (auto simp: sd_moved_def moved_def x)
    next
      case 3
      then show ?thesis using Cons at_dst by (auto simp: sd_moved_def moved_def x)
    qed
  qed (simp add: sd_moved_def moved_def)
qed

lemma sd_write_result: "sd_write uid p data ns = Inr (x, ns') \<Longrightarrow> \<exists>perm owner. ns' = (p, Regular perm owner data) # ns"
  by (auto simp: sd_write_def split: option.splits node.splits)

lemma sd_listdir_names:
  "set (remdups (map (last \<circ> fst) (filter (\<lambda>(q, _). q \<noteq> [] \<and> butlast q = p) ns))) = {x. map_of ns (p @ [x]) \<noteq> None}"
    (is "?L = ?R")
proof (intro set_eqI iffI)
  fix x assume "x \<in> ?L"
  then obtain q n where "(q, n) \<in> set ns" "q = p @ [x]" by (auto simp flip: snoc_eq_iff_butlast)
  then have "p @ [x] \<in> fst ` set ns" by force
  then show "x \<in> ?R" by (simp add: map_of_eq_None_iff)
next
  fix x assume "x \<in> ?R"
  then obtain n where "(p @ [x], n) \<in> set ns" by (auto dest: map_of_SomeD)
  then show "x \<in> ?L" by (force simp: image_iff)
qed

lemma sd_call_same:
  assumes "\<And>ns x ns'. f ns = Inr (x, ns') \<Longrightarrow> ns' = ns"
  shows "sd_tree (snd (sd_call f d)) = sd_tree d"
  by (rule ext, rule sd_call_keeps) (auto dest: assms)

lemma sd_rename_result:
  assumes "sd_rename src dst ns = Inr (x, ns')"
  shows "(\<forall>y q. map_of ns (dst @ y # q) = None) \<and> map_of ns' = moved src dst (map_of ns)"
proof
  have *: "\<not> under src dst" "\<not> under dst src" "ns' = sd_moved src dst ns" "\<forall>(q, _) \<in> set ns. under dst q \<longrightarrow> q = dst"
    using assms by (auto simp: sd_rename_def split: option.splits node.splits if_splits)
  from *(1-3) show "map_of ns' = moved src dst (map_of ns)" by (simp add: map_of_moved)
  show "\<forall>y q. map_of ns (dst @ y # q) = None"
  proof (intro allI)
    fix y q
    have "(dst @ y # q, n) \<notin> set ns" for n using *(4) by auto
    then show "map_of ns (dst @ y # q) = None" by (force simp: map_of_eq_None_iff)
  qed
qed

interpretation store_disk: model_files "sd_files sha uid" sd_tree
proof
  fix w w' :: store_disk and p q d dir src dst :: path and info fd data perm u c target names prefix made r x
  note sd_files_def [simp]
  show "sd_tree (snd (fl_lstat (sd_files sha uid) p w)) = sd_tree w" "sd_tree (snd (fl_open (sd_files sha uid) p w)) = sd_tree w"
    "sd_tree (snd (fl_readlink (sd_files sha uid) p w)) = sd_tree w" "sd_tree (snd (fl_listdir (sd_files sha uid) p w)) = sd_tree w"
    "sd_tree (snd (fl_geteuid (sd_files sha uid) w)) = sd_tree w" "sd_tree (snd (fl_flock (sd_files sha uid) fd w)) = sd_tree w"
    "sd_tree (snd (fl_open_fd (sd_files sha uid) p w)) = sd_tree w" "sd_tree (snd (fl_fsync (sd_files sha uid) fd w)) = sd_tree w"
    "sd_tree (snd (fl_close (sd_files sha uid) fd w)) = sd_tree w"
    by (simp, rule sd_call_same, (auto simp: sd_ops split: option.splits node.splits if_splits)[1])+
  show "\<exists>n. sd_tree w p = Some n \<and> info = stat_of n" if "fl_lstat (sd_files sha uid) p w = (Inr info, w')"
    using that by (auto simp: sd_lstat_def sd_tree_def elim!: sd_call_cases split: option.splits)
  show "data = c" if "fl_open (sd_files sha uid) p w = (Inr data, w')" "sd_tree w p = Some (Regular perm u c)"
    using that by (auto simp: sd_open_def sd_tree_def elim!: sd_call_cases)
  show "sd_tree w p = Some (Link target)" if "fl_readlink (sd_files sha uid) p w = (Inr target, w')"
    using that by (auto simp: sd_readlink_def sd_tree_def elim!: sd_call_cases split: option.splits node.splits)
  show "distinct names \<and> set names = {x. sd_tree w (p @ [x]) \<noteq> None}" if "fl_listdir (sd_files sha uid) p w = (Inr names, w')"
    using that by (auto simp: sd_listdir_def sd_tree_def elim!: sd_call_cases simp del: set_remdups simp: sd_listdir_names)
  show "sd_tree (snd (fl_open_lock (sd_files sha uid) p w)) q = sd_tree w q" if "q \<noteq> p"
    using that by (auto simp: sd_open_lock_def intro!: sd_call_keeps split: if_splits)
  show "sd_tree (snd (fl_rmtree (sd_files sha uid) d w)) q = sd_tree w q" if "\<not> under d q"
    using that by (auto simp: sd_rmtree_def map_of_filtered intro!: sd_call_keeps)
  show "\<exists>x uid. (\<forall>q. sd_tree w (dir @ (prefix @ x) # q) = None) \<and>
      (sd_tree w' = (sd_tree w)(dir @ [prefix @ x] \<mapsto> Folder 448 uid) \<and> (\<forall>d. made = Inr d \<longrightarrow> d = dir @ [prefix @ x]) \<or>
       sd_tree w' = sd_tree w \<and> (\<exists>e. made = Inl e))"
    if "fl_mkdtemp (sd_files sha uid) prefix dir w = (made, w')" for made :: "exn + path"
  proof (rule exI [of _ "sd_fresh (sd_nodes w)"], rule exI [of _ uid], intro conjI allI)
    show "sd_tree w (dir @ (prefix @ sd_fresh (sd_nodes w)) # q) = None" for q
      unfolding sd_tree_def by (rule map_of_fresh)
    show "sd_tree w' = (sd_tree w)(dir @ [prefix @ sd_fresh (sd_nodes w)] \<mapsto> Folder 448 uid) \<and>
        (\<forall>d. made = Inr d \<longrightarrow> d = dir @ [prefix @ sd_fresh (sd_nodes w)]) \<or> sd_tree w' = sd_tree w \<and> (\<exists>e. made = Inl e)"
      using that by (auto simp: sd_mkdtemp_def sd_tree_def Let_def elim!: sd_call_cases split: option.splits node.splits)
  qed
  show "sd_tree w' q = sd_tree w q" if "fl_write (sd_files sha uid) p data w = (r, w')" "sd_tree w p = None" "q \<noteq> p"
    using that by (auto simp: sd_tree_def elim!: sd_call_cases dest: sd_write_result)
  show "\<exists>perm uid. sd_tree w' p = Some (Regular perm uid data)"
    if "fl_write (sd_files sha uid) p data w = (Inr u', w')" "sd_tree w p = None" for u'
    using that by (auto simp: sd_tree_def elim!: sd_call_cases dest!: sd_write_result)
  show "sd_tree w' q = sd_tree w q" if "fl_copyfile (sd_files sha uid) src dst w = (r, w')" "sd_tree w dst = None" "q \<noteq> dst"
    using that by (auto simp: sd_tree_def sd_copyfile_def elim!: sd_call_cases dest!: sd_write_result split: option.splits node.splits)
  show "\<exists>perm uid. sd_tree w' dst = Some (Regular perm uid c)"
    if "fl_copyfile (sd_files sha uid) src dst w = (Inr u', w')" "sd_tree w dst = None" "sd_tree w src = Some (Regular perm u c)" for u'
    using that by (auto simp: sd_tree_def sd_copyfile_def elim!: sd_call_cases dest!: sd_write_result)
  show "sd_tree w' = (sd_tree w)(p := map_option (with_perm perm) (sd_tree w p)) \<or> sd_tree w' = sd_tree w \<and> (\<exists>e. r = Inl e)"
    if "fl_chmod (sd_files sha uid) p perm w = (r, w')" for r
    using that by (auto simp: sd_tree_def sd_chmod_def elim!: sd_call_cases split: option.splits)
  show "(\<forall>x q. sd_tree w (dst @ x # q) = None) \<and> sd_tree w' = moved src dst (sd_tree w) \<or> sd_tree w' = sd_tree w \<and> (\<exists>e. r = Inl e)"
    if "fl_rename (sd_files sha uid) src dst w = (r, w')" "sd_tree w src = Some (Folder perm u)" for r
    using that by (auto simp: sd_tree_def elim!: sd_call_cases dest!: sd_rename_result)
  show "sd_tree w' = (sd_tree w)(src := None, dst \<mapsto> Link target) \<or> sd_tree w' = sd_tree w \<and> (\<exists>e. r = Inl e)"
    if "fl_replace (sd_files sha uid) src dst w = (r, w')" "sd_tree w src = Some (Link target)" for r
    using that by (auto simp: sd_tree_def sd_replace_def fun_eq_iff map_of_filtered elim!: sd_call_cases split: option.splits node.splits)
  show "sd_tree w' = (sd_tree w)(p \<mapsto> Link target) \<and> sd_tree w p = None \<or> sd_tree w' = sd_tree w \<and> (\<exists>e. r = Inl e)"
    if "fl_symlink (sd_files sha uid) p target w = (r, w')" for r
    using that by (auto simp: sd_tree_def sd_symlink_def elim!: sd_call_cases split: option.splits)
qed

lemma sd_lstat_missing:
  "sd_quiet w \<Longrightarrow> sd_tree w p = None \<Longrightarrow> \<exists>e w'. sd_call (sd_lstat p) w = (Inl e, w') \<and> is_os_error e \<and> sd_quiet w'"
  by (simp add: sd_call_def sd_lstat_def sd_quiet_def sd_tree_def)

lemma sd_rename_works:
  assumes "map_of ns p = Some (Folder perm u)" "map_of ns q = None" "\<not> under p q" "\<not> under q p" "\<And>x r. map_of ns (q @ x # r) = None"
  shows "\<exists>x ns'. sd_rename p q ns = Inr (x, ns')"
proof -
  have False if "(q @ r, n) \<in> set ns" "r \<noteq> []" for r n
    using assms(5) that weak_map_of_SomeI by (cases r) fastforce+
  then have "\<not> (\<exists>(q', _) \<in> set ns. under q q' \<and> q' \<noteq> q)" by (auto elim!: underE)
  with assms(1-4) show ?thesis by (simp add: sd_rename_def)
qed

interpretation store_disk: working_files "sd_files sha uid" sd_tree sd_quiet uid
proof
  fix w w' :: store_disk and p q :: path and fd perm :: nat and target prefix data owner
  note sd_files_def [simp] and sd_tree_def [simp]
  show "works sd_quiet (\<lambda>w. sd_tree w p \<noteq> None) (fl_lstat (sd_files sha uid) p)"
    by (auto intro!: sd_call_works simp: sd_lstat_def)
  show "\<exists>e w'. fl_lstat (sd_files sha uid) p w = (Inl e, w') \<and> is_os_error e \<and> sd_quiet w'" if "sd_quiet w" "sd_tree w p = None"
    using sd_lstat_missing [OF that] by simp
  show "works sd_quiet (\<lambda>w. \<exists>perm uid c. sd_tree w p = Some (Regular perm uid c)) (fl_open (sd_files sha uid) p)"
    by (auto intro!: sd_call_works simp: sd_open_def)
  show "works sd_quiet (\<lambda>w. \<exists>target. sd_tree w p = Some (Link target)) (fl_readlink (sd_files sha uid) p)"
    by (auto intro!: sd_call_works simp: sd_readlink_def)
  show "works sd_quiet (\<lambda>w. \<exists>perm uid. sd_tree w p = Some (Folder perm uid)) (fl_listdir (sd_files sha uid) p)"
    by (auto intro!: sd_call_works simp: sd_listdir_def)
  show "works sd_quiet (\<lambda>_. True) (fl_geteuid (sd_files sha uid))" "works sd_quiet (\<lambda>_. True) (fl_flock (sd_files sha uid) fd)"
    "works sd_quiet (\<lambda>_. True) (fl_fsync (sd_files sha uid) fd)" "works sd_quiet (\<lambda>_. True) (fl_close (sd_files sha uid) fd)"
    by (auto intro!: sd_call_works simp: sd_done_def)
  show "owner = uid" if "fl_geteuid (sd_files sha uid) w = (Inr owner, w')"
    using that by (auto simp: sd_done_def elim!: sd_call_cases)
  show "works sd_quiet (\<lambda>w. \<exists>perm uid. sd_tree w p = Some (Folder perm uid)) (fl_open_lock (sd_files sha uid) (p @ [LOCK_NAME]))"
    by (auto intro!: sd_call_works simp: sd_open_lock_def)
  show "works sd_quiet (\<lambda>w. sd_tree w p \<noteq> None) (fl_open_fd (sd_files sha uid) p)"
    by (auto intro!: sd_call_works simp: sd_exists_def)
  show "works sd_quiet (\<lambda>w. \<exists>perm uid. sd_tree w p = Some (Folder perm uid)) (fl_mkdtemp (sd_files sha uid) prefix p)"
    by (auto intro!: sd_call_works simp: sd_mkdtemp_def Let_def)
  show "works sd_quiet (\<lambda>_. True) (fl_rmtree (sd_files sha uid) p)"
    by (auto intro!: sd_call_works simp: sd_rmtree_def)
  show "works sd_quiet (\<lambda>w. (\<exists>perm uid c. sd_tree w p = Some (Regular perm uid c)) \<and> sd_tree w q = None) (fl_copyfile (sd_files sha uid) p q)"
    by (auto intro!: sd_call_works simp: sd_copyfile_def sd_write_def)
  show "works sd_quiet (\<lambda>w. sd_tree w p = None) (fl_write (sd_files sha uid) p data)"
    by (auto intro!: sd_call_works simp: sd_write_def)
  show "works sd_quiet (\<lambda>w. sd_tree w p \<noteq> None) (fl_chmod (sd_files sha uid) p perm)"
    by (auto intro!: sd_call_works simp: sd_chmod_def)
  show "works sd_quiet (\<lambda>w. (\<exists>perm uid. sd_tree w p = Some (Folder perm uid)) \<and> sd_tree w q = None \<and> \<not> under p q \<and> \<not> under q p \<and>
      (\<forall>x r. sd_tree w (q @ x # r) = None)) (fl_rename (sd_files sha uid) p q)"
    by (auto intro!: sd_call_works sd_rename_works)
  show "works sd_quiet (\<lambda>w. (\<exists>target. sd_tree w p = Some (Link target)) \<and> (sd_tree w q = None \<or> (\<exists>target. sd_tree w q = Some (Link target))))
      (fl_replace (sd_files sha uid) p q)"
    by (auto intro!: sd_call_works simp: sd_replace_def)
  show "works sd_quiet (\<lambda>w. sd_tree w p = None) (fl_symlink (sd_files sha uid) p target)"
    by (auto intro!: sd_call_works simp: sd_symlink_def)
qed

section \<open>The properties\<close>

text \<open>A store with nothing installed, a model beside it, and the calls that will fail.\<close>

definition MODEL_BYTES :: bytes where "MODEL_BYTES = [72, 69, 70]"

definition sha_of :: "bytes \<Rightarrow> bytes" where
  "sha_of c =
     (if c = MODEL_BYTES
      then [0x91, 0x30, 0x53, 0xbb, 0x96, 0x81, 0x5b, 0x16, 0xb7, 0x90, 0x93, 0x92, 0x4e, 0xd5, 0x63, 0x84,
            0x4f, 0x8e, 0xdb, 0xc0, 0x2e, 0xf6, 0xd4, 0x01, 0x29, 0xa2, 0x90, 0xef, 0xf3, 0xe3, 0x2a, 0xea]
      else replicate 32 0)"

definition DELIVERY :: path where "DELIVERY = [lit ''media'']"

definition fresh_store :: "bool list \<Rightarrow> store_disk" where
  "fresh_store failing =
     \<lparr>sd_nodes =
        [(STORE, Folder 493 0), (DELIVERY, Folder 493 0),
         (DELIVERY @ [ARTIFACT], Regular 420 0 MODEL_BYTES),
         (DELIVERY @ [MANIFEST_NAME], Regular 420 0 (manifest_bytes SELECTED))],
      sd_failing = failing\<rparr>"

lemma sha_of_model: "hexdigest (sha_of MODEL_BYTES) = ARTIFACT_SHA256"
  by (simp add: sha_of_def hexdigest_def ARTIFACT_SHA256_def lit_Cons hex_digit_def)

lemma sd_files_sha: "fl_sha256 (sd_files sha uid) = sha"
  by (simp add: sd_files_def)

lemma fresh_store_quiet: "sd_failing (fresh_store failing) = failing"
  by (simp add: fresh_store_def)

lemma fresh_store_tree:
  "sd_tree (fresh_store failing) STORE = Some (Folder 493 0)"
  "sd_tree (fresh_store failing) (STORE @ x # q) = None"
  "sd_tree (fresh_store failing) (DELIVERY @ [ARTIFACT]) = Some (Regular 420 0 MODEL_BYTES)"
  "sd_tree (fresh_store failing) (DELIVERY @ [MANIFEST_NAME]) = Some (Regular 420 0 (manifest_bytes SELECTED))"
  by (simp_all add: sd_tree_def fresh_store_def STORE_def DELIVERY_def lit_Cons MANIFEST_NAME_def ARTIFACT_def)

text \<open>C30: Whatever call fails at whatever point, and whoever interrupts it, a command leaves the published part
of the store (every name without a leading dot) exactly as it was, or changed exactly as the command says: for an installation a new
directory of mode 0755 with the manifest and the artifact of mode 0644, both complete and verified, and
nothing else; for the pointers one symbolic link to a version that was complete. A command that returns has had
its effect, unless it is an installation of a version that was already there and complete.\<close>

theorem store_atomic:
  assumes "model_files F tree" "run_command F depth S command w = (r, w')"
  shows "(published S (tree w') = published S (tree w) \<or>
      effect (fl_sha256 F) depth S command (published S (tree w)) (published S (tree w'))) \<and>
    (r = Inr () \<longrightarrow> effect (fl_sha256 F) depth S command (published S (tree w)) (published S (tree w')) \<or>
      published S (tree w') = published S (tree w) \<and> (\<exists>mp source. command = Install mp source) \<and>
      version_ok (fl_sha256 F) depth S (tree w))"
proof (cases r)
  case (Inl e)
  with hoare_Inl [OF model_files.run_command_rule [OF assms(1)] refl] assms(2) show ?thesis by auto
next
  case (Inr u)
  with hoare_Inr [OF model_files.run_command_rule [OF assms(1)] refl] assms(2) show ?thesis
    by (metis version_ok_published)
qed

theorem store_atomic_witness:
  "let w = fresh_store (replicate 12 False @ [True]);
       w' = snd (run_command (sd_files sha_of 0) 8 STORE (Install (DELIVERY @ [MANIFEST_NAME]) DELIVERY) w)
   in published STORE (sd_tree w') = published STORE (sd_tree w) \<or>
      effect sha_of 8 STORE (Install (DELIVERY @ [MANIFEST_NAME]) DELIVERY) (published STORE (sd_tree w)) (published STORE (sd_tree w'))"
  using conjunct1 [OF store_atomic [OF store_disk.model_files_axioms [of sha_of 0] surjective_pairing,
        where depth = 8 and S = STORE and command = "Install (DELIVERY @ [MANIFEST_NAME]) DELIVERY"
          and w = "fresh_store (replicate 12 False @ [True])"]]
  by (simp only: Let_def sd_files_sha)

text \<open>C31: After any sequence of commands, each of which may have failed or been refused, a pointer to the
selected version leads to a complete one: a directory whose manifest is accepted and whose artifact has
the selected digest.\<close>

theorem pointers_sound:
  assumes "model_files F tree" "pointers_ok (fl_sha256 F) depth S (tree w)"
  shows "pointers_ok (fl_sha256 F) depth S (tree (fold (\<lambda>command w. snd (model_main F depth S command w)) commands w))"
  using assms(2)
proof (induction commands arbitrary: w)
  case (Cons command commands)
  obtain r w' where run: "run_command F depth S command w = (r, w')" by fastforce
  have "published S (tree w') = published S (tree w) \<or>
      effect (fl_sha256 F) depth S command (published S (tree w)) (published S (tree w'))"
    using hoare_Inr [OF model_files.run_command_rule [OF assms(1)] refl] hoare_Inl [OF model_files.run_command_rule [OF assms(1)] refl]
      run by (cases r) blast+
  then have "pointers_ok (fl_sha256 F) depth S (published S (tree w'))"
    using effect_pointers_ok [of "fl_sha256 F" depth S command "published S (tree w)"]
      Cons.prems pointers_ok_published by metis
  moreover have "snd (model_main F depth S command w) = w'"
    using run by (auto simp: model_main_def catchE_def bindE_def returnE_def split: sum.splits)
  ultimately show ?case using Cons.IH by (simp add: pointers_ok_published)
qed simp

theorem pointers_sound_witness:
  "pointers_ok sha_of 8 STORE (sd_tree (fold (\<lambda>command w. snd (model_main (sd_files sha_of 0) 8 STORE command w))
     [Install (DELIVERY @ [MANIFEST_NAME]) DELIVERY, Qualify MODEL_ID, Activate MODEL_ID, Rollback]
     (fresh_store [False, True])))"
proof -
  have "pointers_ok sha_of 8 STORE (sd_tree (fresh_store [False, True]))"
    by (simp add: pointers_ok_def fresh_store_tree)
  then show ?thesis
    using pointers_sound [OF store_disk.model_files_axioms [of sha_of 0], where depth = 8 and S = STORE and w = "fresh_store [False, True]"
      and commands = "[Install (DELIVERY @ [MANIFEST_NAME]) DELIVERY, Qualify MODEL_ID, Activate MODEL_ID, Rollback]"]
    by (simp only: sd_files_sha)
qed

text \<open>C32: Where nothing fails, the store does its work: from a real directory owned by the caller and writable by
nobody else, without the version, an installation of an accepted manifest and an artifact with the
selected digest returns the version's path, and a qualification, an activation and a rollback after it return it too;
at the end the store holds the complete version and both pointers lead to it.\<close>

theorem model_cycle:
  assumes "working_files F tree quiet euid"
    and "parse_manifest depth data = Inr m" "hexdigest (fl_sha256 F c) = ARTIFACT_SHA256"
    and "tree w (S @ [MODEL_ID]) = None" "\<And>x q. tree w (S @ MODEL_ID # x # q) = None"
    and "tree w S = Some (Folder perm euid)" "perm AND 18 = 0"
    and "\<And>name. name \<in> {lit ''current'', lit ''known-good''} \<Longrightarrow>
      tree w (S @ [name]) = None \<or> (\<exists>target. tree w (S @ [name]) = Some (Link target))"
    and "quiet w" "tree w (source @ [ARTIFACT]) = Some (Regular p u c)" "tree w mp = Some (Regular p' u' data)"
  shows "\<exists>w1 w2 w3 w4. install_model F depth mp source S w = (Inr (S @ [MODEL_ID]), w1) \<and>
    qualify_model F depth MODEL_ID S w1 = (Inr (S @ [MODEL_ID]), w2) \<and>
    activate_model F depth MODEL_ID S w2 = (Inr (S @ [MODEL_ID]), w3) \<and>
    rollback_model F depth S w3 = (Inr (S @ [MODEL_ID]), w4) \<and>
    installs (fl_sha256 F) depth S (published S (tree w)) (published S (tree w1)) \<and>
    published S (tree w4) = (published S (tree w1))
      (S @ [lit ''known-good''] \<mapsto> Link MODEL_ID, S @ [lit ''current''] \<mapsto> Link MODEL_ID)"
proof -
  have visible: "published S (tree w) S = tree w S" "published S (tree w) (S @ MODEL_ID # q) = tree w (S @ MODEL_ID # q)"
    "name \<in> {lit ''current'', lit ''known-good''} \<Longrightarrow> published S (tree w) (S @ [name]) = tree w (S @ [name])" for q name
    by (auto simp: published_at lit_Cons)
  show ?thesis
    by (rule working_files.cycle [OF assms(1-3) _ _ _ assms(7,9) refl assms(10,11)])
      (use assms(4-6,8) visible in simp_all)
qed

theorem model_cycle_witness:
  "\<exists>w4. (let F = sd_files sha_of 0 in
     rollback_model F 8 STORE (snd (activate_model F 8 MODEL_ID STORE (snd (qualify_model F 8 MODEL_ID STORE
       (snd (install_model F 8 (DELIVERY @ [MANIFEST_NAME]) DELIVERY STORE (fresh_store [])))))))) = (Inr (STORE @ [MODEL_ID]), w4)"
proof -
  have "parse_manifest 8 (manifest_bytes SELECTED) = Inr SELECTED"
    using selected_parses [of 6] by (simp add: numeral_eq_Suc)
  note model_cycle [OF store_disk.working_files_axioms [of sha_of 0] this, of MODEL_BYTES "fresh_store []" STORE 493 DELIVERY 420 0
      "DELIVERY @ [MANIFEST_NAME]" 420 0]
  then show ?thesis
    by (auto simp: fresh_store_tree sha_of_model sd_files_sha sd_quiet_def fresh_store_quiet Let_def)
qed

text \<open>C33: A manifest is accepted exactly if it is a JSON object with the selected entries and no other, each of
the selected value, whatever the order of the keys, the spelling of a string or the white space: an
integer where \<^verbatim>\<open>1.0\<close> or \<^verbatim>\<open>true\<close> would be equal in Python is refused.\<close>

theorem manifest_exact:
  "parse_manifest depth data = Inr m \<longleftrightarrow>
     (\<exists>s. utf8_decode data = Inr s \<and> json_loads_text depth (universal_newlines s) = Inr (JObj m)) \<and>
     dict_keys m = dict_keys SELECTED \<and> (\<forall>(k, e) \<in> set SELECTED. sort_keys (dict_get m k) = sort_keys e)"
    (is "?L \<longleftrightarrow> ?R")
proof
  assume ?L
  then show ?R using parse_manifestD [OF \<open>?L\<close>] by (auto simp: parse_manifest_def bindR_Inr_iff check_manifest_iff)
next
  assume ?R
  then have "\<forall>(k, e) \<in> set SELECTED. canonical (dict_get m k) = canonical e" by (auto simp: canonical_def)
  with \<open>?R\<close> show ?L by (auto simp: parse_manifest_def bindR_Inr_iff check_manifest_iff)
qed

theorem manifest_exact_witness:
  "dict_keys SELECTED = dict_keys SELECTED \<and> sort_keys (dict_get SELECTED (lit ''schema_version'')) = JInt 1"
  using manifest_exact [of "Suc (Suc 6)" "manifest_bytes SELECTED" SELECTED] selected_parses [of 6]
  by (simp add: SELECTED_def)

text \<open>C34: The manifest that an installation writes, indented and with a final line feed, is accepted again and means
the same: reading the copy gives the very manifest, in its own order.\<close>

theorem manifest_copied:
  assumes "parse_manifest depth data = Inr m"
  shows "parse_manifest depth (manifest_bytes m) = Inr m"
  using assms by (rule parse_manifest_again)

theorem manifest_copied_witness: "parse_manifest (Suc (Suc 6)) (manifest_bytes SELECTED) = Inr SELECTED"
  by (rule manifest_copied [OF selected_parses])

end
