(* ===== verification/Ssh_Key.thy ===== *)
theory Ssh_Key
  imports PyText
begin

text \<open>
  The validation of the engineering key, \<^verbatim>\<open>scripts/engineering_ssh_key.py\<close>, with what it uses of the
  standard library: \<^verbatim>\<open>str.split\<close> and strict base64. SHA-256 is a parameter, as is the reading of the input.
\<close>

section \<open>The standard library\<close>

text \<open>\<^verbatim>\<open>s.split(maxsplit=n)\<close>\<close>

primrec py_split :: "nat \<Rightarrow> pstr \<Rightarrow> pstr list" where
  "py_split 0 s = (let rest = dropWhile py_isspace s in if rest = [] then [] else [rest])"
| "py_split (Suc n) s =
     (let rest = dropWhile py_isspace s
      in if rest = [] then []
         else takeWhile (\<lambda>c. \<not> py_isspace c) rest # py_split n (dropWhile (\<lambda>c. \<not> py_isspace c) rest))"

definition b64_char :: "nat \<Rightarrow> nat" where
  "b64_char v =
     (if v < 26 then 65 + v else if v < 52 then 71 + v else if v < 62 then v - 4 else if v = 62 then 43 else 47)"

definition b64_value :: "nat \<Rightarrow> nat option" where
  "b64_value c =
     (if 65 \<le> c \<and> c \<le> 90 then Some (c - 65)
      else if 97 \<le> c \<and> c \<le> 122 then Some (c - 71)
      else if 48 \<le> c \<and> c \<le> 57 then Some (c + 4)
      else if c = 43 then Some 62
      else if c = 47 then Some 63
      else None)"

fun b64_encode :: "bytes \<Rightarrow> pstr" where
  "b64_encode [] = []"
| "b64_encode [a] = [b64_char (a div 4), b64_char (a mod 4 * 16), 61, 61]"
| "b64_encode [a, b] = [b64_char (a div 4), b64_char (a mod 4 * 16 + b div 16), b64_char (b mod 16 * 4), 61]"
| "b64_encode (a # b # c # bs) =
     b64_char (a div 4) # b64_char (a mod 4 * 16 + b div 16) # b64_char (b mod 16 * 4 + c div 64) #
     b64_char (c mod 64) # b64_encode bs"

text \<open>
  The loop of \<^verbatim>\<open>binascii.a2b_base64\<close> in strict mode (CPython 3.11): the place in the group of four, the bits
  left over, the padding seen, and whether padding has started.
\<close>

definition b64_error :: exn where "b64_error = ValueError (lit ''invalid base64'')"

fun b64_go :: "nat \<Rightarrow> nat \<Rightarrow> nat \<Rightarrow> bool \<Rightarrow> pstr \<Rightarrow> exn + bytes" where
  "b64_go quad left pads started [] = (if quad \<noteq> 0 then Inl b64_error else Inr [])"
| "b64_go quad left pads started (c # cs) =
     (if c = 61 then
        if 2 \<le> quad \<and> 4 \<le> quad + Suc pads then (if cs \<noteq> [] then Inl b64_error else Inr [])
        else b64_go quad left (if 2 \<le> quad then Suc pads else pads) True cs
      else
        case b64_value c of
          None \<Rightarrow> Inl b64_error
        | Some v \<Rightarrow>
            if started then Inl b64_error
            else if quad = 0 then b64_go 1 v 0 started cs
            else if quad = 1 then
              bindR (b64_go 2 (v mod 16) 0 started cs) (\<lambda>bs. Inr ((left * 4 + v div 16) # bs))
            else if quad = 2 then
              bindR (b64_go 3 (v mod 4) 0 started cs) (\<lambda>bs. Inr ((left * 16 + v div 4) # bs))
            else bindR (b64_go 0 0 0 started cs) (\<lambda>bs. Inr ((left * 64 + v) # bs)))"

definition b64_decode :: "pstr \<Rightarrow> exn + bytes" where
  "b64_decode s = (if s \<noteq> [] \<and> hd s = 61 then Inl b64_error else b64_go 0 0 0 False s)"

section \<open>The key\<close>

definition KEY_TYPE :: bytes where "KEY_TYPE = lit ''ssh-ed25519''"
definition MAX_INPUT_BYTES :: nat where "MAX_INPUT_BYTES = 1024"
definition MAX_COMMENT_LENGTH :: nat where "MAX_COMMENT_LENGTH = 128"

record engineering_public_key =
  normalized :: pstr
  fingerprint :: pstr

definition truncated :: exn where
  "truncated = PublicKeyError (lit ''engineering public key payload is truncated'')"

definition unpack_be32 :: "bytes \<Rightarrow> nat" where
  "unpack_be32 bs = foldl (\<lambda>n b. n * 256 + b) 0 bs"

definition read_field :: "bytes \<Rightarrow> nat \<Rightarrow> exn + bytes \<times> nat" where
  "read_field blob offset =
     (if length blob < offset + 4 then Inl truncated
      else
        let len = unpack_be32 (take 4 (drop offset blob));
            start = offset + 4;
            ends = start + len
        in if length blob < ends then Inl truncated
           else Inr (take (ends - start) (drop start blob), ends))"

definition parse_blob :: "bytes \<Rightarrow> exn + unit" where
  "parse_blob blob =
     bindR (read_field blob 0) (\<lambda>(key_type, offset).
     bindR (read_field blob offset) (\<lambda>(key_material, offset).
     guardR (key_type = KEY_TYPE \<and> length key_material = 32 \<and> offset = length blob)
       (PublicKeyError (lit ''engineering public key payload is not ED25519''))))"

definition comment_ok :: "pstr \<Rightarrow> bool" where
  "comment_ok comment \<longleftrightarrow> length comment \<le> MAX_COMMENT_LENGTH \<and> (\<forall>c \<in> set comment. 0x20 \<le> c \<and> c \<noteq> 0x7F)"

definition normal_line :: "bytes \<Rightarrow> pstr \<Rightarrow> pstr" where
  "normal_line blob comment =
     lit ''ssh-ed25519 '' @ b64_encode blob @ (if comment = [] then [] else 32 # comment)"

definition digest_text :: "(bytes \<Rightarrow> bytes) \<Rightarrow> bytes \<Rightarrow> pstr" where
  "digest_text sha blob = lit ''SHA256:'' @ rstrip_by (\<lambda>c. c = 61) (b64_encode (sha blob))"

definition parse_public_key :: "(bytes \<Rightarrow> bytes) \<Rightarrow> pstr \<Rightarrow> exn + engineering_public_key" where
  "parse_public_key sha content =
     bindR (utf8_encode content) (\<lambda>encoded.
     bindR (guardR (length encoded \<le> MAX_INPUT_BYTES)
       (PublicKeyError (lit ''engineering public key input is too large''))) (\<lambda>_.
     let lines = py_splitlines content in
     bindR (guardR (length lines = 1)
       (PublicKeyError (lit ''engineering public key input must contain exactly one line''))) (\<lambda>_.
     let fields = py_split 2 (py_strip (lines ! 0)) in
     bindR (guardR ((length fields = 2 \<or> length fields = 3) \<and> fields ! 0 = KEY_TYPE)
       (PublicKeyError (lit ''engineering public key must be OpenSSH ssh-ed25519''))) (\<lambda>_.
     bindR (catchR (b64_decode (fields ! 1)) is_value_error
       (PublicKeyError (lit ''engineering public key base64 is invalid''))) (\<lambda>blob.
     bindR (parse_blob blob) (\<lambda>_.
     let comment = (if length fields = 3 then fields ! 2 else []) in
     bindR (guardR (comment_ok comment)
       (PublicKeyError (lit ''engineering public key comment is invalid''))) (\<lambda>_.
     Inr \<lparr>normalized = normal_line blob comment, fingerprint = digest_text sha blob\<rparr>)))))))"

fun is_key_error :: "exn \<Rightarrow> bool" where
  "is_key_error (PublicKeyError _) = True"
| "is_key_error UnicodeEncodeError = True"
| "is_key_error UnicodeDecodeError = True"
| "is_key_error e = is_os_error e"

text \<open>The exit status and what is printed on the standard output, from what reading the input gives.\<close>

definition key_main :: "(bytes \<Rightarrow> bytes) \<Rightarrow> bool \<Rightarrow> exn + pstr \<Rightarrow> exn + nat \<times> pstr" where
  "key_main sha show_fingerprint content =
     (case bindR content (parse_public_key sha) of
        Inl e \<Rightarrow> if is_key_error e then Inr (2, []) else Inl e
      | Inr key \<Rightarrow> Inr (0, if show_fingerprint then fingerprint key else normalized key))"

section \<open>Base64\<close>

lemma b64_value_char [simp]: "v < 64 \<Longrightarrow> b64_value (b64_char v) = Some v"
  by (auto simp: b64_value_def b64_char_def)

lemma b64_char_range: "43 \<le> b64_char v \<and> (b64_char v < 61 \<or> 61 < b64_char v \<and> b64_char v \<le> 122)" if "v < 64"
  using that by (auto simp: b64_char_def)

lemma b64_char_bounds: "v < 64 \<Longrightarrow> 43 \<le> b64_char v" "v < 64 \<Longrightarrow> b64_char v \<le> 122"
  using b64_char_range [of v] by auto

lemma b64_char_pad [simp]: "v < 64 \<Longrightarrow> b64_char v \<noteq> 61"
  using b64_char_range [of v] by auto

lemma b64_value_bound: "b64_value c = Some v \<Longrightarrow> v < 64"
  by (auto simp: b64_value_def split: if_splits)

lemma b64_go_encode: "\<forall>b \<in> set bs. b < 256 \<Longrightarrow> b64_go 0 left pads False (b64_encode bs) = Inr bs"
  by (induction bs arbitrary: left pads rule: b64_encode.induct) (auto simp: b64_encode.simps)

lemma b64_decode_encode: "\<forall>b \<in> set bs. b < 256 \<Longrightarrow> b64_decode (b64_encode bs) = Inr bs"
  using b64_go_encode [of bs 0 0] by (cases bs rule: b64_encode.cases) (auto simp: b64_decode_def)

text \<open>The bits left over fit their place in the group.\<close>

definition b64_room :: "nat \<Rightarrow> nat \<Rightarrow> bool" where
  "b64_room quad left \<longleftrightarrow> quad < 4 \<and> left < (if quad = 2 then 16 else if quad = 3 then 4 else 64)"

lemma b64_go_bytes: "b64_go quad left pads started s = Inr bs \<Longrightarrow> b64_room quad left \<Longrightarrow> \<forall>b \<in> set bs. b < 256"
proof (induction quad left pads started s arbitrary: bs rule: b64_go.induct)
  case (2 quad left pads started c cs)
  show ?case
  proof (cases "c = 61")
    case True
    then show ?thesis using "2.prems" "2.IH"(1) by (auto split: if_splits)
  next
    case False
    with "2.prems"(1) obtain v where v: "b64_value c = Some v" "\<not> started" by (auto split: option.splits if_splits)
    have bound: "v < 64" by (rule b64_value_bound [OF v(1)])
    from "2.prems"(2) consider "quad = 0" | "quad = 1" "left < 64" | "quad = 2" "left < 16" | "quad = 3" "left < 4"
      by (auto simp: b64_room_def less_Suc_eq numeral_eq_Suc split: if_splits)
    then show ?thesis
    proof cases
      case 1
      then show ?thesis using "2.IH"(2) [OF False v(1)] "2.prems"(1) v False bound by (simp add: b64_room_def)
    next
      case 2
      then show ?thesis using "2.IH"(3) [OF False v(1)] "2.prems"(1) v False bound by (auto simp: b64_room_def bindR_Inr_iff)
    next
      case 3
      then show ?thesis using "2.IH"(4) [OF False v(1)] "2.prems"(1) v False bound by (auto simp: b64_room_def bindR_Inr_iff)
    next
      case 4
      then show ?thesis using "2.IH"(5) [OF False v(1)] "2.prems"(1) v False bound by (auto simp: b64_room_def bindR_Inr_iff)
    qed
  qed
qed (simp split: if_splits)

lemma length_b64_encode: "length (b64_encode bs) = 4 * ((length bs + 2) div 3)"
proof (induction bs rule: b64_encode.induct)
  case (4 a b c bs)
  have "length (a # b # c # bs) + 2 = 3 + (length bs + 2)" by simp
  then have "(length (a # b # c # bs) + 2) div 3 = (length bs + 2) div 3 + 1" by (simp only: div_add_self1)
  with 4 show ?case by (simp only: b64_encode.simps) simp
qed simp_all

lemma b64_encode_chars: "\<forall>b \<in> set bs. b < 256 \<Longrightarrow> c \<in> set (b64_encode bs) \<Longrightarrow> 43 \<le> c \<and> c \<le> 122"
  by (induction bs rule: b64_encode.induct) (auto simp: b64_char_bounds)

lemma b64_decode_bytes: "b64_decode s = Inr bs \<Longrightarrow> b \<in> set bs \<Longrightarrow> b < 256"
  by (auto simp: b64_decode_def b64_room_def split: if_splits dest!: b64_go_bytes)

section \<open>The payload\<close>

definition ed25519_blob :: "bytes \<Rightarrow> bytes" where
  "ed25519_blob key = [0, 0, 0, 11] @ KEY_TYPE @ [0, 0, 0, 32] @ key"

lemma length_KEY_TYPE [simp]: "length KEY_TYPE = 11"
  by (simp add: KEY_TYPE_def lit_Cons)

lemma unpack_small:
  assumes "unpack_be32 (take 4 bs) = n" "4 \<le> length bs" "n < 256" "\<forall>b \<in> set bs. b < 256"
  shows "take 4 bs = [0, 0, 0, n]"
proof -
  from assms(2) obtain a b c d rest where "bs = a # b # c # d # rest"
    by (auto simp: numeral_eq_Suc Suc_le_length_iff)
  then show ?thesis using assms(1,3) by (auto simp: unpack_be32_def)
qed

lemma read_field_blob: "length field < 256 \<Longrightarrow> read_field (before @ [0, 0, 0, length field] @ field @ rest) (length before) =
    Inr (field, length before + 4 + length field)"
  by (simp add: read_field_def unpack_be32_def)

lemma read_field_back:
  assumes "read_field blob offset = Inr (field, ends)" "length field < 256" "\<forall>b \<in> set blob. b < 256"
  shows "drop offset blob = [0, 0, 0, length field] @ field @ drop ends blob" "offset \<le> ends"
proof -
  let ?len = "unpack_be32 (take 4 (drop offset blob))"
  from assms(1) have f: "offset + 4 + ?len \<le> length blob" "ends = offset + 4 + ?len" "field = take ?len (drop (offset + 4) blob)"
    by (auto simp: read_field_def Let_def split: if_splits)
  then have len: "?len = length field" by auto
  have "take 4 (drop offset blob) = [0, 0, 0, length field]"
    by (rule unpack_small [OF len _ assms(2)]) (use f assms(3) in \<open>auto dest: in_set_dropD\<close>)
  moreover have "drop (offset + 4) blob = field @ drop ends blob"
    using f(2,3) len by (metis append_take_drop_id drop_drop add.commute)
  ultimately show "drop offset blob = [0, 0, 0, length field] @ field @ drop ends blob"
    by (metis append_take_drop_id drop_drop add.commute)
  show "offset \<le> ends" using f(2) by simp
qed

lemma parse_blob_iff:
  assumes "\<forall>b \<in> set blob. b < 256"
  shows "parse_blob blob = Inr u \<longleftrightarrow> (\<exists>key. length key = 32 \<and> blob = ed25519_blob key)"
proof
  assume "parse_blob blob = Inr u"
  then obtain offset key where r: "read_field blob 0 = Inr (KEY_TYPE, offset)" "read_field blob offset = Inr (key, length blob)"
    and key: "length key = 32"
    by (auto simp: parse_blob_def bindR_Inr_iff)
  from read_field_back [OF r(1) _ assms] read_field_back [OF r(2) _ assms] key
  show "\<exists>key. length key = 32 \<and> blob = ed25519_blob key" by (auto simp: ed25519_blob_def)
next
  assume "\<exists>key. length key = 32 \<and> blob = ed25519_blob key"
  then obtain key where key: "length key = 32" "blob = ed25519_blob key" by blast
  have "read_field blob 0 = Inr (KEY_TYPE, 15)"
    using read_field_blob [of KEY_TYPE "[]" "[0, 0, 0, 32] @ key"] by (simp add: key ed25519_blob_def)
  moreover have "read_field blob 15 = Inr (key, 51)"
    using read_field_blob [of key "[0, 0, 0, 11] @ KEY_TYPE" "[]"] by (simp add: key ed25519_blob_def)
  ultimately show "parse_blob blob = Inr u" by (simp add: parse_blob_def key ed25519_blob_def)
qed

section \<open>The line\<close>

lemma splitlines_chars: "l \<in> set (py_splitlines s) \<Longrightarrow> c \<in> set l \<Longrightarrow> c \<in> set s"
proof -
  have "l \<in> set (splitlines_go cur s) \<Longrightarrow> c \<in> set l \<Longrightarrow> c \<in> set cur \<or> c \<in> set s" for cur
    by (induction cur s rule: splitlines_go.induct) (auto split: if_splits dest: list.set_sel(2) [rotated])
  from this [of "[]"] show "l \<in> set (py_splitlines s) \<Longrightarrow> c \<in> set l \<Longrightarrow> c \<in> set s"
    by (simp add: py_splitlines_def)
qed

lemma splitlines_one:
  assumes "\<forall>c \<in> set s. \<not> is_linebreak c" "s \<noteq> []"
  shows "py_splitlines s = [s]"
proof -
  have "\<forall>c \<in> set s. \<not> is_linebreak c \<Longrightarrow> cur \<noteq> [] \<or> s \<noteq> [] \<Longrightarrow> splitlines_go cur s = [rev cur @ s]" for cur s
  proof (induction s arbitrary: cur)
    case (Cons c s)
    then have "c \<noteq> 13" "\<not> is_linebreak c" by (auto simp: is_linebreak_def)
    with Cons show ?case by simp
  qed simp
  from this [OF assms(1), of "[]"] assms(2) show ?thesis by (simp add: py_splitlines_def)
qed

lemma py_split_suffix: "py_split n s = ws \<Longrightarrow> w \<in> set (drop n ws) \<Longrightarrow> w \<noteq> [] \<and> \<not> py_isspace (hd w) \<and> (\<exists>pre. s = pre @ w)"
proof (induction n arbitrary: s ws)
  case 0
  then have "w = dropWhile py_isspace s \<and> w \<noteq> []"
    by (cases "dropWhile py_isspace s") (auto simp: Let_def)
  then show ?case using hd_dropWhile [of py_isspace s] takeWhile_dropWhile_id [of py_isspace s] by metis
next
  case (Suc n)
  let ?rest = "dropWhile py_isspace s"
  have "ws \<noteq> []" using Suc.prems(2) by auto
  then have "tl ws = py_split n (dropWhile (\<lambda>c. \<not> py_isspace c) ?rest)"
    using Suc.prems(1) by (auto simp: Let_def split: if_splits)
  from Suc.IH [OF this [symmetric]] Suc.prems(2) obtain pre where
    "w \<noteq> [] \<and> \<not> py_isspace (hd w)" "dropWhile (\<lambda>c. \<not> py_isspace c) ?rest = pre @ w" by (auto simp: drop_Suc)
  then show ?case by (metis append_assoc takeWhile_dropWhile_id)
qed

text \<open>A comment that can stand at the end of the line.\<close>

definition tidy :: "pstr \<Rightarrow> bool" where
  "tidy comment \<longleftrightarrow> comment_ok comment \<and> (\<forall>c \<in> set comment. is_scalar c \<and> \<not> is_linebreak c) \<and>
     (comment \<noteq> [] \<longrightarrow> \<not> py_isspace (hd comment) \<and> \<not> py_isspace (last comment))"

lemma tidy_comment:
  assumes "utf8_encode content = Inr encoded" "line \<in> set (py_splitlines content)" "py_split 2 (py_strip line) = [a, b, c]" "comment_ok c"
  shows "tidy c"
proof -
  from py_split_suffix [OF assms(3), of c] obtain pre where
    c: "c \<noteq> []" "\<not> py_isspace (hd c)" "py_strip line = pre @ c" by auto
  have "py_strip line \<noteq> []" using c(1,3) by simp
  then have "\<not> py_isspace (last (py_strip line))"
    unfolding py_strip_def rstrip_by_def last_rev rev_is_Nil_conv by (rule hd_dropWhile)
  then have last: "\<not> py_isspace (last c)" using c(1,3) by simp
  have "set c \<subseteq> set (py_strip line)" using c(3) by simp
  then have "set c \<subseteq> set line"
    by (auto simp: py_strip_def rstrip_by_def lstrip_by_def dest!: set_dropWhileD subsetD)
  then have "is_scalar x \<and> \<not> is_linebreak x" if "x \<in> set c" for x
    using that assms(1) splitlines_chars [OF assms(2)] splitlines_no_break [OF assms(2)]
    by (auto simp: utf8_encode_def split: if_splits)
  with c last assms(4) show ?thesis by (simp add: tidy_def)
qed

lemma no_space_char: "33 \<le> c \<Longrightarrow> c \<le> 126 \<Longrightarrow> \<not> py_isspace c \<and> \<not> is_linebreak c \<and> is_scalar c"
  by (simp add: py_isspace_def is_linebreak_def is_scalar_def is_surrogate_def)

lemma py_split_word:
  assumes "w \<noteq> []" "\<forall>c \<in> set w. \<not> py_isspace c" "rest = [] \<or> py_isspace (hd rest)"
  shows "py_split (Suc n) (w @ rest) = w # py_split n rest"
proof -
  have "dropWhile py_isspace (w @ rest) = w @ rest" using assms(1,2) by (cases w) auto
  moreover have "takeWhile (\<lambda>c. \<not> py_isspace c) (w @ rest) = w" "dropWhile (\<lambda>c. \<not> py_isspace c) (w @ rest) = rest"
    using assms(2,3) by (cases rest; simp add: takeWhile_append2 dropWhile_append2)+
  ultimately show ?thesis using assms(1) by (simp add: Let_def)
qed

lemma ed25519_encoded:
  assumes "length key = 32" "\<forall>b \<in> set key. b < 256"
  shows "length (b64_encode (ed25519_blob key)) = 68"
    "\<forall>c \<in> set (b64_encode (ed25519_blob key)). 33 \<le> c \<and> c \<le> 126"
    "b64_decode (b64_encode (ed25519_blob key)) = Inr (ed25519_blob key)"
    "parse_blob (ed25519_blob key) = Inr ()"
proof -
  have bytes: "\<forall>b \<in> set (ed25519_blob key). b < 256"
    using assms(2) by (auto simp: ed25519_blob_def KEY_TYPE_def lit_Cons)
  show "length (b64_encode (ed25519_blob key)) = 68"
    using assms(1) by (simp add: length_b64_encode ed25519_blob_def)
  show "\<forall>c \<in> set (b64_encode (ed25519_blob key)). 33 \<le> c \<and> c \<le> 126"
    using b64_encode_chars [OF bytes] by fastforce
  show "b64_decode (b64_encode (ed25519_blob key)) = Inr (ed25519_blob key)"
    by (rule b64_decode_encode [OF bytes])
  show "parse_blob (ed25519_blob key) = Inr ()"
    using assms(1) by (auto simp: parse_blob_iff [OF bytes])
qed

lemma normal_line_text:
  assumes "length key = 32" "\<forall>b \<in> set key. b < 256" "tidy comment"
  defines "line \<equiv> normal_line (ed25519_blob key) comment"
  shows "\<forall>c \<in> set line. is_scalar c \<and> \<not> is_linebreak c" "py_strip line = line" "length line \<le> 209"
    "py_split 2 line = [KEY_TYPE, b64_encode (ed25519_blob key)] @ (if comment = [] then [] else [comment])"
proof -
  let ?b = "b64_encode (ed25519_blob key)"
  note b = ed25519_encoded [OF assms(1,2)]
  have line: "line = KEY_TYPE @ 32 # ?b @ (if comment = [] then [] else 32 # comment)"
    by (simp add: line_def normal_line_def KEY_TYPE_def lit_Cons)
  have key_type: "\<forall>c \<in> set KEY_TYPE. 33 \<le> c \<and> c \<le> 126" by (simp add: KEY_TYPE_def lit_Cons)
  have b_nonempty: "?b \<noteq> []" using b(1) by auto
  have blank: "is_scalar 32" "\<not> is_linebreak 32" "py_isspace 32"
    by (simp_all add: is_scalar_def is_surrogate_def is_linebreak_def py_isspace_def)
  show "\<forall>c \<in> set line. is_scalar c \<and> \<not> is_linebreak c"
    using key_type b(2) no_space_char blank assms(3) by (auto simp: line tidy_def)
  have "\<not> py_isspace (hd line)" by (simp add: line KEY_TYPE_def lit_Cons py_isspace_def)
  moreover have "\<not> py_isspace (last ?b)" using b(2) b_nonempty no_space_char last_in_set by metis
  ultimately show "py_strip line = line"
    unfolding py_strip_def using assms(3) b_nonempty by (intro strip_by_id) (simp add: line tidy_def)
  show "length line \<le> 209" using b(1) assms(3) by (simp add: line tidy_def comment_ok_def MAX_COMMENT_LENGTH_def)
  have "py_split 2 line = KEY_TYPE # py_split 1 (32 # ?b @ (if comment = [] then [] else 32 # comment))"
    unfolding line numeral_2_eq_2
    by (subst py_split_word) (use key_type no_space_char blank in \<open>auto simp: KEY_TYPE_def lit_Cons\<close>)
  also have "py_split 1 (32 # ?b @ (if comment = [] then [] else 32 # comment)) =
      py_split 1 (?b @ (if comment = [] then [] else 32 # comment))"
    using blank by (simp add: numeral_eq_Suc)
  also have "\<dots> = ?b # py_split 0 (if comment = [] then [] else 32 # comment)"
    unfolding One_nat_def by (rule py_split_word) (use b b_nonempty no_space_char blank in auto)
  also have "py_split 0 (if comment = [] then [] else 32 # comment) = (if comment = [] then [] else [comment])"
    using assms(3) blank by (cases comment) (auto simp: tidy_def)
  finally show "py_split 2 line = [KEY_TYPE, ?b] @ (if comment = [] then [] else [comment])" by simp
qed

lemma parse_normal_line:
  assumes "length key = 32" "\<forall>b \<in> set key. b < 256" "tidy comment"
  defines "blob \<equiv> ed25519_blob key"
  shows "parse_public_key sha (normal_line blob comment) =
    Inr \<lparr>normalized = normal_line blob comment, fingerprint = digest_text sha blob\<rparr>"
proof -
  let ?line = "normal_line blob comment"
  note t = normal_line_text [OF assms(1-3), folded blob_def] and b = ed25519_encoded [OF assms(1,2), folded blob_def]
  have "length (concat (map utf8_char s)) \<le> 4 * length s" for s
    using length_utf8_char by (induction s) (auto simp: add_mono)
  from this [of ?line] t(1,3) have enc: "\<exists>e. utf8_encode ?line = Inr e \<and> length e \<le> 1024" by (auto simp: utf8_encode_def)
  have "?line \<noteq> []" by (simp add: normal_line_def)
  with t(1) have lines: "py_splitlines ?line = [?line]" by (intro splitlines_one) auto
  have "comment_ok comment" using assms(3) by (simp add: tidy_def)
  with enc lines t(2,4) b(3,4) show ?thesis
    by (auto simp: parse_public_key_def MAX_INPUT_BYTES_def Let_def split: if_splits)
qed

lemma parse_public_keyD:
  assumes "parse_public_key sha content = Inr k"
  shows "\<exists>key comment. length key = 32 \<and> (\<forall>b \<in> set key. b < 256) \<and> tidy comment \<and>
    k = \<lparr>normalized = normal_line (ed25519_blob key) comment, fingerprint = digest_text sha (ed25519_blob key)\<rparr>"
proof -
  from assms obtain encoded where enc: "utf8_encode content = Inr encoded" by (auto simp: parse_public_key_def bindR_Inr_iff)
  define fields where "fields = py_split 2 (py_strip (py_splitlines content ! 0))"
  define comment where "comment = (if length fields = 3 then fields ! 2 else [])"
  from assms obtain blob where p: "length (py_splitlines content) = 1" "length fields = 2 \<or> length fields = 3"
    "b64_decode (fields ! 1) = Inr blob" "parse_blob blob = Inr ()" "comment_ok comment"
    "k = \<lparr>normalized = normal_line blob comment, fingerprint = digest_text sha blob\<rparr>"
    by (simp add: parse_public_key_def Let_def fields_def [symmetric] comment_def [symmetric] cong: if_cong)
      (auto simp: bindR_Inr_iff simp del: One_nat_def split: if_split_asm)
  have bytes: "\<forall>b \<in> set blob. b < 256" using b64_decode_bytes [OF p(3)] by blast
  from p(4) obtain key where key: "length key = 32" "blob = ed25519_blob key" by (auto simp: parse_blob_iff [OF bytes])
  have "tidy comment"
  proof (cases "length fields = 3")
    case True
    then obtain a b where "fields = [a, b, comment]" by (auto simp: comment_def numeral_3_eq_3 length_Suc_conv)
    with p(1,5) show ?thesis by (intro tidy_comment [OF enc]) (auto simp: fields_def)
  qed (simp add: comment_def tidy_def comment_ok_def)
  with key bytes p(6) show ?thesis by (auto simp: ed25519_blob_def)
qed

section \<open>The properties\<close>

definition SAMPLE_KEY :: bytes where "SAMPLE_KEY = [0..<32]"

definition SAMPLE_LINE :: pstr where
  "SAMPLE_LINE = lit ''ssh-ed25519   '' @ b64_encode (ed25519_blob SAMPLE_KEY) @ lit ''  a  b'' @ [13, 10]"

lemma sample_line: "parse_public_key (\<lambda>_. []) SAMPLE_LINE =
    Inr \<lparr>normalized = normal_line (ed25519_blob SAMPLE_KEY) (lit ''a  b''), fingerprint = lit ''SHA256:''\<rparr>"
proof -
  have key: "length SAMPLE_KEY = 32" "\<forall>b \<in> set SAMPLE_KEY. b < 256" by (auto simp: SAMPLE_KEY_def)
  have b64: "b64_encode (ed25519_blob SAMPLE_KEY) =
      lit ''AAAAC3NzaC1lZDI1NTE5AAAAIAABAgMEBQYHCAkKCwwNDg8QERITFBUWFxgZGhscHR4f''"
    by (simp add: ed25519_blob_def SAMPLE_KEY_def KEY_TYPE_def lit_Cons upt_rec b64_char_def)
  let ?line = "lit ''ssh-ed25519   AAAAC3NzaC1lZDI1NTE5AAAAIAABAgMEBQYHCAkKCwwNDg8QERITFBUWFxgZGhscHR4f  a  b''"
  have content: "SAMPLE_LINE = ?line @ [13, 10]" unfolding SAMPLE_LINE_def b64 by (simp add: lit_Cons)
  have "utf8_encode SAMPLE_LINE = Inr SAMPLE_LINE"
    unfolding content by (rule utf8_encode_ascii) (simp add: lit_Cons)
  moreover have "length SAMPLE_LINE = 90" by (simp add: content lit_Cons)
  moreover have "py_splitlines SAMPLE_LINE = [?line]"
    by (simp add: content lit_Cons py_splitlines_def is_linebreak_def)
  moreover have "py_strip ?line = ?line"
    unfolding py_strip_def by (rule strip_by_id) (simp add: lit_Cons py_isspace_def)
  moreover have "py_split 2 ?line =
      [KEY_TYPE, lit ''AAAAC3NzaC1lZDI1NTE5AAAAIAABAgMEBQYHCAkKCwwNDg8QERITFBUWFxgZGhscHR4f'', lit ''a  b'']"
    by (simp add: numeral_2_eq_2 lit_Cons py_isspace_def KEY_TYPE_def)
  ultimately show ?thesis
    using ed25519_encoded(3,4) [OF key]
    by (simp add: parse_public_key_def MAX_INPUT_BYTES_def Let_def b64 comment_ok_def MAX_COMMENT_LENGTH_def
        digest_text_def rstrip_by_def)
      (simp add: lit_Cons)
qed

lemma parse_normal_form: "parse_public_key sha content = Inr k \<Longrightarrow> parse_public_key sha (normalized k) = Inr k"
  using parse_public_keyD [of sha content k] parse_normal_line [of _ _ sha] by auto

text \<open>C36: What is accepted is one key and nothing else: the normal form is the key type, the base64 of a payload
with exactly 32 bytes of key, and a comment of at most 128 characters that has no control character, no line break and
no white space around it, so that no second line or option can reach the file of authorized keys; every
such line is accepted. The normal form is a fixed point: validating it yields the same line and the
same fingerprint, so that a key may be normalised on the way in and again when the image is built.\<close>

theorem key_normal_form:
  "((\<exists>content. parse_public_key sha content = Inr k) \<longleftrightarrow>
     (\<exists>key comment. length key = 32 \<and> (\<forall>b \<in> set key. b < 256) \<and>
        length comment \<le> 128 \<and> (\<forall>c \<in> set comment. 32 \<le> c \<and> c \<noteq> 127 \<and> is_scalar c \<and> \<not> is_linebreak c) \<and>
        (comment = [] \<or> \<not> py_isspace (hd comment) \<and> \<not> py_isspace (last comment)) \<and>
        k = \<lparr>normalized = normal_line (ed25519_blob key) comment, fingerprint = digest_text sha (ed25519_blob key)\<rparr>)) \<and>
   (\<forall>content. parse_public_key sha content = Inr k \<longrightarrow> parse_public_key sha (normalized k) = Inr k)"
    (is "?shape \<and> ?fixed")
proof
  have "tidy comment \<longleftrightarrow> length comment \<le> 128 \<and> (\<forall>c \<in> set comment. 32 \<le> c \<and> c \<noteq> 127 \<and> is_scalar c \<and> \<not> is_linebreak c) \<and>
      (comment = [] \<or> \<not> py_isspace (hd comment) \<and> \<not> py_isspace (last comment))" for comment
    by (auto simp: tidy_def comment_ok_def MAX_COMMENT_LENGTH_def)
  moreover have "(\<exists>content. parse_public_key sha content = Inr k) \<longleftrightarrow>
     (\<exists>key comment. length key = 32 \<and> (\<forall>b \<in> set key. b < 256) \<and> tidy comment \<and>
        k = \<lparr>normalized = normal_line (ed25519_blob key) comment, fingerprint = digest_text sha (ed25519_blob key)\<rparr>)"
    using parse_public_keyD [of sha _ k] parse_normal_line [of _ _ sha] by blast
  ultimately show ?shape by (simp only: conj_assoc)
  show ?fixed using parse_normal_form by blast
qed

theorem key_normal_form_witness:
  "parse_public_key (\<lambda>_. []) (normal_line (ed25519_blob SAMPLE_KEY) (lit ''a  b'')) = parse_public_key (\<lambda>_. []) SAMPLE_LINE"
  using key_normal_form [of "\<lambda>_. []" "\<lparr>normalized = normal_line (ed25519_blob SAMPLE_KEY) (lit ''a  b''), fingerprint = lit ''SHA256:''\<rparr>"]
    sample_line by auto

end
