(* ===== verification/Detector.thy ===== *)
theory Detector
  imports Prelude Complex_Main "HOL-Library.Product_Lexorder"
begin

text \<open>
  The decoder of the detector's output that qualifies the selected model, \<^verbatim>\<open>qualification/m2b2b/compare_decoder.py\<close>:
  boxes and scores from the three scales, and the selection of the best 300 pairs of a location and a
  class in two stages. The arithmetic of numpy is a parameter; an array of shape (n, 4) or (n, 2) is a list of tuples.
\<close>

section \<open>Decoding\<close>

record 'f numpy =
  np_of_half :: "nat \<Rightarrow> 'f"
  np_sub :: "'f \<Rightarrow> 'f \<Rightarrow> 'f"
  np_add :: "'f \<Rightarrow> 'f \<Rightarrow> 'f"
  np_times :: "'f \<Rightarrow> nat \<Rightarrow> 'f"
  np_sigmoid :: "'f \<Rightarrow> rat"

text \<open>\<open>np_of_half n\<close> is \<open>n + 0.5\<close>. The scores are the rationals that the floating-point numbers denote; none is a NaN.\<close>

type_synonym 'f box = "'f \<times> 'f \<times> 'f \<times> 'f"
type_synonym scores = "(rat \<times> rat) list"

text \<open>Stride and size of a scale.\<close>

definition SCALES :: "(nat \<times> nat) list" where
  "SCALES = [(8, 120), (16, 60), (32, 30)]"

definition decode_box :: "('f, 'x) numpy_scheme \<Rightarrow> nat \<Rightarrow> nat \<Rightarrow> nat \<Rightarrow> 'f box \<Rightarrow> 'f box" where
  "decode_box N stride x y reg =
     (case reg of (l, t, r, b) \<Rightarrow>
        (np_times N (np_sub N (np_of_half N x) l) stride, np_times N (np_sub N (np_of_half N y) t) stride,
         np_times N (np_add N (np_of_half N x) r) stride, np_times N (np_add N (np_of_half N y) b) stride))"

text \<open>
  The head of a scale is an array, a list of rows of one length. Subtracting it from the anchors, \<open>side\<close> rows of \<open>side\<close>
  columns where no side of \<open>SCALES\<close> is 1, repeats an axis of length 1 and refuses every other length.
\<close>

definition broadcasts :: "nat \<Rightarrow> 'a list list \<Rightarrow> bool" where
  "broadcasts side head \<longleftrightarrow>
     (length head = 1 \<or> length head = side) \<and>
     ((\<forall>row \<in> set head. length row = 1) \<or> (\<forall>row \<in> set head. length row = side))"

definition at_cell :: "'a list list \<Rightarrow> nat \<Rightarrow> nat \<Rightarrow> 'a" where
  "at_cell head y x =
     (let row = head ! (if length head = 1 then 0 else y) in row ! (if length row = 1 then 0 else x))"

definition scale_boxes :: "('f, 'x) numpy_scheme \<Rightarrow> nat \<Rightarrow> nat \<Rightarrow> 'f box list list \<Rightarrow> exn + 'f box list" where
  "scale_boxes N stride side reg =
     bindR (guardR (broadcasts side reg) (ValueError (lit ''operands could not be broadcast together''))) (\<lambda>_.
     Inr (concat (map (\<lambda>y. map (\<lambda>x. decode_box N stride x y (at_cell reg y x)) [0..<side]) [0..<side])))"

text \<open>A head of scores is only flattened, whatever its shape.\<close>

definition scale_scores :: "('f, 'x) numpy_scheme \<Rightarrow> ('f \<times> 'f) list list \<Rightarrow> scores" where
  "scale_scores N cls = concat (map (map (\<lambda>(a, b). (np_sigmoid N a, np_sigmoid N b))) cls)"

fun decode_scales ::
  "('f, 'x) numpy_scheme \<Rightarrow> (nat \<times> nat) list \<Rightarrow> 'f box list list list \<Rightarrow> ('f \<times> 'f) list list list \<Rightarrow>
   exn + 'f box list \<times> scores" where
  "decode_scales N ((stride, side) # scales) (reg # regression) (cls # logits) =
     bindR (scale_boxes N stride side reg) (\<lambda>box.
     bindR (decode_scales N scales regression logits) (\<lambda>(boxes, scores).
     Inr (box @ boxes, scale_scores N cls @ scores)))"
| "decode_scales N _ _ _ = Inr ([], [])"

text \<open>As many scales as there are heads of both kinds; of no array \<^verbatim>\<open>np.concatenate\<close> makes none.\<close>

definition decode ::
  "('f, 'x) numpy_scheme \<Rightarrow> 'f box list list list \<Rightarrow> ('f \<times> 'f) list list list \<Rightarrow> exn + 'f box list \<times> scores" where
  "decode N regression logits =
     bindR (decode_scales N SCALES regression logits) (\<lambda>arrays.
     if regression = [] \<or> logits = [] then Inl (ValueError (lit ''need at least one array to concatenate'')) else Inr arrays)"

section \<open>Selection\<close>

definition class_score :: "scores \<Rightarrow> nat \<Rightarrow> nat \<Rightarrow> rat" where
  "class_score scores location class_id =
     (if class_id = 0 then fst (scores ! location) else snd (scores ! location))"

definition best_score :: "scores \<Rightarrow> nat \<Rightarrow> rat" where
  "best_score scores location = max (fst (scores ! location)) (snd (scores ! location))"

text \<open>\<^verbatim>\<open>np.lexsort\<close>: the last key counts first.\<close>

definition location_order :: "nat \<Rightarrow> scores \<Rightarrow> nat list" where
  "location_order k scores =
     take k (sort_key (\<lambda>location. (- best_score scores location, location)) [0..<length scores])"

definition class_pairs :: "scores \<Rightarrow> nat list \<Rightarrow> (rat \<times> nat \<times> nat) list" where
  "class_pairs scores locations =
     concat (map (\<lambda>location. map (\<lambda>class_id. (class_score scores location class_id, location, class_id)) [0..<2]) locations)"

definition top_pairs :: "nat \<Rightarrow> (rat \<times> nat \<times> nat) list \<Rightarrow> (rat \<times> nat \<times> nat) list" where
  "top_pairs k pairs = take k (sort_key (\<lambda>(score, location, class_id). (- score, location, class_id)) pairs)"

definition two_stage_top300 :: "'f box list \<Rightarrow> scores \<Rightarrow> ('f box \<times> rat \<times> nat) list \<times> (nat \<times> nat) list" where
  "two_stage_top300 boxes scores =
     (let selected = top_pairs 300 (class_pairs scores (location_order 300 scores))
      in (map (\<lambda>(score, location, class_id). (boxes ! location, score, class_id)) selected,
          map (\<lambda>(_, location, class_id). (location, class_id)) selected))"

section \<open>The smallest elements\<close>

lemma sort_key_unique:
  assumes "sorted (map f xs)" "distinct xs" "distinct ys" "set xs = set ys" "inj_on f (set xs)"
  shows "xs = sort_key f ys"
  by (rule map_sorted_distinct_set_unique [of f]) (use assms in \<open>auto simp: distinct_map\<close>)

lemma take_smaller:
  assumes "inj_on f (set xs)" "distinct xs" "x \<in> set (take n (sort_key f xs))"
  shows "card {y \<in> set xs. f y < f x} < n"
proof -
  let ?s = "sort_key f xs"
  from assms(3) obtain i where i: "i < n" "i < length ?s" "x = ?s ! i" by (auto simp: in_set_conv_nth)
  have "{y \<in> set xs. f y < f x} \<subseteq> set (take i ?s)"
  proof
    fix y assume "y \<in> {y \<in> set xs. f y < f x}"
    then have "y \<in> set ?s" "f y < f x" by simp_all
    then obtain j where j: "j < length ?s" "y = ?s ! j" "f y < f x" by (auto simp only: in_set_conv_nth)
    have "\<not> i \<le> j" using sorted_nth_mono [OF sorted_sort_key [of f xs], of i j] i j by auto
    then have "j < length (take i ?s)" "take i ?s ! j = y" using j i by simp_all
    then show "y \<in> set (take i ?s)" by (metis nth_mem)
  qed
  then have "card {y \<in> set xs. f y < f x} \<le> length (take i ?s)"
    by (meson card_length card_mono finite_set le_trans)
  with i show ?thesis by simp
qed

lemma not_take_larger:
  assumes "inj_on f (set xs)" "x \<in> set xs" "x \<notin> set (take n (sort_key f xs))" "y \<in> set (take n (sort_key f xs))"
  shows "f y < f x"
proof -
  let ?s = "sort_key f xs"
  from assms(2,3) have "x \<in> set (drop n ?s)" by (metis Un_iff append_take_drop_id set_append set_sort)
  moreover have "\<forall>a \<in> set (take n ?s). \<forall>b \<in> set (drop n ?s). f a \<le> f b"
    using sorted_append [of "map f (take n ?s)" "map f (drop n ?s)"] sorted_sort_key [of f xs]
    by (metis append_take_drop_id image_eqI list.set_map map_append)
  ultimately have "f y \<le> f x" using assms(4) by blast
  moreover have "f y \<noteq> f x" using assms by (metis inj_on_eq_iff in_set_takeD set_sort)
  ultimately show "f y < f x" by simp
qed

lemma not_take_full: "x \<in> set xs \<Longrightarrow> x \<notin> set (take n (sort_key f xs)) \<Longrightarrow> length (take n (sort_key f xs)) = n"
  by (cases "n \<le> length xs") simp_all

lemma take_sort_subset:
  assumes "inj_on f (set xs)" "distinct xs" "distinct ys" "set ys \<subseteq> set xs" "set (take n (sort_key f xs)) \<subseteq> set ys"
  shows "take n (sort_key f ys) = take n (sort_key f xs)"
proof -
  let ?s = "sort_key f xs" and ?a = "take n (sort_key f xs)"
  let ?r = "filter (\<lambda>y. y \<in> set ys) (drop n ?s)"
  have parts: "filter (\<lambda>y. y \<in> set ys) ?s = ?a @ ?r"
  proof -
    have "filter (\<lambda>y. y \<in> set ys) (?a @ drop n ?s) = ?a @ ?r"
      unfolding filter_append using assms(5) by (simp add: filter_id_conv subset_iff)
    then show ?thesis unfolding append_take_drop_id .
  qed
  have "filter (\<lambda>y. y \<in> set ys) ?s = sort_key f ys"
  proof (rule sort_key_unique)
    show "sorted (map f (filter (\<lambda>y. y \<in> set ys) ?s))" by (rule sorted_filter) simp
    show "distinct (filter (\<lambda>y. y \<in> set ys) ?s)" using assms(2) by simp
    show "set (filter (\<lambda>y. y \<in> set ys) ?s) = set ys" using assms(4) by auto
    show "inj_on f (set (filter (\<lambda>y. y \<in> set ys) ?s))" using assms(1) by (auto intro: inj_on_subset)
  qed (rule assms(3))
  then have "sort_key f ys = ?a @ ?r" by (simp add: parts)
  moreover have "length ?a = n \<or> ?r = []" by (cases "n \<le> length xs") auto
  ultimately show ?thesis by (elim disjE) (simp_all add: take_take)
qed

section \<open>The pairs\<close>

lemma class_pairs_set:
  "p \<in> set (class_pairs scores ls) \<longleftrightarrow> (\<exists>l \<in> set ls. \<exists>c < 2. p = (class_score scores l c, l, c))"
  by (auto simp: class_pairs_def image_iff Bex_def)

lemma class_pairs_distinct: "distinct ls \<Longrightarrow> distinct (class_pairs scores ls)"
  by (induction ls) (auto simp: class_pairs_def numeral_2_eq_2)

lemma best_attained: "\<exists>c < 2. class_score scores l c = best_score scores l"
proof (cases "fst (scores ! l) \<le> snd (scores ! l)")
  case True
  then show ?thesis by (intro exI [of _ 1]) (simp add: class_score_def best_score_def)
next
  case False
  then show ?thesis by (intro exI [of _ 0]) (simp add: class_score_def best_score_def)
qed

lemma best_bound: "class_score scores l c \<le> best_score scores l"
  by (simp add: class_score_def best_score_def)

lemma top_pairs_two_stage:
  "top_pairs k (class_pairs scores (location_order k scores)) = top_pairs k (class_pairs scores [0..<length scores])"
proof -
  let ?key = "\<lambda>(score, location, class_id). (- score :: rat, location :: nat, class_id :: nat)"
  let ?g = "\<lambda>location. (- best_score scores location, location)"
  let ?all = "class_pairs scores [0..<length scores]" and ?order = "location_order k scores"
  have inj: "inj_on ?key A" for A by (auto simp: inj_on_def)
  have g: "inj_on ?g A" for A by (auto simp: inj_on_def)
  have order: "distinct ?order" "set ?order \<subseteq> set [0..<length scores]"
    using set_take_subset [of k "sort_key ?g [0..<length scores]"] by (auto simp: location_order_def)
  have "l \<in> set ?order" if p: "(s, l, c) \<in> set (take k (sort_key ?key ?all))" for s l c
  proof (rule ccontr)
    assume l: "l \<notin> set ?order"
    from p have "(s, l, c) \<in> set ?all" by (metis in_set_takeD set_sort)
    then have here: "l < length scores" "s \<le> best_score scores l" using best_bound by (auto simp: class_pairs_set)
    note larger = not_take_larger [OF g, of l "[0..<length scores]" k, folded location_order_def]
    define best where "best l' = (best_score scores l', l', SOME c. c < 2 \<and> class_score scores l' c = best_score scores l')" for l'
    have "best ` set ?order \<subseteq> {q \<in> set ?all. ?key q < ?key (s, l, c)}"
    proof
      fix q assume "q \<in> best ` set ?order"
      then obtain l' where l': "l' \<in> set ?order" "q = best l'" by blast
      have "(SOME c. c < 2 \<and> class_score scores l' c = best_score scores l') < 2 \<and>
          class_score scores l' (SOME c. c < 2 \<and> class_score scores l' c = best_score scores l') = best_score scores l'"
        using best_attained [of scores l'] by (rule someI_ex)
      then have "q \<in> set ?all" using l' order(2) by (auto simp: best_def class_pairs_set)
      moreover from larger [OF _ l l'(1)] here have "?g l' < ?g l" by simp
      then have "?key q < ?key (s, l, c)" using here(2) by (auto simp: l'(2) best_def less_prod_def)
      ultimately show "q \<in> {q \<in> set ?all. ?key q < ?key (s, l, c)}" by blast
    qed
    then have "card (best ` set ?order) \<le> card {q \<in> set ?all. ?key q < ?key (s, l, c)}" by (rule card_mono [rotated]) simp
    moreover have "card (best ` set ?order) = card (set ?order)" by (rule card_image) (simp add: inj_on_def best_def)
    moreover have "card (set ?order) = k" using not_take_full [of l "[0..<length scores]" k ?g, folded location_order_def] here(1) distinct_card [OF order(1)] l by simp
    moreover have "card {q \<in> set ?all. ?key q < ?key (s, l, c)} < k"
      by (rule take_smaller [OF inj class_pairs_distinct p]) simp
    ultimately show False by simp
  qed
  then have "set (take k (sort_key ?key ?all)) \<subseteq> set (class_pairs scores ?order)"
    by (fastforce simp: class_pairs_set dest: in_set_takeD)
  then show ?thesis
    unfolding top_pairs_def using order
    by (intro take_sort_subset [OF inj]) (auto simp: class_pairs_distinct class_pairs_set)
qed

text \<open>C35: The selection in two stages, first the 300 locations whose better class scores highest and then the 300 best pairs at
these, is the selection of the 300 best of all pairs of a location and a class, with the same order
among equal scores.\<close>

theorem two_stage_exact:
  "two_stage_top300 boxes scores =
     (let selected = top_pairs 300 (class_pairs scores [0..<length scores])
      in (map (\<lambda>(score, location, class_id). (boxes ! location, score, class_id)) selected,
          map (\<lambda>(_, location, class_id). (location, class_id)) selected))"
  by (simp add: two_stage_top300_def top_pairs_two_stage)

section \<open>The place of a cell\<close>

lemma concat_rows:
  "\<forall>row \<in> set rows. length row = n \<Longrightarrow> y < length rows \<Longrightarrow> x < n \<Longrightarrow> concat rows ! (y * n + x) = rows ! y ! x"
proof (induction rows arbitrary: y)
  case (Cons row rows)
  then show ?case by (cases y) (simp_all add: nth_append)
qed simp

lemma length_rows: "\<forall>row \<in> set rows. length row = n \<Longrightarrow> length (concat rows) = length rows * n"
  by (induction rows) auto

text \<open>The shape of a head of a side.\<close>

definition shaped :: "nat \<Rightarrow> 'a list list \<Rightarrow> bool" where
  "shaped side head \<longleftrightarrow> length head = side \<and> (\<forall>row \<in> set head. length row = side)"

lemma scale_boxes_shaped:
  assumes "shaped side reg"
  shows "\<exists>box. scale_boxes N stride side reg = Inr box \<and> length box = side * side \<and>
    (\<forall>y < side. \<forall>x < side. box ! (y * side + x) = decode_box N stride x y (reg ! y ! x))"
proof -
  let ?rows = "map (\<lambda>y. map (\<lambda>x. decode_box N stride x y (at_cell reg y x)) [0..<side]) [0..<side]"
  have cell: "at_cell reg y x = reg ! y ! x" if "y < side" "x < side" for y x
  proof -
    have "length (reg ! y) = side" using assms that(1) by (auto simp: shaped_def)
    with assms that show ?thesis by (auto simp: at_cell_def shaped_def Let_def)
  qed
  have "scale_boxes N stride side reg = Inr (concat ?rows)"
    using assms by (auto simp: scale_boxes_def broadcasts_def shaped_def)
  moreover have "length (concat ?rows) = side * side" by (subst length_rows) auto
  moreover have "concat ?rows ! (y * side + x) = decode_box N stride x y (reg ! y ! x)" if "y < side" "x < side" for y x
    using that cell by (subst concat_rows) auto
  ultimately show ?thesis by blast
qed

lemma scale_scores_at:
  assumes "shaped side cls" "y < side" "x < side"
  shows "scale_scores N cls ! (y * side + x) = map_prod (np_sigmoid N) (np_sigmoid N) (cls ! y ! x)"
  unfolding scale_scores_def using assms
  by (subst concat_rows) (auto simp: shaped_def map_prod_def)

lemma length_scale_scores: "shaped side cls \<Longrightarrow> length (scale_scores N cls) = side * side"
  unfolding scale_scores_def by (subst length_rows) (auto simp: shaped_def)

definition scale_base :: "nat \<Rightarrow> nat" where
  "scale_base k = sum_list (map (\<lambda>(_, side). side * side) (take k SCALES))"

definition misshapen :: "nat \<Rightarrow> 'a list list \<Rightarrow> bool" where
  "misshapen side head \<longleftrightarrow> length head \<notin> {1, side} \<or> (\<exists>row \<in> set head. length row \<notin> {1, side})"

lemma decode_scales_refuses:
  assumes "i < length scales" "i < length heads" "i < length cls" "misshapen (snd (scales ! i)) (heads ! i)"
  shows "\<exists>message. decode_scales N scales heads cls = Inl (ValueError message)"
  using assms
proof (induction i arbitrary: scales heads cls)
  case 0
  then obtain stride side scales' reg heads' c cls' where eq: "scales = (stride, side) # scales'" "heads = reg # heads'" "cls = c # cls'"
    by (cases scales; cases heads; cases cls) auto
  with 0(4) have "\<not> broadcasts side reg" by (auto simp: broadcasts_def misshapen_def)
  then show ?case by (simp add: eq scale_boxes_def)
next
  case (Suc i)
  then obtain stride side scales' reg heads' c cls' where eq: "scales = (stride, side) # scales'" "heads = reg # heads'" "cls = c # cls'"
    by (cases scales; cases heads; cases cls) auto
  obtain message where "decode_scales N scales' heads' cls' = Inl (ValueError message)"
    using Suc.IH [of scales' heads' cls'] Suc.prems by (auto simp: eq)
  then show ?case by (simp add: eq scale_boxes_def)
qed

lemma decode_refuses:
  assumes "heads = [] \<or> cls = [] \<or> (\<exists>i < 3. i < length heads \<and> i < length cls \<and> misshapen (snd (SCALES ! i)) (heads ! i))"
  shows "\<exists>message. decode N heads cls = Inl (ValueError message)"
proof (cases "heads = [] \<or> cls = []")
  case True
  then show ?thesis by (auto simp: decode_def SCALES_def)
next
  case False
  with assms obtain i where "i < 3" "i < length heads" "i < length cls" "misshapen (snd (SCALES ! i)) (heads ! i)" by blast
  with decode_scales_refuses [of i SCALES heads cls N] obtain message where "decode_scales N SCALES heads cls = Inl (ValueError message)"
    by (auto simp: SCALES_def)
  then show ?thesis by (simp add: decode_def)
qed


definition rationals :: "rat numpy" where
  "rationals = \<lparr>np_of_half = (\<lambda>n. of_nat n + 1 / 2), np_sub = (-), np_add = (+), np_times = (\<lambda>a n. a * of_nat n),
     np_sigmoid = (\<lambda>a. a)\<rparr>"


end
