(* ===== verification/Unit_Files.thy ===== *)
theory Unit_Files
  imports PyText
begin

text \<open>
  How \<^verbatim>\<open>scripts/verify_rave_image.py\<close> reads unit files: the directives of a section, the effective value of a directive
  over several files, and the shell words of a value.
\<close>

section \<open>Shell words\<close>

text \<open>
  The POSIX tokenizer of \<^verbatim>\<open>shlex.split\<close>: between words, in a word, in quotes, and after a backslash, which
  leads back into a word or into quotes.
\<close>

datatype shlex_state = Between | Word | Quote nat | Escape "nat option"

definition shlex_space :: "nat \<Rightarrow> bool" where
  "shlex_space c \<longleftrightarrow> c = 32 \<or> c = 9 \<or> c = 13 \<or> c = 10"

definition shlex_quote :: "nat \<Rightarrow> bool" where
  "shlex_quote c \<longleftrightarrow> c = 39 \<or> c = 34"

text \<open>The token is kept backwards; \<open>quoted\<close> says that a quote has been seen in it.\<close>

fun shlex_go :: "shlex_state \<Rightarrow> pstr \<Rightarrow> bool \<Rightarrow> pstr \<Rightarrow> exn + pstr list" where
  "shlex_go Between token quoted [] = Inr []"
| "shlex_go Between token quoted (c # cs) =
     (if shlex_space c then shlex_go Between [] False cs
      else if c = 92 then shlex_go (Escape None) [] False cs
      else if shlex_quote c then shlex_go (Quote c) [] False cs
      else shlex_go Word [c] False cs)"
| "shlex_go Word token quoted [] = Inr (if token \<noteq> [] \<or> quoted then [rev token] else [])"
| "shlex_go Word token quoted (c # cs) =
     (if shlex_space c then
        if token \<noteq> [] \<or> quoted then bindR (shlex_go Between [] False cs) (\<lambda>words. Inr (rev token # words))
        else shlex_go Between [] False cs
      else if shlex_quote c then shlex_go (Quote c) token quoted cs
      else if c = 92 then shlex_go (Escape None) token quoted cs
      else shlex_go Word (c # token) quoted cs)"
| "shlex_go (Quote q) token quoted [] = Inl (ValueError (lit ''No closing quotation''))"
| "shlex_go (Quote q) token quoted (c # cs) =
     (if c = q then shlex_go Word token True cs
      else if c = 92 \<and> q = 34 then shlex_go (Escape (Some q)) token True cs
      else shlex_go (Quote q) (c # token) True cs)"
| "shlex_go (Escape from) token quoted [] = Inl (ValueError (lit ''No escaped character''))"
| "shlex_go (Escape None) token quoted (c # cs) = shlex_go Word (c # token) quoted cs"
| "shlex_go (Escape (Some q)) token quoted (c # cs) =
     shlex_go (Quote q) (c # (if c \<noteq> 92 \<and> c \<noteq> q then 92 # token else token)) quoted cs"

definition shlex_split :: "pstr \<Rightarrow> exn + pstr list" where
  "shlex_split s = shlex_go Between [] False s"

section \<open>Directives\<close>

text \<open>\<^verbatim>\<open>VerificationError\<close> is a \<^verbatim>\<open>RuntimeError\<close>. What is interpolated into a message is left out.\<close>

definition verification_error :: "string \<Rightarrow> exn" where
  "verification_error m = RuntimeError (lit m)"

definition require_that :: "bool \<Rightarrow> string \<Rightarrow> exn + unit" where
  "require_that condition m = guardR condition (verification_error m)"

text \<open>The logical line so far is empty where no line is being continued.\<close>

fun directives_go :: "pstr \<Rightarrow> pstr \<Rightarrow> pstr \<Rightarrow> pstr \<Rightarrow> pstr list \<Rightarrow> exn + pstr list" where
  "directives_go section key current logical [] =
     bindR (require_that (logical = []) ''unterminated systemd continuation'') (\<lambda>_. Inr [])"
| "directives_go section key current logical (raw # raws) =
     (let line = (if logical \<noteq> [] then logical @ lstrip_by py_isspace raw else raw);
          kept = rstrip_by py_isspace line
      in if kept \<noteq> [] \<and> last kept = 92 then directives_go section key current (butlast kept @ [32]) raws
         else
           let stripped = py_strip line
           in if stripped = [] \<or> hd stripped = 35 \<or> hd stripped = 59 then directives_go section key current [] raws
              else if hd stripped = 91 \<and> last stripped = 93
              then directives_go section key (butlast (tl stripped)) [] raws
              else if current \<noteq> section \<or> 61 \<notin> set stripped then directives_go section key current [] raws
              else
                case py_partition 61 stripped of (directive, _, v) \<Rightarrow>
                  bindR (directives_go section key current [] raws) (\<lambda>vs.
                    Inr (if py_strip directive = key then py_strip v # vs else vs)))"

definition systemd_directives :: "pstr \<Rightarrow> pstr \<Rightarrow> pstr \<Rightarrow> exn + pstr list" where
  "systemd_directives s section key = directives_go section key [] [] (py_splitlines s)"

text \<open>The directives of several files, one after the other.\<close>

fun all_directives :: "pstr list \<Rightarrow> pstr \<Rightarrow> pstr \<Rightarrow> exn + pstr list" where
  "all_directives [] section key = Inr []"
| "all_directives (s # ss) section key =
     bindR (systemd_directives s section key) (\<lambda>vs. bindR (all_directives ss section key) (\<lambda>rest. Inr (vs @ rest)))"

text \<open>An empty value takes back what came before it.\<close>

fun effective_go :: "pstr list \<Rightarrow> pstr list \<Rightarrow> pstr list" where
  "effective_go kept [] = kept"
| "effective_go kept (v # vs) = effective_go (if v \<noteq> [] then kept @ [v] else []) vs"

definition effective_systemd_list :: "pstr list \<Rightarrow> pstr \<Rightarrow> pstr \<Rightarrow> exn + pstr list" where
  "effective_systemd_list texts section key =
     bindR (all_directives texts section key) (\<lambda>vs. Inr (effective_go [] vs))"

fun words_go :: "pstr list \<Rightarrow> pstr list \<Rightarrow> exn + pstr list" where
  "words_go kept [] = Inr kept"
| "words_go kept (v # vs) =
     (if v = [] then words_go [] vs else bindR (shlex_split v) (\<lambda>ws. words_go (kept @ ws) vs))"

fun effective_words_go :: "pstr list \<Rightarrow> pstr list \<Rightarrow> pstr \<Rightarrow> pstr \<Rightarrow> exn + pstr list" where
  "effective_words_go kept [] section key = Inr kept"
| "effective_words_go kept (s # ss) section key =
     bindR (systemd_directives s section key) (\<lambda>vs.
     bindR (words_go kept vs) (\<lambda>kept. effective_words_go kept ss section key))"

definition effective_systemd_words :: "pstr list \<Rightarrow> pstr \<Rightarrow> pstr \<Rightarrow> exn + pstr list" where
  "effective_systemd_words texts section key = effective_words_go [] texts section key"

definition effective_systemd_scalar :: "pstr list \<Rightarrow> pstr \<Rightarrow> pstr \<Rightarrow> exn + pstr option" where
  "effective_systemd_scalar texts section key =
     bindR (all_directives texts section key) (\<lambda>vs. Inr (if vs \<noteq> [] then Some (last vs) else None))"

section \<open>The meaning of a unit file\<close>

text \<open>The lines of a unit file as a syntax: \<open>Folded key v w\<close> is a setting with a continuation line.\<close>

datatype unit_line =
    Header pstr
  | Setting pstr pstr
  | Folded pstr pstr pstr
  | Remark pstr
  | Empty

fun line_text :: "unit_line \<Rightarrow> pstr list" where
  "line_text (Header name) = [91 # name @ [93]]"
| "line_text (Setting key v) = [key @ 61 # v]"
| "line_text (Folded key v w) = [key @ 61 # v @ [32, 92], 32 # 32 # w]"
| "line_text (Remark t) = [t]"
| "line_text Empty = [[]]"

definition unit_text :: "unit_line list \<Rightarrow> pstr" where
  "unit_text ls = concat (map (\<lambda>l. l @ [10]) (concat (map line_text ls)))"

text \<open>Section, key and value of every setting.\<close>

fun settings :: "pstr \<Rightarrow> unit_line list \<Rightarrow> (pstr \<times> pstr \<times> pstr) list" where
  "settings current [] = []"
| "settings current (Header name # ls) = settings name ls"
| "settings current (Setting key v # ls) = (current, key, v) # settings current ls"
| "settings current (Folded key v w # ls) = (current, key, v @ 32 # 32 # w) # settings current ls"
| "settings current (_ # ls) = settings current ls"

definition trimmed :: "pstr \<Rightarrow> bool" where
  "trimmed s \<longleftrightarrow> (\<forall>c \<in> set s. \<not> is_linebreak c) \<and> (s \<noteq> [] \<longrightarrow> \<not> py_isspace (hd s) \<and> \<not> py_isspace (last s) \<and> last s \<noteq> 92)"

definition key_ok :: "pstr \<Rightarrow> bool" where
  "key_ok key \<longleftrightarrow> key \<noteq> [] \<and> trimmed key \<and> 61 \<notin> set key \<and> hd key \<notin> {35, 59, 91}"

fun line_ok :: "unit_line \<Rightarrow> bool" where
  "line_ok (Header name) = (\<forall>c \<in> set name. \<not> is_linebreak c)"
| "line_ok (Setting key v) = (key_ok key \<and> trimmed v)"
| "line_ok (Folded key v w) = (key_ok key \<and> trimmed v \<and> trimmed w \<and> v \<noteq> [] \<and> w \<noteq> [])"
| "line_ok (Remark t) = (trimmed t \<and> t \<noteq> [] \<and> hd t \<in> {35, 59})"
| "line_ok Empty = True"

lemma marks [simp]: "\<not> py_isspace 61" "\<not> py_isspace 91" "\<not> py_isspace 93" "\<not> py_isspace 92" "py_isspace 32"
  "\<not> is_linebreak 61" "\<not> is_linebreak 91" "\<not> is_linebreak 93" "\<not> is_linebreak 92" "\<not> is_linebreak 32"
  by (simp_all add: py_isspace_def is_linebreak_def)

lemma rstrip_id: "s \<noteq> [] \<Longrightarrow> \<not> p (last s) \<Longrightarrow> rstrip_by p s = s"
  by (cases s rule: rev_cases) (simp_all add: rstrip_by_def)

lemma strip_id: "s \<noteq> [] \<Longrightarrow> \<not> py_isspace (hd s) \<Longrightarrow> \<not> py_isspace (last s) \<Longrightarrow> py_strip s = s"
  unfolding py_strip_def by (rule strip_by_id) simp

lemma strip_trimmed: "trimmed s \<Longrightarrow> py_strip s = s"
  unfolding py_strip_def by (rule strip_by_id) (simp add: trimmed_def)

lemma setting_value:
  assumes "key_ok key" "\<not> py_isspace (last (key @ 61 # v))" "last (key @ 61 # v) \<noteq> 92" "py_strip v = v"
  shows "directives_go section key' current [] ((key @ 61 # v) # raws) =
    bindR (directives_go section key' current [] raws) (\<lambda>vs. Inr (if current = section \<and> key = key' then v # vs else vs))"
proof -
  let ?line = "key @ 61 # v"
  have key: "key \<noteq> []" "\<not> py_isspace (hd key)" "hd key \<notin> {35, 59, 91}" "61 \<notin> set key" "py_strip key = key"
    using assms(1) strip_trimmed by (auto simp: key_ok_def trimmed_def)
  then have "rstrip_by py_isspace ?line = ?line" "py_strip ?line = ?line"
    using assms(2) by (auto intro!: rstrip_id strip_id)
  with key assms(3,4) show ?thesis
    by (cases "directives_go section key' current [] raws") (auto simp: Let_def partition_field)
qed

lemma directives_lines:
  assumes "\<forall>l \<in> set ls. line_ok l"
  shows "directives_go section key current [] (concat (map line_text ls)) =
    Inr (map (snd \<circ> snd) (filter (\<lambda>(s, k, _). s = section \<and> k = key) (settings current ls)))"
  using assms
proof (induction ls arbitrary: current)
  case Nil
  then show ?case by (simp add: require_that_def)
next
  case (Cons l ls)
  show ?case
  proof (cases l)
    case (Header name)
    have "rstrip_by py_isspace (91 # name @ [93]) = 91 # name @ [93]" "py_strip (91 # name @ [93]) = 91 # name @ [93]"
      by (auto intro!: rstrip_id strip_id)
    then show ?thesis using Cons by (simp add: Header Let_def)
  next
    case (Setting k v)
    then have "key_ok k" "trimmed v" using Cons.prems by auto
    then have "directives_go section key current [] ((k @ 61 # v) # concat (map line_text ls)) =
        bindR (directives_go section key current [] (concat (map line_text ls)))
          (\<lambda>vs. Inr (if current = section \<and> k = key then v # vs else vs))"
      by (intro setting_value) (auto simp: trimmed_def strip_trimmed)
    with Cons show ?thesis by (simp add: Setting)
  next
    case (Folded k v w)
    have ok: "key_ok k" "trimmed v" "trimmed w" "v \<noteq> []" "w \<noteq> []" using Cons.prems by (auto simp: Folded)
    have first: "rstrip_by py_isspace (k @ 61 # v @ [32, 92]) = k @ 61 # v @ [32, 92]" by (rule rstrip_id) auto
    have second: "lstrip_by py_isspace (32 # 32 # w) = w" using ok(3,5) by (cases w) (auto simp: lstrip_by_def trimmed_def)
    have whole: "py_strip (v @ 32 # 32 # w) = v @ 32 # 32 # w" using ok by (intro strip_id) (auto simp: trimmed_def)
    have "directives_go section key current [] ((k @ 61 # v @ [32, 92]) # (32 # 32 # w) # raws) =
        directives_go section key current [] ((k @ 61 # v @ 32 # 32 # w) # raws)" for raws
      using second by (simp add: first butlast_append Let_def)
    moreover have "directives_go section key current [] ((k @ 61 # v @ 32 # 32 # w) # raws) =
        bindR (directives_go section key current [] raws) (\<lambda>vs. Inr (if current = section \<and> k = key then (v @ 32 # 32 # w) # vs else vs))" for raws
      using ok whole by (intro setting_value) (auto simp: trimmed_def)
    ultimately show ?thesis using Cons by (simp add: Folded)
  next
    case (Remark t)
    then have t: "trimmed t" "t \<noteq> []" "hd t \<in> {35, 59}" using Cons.prems by auto
    then have "rstrip_by py_isspace t = t" "py_strip t = t" by (auto intro!: rstrip_id strip_id simp: trimmed_def)
    then show ?thesis using Cons t by (auto simp: Remark Let_def trimmed_def)
  next
    case Empty
    then show ?thesis using Cons by (simp add: Let_def rstrip_by_def py_strip_def lstrip_by_def)
  qed
qed

definition unit_ok :: "unit_line list \<Rightarrow> bool" where
  "unit_ok ls \<longleftrightarrow> (\<forall>l \<in> set ls. line_ok l)"

definition setting_values :: "pstr \<Rightarrow> pstr \<Rightarrow> unit_line list list \<Rightarrow> pstr list" where
  "setting_values section key files =
     map (snd \<circ> snd) (filter (\<lambda>(s, k, _). s = section \<and> k = key) (concat (map (settings []) files)))"

lemma systemd_directives_text:
  assumes "unit_ok ls"
  shows "systemd_directives (unit_text ls) section key = Inr (setting_values section key [ls])"
proof -
  have "\<not> is_linebreak c" if "line_ok l" "t \<in> set (line_text l)" "c \<in> set t" for l t c
    using that by (cases l) (auto simp: trimmed_def key_ok_def)
  then have "py_splitlines (unit_text ls) = concat (map line_text ls)"
    unfolding unit_text_def using assms by (intro splitlines_unlines) (fastforce simp: unit_ok_def)
  then show ?thesis
    using directives_lines assms by (simp add: systemd_directives_def unit_ok_def setting_values_def)
qed

lemma all_directives_text:
  "\<forall>ls \<in> set files. unit_ok ls \<Longrightarrow> all_directives (map unit_text files) section key = Inr (setting_values section key files)"
  by (induction files) (simp_all add: systemd_directives_text setting_values_def)

lemma effective_go_last: "effective_go kept vs = (if [] \<in> set vs then [] else kept) @ rev (takeWhile (\<lambda>v. v \<noteq> []) (rev vs))"
proof (induction vs arbitrary: kept)
  case (Cons v vs)
  have "rev (takeWhile (\<lambda>v. v \<noteq> []) (rev (v # vs))) =
      (if [] \<in> set vs then rev (takeWhile (\<lambda>v. v \<noteq> []) (rev vs)) else if v = [] then vs else v # vs)"
  proof (cases "[] \<in> set vs")
    case True
    then show ?thesis by (simp add: takeWhile_append1 [where x = "[]"])
  next
    case False
    then have "takeWhile (\<lambda>v. v \<noteq> []) (rev vs) = rev vs" by (auto simp: takeWhile_eq_all_conv)
    with False show ?thesis by (auto simp: takeWhile_append)
  qed
  moreover have "rev (takeWhile (\<lambda>v. v \<noteq> []) (rev vs)) = vs" if "[] \<notin> set vs"
    using that by (subst takeWhile_eq_all_conv [THEN iffD2]) auto
  ultimately show ?case using Cons by (cases "[] \<in> set vs") simp_all
qed simp

section \<open>The properties\<close>

text \<open>C38: Read back from its text, with comments, blank lines and continuation lines, a unit file has the values that it
sets: those of a directive in a section are found in their order, whatever the other sections and keys; over several
files, later ones last, the effective scalar is the last value and the effective list
holds the values after the last empty one.\<close>

theorem unit_values:
  assumes "\<forall>ls \<in> set files. unit_ok ls"
  shows "(\<forall>ls \<in> set files. systemd_directives (unit_text ls) section key = Inr (setting_values section key [ls])) \<and>
    effective_systemd_scalar (map unit_text files) section key =
      Inr (let vs = setting_values section key files in if vs = [] then None else Some (last vs)) \<and>
    effective_systemd_list (map unit_text files) section key =
      Inr (rev (takeWhile (\<lambda>v. v \<noteq> []) (rev (setting_values section key files))))"
  using assms systemd_directives_text all_directives_text [OF assms]
  by (simp add: effective_systemd_scalar_def effective_systemd_list_def effective_go_last Let_def)

text \<open>The socket of the SSH server, and the file that confines it to the engineering port.\<close>

definition SSH_SOCKET :: "unit_line list list" where
  "SSH_SOCKET =
     [[Header (lit ''Unit''), Setting (lit ''Description'') (lit ''OpenBSD Secure Shell server socket''), Empty,
       Header (lit ''Socket''), Setting (lit ''ListenStream'') (lit ''22''), Setting (lit ''Accept'') (lit ''no'')],
      [Header (lit ''Socket''), Remark (lit ''# one address''), Setting (lit ''ListenStream'') [],
       Setting (lit ''ListenStream'') (lit ''10.77.0.1:22''), Setting (lit ''FreeBind'') (lit ''yes'')]]"

theorem unit_values_witness:
  "effective_systemd_list (map unit_text SSH_SOCKET) (lit ''Socket'') (lit ''ListenStream'') = Inr [lit ''10.77.0.1:22''] \<and>
   effective_systemd_scalar (map unit_text SSH_SOCKET) (lit ''Socket'') (lit ''BindToDevice'') = Inr None"
proof -
  have "\<forall>ls \<in> set SSH_SOCKET. unit_ok ls"
    by (simp add: SSH_SOCKET_def unit_ok_def key_ok_def trimmed_def lit_Cons py_isspace_def is_linebreak_def)
  note unit_values [OF this, of "lit ''Socket''"]
  from this [of "lit ''ListenStream''"] this [of "lit ''BindToDevice''"] show ?thesis
    by (simp add: setting_values_def SSH_SOCKET_def)
qed

end
