(* ===== verification/Image_Rules.thy ===== *)
theory Image_Rules
  imports Unit_Files PyJson "HOL-Library.List_Lexorder"
begin

text \<open>
  The rules of \<^verbatim>\<open>scripts/verify_rave_image.py\<close> for the sizes of the partitions, the passwords, and the services of the
  management network. The image is a parameter, \<open>image\<close>, that nothing changes; a path is relative to its root. What
  is interpolated into a message is left out, as is the text of a message beyond what tells the rules apart.
\<close>

unbundle bit_operations_syntax

section \<open>The image\<close>

record image_stat =
  im_mode :: nat
  im_uid :: int
  im_gid :: int
  im_size :: nat

text \<open>
  \<open>im_glob_conf\<close> gives the names that \<^verbatim>\<open>*.conf\<close> matches in a directory, in no particular order, \<open>im_rglob\<close> everything below a directory, \<open>im_wants\<close> the entries of the directories \<^verbatim>\<open>etc/systemd/system/*.target.wants\<close>, \<open>im_host_keys\<close> what
  \<^verbatim>\<open>ssh_host_*\<close> matches in \<^verbatim>\<open>etc/ssh\<close>. \<open>im_lower\<close> is the table of \<^verbatim>\<open>str.lower\<close> for the code points from 128.
\<close>

record image =
  im_is_file :: "pstr \<Rightarrow> bool"
  im_is_dir :: "pstr \<Rightarrow> bool"
  im_is_symlink :: "pstr \<Rightarrow> bool"
  im_exists :: "pstr \<Rightarrow> bool"
  im_read_text :: "pstr \<Rightarrow> exn + pstr"
  im_stat :: "pstr \<Rightarrow> exn + image_stat"
  im_readlink :: "pstr \<Rightarrow> exn + pstr"
  im_glob_conf :: "pstr \<Rightarrow> pstr list"
  im_rglob :: "pstr \<Rightarrow> pstr list"
  im_wants :: "pstr list"
  im_host_keys :: "pstr list"
  im_lower :: "nat \<Rightarrow> pstr"

definition py_lower :: "(nat \<Rightarrow> pstr) \<Rightarrow> pstr \<Rightarrow> pstr" where
  "py_lower table s =
     concat (map (\<lambda>c. if c < 128 then (if 65 \<le> c \<and> c \<le> 90 then [c + 32] else [c]) else table c) s)"

text \<open>A list of conditions, tested one after the other.\<close>

primrec require_all :: "(bool \<times> string) list \<Rightarrow> exn + unit" where
  "require_all [] = Inr ()"
| "require_all (rule # rules) =
     (case rule of (condition, m) \<Rightarrow> bindR (require_that condition m) (\<lambda>_. require_all rules))"

text \<open>\<^verbatim>\<open>path.is_file() and not path.is_symlink()\<close>, and the like, raise nothing; reading and \<^verbatim>\<open>stat\<close> may.\<close>

section \<open>Partitions\<close>

definition digits_only :: "pstr \<Rightarrow> bool" where
  "digits_only s \<longleftrightarrow> (\<forall>c \<in> set s. 48 \<le> c \<and> c \<le> 57)"

definition decimal_value :: "pstr \<Rightarrow> nat" where
  "decimal_value s = foldl (\<lambda>n c. n * 10 + (c - 48)) 0 s"

text \<open>\<^verbatim>\<open>int\<close> refuses more than 4300 digits.\<close>

definition partition_size_mib :: "json \<Rightarrow> exn + nat" where
  "partition_size_mib v =
     (case v of
        JStr s \<Rightarrow>
          let amount = butlast s in
          bindR (require_that
            (s \<noteq> [] \<and> (last s = 77 \<or> last s = 71) \<and> amount \<noteq> [] \<and> hd amount \<noteq> 48 \<and> digits_only amount)
            ''partition size must use explicit M or G units'') (\<lambda>_.
          if 4300 < length amount then Inl (ValueError (lit ''Exceeds the limit''))
          else Inr (if last s = 77 then decimal_value amount else decimal_value amount * 1024))
      | _ \<Rightarrow> Inl (verification_error ''partition size must use explicit M or G units''))"

definition image_section :: "json \<Rightarrow> exn + (pstr \<times> json) list" where
  "image_section configuration =
     (case configuration of
        JObj entries \<Rightarrow>
          (case dict_get entries (lit ''image'') of
             JObj options \<Rightarrow> Inr options
           | _ \<Rightarrow> Inl (verification_error ''RAVE OS image configuration has no image section''))
      | _ \<Rightarrow> Inl (verification_error ''RAVE OS image configuration is not a mapping''))"

text \<open>What is checked of the parsed YAML, and the report.\<close>

definition check_image_configuration :: "json \<Rightarrow> exn + json" where
  "check_image_configuration configuration =
     bindR (image_section configuration) (\<lambda>options.
     bindR (require_all
       [(dict_get options (lit ''layer'') = JStr (lit ''image-rpios''), ''RAVE OS must retain the single-system image layer''),
        ({lit ''system_part_size'', lit ''data_part_size''} \<inter> dict_keys options = {},
         ''A/B or persistent-data partition options require a separate architecture review'')]) (\<lambda>_.
     bindR (partition_size_mib (dict_get options (lit ''boot_part_size''))) (\<lambda>boot_mib.
     bindR (partition_size_mib (dict_get options (lit ''root_part_size''))) (\<lambda>system_mib.
     bindR (require_all
       [(boot_mib = 512, ''boot partition must be exactly 512 MiB''),
        (12 * 1024 \<le> system_mib, ''system partition must be at least 12 GiB'')]) (\<lambda>_.
     Inr (JObj
       [(lit ''architecture'', JStr (lit ''single-system-mbr'')),
        (lit ''boot_partition_mib'', JInt (int boot_mib)),
        (lit ''system_partition_mib'', JInt (int system_mib)),
        (lit ''boot_filesystem_label'', JStr (lit ''BOOT'')),
        (lit ''system_filesystem_label'', JStr (lit ''ROOT'')),
        (lit ''boot_device_alias'', JStr (lit ''/dev/disk/by-slot/boot'')),
        (lit ''system_device_alias'', JStr (lit ''/dev/disk/by-slot/system'')),
        (lit ''persistent_data_partition'', JBool False),
        (lit ''automatic_expansion'', JBool True)]))))))"

section \<open>Passwords\<close>

text \<open>\<^verbatim>\<open>s.split(sep)\<close> for one character.\<close>

fun py_split_char :: "nat \<Rightarrow> pstr \<Rightarrow> pstr \<Rightarrow> pstr list" where
  "py_split_char sep current [] = [rev current]"
| "py_split_char sep current (c # cs) =
     (if c = sep then rev current # py_split_char sep [] cs else py_split_char sep (c # current) cs)"

text \<open>The pattern of a password hash: a dollar sign, and at least three parts with dollar signs between them.\<close>

definition has_usable_shadow_password :: "pstr \<Rightarrow> bool" where
  "has_usable_shadow_password password \<longleftrightarrow>
     (case py_split_char 36 [] password of
        [] \<Rightarrow> False
      | start # parts \<Rightarrow> start = [] \<and> 3 \<le> length parts \<and>
          (\<forall>part \<in> set parts. part \<noteq> [] \<and> (\<forall>c \<in> set part. c \<noteq> 58 \<and> \<not> py_isspace c)))"

definition verify_shadow_account_password :: "pstr \<Rightarrow> pstr \<Rightarrow> exn + unit" where
  "verify_shadow_account_password account password =
     (if account = lit ''pi''
      then require_that (has_usable_shadow_password password) ''pi must have a usable local console password''
      else require_that (take 1 password = [33] \<or> take 1 password = [42]) ''account has usable credentials'')"

section \<open>The DHCP server\<close>

text \<open>The directives of a configuration, each with its values; a directive without \<open>=\<close> has none.\<close>

fun add_directive :: "pstr \<Rightarrow> pstr option \<Rightarrow> (pstr \<times> pstr option list) list \<Rightarrow> (pstr \<times> pstr option list) list" where
  "add_directive key v [] = [(key, [v])]"
| "add_directive key v ((k, vs) # ds) = (if k = key then (k, vs @ [v]) # ds else (k, vs) # add_directive key v ds)"

fun dnsmasq_directives :: "(pstr \<times> pstr option list) list \<Rightarrow> pstr list \<Rightarrow> (pstr \<times> pstr option list) list" where
  "dnsmasq_directives ds [] = ds"
| "dnsmasq_directives ds (raw # raws) =
     (let line = py_strip raw
      in if line = [] \<or> hd line = 35 then dnsmasq_directives ds raws
         else if 61 \<in> set line
         then case py_partition 61 line of (key, _, v) \<Rightarrow>
                dnsmasq_directives (add_directive (py_strip key) (Some (py_strip v)) ds) raws
         else dnsmasq_directives (add_directive (py_strip line) None ds) raws)"

definition DNSMASQ_EXPECTED :: "(pstr \<times> pstr option list) list" where
  "DNSMASQ_EXPECTED =
     [(lit ''interface'', [Some (lit ''wlan0'')]),
      (lit ''listen-address'', [Some (lit ''192.168.77.1'')]),
      (lit ''bind-interfaces'', [None]),
      (lit ''port'', [Some (lit ''0'')]),
      (lit ''dhcp-range'', [Some (lit ''192.168.77.100,192.168.77.199,255.255.255.0,12h'')]),
      (lit ''dhcp-option'', [Some (lit ''3''), Some (lit ''6'')]),
      (lit ''dhcp-leasefile'', [Some (lit ''/var/lib/misc/dnsmasq.leases'')])]"

definition check_dnsmasq :: "pstr \<Rightarrow> exn + unit" where
  "check_dnsmasq s =
     (let ds = dnsmasq_directives [] (py_splitlines s)
      in bindR (require_all
           [(lit ''log-dhcp'' \<notin> fst ` set ds, ''verbose or invalid log-dhcp directive is configured''),
            (fst ` set ds = fst ` set DNSMASQ_EXPECTED, ''unexpected dnsmasq directives'')]) (\<lambda>_.
         bindR (require_all (map (\<lambda>(key, vs). (map_of ds key = Some vs, ''dnsmasq directive changed'')) DNSMASQ_EXPECTED)) (\<lambda>_.
         require_that (\<not> contains (lit ''eth0'') s) ''DHCP listens on runtime Ethernet'')))"

definition verify_dnsmasq_configuration :: "image \<Rightarrow> pstr \<Rightarrow> exn + pstr" where
  "verify_dnsmasq_configuration I path =
     bindR (require_that (im_is_file I path) ''RAVE dnsmasq configuration is missing'') (\<lambda>_.
     bindR (im_read_text I path) (\<lambda>s.
     bindR (check_dnsmasq s) (\<lambda>_. Inr s)))"

definition unit_dropins :: "image \<Rightarrow> pstr \<Rightarrow> pstr list" where
  "unit_dropins I unit =
     concat (map (\<lambda>base.
       let directory = base @ lit ''/'' @ unit @ lit ''.d''
       in if im_is_dir I directory then map (\<lambda>name. directory @ lit ''/'' @ name) (sort (im_glob_conf I directory)) else [])
       [lit ''usr/lib/systemd/system'', lit ''etc/systemd/system''])"

text \<open>The rule on the value of a scalar, and on the words of a directive, of one section.\<close>

definition require_scalar :: "pstr list \<Rightarrow> string \<Rightarrow> string \<Rightarrow> string \<Rightarrow> exn + unit" where
  "require_scalar texts section key expected =
     bindR (effective_systemd_scalar texts (lit section) (lit key)) (\<lambda>v.
     require_that (v = Some (lit expected)) ''systemd setting changed'')"

definition require_words :: "pstr list \<Rightarrow> string \<Rightarrow> string \<Rightarrow> pstr list \<Rightarrow> exn + unit" where
  "require_words texts section key expected =
     bindR (effective_systemd_words texts (lit section) (lit key)) (\<lambda>v.
     require_that (v = expected) ''systemd setting changed'')"

fun require_scalars :: "pstr list \<Rightarrow> (string \<times> string) list \<Rightarrow> exn + unit" where
  "require_scalars texts [] = Inr ()"
| "require_scalars texts ((key, expected) # rest) =
     bindR (require_scalar texts ''Service'' key expected) (\<lambda>_. require_scalars texts rest)"

text \<open>The one command line of a service.\<close>

definition exec_start :: "pstr \<Rightarrow> exn + pstr list" where
  "exec_start unit =
     bindR (systemd_directives unit (lit ''Service'') (lit ''ExecStart'')) (\<lambda>exec_starts.
     bindR (require_that (length exec_starts = 1) ''service must have one canonical ExecStart'') (\<lambda>_.
     shlex_split (exec_starts ! 0)))"

definition verify_dhcp_service :: "image \<Rightarrow> pstr \<Rightarrow> exn + pstr" where
  "verify_dhcp_service I unit_path =
     bindR (require_all
       [(im_is_file I unit_path, ''RAVE DHCP service is missing''),
        (unit_dropins I (lit ''rave-management-dhcp.service'') = [], ''unexpected DHCP service drop-ins'')]) (\<lambda>_.
     bindR (im_read_text I unit_path) (\<lambda>unit.
     bindR (require_scalar [unit] ''Service'' ''ProtectSystem'' ''strict'') (\<lambda>_.
     bindR (require_words [unit] ''Service'' ''ReadWritePaths'' [lit ''/var/lib/misc'']) (\<lambda>_.
     bindR (exec_start unit) (\<lambda>command.
     bindR (require_all
       [(command \<noteq> [] \<and> command ! 0 = lit ''/usr/sbin/dnsmasq'', ''DHCP service does not execute dnsmasq''),
        (lit ''--conf-file=/etc/rave/network/dnsmasq.conf'' \<in> set command \<and>
         lit ''--no-hosts'' \<in> set command \<and> lit ''--no-resolv'' \<in> set command,
         ''DHCP service does not use only the product configuration''),
        (im_is_dir I (lit ''var/lib/misc'') \<and> \<not> im_is_symlink I (lit ''var/lib/misc''),
         ''DHCP lease directory is missing or unsafe'')]) (\<lambda>_.
     bindR (im_stat I (lit ''var/lib/misc'')) (\<lambda>lease.
     bindR (require_all
       [(im_mode lease = 493 \<and> im_uid lease = 0 \<and> im_gid lease = 0, ''DHCP lease directory must be root-owned mode 0755''),
        (\<not> im_exists I (lit ''var/lib/misc/dnsmasq.leases''), ''generic image carries a DHCP lease database'')]) (\<lambda>_.
     Inr unit))))))))"

section \<open>The web service\<close>

fun words_of_all :: "pstr list \<Rightarrow> pstr \<Rightarrow> string list \<Rightarrow> exn + pstr set" where
  "words_of_all texts section [] = Inr {}"
| "words_of_all texts section (key # keys) =
     bindR (effective_systemd_words texts section (lit key)) (\<lambda>ws.
     bindR (words_of_all texts section keys) (\<lambda>rest. Inr (set ws \<union> rest)))"

text \<open>\<^verbatim>\<open>command[command.index(word) + 1]\<close>, where the word occurs; past the end it is an \<^verbatim>\<open>IndexError\<close>.\<close>

fun word_after :: "pstr \<Rightarrow> pstr list \<Rightarrow> exn + pstr" where
  "word_after word [] = Inl OtherException"
| "word_after word (w # ws) =
     (if w = word then (case ws of [] \<Rightarrow> Inl OtherException | next # _ \<Rightarrow> Inr next) else word_after word ws)"

definition verify_web_command :: "pstr \<Rightarrow> exn + unit" where
  "verify_web_command unit =
     bindR (exec_start unit) (\<lambda>command.
     bindR (require_that (count_list command (lit ''--fd'') = 1) ''rave-webd must consume exactly one inherited socket'') (\<lambda>_.
     bindR (word_after (lit ''--fd'') command) (\<lambda>fd.
     require_all
       [(fd = lit ''3'', ''rave-webd inherited socket descriptor changed''),
        ({lit ''--host'', lit ''--port'', lit ''--uds''} \<inter> set command = {}, ''rave-webd may not create an additional listener'')])))"

definition verify_web_socket :: "pstr \<Rightarrow> exn + unit" where
  "verify_web_socket socket_unit =
     bindR (words_of_all [socket_unit] (lit ''Unit'') [''Requires'', ''Wants'', ''After'', ''Before'', ''PartOf'']) (\<lambda>dependencies.
     bindR (require_that (lit ''NetworkManager.service'' \<notin> dependencies)
       ''rave-webd socket creates a NetworkManager/sockets.target ordering cycle'') (\<lambda>_.
     bindR (effective_systemd_list [socket_unit] (lit ''Socket'') (lit ''ListenStream'')) (\<lambda>streams.
     bindR (require_that (streams = [lit ''8080'']) ''rave-webd socket port changed'') (\<lambda>_.
     bindR (require_scalar [socket_unit] ''Socket'' ''BindToDevice'' ''wlan0'') (\<lambda>_.
     require_scalar [socket_unit] ''Socket'' ''Service'' ''rave-webd.service'')))))"

definition verify_web_service :: "image \<Rightarrow> pstr \<Rightarrow> pstr \<Rightarrow> exn + pstr \<times> pstr" where
  "verify_web_service I unit_path socket_path =
     bindR (require_all
       [(im_is_file I unit_path, ''rave-webd service is missing''),
        (im_is_file I socket_path, ''rave-webd socket is missing''),
        (unit_dropins I (lit ''rave-webd.service'') = [], ''unexpected rave-webd drop-ins obscure listener policy''),
        (unit_dropins I (lit ''rave-webd.socket'') = [], ''unexpected rave-webd socket drop-ins obscure listener policy'')]) (\<lambda>_.
     bindR (im_read_text I unit_path) (\<lambda>unit.
     bindR (im_read_text I socket_path) (\<lambda>socket_unit.
     bindR (verify_web_command unit) (\<lambda>_.
     bindR (verify_web_socket socket_unit) (\<lambda>_.
     bindR (systemd_directives unit (lit ''Service'') (lit ''Environment'')) (\<lambda>environment.
     bindR (require_that (lit ''RAVE_PROVIDER=pi'' \<in> set environment) ''rave-webd does not explicitly select the Pi provider'') (\<lambda>_.
     bindR (require_scalars [unit]
       [(''User'', ''rave''), (''Group'', ''rave''), (''NoNewPrivileges'', ''true''), (''ProtectClock'', ''true''),
        (''RestrictAddressFamilies'', ''AF_UNIX'')]) (\<lambda>_.
     bindR (systemd_directives unit (lit ''Service'') (lit ''RuntimeDirectory'')) (\<lambda>runtime.
     bindR (require_that (runtime = []) ''rave-webd owns a shared runtime directory'') (\<lambda>_.
     bindR (require_words [unit] ''Unit'' ''Requires'' [lit ''rave-webd.socket'']) (\<lambda>_.
     bindR (require_that (im_is_symlink I (lit ''etc/systemd/system/sockets.target.wants/rave-webd.socket''))
       ''rave-webd socket is not enabled at boot'') (\<lambda>_.
     bindR (im_readlink I (lit ''etc/systemd/system/sockets.target.wants/rave-webd.socket'')) (\<lambda>target.
     bindR (require_that (target = lit ''/usr/lib/systemd/system/rave-webd.socket'') ''unexpected rave-webd socket enablement target'') (\<lambda>_.
     Inr (unit, socket_unit)))))))))))))))"

section \<open>The network daemon\<close>

text \<open>\<^verbatim>\<open>re.search\<close> for the property \<^verbatim>\<open>"connection.autoconnect"\<close>, a comma, any white space and the quoted word.\<close>

fun sets_autoconnect :: "string \<Rightarrow> pstr \<Rightarrow> bool" where
  "sets_autoconnect word [] = False"
| "sets_autoconnect word (c # cs) =
     (let start = 34 # lit ''connection.autoconnect'' @ [34, 44]
      in starts_with start (c # cs) \<and>
           starts_with (34 # lit word @ [34]) (dropWhile py_isspace (drop (length start) (c # cs))) \<or>
         sets_autoconnect word cs)"

definition verify_networkd_unit :: "pstr \<Rightarrow> exn + unit" where
  "verify_networkd_unit unit =
     bindR (require_scalars [unit] [(''User'', ''root''), (''Group'', ''rave'')]) (\<lambda>_.
     bindR (systemd_directives unit (lit ''Service'') (lit ''ExecStart'')) (\<lambda>exec_starts.
     bindR (require_that (exec_starts = [lit ''/usr/bin/python3 -m rave_networkd''])
       ''rave-networkd does not execute only the canonical daemon'') (\<lambda>_.
     bindR (require_scalars [unit]
       [(''NoNewPrivileges'', ''true''), (''ProtectSystem'', ''strict''), (''ProtectClock'', ''true''),
        (''PrivateDevices'', ''true''), (''RestrictAddressFamilies'', ''AF_UNIX''), (''LimitCORE'', ''0'')]) (\<lambda>_.
     bindR (require_words [unit] ''Service'' ''ReadWritePaths'' [lit ''/run/rave'']) (\<lambda>_.
     require_words [unit] ''Service'' ''CapabilityBoundingSet'' [])))))"

definition quote_mark :: pstr where "quote_mark = [34]"

text \<open>The rules on the text of the daemon's backend.\<close>

definition verify_backend_text :: "image \<Rightarrow> pstr \<Rightarrow> exn + unit" where
  "verify_backend_text I backend =
     bindR (require_all (map (\<lambda>expected. (contains expected backend, ''rave-networkd fixed operation contract changed''))
       [lit ''INTERFACE = '' @ quote_mark @ lit ''wlan0'' @ quote_mark,
        lit ''PROVISIONING_PROFILE = '' @ quote_mark @ lit ''RAVE-Setup'' @ quote_mark,
        lit ''SAVED_PROFILE = '' @ quote_mark @ lit ''RAVE-Management'' @ quote_mark,
        lit ''PREVIOUS_PROFILE = '' @ quote_mark @ lit ''RAVE-Management-Previous'' @ quote_mark,
        lit ''run_with_secret'',
        lit ''os.memfd_create'',
        lit ''SYSTEMCTL = '' @ quote_mark @ lit ''/usr/bin/systemctl'' @ quote_mark])) (\<lambda>_.
     bindR (require_all (map (\<lambda>forbidden. (\<not> contains forbidden (py_lower (im_lower I) backend),
         ''rave-networkd contains forbidden behavior''))
       [lit ''shell=true'', lit ''eth0'', lit ''ip_forward'', lit ''masquerade''])) (\<lambda>_.
     require_that (sets_autoconnect ''no'' backend \<and> \<not> sets_autoconnect ''yes'' backend \<and>
         \<not> contains (lit ''connection.autoconnect-retries'') backend)
       ''rave-networkd does not exclusively own management profile activation''))"

definition verify_networkd_service :: "image \<Rightarrow> pstr \<Rightarrow> exn + pstr" where
  "verify_networkd_service I unit_path =
     bindR (require_all
       [(im_is_file I unit_path, ''rave-networkd service is missing''),
        (unit_dropins I (lit ''rave-networkd.service'') = [], ''rave-networkd has unexpected drop-ins'')]) (\<lambda>_.
     bindR (im_read_text I unit_path) (\<lambda>unit.
     bindR (verify_networkd_unit unit) (\<lambda>_.
     bindR (require_that (im_is_file I (lit ''opt/rave/management/rave_networkd/backend.py'')) ''rave-networkd backend is missing'') (\<lambda>_.
     bindR (im_read_text I (lit ''opt/rave/management/rave_networkd/backend.py'')) (\<lambda>backend.
     bindR (verify_backend_text I backend) (\<lambda>_.
     bindR (im_read_text I (lit ''opt/rave/management/rave_networkd/server.py'')) (\<lambda>server.
     bindR (im_read_text I (lit ''opt/rave/management/rave_network_ipc/client.py'')) (\<lambda>client.
     bindR (require_all
       [(contains (lit ''SO_PEERCRED'') server \<and> contains (lit ''peer_not_authorized'') server,
         ''rave-networkd does not authenticate the local client peer''),
        (contains (lit ''SO_PEERCRED'') client \<and> contains (lit ''expected_server_uid: int = 0'') client,
         ''rave-webd IPC client does not authenticate the root server peer'')]) (\<lambda>_.
     Inr unit)))))))))"

section \<open>Files\<close>

fun verify_installed :: "image \<Rightarrow> pstr list \<Rightarrow> exn + unit" where
  "verify_installed I [] = Inr ()"
| "verify_installed I (path # paths) =
     bindR (require_that (\<not> im_is_symlink I path) ''installed management tree contains symlink'') (\<lambda>_.
     bindR (im_stat I path) (\<lambda>info.
     bindR (require_all
       [(im_uid info = 0 \<and> im_gid info = 0, ''installed management asset is not root-owned''),
        (im_mode info AND 18 = 0, ''installed management asset is group/world-writable'')]) (\<lambda>_.
     verify_installed I paths)))"

fun verify_trees :: "image \<Rightarrow> pstr list \<Rightarrow> exn + unit" where
  "verify_trees I [] = Inr ()"
| "verify_trees I (base # bases) =
     bindR (require_that (im_is_dir I base \<and> \<not> im_is_symlink I base) ''missing installed tree'') (\<lambda>_.
     bindR (verify_installed I (base # im_rglob I base)) (\<lambda>_. verify_trees I bases))"

definition verify_management_install_ownership :: "image \<Rightarrow> exn + unit" where
  "verify_management_install_ownership I =
     bindR (im_read_text I (lit ''usr/lib/tmpfiles.d/rave.conf'')) (\<lambda>s.
     bindR (require_that (s = lit ''d /run/rave 0750 root rave -'' @ [10]) ''RAVE runtime socket directory policy changed'') (\<lambda>_.
     verify_trees I [lit ''opt/rave/management'', lit ''opt/rave/web/rave_web'']))"

definition verify_gate2b_us_regulatory_domain :: "image \<Rightarrow> exn + unit" where
  "verify_gate2b_us_regulatory_domain I =
     bindR (im_read_text I (lit ''etc/modprobe.d/cfg80211_regdomain.conf'')) (\<lambda>regulatory.
     require_all
       [(py_strip regulatory = lit ''options cfg80211 ieee80211_regdom=US'', ''Wi-Fi regulatory domain is not explicitly US''),
        (\<not> contains (lit ''ieee80211_regdom=GB'') regulatory, ''Wi-Fi regulatory domain fell back to GB'')])"

definition ENGINEERING_SSH_ARTIFACTS :: "pstr list" where
  "ENGINEERING_SSH_ARTIFACTS =
     [lit ''etc/ssh/sshd_config.d/90-rave-ethernet.conf'',
      lit ''etc/sudoers.d/90-rave-engineering-ssh'',
      lit ''etc/systemd/system/ssh.service.d/90-rave-hostkeys.conf'',
      lit ''etc/systemd/system/ssh.socket.d/90-rave-ethernet.conf'',
      lit ''home/pi/.ssh/authorized_keys'',
      lit ''usr/lib/systemd/system/rave-engineering-ssh-hostkeys.service'']"

definition verify_publishable_image_has_no_engineering_ssh :: "image \<Rightarrow> exn + unit" where
  "verify_publishable_image_has_no_engineering_ssh I =
     require_that (filter (im_exists I) ENGINEERING_SSH_ARTIFACTS = [])
       ''publishable image contains non-publishable Gate 2B engineering SSH assets''"

text \<open>\<^verbatim>\<open>status.split(sep)\<close> for the empty line between two packages, and the first block of a package.\<close>

fun split_blocks :: "pstr \<Rightarrow> pstr \<Rightarrow> pstr list" where
  "split_blocks current [] = [rev current]"
| "split_blocks current (c # cs) =
     (if c = 10 \<and> cs \<noteq> [] \<and> hd cs = 10 then rev current # split_blocks [] (tl cs)
      else split_blocks (c # current) cs)"

definition package_stanza :: "string \<Rightarrow> pstr \<Rightarrow> pstr" where
  "package_stanza package status =
     (case filter (starts_with (lit ''Package: '' @ lit package @ [10])) (split_blocks [] status) of
        [] \<Rightarrow> [] | block # _ \<Rightarrow> block)"

definition package_installed :: "string \<Rightarrow> pstr \<Rightarrow> bool" where
  "package_installed package status \<longleftrightarrow>
     contains (lit ''Status: install ok installed'' @ [10]) (package_stanza package status @ [10])"

definition verify_timekeeping :: "image \<Rightarrow> exn + unit" where
  "verify_timekeeping I =
     bindR (require_that (im_is_symlink I (lit ''etc/localtime'')) ''RAVE OS timezone is not represented by a zoneinfo link'') (\<lambda>_.
     bindR (im_readlink I (lit ''etc/localtime'')) (\<lambda>zone.
     bindR (require_that (zone = lit ''/usr/share/zoneinfo/Etc/UTC'') ''RAVE OS appliance timezone is not Etc/UTC'') (\<lambda>_.
     bindR (im_read_text I (lit ''var/lib/dpkg/status'')) (\<lambda>status.
     require_all
       [(package_installed ''systemd-timesyncd'' status, ''systemd-timesyncd is missing''),
        (im_is_symlink I (lit ''etc/systemd/system/sysinit.target.wants/systemd-timesyncd.service''),
         ''systemd-timesyncd is not enabled''),
        (im_is_file I (lit ''var/lib/systemd/timesync/clock''), ''systemd last-known clock state is missing'')]))))"

section \<open>What is accepted\<close>

text \<open>The values that a configuration of the DHCP server gives to a directive.\<close>

definition active_lines :: "pstr \<Rightarrow> pstr list" where
  "active_lines s = filter (\<lambda>line. line \<noteq> [] \<and> hd line \<noteq> 35) (map py_strip (py_splitlines s))"

definition line_directive :: "pstr \<Rightarrow> pstr \<times> pstr option" where
  "line_directive line =
     (if 61 \<in> set line then case py_partition 61 line of (key, _, v) \<Rightarrow> (py_strip key, Some (py_strip v))
      else (py_strip line, None))"

definition dnsmasq_values :: "pstr \<Rightarrow> pstr \<Rightarrow> pstr option list" where
  "dnsmasq_values s key = map snd (filter (\<lambda>(k, _). k = key) (map line_directive (active_lines s)))"

definition values_of :: "(pstr \<times> pstr option list) list \<Rightarrow> pstr \<Rightarrow> pstr option list" where
  "values_of ds key = (case map_of ds key of Some vs \<Rightarrow> vs | None \<Rightarrow> [])"

lemma values_add: "values_of (add_directive key v ds) k = (if k = key then values_of ds k @ [v] else values_of ds k)"
  by (induction key v ds rule: add_directive.induct) (auto simp: values_of_def)

lemma keys_add: "fst ` set (add_directive key v ds) = insert key (fst ` set ds)"
  by (induction key v ds rule: add_directive.induct) auto

definition filled :: "(pstr \<times> pstr option list) list \<Rightarrow> bool" where
  "filled ds \<longleftrightarrow> (\<forall>(_, vs) \<in> set ds. vs \<noteq> [])"

lemma filled_add: "filled ds \<Longrightarrow> filled (add_directive key v ds)"
  by (induction key v ds rule: add_directive.induct) (auto simp: filled_def)

lemma dnsmasq_directives_fold:
  "dnsmasq_directives ds raws =
     fold (\<lambda>(key, v). add_directive key v)
       (map line_directive (filter (\<lambda>line. line \<noteq> [] \<and> hd line \<noteq> 35) (map py_strip raws))) ds"
  by (induction ds raws rule: dnsmasq_directives.induct) (auto simp: Let_def line_directive_def split: prod.splits)

lemma fold_directives:
  "values_of (fold (\<lambda>(key, v). add_directive key v) ls ds) k = values_of ds k @ map snd (filter (\<lambda>(k', _). k' = k) ls)"
  "filled ds \<Longrightarrow> filled (fold (\<lambda>(key, v). add_directive key v) ls ds)"
  by (induction ls arbitrary: ds) (auto simp: values_add filled_add)

lemma require_that_Inr: "require_that condition m = Inr u \<longleftrightarrow> condition"
  by (simp add: require_that_def)

lemma require_all_Inr: "require_all rules = Inr u \<longleftrightarrow> (\<forall>(condition, _) \<in> set rules. condition)"
  by (induction rules) (auto simp: require_that_Inr bindR_Inr_iff)

lemma map_of_values: "filled ds \<Longrightarrow> vs \<noteq> [] \<Longrightarrow> map_of ds key = Some vs \<longleftrightarrow> values_of ds key = vs"
  by (auto simp: values_of_def split: option.splits)

lemma keys_values:
  assumes "filled ds"
  shows "key \<in> fst ` set ds \<longleftrightarrow> values_of ds key \<noteq> []"
proof (cases "map_of ds key")
  case None
  then have "key \<notin> fst ` set ds" by (simp add: map_of_eq_None_iff)
  then show ?thesis by (simp add: values_of_def None)
next
  case (Some vs)
  then have "(key, vs) \<in> set ds" by (rule map_of_SomeD)
  with assms Some show ?thesis by (force simp: values_of_def filled_def)
qed

lemma check_dnsmasq_iff:
  "check_dnsmasq s = Inr u \<longleftrightarrow> (\<forall>key. dnsmasq_values s key = values_of DNSMASQ_EXPECTED key) \<and> \<not> contains (lit ''eth0'') s"
proof -
  define ds where "ds = dnsmasq_directives [] (py_splitlines s)"
  have vs: "values_of ds key = dnsmasq_values s key" for key
    by (simp add: ds_def dnsmasq_directives_fold fold_directives dnsmasq_values_def active_lines_def)
      (simp add: values_of_def)
  have filled: "filled ds" unfolding ds_def dnsmasq_directives_fold by (rule fold_directives) (simp add: filled_def)
  have expected: "filled DNSMASQ_EXPECTED" "distinct (map fst DNSMASQ_EXPECTED)" "lit ''log-dhcp'' \<notin> fst ` set DNSMASQ_EXPECTED"
    by (simp_all add: DNSMASQ_EXPECTED_def filled_def)
  have each: "(\<forall>(key, vs) \<in> set DNSMASQ_EXPECTED. map_of ds key = Some vs) \<longleftrightarrow>
      (\<forall>key \<in> fst ` set DNSMASQ_EXPECTED. values_of ds key = values_of DNSMASQ_EXPECTED key)"
  proof -
    have "map_of ds key = Some vs \<longleftrightarrow> values_of ds key = values_of DNSMASQ_EXPECTED key" if "(key, vs) \<in> set DNSMASQ_EXPECTED" for key vs
    proof -
      have "vs \<noteq> []" using that expected(1) by (auto simp: filled_def)
      moreover have "values_of DNSMASQ_EXPECTED key = vs" using that expected(2) by (simp add: values_of_def)
      ultimately show ?thesis using map_of_values [OF filled] by simp
    qed
    then show ?thesis by fastforce
  qed
  have "check_dnsmasq s = Inr u \<longleftrightarrow> lit ''log-dhcp'' \<notin> fst ` set ds \<and> fst ` set ds = fst ` set DNSMASQ_EXPECTED \<and>
      (\<forall>(key, vs) \<in> set DNSMASQ_EXPECTED. map_of ds key = Some vs) \<and> \<not> contains (lit ''eth0'') s"
    by (auto simp: check_dnsmasq_def Let_def ds_def bindR_Inr_iff require_all_Inr require_that_Inr)
  also have "\<dots> \<longleftrightarrow> fst ` set ds = fst ` set DNSMASQ_EXPECTED \<and>
      (\<forall>key \<in> fst ` set DNSMASQ_EXPECTED. values_of ds key = values_of DNSMASQ_EXPECTED key) \<and> \<not> contains (lit ''eth0'') s"
    using each expected(3) by auto
  also have "\<dots> \<longleftrightarrow> (\<forall>key. values_of ds key = values_of DNSMASQ_EXPECTED key) \<and> \<not> contains (lit ''eth0'') s"
    using keys_values [OF filled] keys_values [OF expected(1)] by (metis subsetI subset_antisym)
  finally show ?thesis by (simp add: vs)
qed

end
