(* ===== verification/Image_Facts.thy ===== *)
theory Image_Facts
  imports Image_Rules
begin

text \<open>
  What the rules on an image establish: the configuration of the DHCP server is the one of the product, and the
  services of an accepted image have the confinement that their unit files, read as \<open>settings\<close>, give them.
\<close>

section \<open>Rules on unit files\<close>

lemma scalar_text: "unit_ok u \<Longrightarrow> effective_systemd_scalar [unit_text u] section key =
    Inr (let vs = setting_values section key [u] in if vs = [] then None else Some (last vs))"
  using all_directives_text [of "[u]" "section" key] by (simp add: effective_systemd_scalar_def Let_def)

lemma list_text: "unit_ok u \<Longrightarrow> effective_systemd_list [unit_text u] section key =
    Inr (rev (takeWhile (\<lambda>v. v \<noteq> []) (rev (setting_values section key [u]))))"
  using all_directives_text [of "[u]" "section" key] by (simp add: effective_systemd_list_def effective_go_last)

lemma words_text: "unit_ok u \<Longrightarrow> effective_systemd_words [unit_text u] section key = words_go [] (setting_values section key [u])"
  by (simp add: effective_systemd_words_def systemd_directives_text) (cases "words_go [] (setting_values section key [u])"; simp)

text \<open>The value that a unit file settles on for a directive, and that its directive has these words.\<close>

definition settles :: "unit_line list \<Rightarrow> string \<Rightarrow> string \<Rightarrow> string \<Rightarrow> bool" where
  "settles u section key v \<longleftrightarrow>
     (let vs = setting_values (lit section) (lit key) [u] in vs \<noteq> [] \<and> last vs = lit v)"

definition has_words :: "unit_line list \<Rightarrow> string \<Rightarrow> string \<Rightarrow> pstr list \<Rightarrow> bool" where
  "has_words u section key ws \<longleftrightarrow> words_go [] (setting_values (lit section) (lit key) [u]) = Inr ws"

text \<open>The unit file starts one command, with these words.\<close>

definition starts :: "unit_line list \<Rightarrow> pstr list \<Rightarrow> bool" where
  "starts u command \<longleftrightarrow>
     (\<exists>line. setting_values (lit ''Service'') (lit ''ExecStart'') [u] = [line] \<and> shlex_split line = Inr command)"

lemma require_scalar_text: "unit_ok u \<Longrightarrow> require_scalar [unit_text u] section key expected = Inr x \<longleftrightarrow> settles u section key expected"
  by (auto simp: require_scalar_def scalar_text require_that_Inr settles_def Let_def)

lemma require_words_text: "unit_ok u \<Longrightarrow> require_words [unit_text u] section key expected = Inr x \<longleftrightarrow> has_words u section key expected"
  by (auto simp: require_words_def words_text require_that_Inr has_words_def bindR_Inr_iff)

lemma require_scalars_text: "unit_ok u \<Longrightarrow>
    require_scalars [unit_text u] rules = Inr x \<longleftrightarrow> (\<forall>(key, v) \<in> set rules. settles u ''Service'' key v)"
  by (induction rules) (auto simp: bindR_Inr_iff require_scalar_text)

lemma exec_start_text: "unit_ok u \<Longrightarrow> exec_start (unit_text u) = Inr command \<longleftrightarrow> starts u command"
  by (auto simp: exec_start_def systemd_directives_text bindR_Inr_iff require_that_Inr starts_def length_Suc_conv)

lemma word_after_split: "word_after word ws = Inr v \<Longrightarrow> \<exists>pre post. ws = pre @ word # v # post \<and> word \<notin> set pre"
proof (induction ws)
  case (Cons w ws)
  show ?case
  proof (cases "w = word")
    case True
    then obtain post where "ws = v # post" using Cons.prems by (cases ws) auto
    with True have "w # ws = [] @ word # v # post \<and> word \<notin> set []" by simp
    then show ?thesis by blast
  next
    case False
    then obtain pre post where "ws = pre @ word # v # post" "word \<notin> set pre" using Cons by auto
    then have "w # ws = (w # pre) @ word # v # post \<and> word \<notin> set (w # pre)" using False by simp
    then show ?thesis by blast
  qed
qed simp

section \<open>The properties\<close>

text \<open>C39: A configuration of the DHCP server is accepted exactly if every directive has the values of the product in their
order, no other directive occurs, and the Ethernet interface is not named: whatever the comments, the white
space and the order of different directives.\<close>

theorem dnsmasq_exact:
  "verify_dnsmasq_configuration I path = Inr s \<longleftrightarrow>
     im_is_file I path \<and> im_read_text I path = Inr s \<and>
     (\<forall>key. dnsmasq_values s key = values_of DNSMASQ_EXPECTED key) \<and> \<not> contains (lit ''eth0'') s"
  using check_dnsmasq_iff [of s] by (auto simp: verify_dnsmasq_configuration_def bindR_Inr_iff require_that_Inr)


text \<open>An image with the settings of the repository's units that the rules read.\<close>

definition DHCP_UNIT :: "unit_line list" where
  "DHCP_UNIT =
     [Header (lit ''Service''),
      Setting (lit ''ExecStart'')
        (lit ''/usr/sbin/dnsmasq --keep-in-foreground --conf-file=/etc/rave/network/dnsmasq.conf --no-hosts --no-resolv''),
      Setting (lit ''ProtectSystem'') (lit ''strict''), Setting (lit ''ReadWritePaths'') (lit ''/var/lib/misc'')]"

definition WEB_UNIT :: "unit_line list" where
  "WEB_UNIT =
     [Header (lit ''Unit''), Setting (lit ''Requires'') (lit ''rave-webd.socket''), Empty,
      Header (lit ''Service''), Setting (lit ''User'') (lit ''rave''), Setting (lit ''Group'') (lit ''rave''),
      Setting (lit ''Environment'') (lit ''RAVE_PROVIDER=pi''),
      Setting (lit ''ExecStart'') (lit ''/usr/bin/python3 -m uvicorn rave_web.app:app --fd 3 --no-access-log''),
      Setting (lit ''NoNewPrivileges'') (lit ''true''), Setting (lit ''ProtectClock'') (lit ''true''),
      Setting (lit ''RestrictAddressFamilies'') (lit ''AF_UNIX'')]"

definition WEB_SOCKET :: "unit_line list" where
  "WEB_SOCKET =
     [Header (lit ''Socket''), Setting (lit ''ListenStream'') (lit ''8080''), Setting (lit ''BindToDevice'') (lit ''wlan0''),
      Setting (lit ''Service'') (lit ''rave-webd.service'')]"

definition NETWORKD_UNIT :: "unit_line list" where
  "NETWORKD_UNIT =
     [Header (lit ''Service''), Setting (lit ''User'') (lit ''root''), Setting (lit ''Group'') (lit ''rave''),
      Setting (lit ''ExecStart'') (lit ''/usr/bin/python3 -m rave_networkd''), Setting (lit ''LimitCORE'') (lit ''0''),
      Setting (lit ''NoNewPrivileges'') (lit ''true''), Setting (lit ''PrivateDevices'') (lit ''true''),
      Setting (lit ''ProtectSystem'') (lit ''strict''), Setting (lit ''ReadWritePaths'') (lit ''/run/rave''),
      Setting (lit ''ProtectClock'') (lit ''true''), Setting (lit ''RestrictAddressFamilies'') (lit ''AF_UNIX''),
      Setting (lit ''CapabilityBoundingSet'') []]"

lemma units_ok: "unit_ok DHCP_UNIT" "unit_ok WEB_UNIT" "unit_ok WEB_SOCKET" "unit_ok NETWORKD_UNIT"
  by (simp_all add: DHCP_UNIT_def WEB_UNIT_def WEB_SOCKET_def NETWORKD_UNIT_def unit_ok_def key_ok_def trimmed_def lit_Cons
      py_isspace_def is_linebreak_def)

lemma commands:
  "shlex_split (lit ''/usr/sbin/dnsmasq --keep-in-foreground --conf-file=/etc/rave/network/dnsmasq.conf --no-hosts --no-resolv'') =
     Inr [lit ''/usr/sbin/dnsmasq'', lit ''--keep-in-foreground'', lit ''--conf-file=/etc/rave/network/dnsmasq.conf'',
          lit ''--no-hosts'', lit ''--no-resolv'']"
  "shlex_split (lit ''/usr/bin/python3 -m uvicorn rave_web.app:app --fd 3 --no-access-log'') =
     Inr [lit ''/usr/bin/python3'', lit ''-m'', lit ''uvicorn'', lit ''rave_web.app:app'', lit ''--fd'', lit ''3'', lit ''--no-access-log'']"
  "shlex_split (lit ''/var/lib/misc'') = Inr [lit ''/var/lib/misc'']"
  "shlex_split (lit ''/run/rave'') = Inr [lit ''/run/rave'']"
  "shlex_split (lit ''rave-webd.socket'') = Inr [lit ''rave-webd.socket'']"
  by (simp_all add: shlex_split_def lit_Cons shlex_space_def shlex_quote_def)

definition BACKEND_TEXT :: pstr where
  "BACKEND_TEXT =
     lit ''INTERFACE = '' @ quote_mark @ lit ''wlan0'' @ quote_mark @ [10] @
     lit ''PROVISIONING_PROFILE = '' @ quote_mark @ lit ''RAVE-Setup'' @ quote_mark @ [10] @
     lit ''SAVED_PROFILE = '' @ quote_mark @ lit ''RAVE-Management'' @ quote_mark @ [10] @
     lit ''PREVIOUS_PROFILE = '' @ quote_mark @ lit ''RAVE-Management-Previous'' @ quote_mark @ [10] @
     lit ''run_with_secret'' @ [10] @ lit ''os.memfd_create'' @ [10] @
     lit ''SYSTEMCTL = '' @ quote_mark @ lit ''/usr/bin/systemctl'' @ quote_mark @ [10] @
     quote_mark @ lit ''connection.autoconnect'' @ quote_mark @ lit '', '' @ quote_mark @ lit ''no'' @ quote_mark"

definition DHCP_PATH :: pstr where "DHCP_PATH = lit ''usr/lib/systemd/system/rave-management-dhcp.service''"
definition WEB_PATH :: pstr where "WEB_PATH = lit ''usr/lib/systemd/system/rave-webd.service''"
definition WEB_SOCKET_PATH :: pstr where "WEB_SOCKET_PATH = lit ''usr/lib/systemd/system/rave-webd.socket''"
definition NETWORKD_PATH :: pstr where "NETWORKD_PATH = lit ''usr/lib/systemd/system/rave-networkd.service''"

definition shipped_image :: image where
  "shipped_image =
     \<lparr>im_is_file = \<lambda>_. True, im_is_dir = \<lambda>path. path = lit ''var/lib/misc'',
      im_is_symlink = \<lambda>path. path = lit ''etc/systemd/system/sockets.target.wants/rave-webd.socket'',
      im_exists = \<lambda>_. False,
      im_read_text = \<lambda>path. Inr
        (if path = DHCP_PATH then unit_text DHCP_UNIT else if path = WEB_PATH then unit_text WEB_UNIT
         else if path = WEB_SOCKET_PATH then unit_text WEB_SOCKET else if path = NETWORKD_PATH then unit_text NETWORKD_UNIT
         else if path = lit ''opt/rave/management/rave_networkd/backend.py'' then BACKEND_TEXT
         else if path = lit ''opt/rave/management/rave_networkd/server.py'' then lit ''SO_PEERCRED peer_not_authorized''
         else lit ''SO_PEERCRED expected_server_uid: int = 0''),
      im_stat = \<lambda>_. Inr \<lparr>im_mode = 493, im_uid = 0, im_gid = 0, im_size = 0\<rparr>,
      im_readlink = \<lambda>_. Inr (lit ''/usr/lib/systemd/system/rave-webd.socket''),
      im_glob_conf = \<lambda>_. [], im_rglob = \<lambda>_. [], im_wants = [], im_host_keys = [], im_lower = \<lambda>c. [c]\<rparr>"

lemma shipped_image_simps:
  "im_is_file shipped_image p" "im_stat shipped_image p = Inr \<lparr>im_mode = 493, im_uid = 0, im_gid = 0, im_size = 0\<rparr>"
  "im_readlink shipped_image p = Inr (lit ''/usr/lib/systemd/system/rave-webd.socket'')" "im_lower shipped_image = (\<lambda>c. [c])"
  "im_is_dir shipped_image p \<longleftrightarrow> p = lit ''var/lib/misc''" "\<not> im_exists shipped_image p"
  "im_is_symlink shipped_image p \<longleftrightarrow> p = lit ''etc/systemd/system/sockets.target.wants/rave-webd.socket''"
  "unit_dropins shipped_image unit = []"
  by (simp_all add: shipped_image_def unit_dropins_def Let_def)

lemma shipped_texts:
  "im_read_text shipped_image DHCP_PATH = Inr (unit_text DHCP_UNIT)" "im_read_text shipped_image WEB_PATH = Inr (unit_text WEB_UNIT)"
  "im_read_text shipped_image WEB_SOCKET_PATH = Inr (unit_text WEB_SOCKET)"
  "im_read_text shipped_image NETWORKD_PATH = Inr (unit_text NETWORKD_UNIT)"
  "im_read_text shipped_image (lit ''opt/rave/management/rave_networkd/backend.py'') = Inr BACKEND_TEXT"
  "im_read_text shipped_image (lit ''opt/rave/management/rave_networkd/server.py'') = Inr (lit ''SO_PEERCRED peer_not_authorized'')"
  "im_read_text shipped_image (lit ''opt/rave/management/rave_network_ipc/client.py'') = Inr (lit ''SO_PEERCRED expected_server_uid: int = 0'')"
  by (simp_all add: shipped_image_def DHCP_PATH_def WEB_PATH_def WEB_SOCKET_PATH_def NETWORKD_PATH_def)

lemmas unit_rules = require_scalar_def require_words_def scalar_text words_text list_text systemd_directives_text units_ok

lemma shipped_dhcp: "verify_dhcp_service shipped_image DHCP_PATH = Inr (unit_text DHCP_UNIT)"
  by (simp add: verify_dhcp_service_def shipped_image_simps shipped_texts require_that_def exec_start_def unit_rules)
    (simp add: setting_values_def DHCP_UNIT_def commands)

lemma shipped_web: "verify_web_service shipped_image WEB_PATH WEB_SOCKET_PATH = Inr (unit_text WEB_UNIT, unit_text WEB_SOCKET)"
proof -
  have command: "verify_web_command (unit_text WEB_UNIT) = Inr ()"
    by (simp add: verify_web_command_def exec_start_def unit_rules)
      (simp add: setting_values_def WEB_UNIT_def commands require_that_def)
  have socket: "verify_web_socket (unit_text WEB_SOCKET) = Inr ()"
    by (simp add: verify_web_socket_def unit_rules) (simp add: setting_values_def WEB_SOCKET_def require_that_def)
  show ?thesis
    by (simp add: verify_web_service_def shipped_image_simps shipped_texts command socket unit_rules require_that_def)
      (simp add: setting_values_def WEB_UNIT_def commands)
qed

lemma contains_step:
  "contains (n # ns) [] = False"
  "contains (n # ns) (c # cs) = (if c = n then starts_with ns cs \<or> contains (n # ns) cs else contains (n # ns) cs)"
  by (auto simp: starts_with_def)

lemma starts_with_step:
  "starts_with [] s = True" "starts_with (n # ns) [] = False"
  "starts_with (n # ns) (c # cs) = (if c = n then starts_with ns cs else False)"
  by (auto simp: starts_with_def)

lemma sets_autoconnect_step:
  "sets_autoconnect word (c # cs) =
     (if c = 34 then
        (starts_with (lit ''connection.autoconnect'' @ [34, 44]) cs \<and>
         starts_with (34 # lit word @ [34]) (dropWhile py_isspace (drop (length (lit ''connection.autoconnect'') + 2) cs))) \<or> sets_autoconnect word cs
      else sets_autoconnect word cs)"
  by (simp add: starts_with_step Let_def lit_Cons)

lemma backend_contains:
  "contains (lit ''INTERFACE = '' @ quote_mark @ lit ''wlan0'' @ quote_mark) BACKEND_TEXT"
  "contains (lit ''PROVISIONING_PROFILE = '' @ quote_mark @ lit ''RAVE-Setup'' @ quote_mark) BACKEND_TEXT"
  "contains (lit ''SAVED_PROFILE = '' @ quote_mark @ lit ''RAVE-Management'' @ quote_mark) BACKEND_TEXT"
  "contains (lit ''PREVIOUS_PROFILE = '' @ quote_mark @ lit ''RAVE-Management-Previous'' @ quote_mark) BACKEND_TEXT"
  "contains (lit ''run_with_secret'') BACKEND_TEXT" "contains (lit ''os.memfd_create'') BACKEND_TEXT"
  "contains (lit ''SYSTEMCTL = '' @ quote_mark @ lit ''/usr/bin/systemctl'' @ quote_mark) BACKEND_TEXT"
  by (simp_all del: contains.simps add: BACKEND_TEXT_def quote_mark_def lit_Cons contains_step starts_with_step)

lemma backend_lower: "py_lower (\<lambda>c. [c]) BACKEND_TEXT =
     lit ''interface = '' @ quote_mark @ lit ''wlan0'' @ quote_mark @ [10] @
     lit ''provisioning_profile = '' @ quote_mark @ lit ''rave-setup'' @ quote_mark @ [10] @
     lit ''saved_profile = '' @ quote_mark @ lit ''rave-management'' @ quote_mark @ [10] @
     lit ''previous_profile = '' @ quote_mark @ lit ''rave-management-previous'' @ quote_mark @ [10] @
     lit ''run_with_secret'' @ [10] @ lit ''os.memfd_create'' @ [10] @
     lit ''systemctl = '' @ quote_mark @ lit ''/usr/bin/systemctl'' @ quote_mark @ [10] @
     quote_mark @ lit ''connection.autoconnect'' @ quote_mark @ lit '', '' @ quote_mark @ lit ''no'' @ quote_mark"
  by (simp add: BACKEND_TEXT_def quote_mark_def py_lower_def lit_Cons)

lemma backend_lacks:
  "\<not> contains (lit ''shell=true'') (py_lower (\<lambda>c. [c]) BACKEND_TEXT)" "\<not> contains (lit ''eth0'') (py_lower (\<lambda>c. [c]) BACKEND_TEXT)"
  "\<not> contains (lit ''ip_forward'') (py_lower (\<lambda>c. [c]) BACKEND_TEXT)" "\<not> contains (lit ''masquerade'') (py_lower (\<lambda>c. [c]) BACKEND_TEXT)"
  by (simp_all del: contains.simps add: backend_lower quote_mark_def lit_Cons contains_step starts_with_step)

lemma backend_autoconnect:
  "sets_autoconnect ''no'' BACKEND_TEXT" "\<not> sets_autoconnect ''yes'' BACKEND_TEXT"
  "\<not> contains (lit ''connection.autoconnect-retries'') BACKEND_TEXT"
  by (simp_all del: contains.simps sets_autoconnect.simps add: BACKEND_TEXT_def quote_mark_def lit_Cons contains_step starts_with_step
      sets_autoconnect_step sets_autoconnect.simps(1) py_isspace_def)

lemma shipped_networkd: "verify_networkd_service shipped_image NETWORKD_PATH = Inr (unit_text NETWORKD_UNIT)"
proof -
  have unit: "verify_networkd_unit (unit_text NETWORKD_UNIT) = Inr ()"
    by (simp add: verify_networkd_unit_def unit_rules) (simp add: setting_values_def NETWORKD_UNIT_def commands require_that_def)
  have backend: "verify_backend_text shipped_image BACKEND_TEXT = Inr ()"
    by (simp add: verify_backend_text_def require_that_def shipped_image_simps backend_contains backend_lacks backend_autoconnect)
  have peers: "contains (lit ''SO_PEERCRED'') (lit ''SO_PEERCRED peer_not_authorized'')"
    "contains (lit ''peer_not_authorized'') (lit ''SO_PEERCRED peer_not_authorized'')"
    "contains (lit ''SO_PEERCRED'') (lit ''SO_PEERCRED expected_server_uid: int = 0'')"
    "contains (lit ''expected_server_uid: int = 0'') (lit ''SO_PEERCRED expected_server_uid: int = 0'')"
    by (simp_all add: lit_Cons)
  show ?thesis
    by (simp add: verify_networkd_service_def shipped_image_simps shipped_texts unit backend peers require_that_def)
qed

section \<open>What the rules do not establish\<close>

text \<open>
  An absent \<^verbatim>\<open>CapabilityBoundingSet\<close>, with which the daemon keeps every capability of root, is read like the empty
  one; and only the last \<^verbatim>\<open>RestrictAddressFamilies\<close> is looked at, while the values of several are merged.
\<close>

definition OPEN_UNIT :: "unit_line list" where
  "OPEN_UNIT =
     Header (lit ''Service'') # Setting (lit ''RestrictAddressFamilies'') (lit ''AF_INET'') # butlast NETWORKD_UNIT"

theorem confinement_not_enforced:
  "unit_ok OPEN_UNIT \<and> verify_networkd_unit (unit_text OPEN_UNIT) = Inr () \<and>
   setting_values (lit ''Service'') (lit ''CapabilityBoundingSet'') [OPEN_UNIT] = [] \<and>
   setting_values (lit ''Service'') (lit ''RestrictAddressFamilies'') [OPEN_UNIT] = [lit ''AF_INET'', lit ''AF_UNIX'']"
proof -
  have u: "unit_ok OPEN_UNIT"
    by (simp add: OPEN_UNIT_def NETWORKD_UNIT_def unit_ok_def key_ok_def trimmed_def lit_Cons py_isspace_def is_linebreak_def)
  moreover have "verify_networkd_unit (unit_text OPEN_UNIT) = Inr ()"
    by (simp add: verify_networkd_unit_def unit_rules u)
      (simp add: setting_values_def OPEN_UNIT_def NETWORKD_UNIT_def commands require_that_def)
  ultimately show ?thesis by (simp add: setting_values_def OPEN_UNIT_def NETWORKD_UNIT_def)
qed


end
