(* ===== verification/Image_Ssh.thy ===== *)
theory Image_Ssh
  imports Image_Facts Ssh_Key
begin

text \<open>
  The rules of \<^verbatim>\<open>scripts/verify_rave_image.py\<close> for the engineering access over SSH,
  \<^verbatim>\<open>verify_engineering_ethernet_ssh\<close>: the packages and files, the socket, what is enabled, the keys of the host, the policy
  of the server, the account, the key and the dependencies, in the order of the code. SHA-256 and the Unicode tables are parameters.
\<close>

section \<open>Packages and files\<close>

definition SSH_SOCKET_UNIT :: pstr where "SSH_SOCKET_UNIT = lit ''usr/lib/systemd/system/ssh.socket''"
definition SSH_SERVICE_UNIT :: pstr where "SSH_SERVICE_UNIT = lit ''usr/lib/systemd/system/ssh.service''"
definition KEYGEN_UNIT :: pstr where "KEYGEN_UNIT = lit ''usr/lib/systemd/system/sshd-keygen.service''"
definition HOSTKEYS_UNIT :: pstr where "HOSTKEYS_UNIT = lit ''usr/lib/systemd/system/rave-engineering-ssh-hostkeys.service''"
definition SERVICE_DROPIN :: pstr where "SERVICE_DROPIN = lit ''etc/systemd/system/ssh.service.d/90-rave-hostkeys.conf''"
definition SOCKET_DROPIN :: pstr where "SOCKET_DROPIN = lit ''etc/systemd/system/ssh.socket.d/90-rave-ethernet.conf''"

definition verify_ssh_packages :: "image \<Rightarrow> exn + unit" where
  "verify_ssh_packages I =
     bindR (if im_is_file I (lit ''etc/machine-id'') then bindR (im_stat I (lit ''etc/machine-id'')) (\<lambda>info. Inr (im_size info = 0))
            else Inr False) (\<lambda>fresh.
     bindR (require_that fresh ''engineering SSH host-key contract expects the clone-safe empty machine-id'') (\<lambda>_.
     bindR (im_read_text I (lit ''var/lib/dpkg/status'')) (\<lambda>status.
     require_all
       [(package_installed ''openssh-server'' status, ''missing engineering SSH package''),
        (package_installed ''sudo'' status, ''missing engineering SSH package'')])))"

definition verify_ssh_files :: "image \<Rightarrow> exn + unit" where
  "verify_ssh_files I = require_all
     [(im_is_file I SSH_SOCKET_UNIT, ''openssh-server ssh.socket is missing''),
      (im_is_file I SSH_SERVICE_UNIT, ''openssh-server ssh.service is missing''),
      (im_is_file I KEYGEN_UNIT, ''Debian first-boot SSH host-key generator is missing''),
      (im_is_file I HOSTKEYS_UNIT, ''RAVE engineering SSH host-key service is missing''),
      (im_is_file I (lit ''usr/sbin/sshd''), ''openssh-server daemon binary is missing''),
      (im_is_file I (lit ''usr/bin/sudo''), ''sudo executable is missing''),
      (unit_dropins I (lit ''ssh.service'') = [SERVICE_DROPIN],
       ''unexpected ssh.service drop-ins obscure the engineering SSH contract''),
      (unit_dropins I (lit ''rave-engineering-ssh-hostkeys.service'') = [],
       ''unexpected rave-engineering-ssh-hostkeys.service drop-ins obscure the engineering SSH contract'')]"

section \<open>The socket\<close>

definition HOSTKEYS_NAME :: pstr where "HOSTKEYS_NAME = lit ''rave-engineering-ssh-hostkeys.service''"

definition verify_service_dropin :: "image \<Rightarrow> exn + pstr" where
  "verify_service_dropin I =
     bindR (im_read_text I SERVICE_DROPIN) (\<lambda>dropin.
     bindR (require_words [dropin] ''Unit'' ''Requires'' [HOSTKEYS_NAME]) (\<lambda>_.
     bindR (require_words [dropin] ''Unit'' ''After'' [HOSTKEYS_NAME]) (\<lambda>_. Inr dropin)))"

text \<open>The result is the text of the socket unit and of its drop-in.\<close>

definition verify_ssh_socket :: "image \<Rightarrow> exn + pstr list" where
  "verify_ssh_socket I =
     bindR (require_all
       [(im_is_file I SOCKET_DROPIN, ''engineering SSH socket override is missing''),
        (unit_dropins I (lit ''ssh.socket'') = [SOCKET_DROPIN], ''unexpected SSH socket drop-ins obscure listener policy'')]) (\<lambda>_.
     bindR (im_read_text I SOCKET_DROPIN) (\<lambda>dropin.
     bindR (require_that (\<not> contains HOSTKEYS_NAME dropin) ''ssh.socket incorrectly depends on the normal host-key service'') (\<lambda>_.
     bindR (im_read_text I SSH_SOCKET_UNIT) (\<lambda>unit.
     bindR (effective_systemd_list [unit, dropin] (lit ''Socket'') (lit ''ListenStream'')) (\<lambda>streams.
     bindR (require_that (streams = [lit ''10.77.0.1:22''])
       ''engineering SSH socket does not reset the wildcard and bind only 10.77.0.1:22'') (\<lambda>_.
     bindR (require_scalar [unit, dropin] ''Socket'' ''FreeBind'' ''yes'') (\<lambda>_.
     bindR (effective_systemd_scalar [unit, dropin] (lit ''Socket'') (lit ''BindToDevice'')) (\<lambda>device.
     bindR (require_that (device = None \<or> device = Some [])
       ''engineering SSH socket has device-lifetime coupling through BindToDevice'') (\<lambda>_.
     Inr [unit, dropin])))))))))"

text \<open>\<^verbatim>\<open>Path(s).name\<close>\<close>

definition path_name :: "pstr \<Rightarrow> pstr" where
  "path_name s =
     (case rev (filter (\<lambda>part. part \<noteq> [] \<and> part \<noteq> [46]) (py_split_char 47 [] s)) of [] \<Rightarrow> [] | name # _ \<Rightarrow> name)"

fun direct_services :: "image \<Rightarrow> pstr list \<Rightarrow> exn + pstr list" where
  "direct_services I [] = Inr []"
| "direct_services I (path # paths) =
     (if im_is_symlink I path then
        bindR (im_readlink I path) (\<lambda>target.
        bindR (direct_services I paths) (\<lambda>rest.
          Inr (if path_name target \<in> {lit ''ssh.service'', lit ''sshd.service''} then path # rest else rest)))
      else direct_services I paths)"

definition ssh_sockets :: "image \<Rightarrow> pstr list" where
  "ssh_sockets I =
     map path_name (filter (\<lambda>path. im_is_symlink I path \<and> starts_with (lit ''ssh'') (path_name path) \<and>
       starts_with (rev (lit ''.socket'')) (rev (path_name path))) (im_wants I))"

definition ENABLED_SOCKET :: pstr where "ENABLED_SOCKET = lit ''etc/systemd/system/sockets.target.wants/ssh.socket''"

definition verify_ssh_enablement :: "image \<Rightarrow> exn + unit" where
  "verify_ssh_enablement I =
     bindR (require_that (im_is_symlink I ENABLED_SOCKET) ''ssh.socket is not enabled at boot'') (\<lambda>_.
     bindR (im_readlink I ENABLED_SOCKET) (\<lambda>target.
     bindR (require_that (target = lit ''/usr/lib/systemd/system/ssh.socket'') ''unexpected ssh.socket enablement target'') (\<lambda>_.
     bindR (direct_services I (im_wants I)) (\<lambda>services.
     require_all
       [(services = [], ''ssh.service is directly enabled for normal boot''),
        (sort (ssh_sockets I) = [lit ''ssh.socket''], ''unexpected enabled SSH sockets''),
        (\<forall>want \<in> {lit ''etc/systemd/system/ssh.socket.wants/sshd-keygen.service'',
                    lit ''etc/systemd/system/ssh.service.wants/sshd-keygen.service''}.
           \<not> im_exists I want \<and> \<not> im_is_symlink I want, ''SSH has a competing conditional host-key generator'')]))))"

section \<open>The keys of the host\<close>

definition active_texts :: "pstr \<Rightarrow> pstr list" where
  "active_texts s =
     map py_strip (filter (\<lambda>line. py_strip line \<noteq> [] \<and> \<not> starts_with [35] (lstrip_by py_isspace line)) (py_splitlines s))"

text \<open>The result is the text of the unit that generates them.\<close>

definition verify_ssh_hostkeys :: "image \<Rightarrow> exn + pstr" where
  "verify_ssh_hostkeys I =
     bindR (im_read_text I KEYGEN_UNIT) (\<lambda>keygen.
     bindR (require_all (map (\<lambda>expected. (contains expected keygen, ''invalid Debian first-boot SSH host-key contract''))
       [lit ''ConditionFirstBoot=yes'', lit ''ConditionPathIsReadWrite=/etc/ssh'',
        lit ''Before=ssh.service sshd.service sshd@.service'', lit ''ExecStart=ssh-keygen -A'',
        lit ''WantedBy=ssh.service sshd.service sshd@.service ssh.socket''])) (\<lambda>_.
     bindR (im_read_text I HOSTKEYS_UNIT) (\<lambda>hostkeys.
     bindR (require_all (map (\<lambda>expected. (expected \<in> set (py_splitlines hostkeys), ''invalid RAVE SSH host-key service''))
       [lit ''Before=ssh.service'', lit ''Type=oneshot'', lit ''ExecStart=/usr/bin/ssh-keygen -A'', lit ''RemainAfterExit=yes''])) (\<lambda>_.
     bindR (require_that (\<not> (\<exists>line \<in> set (active_texts hostkeys). starts_with (lit ''Condition'') line))
       ''RAVE SSH host-key generation must not be conditionally skipped'') (\<lambda>_.
     bindR (im_read_text I SSH_SERVICE_UNIT) (\<lambda>service.
     bindR (require_that (contains (lit ''ExecStartPre=/usr/sbin/sshd -t'') service)
       ''socket-activated ssh.service does not validate host keys before starting'') (\<lambda>_.
     bindR (require_that (im_host_keys I = []) ''SSH host private key is baked into image'') (\<lambda>_.
     Inr hostkeys))))))))"

section \<open>The policy of the server\<close>

definition REQUIRED_POLICY :: "pstr list" where
  "REQUIRED_POLICY =
     [lit ''PubkeyAuthentication yes'', lit ''PasswordAuthentication no'', lit ''KbdInteractiveAuthentication no'',
      lit ''ChallengeResponseAuthentication no'', lit ''PermitEmptyPasswords no'', lit ''PermitRootLogin no'',
      lit ''AllowUsers pi'', lit ''AllowTcpForwarding no'', lit ''GatewayPorts no'', lit ''X11Forwarding no'',
      lit ''PermitTunnel no'', lit ''AllowAgentForwarding no'']"

definition FORBIDDEN_POLICY :: "pstr list" where
  "FORBIDDEN_POLICY =
     [lit ''PasswordAuthentication yes'', lit ''KbdInteractiveAuthentication yes'', lit ''ChallengeResponseAuthentication yes'',
      lit ''PermitRootLogin yes'', lit ''AllowUsers root'']"

fun read_files :: "image \<Rightarrow> pstr list \<Rightarrow> exn + pstr list" where
  "read_files I [] = Inr []"
| "read_files I (path # paths) =
     (if im_is_file I path
      then bindR (im_read_text I path) (\<lambda>s. bindR (read_files I paths) (\<lambda>rest. Inr (s # rest)))
      else read_files I paths)"

fun py_join :: "pstr \<Rightarrow> pstr list \<Rightarrow> pstr" where
  "py_join sep [] = []"
| "py_join sep [s] = s"
| "py_join sep (s # ss) = s @ sep @ py_join sep ss"

definition listens :: "image \<Rightarrow> pstr \<Rightarrow> bool" where
  "listens I line \<longleftrightarrow>
     starts_with (lit ''listenaddress '') (py_lower (im_lower I) (py_join [32] (py_split (length line) line)))"

definition verify_sshd_policy :: "image \<Rightarrow> exn + pstr" where
  "verify_sshd_policy I =
     bindR (require_that (im_is_file I (lit ''etc/ssh/sshd_config.d/90-rave-ethernet.conf'')) ''engineering sshd policy is missing'') (\<lambda>_.
     bindR (im_read_text I (lit ''etc/ssh/sshd_config.d/90-rave-ethernet.conf'')) (\<lambda>policy.
     bindR (im_read_text I (lit ''etc/ssh/sshd_config'')) (\<lambda>main_config.
     bindR (require_that (lit ''Include /etc/ssh/sshd_config.d/*.conf'' \<in> set (py_splitlines main_config))
       ''sshd does not include the engineering policy drop-in'') (\<lambda>_.
     bindR (require_all (map (\<lambda>expected. (expected \<in> set (py_splitlines policy), ''missing engineering sshd policy'')) REQUIRED_POLICY)) (\<lambda>_.
     bindR (require_all (map (\<lambda>forbidden. (\<not> contains forbidden policy, ''unsafe engineering sshd policy'')) FORBIDDEN_POLICY)) (\<lambda>_.
     bindR (read_files I (lit ''etc/ssh/sshd_config'' #
         map (\<lambda>name. lit ''etc/ssh/sshd_config.d/'' @ name) (sort (im_glob_conf I (lit ''etc/ssh/sshd_config.d''))))) (\<lambda>texts.
     bindR (require_all (map (\<lambda>line. (\<not> listens I line,
         ''sshd listener policy must remain owned exclusively by ssh.socket'')) (active_texts (py_join [10] texts)))) (\<lambda>_.
     Inr policy))))))))"

section \<open>The account\<close>

text \<open>The lines of a table of accounts that have enough fields, by their first field; the last one of a name counts.\<close>

definition account_table :: "nat \<Rightarrow> pstr \<Rightarrow> (pstr \<times> pstr list) list" where
  "account_table n s =
     rev (map (\<lambda>fields. (hd fields, fields)) (filter (\<lambda>fields. n \<le> length fields) (map (py_split_char 58 []) (py_splitlines s))))"

definition KEY_PATH :: pstr where "KEY_PATH = lit ''home/pi/.ssh/authorized_keys''"
definition KEY_DIRECTORY :: pstr where "KEY_DIRECTORY = lit ''home/pi/.ssh''"
definition SUDOERS_PATH :: pstr where "SUDOERS_PATH = lit ''etc/sudoers.d/90-rave-engineering-ssh''"

text \<open>The fields of the account in the table of users.\<close>

definition verify_account :: "image \<Rightarrow> exn + pstr list" where
  "verify_account I =
     bindR (im_read_text I (lit ''etc/passwd'')) (\<lambda>passwd.
     bindR (im_read_text I (lit ''etc/shadow'')) (\<lambda>shadow.
     case (map_of (account_table 7 passwd) (lit ''pi''), map_of (account_table 2 shadow) (lit ''pi'')) of
       (Some user, Some secret) \<Rightarrow>
         bindR (require_all
           [(has_usable_shadow_password (secret ! 1), ''pi must have a usable local console password''),
            (user ! 6 \<notin> {lit ''/usr/sbin/nologin'', lit ''/bin/false''}, ''pi has no administrative shell'')]) (\<lambda>_.
         Inr user)
     | _ \<Rightarrow> Inl (verification_error ''pi engineering account is missing'')))"

fun is_public_key_error :: "exn \<Rightarrow> bool" where
  "is_public_key_error (PublicKeyError _) = True"
| "is_public_key_error _ = False"

definition owned_as :: "image_stat \<Rightarrow> nat \<Rightarrow> int \<Rightarrow> int \<Rightarrow> bool" where
  "owned_as info mode uid gid \<longleftrightarrow> im_mode info = mode \<and> im_uid info = uid \<and> im_gid info = gid"

definition verify_authorized_key ::
  "'u ucd_scheme \<Rightarrow> (bytes \<Rightarrow> bytes) \<Rightarrow> image \<Rightarrow> pstr list \<Rightarrow> exn + engineering_public_key" where
  "verify_authorized_key U sha I user =
     bindR (require_that (im_is_file I KEY_PATH \<and> \<not> im_is_symlink I KEY_PATH) ''pi authorized_keys is missing'') (\<lambda>_.
     bindR (catchR (bindR (im_read_text I KEY_PATH) (parse_public_key sha)) is_public_key_error
       (verification_error ''invalid pi engineering authorized key'')) (\<lambda>key.
     bindR (py_int U 10 (user ! 2)) (\<lambda>uid.
     bindR (py_int U 10 (user ! 3)) (\<lambda>gid.
     bindR (im_stat I KEY_DIRECTORY) (\<lambda>directory_stat.
     bindR (im_stat I KEY_PATH) (\<lambda>key_stat.
     bindR (require_all
       [(owned_as directory_stat 0x1C0 uid gid, ''wrong pi .ssh mode/ownership''),
        (owned_as key_stat 0x180 uid gid, ''wrong pi authorized_keys mode/ownership'')]) (\<lambda>_.
     Inr key)))))))"

definition verify_sudo :: "'u ucd_scheme \<Rightarrow> image \<Rightarrow> pstr list \<Rightarrow> exn + unit" where
  "verify_sudo U I user =
     bindR (require_that (im_is_file I SUDOERS_PATH \<and> \<not> im_is_symlink I SUDOERS_PATH) ''engineering sudoers file is missing'') (\<lambda>_.
     bindR (im_read_text I SUDOERS_PATH) (\<lambda>sudoers.
     bindR (require_that (py_strip sudoers = lit ''pi ALL=(ALL:ALL) NOPASSWD: ALL'') ''engineering sudoers policy is not exact'') (\<lambda>_.
     bindR (im_stat I SUDOERS_PATH) (\<lambda>info.
     bindR (require_all
       [(owned_as info 0x120 0 0, ''wrong engineering sudoers mode/ownership''),
        (\<not> im_exists I (lit ''etc/sudoers.d/010_rpi-nopasswd''), ''builder-generated generic sudo policy is present'')]) (\<lambda>_.
     bindR (im_read_text I (lit ''etc/group'')) (\<lambda>groups.
     case map_of (account_table 4 groups) (lit ''sudo'') of
       None \<Rightarrow> Inl (verification_error ''sudo group is missing'')
     | Some sudo \<Rightarrow>
         bindR (require_that (lit ''pi'' \<notin> set (filter (\<lambda>member. member \<noteq> []) (py_split_char 44 [] (sudo ! 3))))
           ''pi retains generic sudo-group membership'') (\<lambda>_.
         bindR (py_int U 10 (user ! 3)) (\<lambda>gid.
         bindR (py_int U 10 (sudo ! 2)) (\<lambda>sudo_gid.
         require_that (gid \<noteq> sudo_gid) ''sudo is pi's primary group'')))))))))"

section \<open>The dependencies\<close>

definition DEPENDENCY_KEYS :: "string list" where
  "DEPENDENCY_KEYS = [''Requires'', ''Wants'', ''After'', ''Before'', ''BindsTo'', ''PartOf'']"

definition FORBIDDEN_DEPENDENCIES :: "pstr list" where
  "FORBIDDEN_DEPENDENCIES =
     [lit ''rave-wifi-init.service'', lit ''rave-networkd.service'', lit ''rave-management-dhcp.service'',
      lit ''rave-webd.socket'', lit ''rave-webd.service'', lit ''NetworkManager.service'',
      lit ''NetworkManager-wait-online.service'', lit ''network-online.target'']"

definition is_device :: "pstr \<Rightarrow> bool" where
  "is_device target \<longleftrightarrow> starts_with (rev (lit ''.device'')) (rev target)"

fun verify_dependencies :: "pstr list list \<Rightarrow> exn + unit" where
  "verify_dependencies [] = Inr ()"
| "verify_dependencies (texts # units) =
     bindR (words_of_all texts (lit ''Unit'') DEPENDENCY_KEYS) (\<lambda>targets.
     bindR (require_all
       [(targets \<inter> set FORBIDDEN_DEPENDENCIES = {}, ''unit depends on the management stack''),
        (\<not> (\<exists>target \<in> targets. is_device target), ''unit has a device-lifetime dependency'')]) (\<lambda>_.
     verify_dependencies units))"

definition verify_engineering_ethernet_ssh :: "'u ucd_scheme \<Rightarrow> (bytes \<Rightarrow> bytes) \<Rightarrow> image \<Rightarrow> exn + pstr" where
  "verify_engineering_ethernet_ssh U sha I =
     bindR (verify_ssh_packages I) (\<lambda>_.
     bindR (verify_ssh_files I) (\<lambda>_.
     bindR (verify_service_dropin I) (\<lambda>service_dropin.
     bindR (verify_ssh_socket I) (\<lambda>socket_texts.
     bindR (verify_ssh_enablement I) (\<lambda>_.
     bindR (verify_ssh_hostkeys I) (\<lambda>hostkeys.
     bindR (verify_sshd_policy I) (\<lambda>_.
     bindR (verify_account I) (\<lambda>user.
     bindR (verify_authorized_key U sha I user) (\<lambda>key.
     bindR (verify_sudo U I user) (\<lambda>_.
     bindR (im_read_text I SSH_SERVICE_UNIT) (\<lambda>service.
     bindR (verify_dependencies [socket_texts, [service, service_dropin], [hostkeys]]) (\<lambda>_.
     Inr (fingerprint key)))))))))))))"

end
