(* ===== verification/Image_Sample.thy ===== *)
theory Image_Sample
  imports Image_Ssh
begin

text \<open>
  An image with the engineering access of the repository (the drop-ins and the host-key service of \<^verbatim>\<open>systemd/\<close>, the policy
  of \<^verbatim>\<open>image/overlays/etc/ssh\<close>), the sample key, and whatever further drop-ins for the SSH server; the rules are
  evaluated on it.
\<close>

section \<open>The files\<close>

definition SOCKET_FILES :: "unit_line list list" where
  "SOCKET_FILES =
     [[Header (lit ''Unit''), Setting (lit ''Description'') (lit ''OpenBSD Secure Shell server socket''),
       Header (lit ''Socket''), Setting (lit ''ListenStream'') (lit ''22''), Setting (lit ''Accept'') (lit ''no'')],
      [Header (lit ''Socket''), Setting (lit ''ListenStream'') [], Setting (lit ''ListenStream'') (lit ''10.77.0.1:22''),
       Setting (lit ''FreeBind'') (lit ''yes'')]]"

definition SERVICE_FILES :: "unit_line list list" where
  "SERVICE_FILES =
     [[Header (lit ''Unit''), Setting (lit ''After'') (lit ''network.target''),
       Header (lit ''Service''), Setting (lit ''ExecStartPre'') (lit ''/usr/sbin/sshd -t'')],
      [Header (lit ''Unit''), Setting (lit ''Requires'') (lit ''rave-engineering-ssh-hostkeys.service''),
       Setting (lit ''After'') (lit ''rave-engineering-ssh-hostkeys.service'')]]"

definition HOSTKEYS_FILE :: "unit_line list" where
  "HOSTKEYS_FILE =
     [Header (lit ''Unit''), Setting (lit ''Description'') (lit ''Generate per-device SSH host keys for RAVE engineering access''),
      Setting (lit ''Before'') (lit ''ssh.service''), Empty,
      Header (lit ''Service''), Setting (lit ''Type'') (lit ''oneshot''),
      Setting (lit ''ExecStart'') (lit ''/usr/bin/ssh-keygen -A''), Setting (lit ''RemainAfterExit'') (lit ''yes'')]"

definition lines_text :: "pstr list \<Rightarrow> pstr" where
  "lines_text ls = concat (map (\<lambda>l. l @ [10]) ls)"

lemma splitlines_text: "\<forall>l \<in> set ls. \<forall>c \<in> set l. \<not> is_linebreak c \<Longrightarrow> py_splitlines (lines_text ls) = ls"
  unfolding lines_text_def by (rule splitlines_unlines)

definition KEYGEN_TEXT :: pstr where
  "KEYGEN_TEXT = lines_text
     [lit ''ConditionFirstBoot=yes'', lit ''ConditionPathIsReadWrite=/etc/ssh'', lit ''Before=ssh.service sshd.service sshd@.service'',
      lit ''ExecStart=ssh-keygen -A'', lit ''WantedBy=ssh.service sshd.service sshd@.service ssh.socket'']"

definition POLICY_TEXT :: pstr where
  "POLICY_TEXT = lines_text
     (lit ''# Gate 2B engineering access only. This policy is not public-release qualified.'' # REQUIRED_POLICY)"

definition STATUS_TEXT :: pstr where
  "STATUS_TEXT = lines_text
     [lit ''Package: openssh-server'', lit ''Status: install ok installed'', [], lit ''Package: sudo'', lit ''Status: install ok installed'']"

definition POLICY_PATH :: pstr where "POLICY_PATH = lit ''etc/ssh/sshd_config.d/90-rave-ethernet.conf''"

definition image_files :: "(pstr \<times> pstr) list" where
  "image_files =
     [(lit ''etc/machine-id'', []), (lit ''var/lib/dpkg/status'', STATUS_TEXT),
      (SSH_SOCKET_UNIT, unit_text (SOCKET_FILES ! 0)), (SOCKET_DROPIN, unit_text (SOCKET_FILES ! 1)),
      (SSH_SERVICE_UNIT, unit_text (SERVICE_FILES ! 0)), (SERVICE_DROPIN, unit_text (SERVICE_FILES ! 1)),
      (KEYGEN_UNIT, KEYGEN_TEXT), (HOSTKEYS_UNIT, unit_text HOSTKEYS_FILE),
      (lit ''usr/sbin/sshd'', []), (lit ''usr/bin/sudo'', []),
      (POLICY_PATH, POLICY_TEXT), (lit ''etc/ssh/sshd_config'', lines_text [lit ''Include /etc/ssh/sshd_config.d/*.conf'']),
      (lit ''etc/passwd'', lines_text [lit ''pi:x:1000:1000::/home/pi:/bin/bash'']),
      (lit ''etc/shadow'', lines_text [lit ''pi:$6$salt$hash:19000:0:99999:7:::'']),
      (lit ''etc/group'', lines_text [lit ''sudo:x:27:'', lit ''pi:x:1000:'']),
      (KEY_PATH, SAMPLE_LINE), (SUDOERS_PATH, lines_text [lit ''pi ALL=(ALL:ALL) NOPASSWD: ALL''])]"

text \<open>The image, with a list of further files in \<^verbatim>\<open>etc/ssh/sshd_config.d\<close>.\<close>

definition SSHD_DROPINS :: pstr where "SSHD_DROPINS = lit ''etc/ssh/sshd_config.d''"

definition ssh_image :: "(pstr \<times> pstr) list \<Rightarrow> image" where
  "ssh_image extra =
     (let files = image_files @ map (\<lambda>(name, s). (SSHD_DROPINS @ lit ''/'' @ name, s)) extra in
      \<lparr>im_is_file = (\<lambda>p. map_of files p \<noteq> None),
       im_is_dir = (\<lambda>p. p \<in> {lit ''etc/systemd/system/ssh.service.d'', lit ''etc/systemd/system/ssh.socket.d''}),
       im_is_symlink = (\<lambda>p. p = ENABLED_SOCKET), im_exists = (\<lambda>p. p = ENABLED_SOCKET),
       im_read_text = (\<lambda>p. case map_of files p of None \<Rightarrow> Inl FileNotFoundError | Some s \<Rightarrow> Inr s),
       im_stat = (\<lambda>p. Inr
         (if p = KEY_DIRECTORY then \<lparr>im_mode = 0x1C0, im_uid = 1000, im_gid = 1000, im_size = 4096\<rparr>
          else if p = KEY_PATH then \<lparr>im_mode = 0x180, im_uid = 1000, im_gid = 1000, im_size = 90\<rparr>
          else \<lparr>im_mode = 0x120, im_uid = 0, im_gid = 0, im_size = 0\<rparr>)),
       im_readlink = (\<lambda>_. Inr (lit ''/usr/lib/systemd/system/ssh.socket'')),
       im_glob_conf = (\<lambda>p. if p = SSHD_DROPINS then lit ''90-rave-ethernet.conf'' # map fst extra
         else if p = lit ''etc/systemd/system/ssh.service.d'' then [lit ''90-rave-hostkeys.conf''] else [lit ''90-rave-ethernet.conf'']),
       im_rglob = (\<lambda>_. []), im_wants = [ENABLED_SOCKET], im_host_keys = [], im_lower = (\<lambda>c. [c])\<rparr>)"

lemmas path_defs = SSH_SOCKET_UNIT_def SOCKET_DROPIN_def SSH_SERVICE_UNIT_def SERVICE_DROPIN_def KEYGEN_UNIT_def HOSTKEYS_UNIT_def
  POLICY_PATH_def KEY_PATH_def KEY_DIRECTORY_def SUDOERS_PATH_def ENABLED_SOCKET_def SSHD_DROPINS_def

lemma sample_lookup:
  assumes "map_of image_files p = Some s"
  shows "im_is_file (ssh_image extra) p" "im_read_text (ssh_image extra) p = Inr s"
  using assms by (simp_all add: ssh_image_def map_add_Some_iff)

lemma sample_paths:
  "map_of image_files (lit ''etc/machine-id'') = Some []" "map_of image_files (lit ''var/lib/dpkg/status'') = Some STATUS_TEXT"
  "map_of image_files SSH_SOCKET_UNIT = Some (unit_text (SOCKET_FILES ! 0))" "map_of image_files SOCKET_DROPIN = Some (unit_text (SOCKET_FILES ! 1))"
  "map_of image_files SSH_SERVICE_UNIT = Some (unit_text (SERVICE_FILES ! 0))"
  "map_of image_files SERVICE_DROPIN = Some (unit_text (SERVICE_FILES ! 1))"
  "map_of image_files KEYGEN_UNIT = Some KEYGEN_TEXT" "map_of image_files HOSTKEYS_UNIT = Some (unit_text HOSTKEYS_FILE)"
  "map_of image_files (lit ''usr/sbin/sshd'') = Some []" "map_of image_files (lit ''usr/bin/sudo'') = Some []"
  "map_of image_files POLICY_PATH = Some POLICY_TEXT"
  "map_of image_files (lit ''etc/ssh/sshd_config'') = Some (lines_text [lit ''Include /etc/ssh/sshd_config.d/*.conf''])"
  "map_of image_files (lit ''etc/passwd'') = Some (lines_text [lit ''pi:x:1000:1000::/home/pi:/bin/bash''])"
  "map_of image_files (lit ''etc/shadow'') = Some (lines_text [lit ''pi:$6$salt$hash:19000:0:99999:7:::''])"
  "map_of image_files (lit ''etc/group'') = Some (lines_text [lit ''sudo:x:27:'', lit ''pi:x:1000:''])"
  "map_of image_files KEY_PATH = Some SAMPLE_LINE" "map_of image_files SUDOERS_PATH = Some (lines_text [lit ''pi ALL=(ALL:ALL) NOPASSWD: ALL''])"
  by (simp_all add: image_files_def path_defs)

lemmas sample_files = sample_lookup [OF sample_paths(1)] sample_lookup [OF sample_paths(2)] sample_lookup [OF sample_paths(3)]
  sample_lookup [OF sample_paths(4)] sample_lookup [OF sample_paths(5)] sample_lookup [OF sample_paths(6)]
  sample_lookup [OF sample_paths(7)] sample_lookup [OF sample_paths(8)] sample_lookup [OF sample_paths(9)]
  sample_lookup [OF sample_paths(10)] sample_lookup [OF sample_paths(11)] sample_lookup [OF sample_paths(12)]
  sample_lookup [OF sample_paths(13)] sample_lookup [OF sample_paths(14)] sample_lookup [OF sample_paths(15)]
  sample_lookup [OF sample_paths(16)] sample_lookup [OF sample_paths(17)]

lemma sample_rest:
  "im_stat (ssh_image extra) KEY_DIRECTORY = Inr \<lparr>im_mode = 0x1C0, im_uid = 1000, im_gid = 1000, im_size = 4096\<rparr>"
  "im_stat (ssh_image extra) KEY_PATH = Inr \<lparr>im_mode = 0x180, im_uid = 1000, im_gid = 1000, im_size = 90\<rparr>"
  "im_stat (ssh_image extra) SUDOERS_PATH = Inr \<lparr>im_mode = 0x120, im_uid = 0, im_gid = 0, im_size = 0\<rparr>"
  "im_stat (ssh_image extra) (lit ''etc/machine-id'') = Inr \<lparr>im_mode = 0x120, im_uid = 0, im_gid = 0, im_size = 0\<rparr>"
  "im_is_symlink (ssh_image extra) p \<longleftrightarrow> p = ENABLED_SOCKET" "im_exists (ssh_image extra) p \<longleftrightarrow> p = ENABLED_SOCKET"
  "im_readlink (ssh_image extra) p = Inr (lit ''/usr/lib/systemd/system/ssh.socket'')"
  "im_wants (ssh_image extra) = [ENABLED_SOCKET]" "im_host_keys (ssh_image extra) = []" "im_lower (ssh_image extra) = (\<lambda>c. [c])"
  "im_glob_conf (ssh_image extra) SSHD_DROPINS = lit ''90-rave-ethernet.conf'' # map fst extra"
  by (simp_all add: ssh_image_def Let_def path_defs)

section \<open>The rules on it\<close>

lemma sample_packages: "verify_ssh_packages (ssh_image extra) = Inr ()"
proof -
  have "package_installed ''openssh-server'' STATUS_TEXT" "package_installed ''sudo'' STATUS_TEXT"
    by (simp_all del: contains.simps add: package_installed_def package_stanza_def STATUS_TEXT_def lines_text_def lit_Cons
        contains_step starts_with_step)
  then show ?thesis by (simp add: verify_ssh_packages_def sample_files sample_rest require_that_def)
qed

lemma sample_dropins:
  "unit_dropins (ssh_image extra) (lit ''ssh.service'') = [SERVICE_DROPIN]"
  "unit_dropins (ssh_image extra) (lit ''ssh.socket'') = [SOCKET_DROPIN]"
  "unit_dropins (ssh_image extra) HOSTKEYS_NAME = []"
  by (simp_all add: unit_dropins_def ssh_image_def Let_def path_defs HOSTKEYS_NAME_def lit_Cons)

lemma sample_ssh_files: "verify_ssh_files (ssh_image extra) = Inr ()"
  using sample_dropins by (simp add: verify_ssh_files_def sample_files require_that_def HOSTKEYS_NAME_def)

lemma sample_units_ok: "\<forall>u \<in> set SOCKET_FILES. unit_ok u" "\<forall>u \<in> set SERVICE_FILES. unit_ok u" "unit_ok HOSTKEYS_FILE"
  by (simp_all add: SOCKET_FILES_def SERVICE_FILES_def HOSTKEYS_FILE_def unit_ok_def key_ok_def trimmed_def lit_Cons
      py_isspace_def is_linebreak_def)

lemma sample_unit_ok: "unit_ok (SOCKET_FILES ! 0)" "unit_ok (SOCKET_FILES ! 1)" "unit_ok (SERVICE_FILES ! 0)" "unit_ok (SERVICE_FILES ! 1)"
  using sample_units_ok by (simp_all add: SOCKET_FILES_def SERVICE_FILES_def)

lemma sample_words:
  "shlex_split HOSTKEYS_NAME = Inr [HOSTKEYS_NAME]" "shlex_split (lit ''network.target'') = Inr [lit ''network.target'']"
  "shlex_split (lit ''ssh.service'') = Inr [lit ''ssh.service'']"
  by (simp_all add: HOSTKEYS_NAME_def shlex_split_def lit_Cons shlex_space_def shlex_quote_def)

lemma sample_service_dropin: "verify_service_dropin (ssh_image extra) = Inr (unit_text (SERVICE_FILES ! 1))"
  by (simp add: verify_service_dropin_def sample_files unit_rules sample_unit_ok [simplified] effective_systemd_words_def)
    (simp add: setting_values_def SERVICE_FILES_def sample_words [unfolded HOSTKEYS_NAME_def] HOSTKEYS_NAME_def require_that_def)

lemma sample_socket: "verify_ssh_socket (ssh_image extra) = Inr (map unit_text SOCKET_FILES)"
proof -
  have texts: "[unit_text (SOCKET_FILES ! 0), unit_text (SOCKET_FILES ! Suc 0)] = map unit_text SOCKET_FILES"
    by (simp add: SOCKET_FILES_def)
  have lacks: "\<not> contains HOSTKEYS_NAME (unit_text (SOCKET_FILES ! Suc 0))"
    by (simp del: contains.simps add: HOSTKEYS_NAME_def SOCKET_FILES_def unit_text_def lit_Cons contains_step starts_with_step)
  show ?thesis
    using all_directives_text [OF sample_units_ok(1)]
    by (simp add: verify_ssh_socket_def sample_files sample_dropins lacks texts require_that_def require_scalar_def
        effective_systemd_list_def effective_systemd_scalar_def)
      (simp add: setting_values_def SOCKET_FILES_def)
qed

lemma sample_enablement: "verify_ssh_enablement (ssh_image extra) = Inr ()"
proof -
  have "path_name (lit ''/usr/lib/systemd/system/ssh.socket'') = lit ''ssh.socket''" "path_name ENABLED_SOCKET = lit ''ssh.socket''"
    by (simp_all add: path_name_def ENABLED_SOCKET_def lit_Cons)
  moreover have "ssh_sockets (ssh_image extra) = [lit ''ssh.socket'']"
    by (simp add: ssh_sockets_def sample_rest calculation) (simp add: lit_Cons starts_with_step)
  ultimately show ?thesis
    by (simp add: verify_ssh_enablement_def sample_rest require_that_def) (simp add: ENABLED_SOCKET_def lit_Cons)
qed

lemma sample_hostkeys: "verify_ssh_hostkeys (ssh_image extra) = Inr (unit_text HOSTKEYS_FILE)"
proof -
  have keygen: "contains (lit ''ConditionFirstBoot=yes'') KEYGEN_TEXT" "contains (lit ''ConditionPathIsReadWrite=/etc/ssh'') KEYGEN_TEXT"
    "contains (lit ''Before=ssh.service sshd.service sshd@.service'') KEYGEN_TEXT" "contains (lit ''ExecStart=ssh-keygen -A'') KEYGEN_TEXT"
    "contains (lit ''WantedBy=ssh.service sshd.service sshd@.service ssh.socket'') KEYGEN_TEXT"
    by (simp_all del: contains.simps add: KEYGEN_TEXT_def lines_text_def lit_Cons contains_step starts_with_step)
  have lines: "py_splitlines (unit_text HOSTKEYS_FILE) = concat (map line_text HOSTKEYS_FILE)"
    unfolding unit_text_def by (rule splitlines_unlines) (simp add: HOSTKEYS_FILE_def lit_Cons is_linebreak_def)
  have active: "active_texts (unit_text HOSTKEYS_FILE) = filter (\<lambda>l. l \<noteq> []) (concat (map line_text HOSTKEYS_FILE))"
    unfolding active_texts_def lines
    by (simp add: HOSTKEYS_FILE_def lit_Cons lstrip_by_def rstrip_by_def py_strip_def py_isspace_def starts_with_step)
  have "{lit ''Before=ssh.service'', lit ''Type=oneshot'', lit ''ExecStart=/usr/bin/ssh-keygen -A'', lit ''RemainAfterExit=yes''}
      \<subseteq> set (py_splitlines (unit_text HOSTKEYS_FILE))"
    unfolding lines by (simp add: HOSTKEYS_FILE_def lit_Cons)
  moreover have "\<not> (\<exists>line \<in> set (active_texts (unit_text HOSTKEYS_FILE)). starts_with (lit ''Condition'') line)"
    unfolding active by (simp add: HOSTKEYS_FILE_def lit_Cons starts_with_step)
  moreover have "contains (lit ''ExecStartPre=/usr/sbin/sshd -t'') (unit_text (SERVICE_FILES ! 0))"
    by (simp del: contains.simps add: SERVICE_FILES_def unit_text_def lit_Cons contains_step starts_with_step)
  ultimately show ?thesis
    by (simp add: verify_ssh_hostkeys_def sample_files sample_rest keygen require_that_def)
qed

lemma head_of_join: "\<exists>rest. py_join sep ((c # w) # ws) = c # rest"
  by (cases ws) simp_all

lemma not_listens:
  assumes "c < 128" "\<not> py_isspace c" "c \<noteq> 76" "c \<noteq> 108"
  shows "\<not> listens I (c # cs)"
proof -
  obtain rest where "py_join [32] (py_split (length (c # cs)) (c # cs)) = c # rest"
    using assms(2) head_of_join by (simp add: Let_def) blast
  with assms(1,3,4) show ?thesis by (simp add: listens_def py_lower_def lit_Cons starts_with_step)
qed

definition quiet_line :: "pstr \<Rightarrow> bool" where
  "quiet_line l \<longleftrightarrow> (\<forall>c \<in> set l. \<not> is_linebreak c) \<and>
     (l = [] \<or> hd l < 128 \<and> \<not> py_isspace (hd l) \<and> hd l \<noteq> 76 \<and> hd l \<noteq> 108)"

lemma strip_head: "\<not> py_isspace c \<Longrightarrow> \<exists>rest. py_strip (c # cs) = c # rest"
proof -
  assume c: "\<not> py_isspace c"
  then have "dropWhile py_isspace (rev cs @ [c]) = (if \<forall>x \<in> set cs. py_isspace x then [c] else dropWhile py_isspace (rev cs) @ [c])"
    by (auto simp: dropWhile_append)
  with c show ?thesis by (auto simp: py_strip_def lstrip_by_def rstrip_by_def intro: exI [of _ "rev (dropWhile py_isspace (rev cs))"])
qed

lemma quiet_lines:
  assumes "\<forall>l \<in> set ls. quiet_line l"
  shows "\<forall>line \<in> set (active_texts (lines_text ls)). \<not> listens I line"
proof
  fix line assume "line \<in> set (active_texts (lines_text ls))"
  moreover have "py_splitlines (lines_text ls) = ls" using assms by (intro splitlines_text) (simp add: quiet_line_def)
  ultimately obtain l where l: "l \<in> set ls" "line = py_strip l" "py_strip l \<noteq> []" by (auto simp: active_texts_def)
  then have "l \<noteq> []" by (auto simp: py_strip_def lstrip_by_def rstrip_by_def)
  moreover have "quiet_line l" using l(1) assms by blast
  ultimately obtain c cs where c: "l = c # cs" "c < 128" "\<not> py_isspace c" "c \<noteq> 76" "c \<noteq> 108"
    by (auto simp: quiet_line_def neq_Nil_conv)
  with strip_head [of c cs] l(2) not_listens [of c I] show "\<not> listens I line" by auto
qed

lemma no_listener: "\<forall>line \<in> set ls. \<not> listens I line \<Longrightarrow> require_all (map (\<lambda>line. (\<not> listens I line, m)) ls) = Inr ()"
  by (induction ls) (simp_all add: require_that_def)

lemma account_texts:
  "\<forall>l \<in> set ls. \<forall>c \<in> set l. \<not> is_linebreak c \<Longrightarrow> account_table n (lines_text ls) =
     rev (map (\<lambda>fields. (hd fields, fields)) (filter (\<lambda>fields. n \<le> length fields) (map (py_split_char 58 []) ls)))"
  by (simp add: account_table_def splitlines_text)

definition PI_USER :: "pstr list" where
  "PI_USER = [lit ''pi'', lit ''x'', lit ''1000'', lit ''1000'', [], lit ''/home/pi'', lit ''/bin/bash'']"

lemma sample_account: "verify_account (ssh_image extra) = Inr PI_USER"
proof -
  have "account_table 7 (lines_text [lit ''pi:x:1000:1000::/home/pi:/bin/bash'']) = [(lit ''pi'', PI_USER)]"
    by (subst account_texts) (simp_all add: lit_Cons is_linebreak_def PI_USER_def)
  moreover have "\<exists>rest. account_table 2 (lines_text [lit ''pi:$6$salt$hash:19000:0:99999:7:::'']) =
      [(lit ''pi'', lit ''pi'' # lit ''$6$salt$hash'' # rest)]"
    by (subst account_texts) (simp_all add: lit_Cons is_linebreak_def)
  moreover have "has_usable_shadow_password (lit ''$6$salt$hash'')"
    by (simp add: has_usable_shadow_password_def lit_Cons py_isspace_def)
  moreover have "PI_USER ! 6 \<notin> {lit ''/usr/sbin/nologin'', lit ''/bin/false''}" by (simp add: PI_USER_def lit_Cons)
  ultimately show ?thesis by (auto simp: verify_account_def sample_files require_that_def)
qed

lemma sample_key: "verify_authorized_key U (\<lambda>_. []) (ssh_image extra) PI_USER =
    Inr \<lparr>normalized = normal_line (ed25519_blob SAMPLE_KEY) (lit ''a  b''), fingerprint = lit ''SHA256:''\<rparr>"
proof -
  have "py_int U 10 (PI_USER ! 2) = Inr 1000" "py_int U 10 (PI_USER ! 3) = Inr 1000"
    by (simp_all add: PI_USER_def py_int_def Let_def lit_def ascii_decimal_def lstrip_by_def rstrip_by_def is_cspace_def digit_value_def)
  moreover have "KEY_PATH \<noteq> ENABLED_SOCKET" by (simp add: KEY_PATH_def ENABLED_SOCKET_def lit_Cons)
  ultimately show ?thesis
    by (simp add: verify_authorized_key_def sample_files sample_rest sample_line require_that_def owned_as_def)
qed

lemma sample_sudo: "verify_sudo U (ssh_image extra) PI_USER = Inr ()"
proof -
  let ?groups = "[lit ''sudo:x:27:'', lit ''pi:x:1000:'']"
  have "py_int U 10 (PI_USER ! 3) = Inr 1000" "py_int U 10 (lit ''27'') = Inr 27"
    by (simp_all add: PI_USER_def py_int_def Let_def lit_def ascii_decimal_def lstrip_by_def rstrip_by_def is_cspace_def digit_value_def)
  moreover have "account_table 4 (lines_text ?groups) =
      [(lit ''pi'', [lit ''pi'', lit ''x'', lit ''1000'', []]), (lit ''sudo'', [lit ''sudo'', lit ''x'', lit ''27'', []])]"
    by (subst account_texts) (simp_all add: lit_Cons is_linebreak_def)
  moreover have "py_strip (lines_text [lit ''pi ALL=(ALL:ALL) NOPASSWD: ALL'']) = lit ''pi ALL=(ALL:ALL) NOPASSWD: ALL''"
    by (simp add: lines_text_def lit_Cons py_strip_def lstrip_by_def rstrip_by_def py_isspace_def)
  moreover have "SUDOERS_PATH \<noteq> ENABLED_SOCKET" "lit ''etc/sudoers.d/010_rpi-nopasswd'' \<noteq> ENABLED_SOCKET" "lit ''pi'' \<noteq> lit ''sudo''" "lit ''pi'' \<noteq> []"
    by (simp_all add: SUDOERS_PATH_def ENABLED_SOCKET_def lit_Cons)
  ultimately show ?thesis
    by (simp add: verify_sudo_def sample_files sample_rest require_that_def owned_as_def)
qed

text \<open>A drop-in that sorts before the one of the image.\<close>

definition PASSWORD_DROPIN :: "pstr \<times> pstr" where
  "PASSWORD_DROPIN = (lit ''10-password.conf'', lines_text [lit ''PasswordAuthentication yes''])"

lemma join_lines: "lines_text ks @ 10 # lines_text ls = lines_text (ks @ [] # ls)"
  by (simp_all add: lines_text_def)

definition INCLUDE_LINES :: "pstr list" where "INCLUDE_LINES = [lit ''Include /etc/ssh/sshd_config.d/*.conf'']"

definition POLICY_LINES :: "pstr list" where
  "POLICY_LINES = lit ''# Gate 2B engineering access only. This policy is not public-release qualified.'' # REQUIRED_POLICY"

lemma policy_lines: "\<forall>l \<in> set (INCLUDE_LINES @ POLICY_LINES @ [[], lit ''PasswordAuthentication yes'']). quiet_line l"
  by (simp add: INCLUDE_LINES_def POLICY_LINES_def REQUIRED_POLICY_def quiet_line_def lit_Cons is_linebreak_def py_isspace_def)

definition sshd_files :: "image \<Rightarrow> pstr list" where
  "sshd_files I = lit ''etc/ssh/sshd_config'' # map (\<lambda>name. SSHD_DROPINS @ lit ''/'' @ name) (sort (im_glob_conf I SSHD_DROPINS))"

lemma sample_sshd:
  "read_files (ssh_image []) (sshd_files (ssh_image [])) = Inr (map lines_text [INCLUDE_LINES, POLICY_LINES])"
  "read_files (ssh_image [PASSWORD_DROPIN]) (sshd_files (ssh_image [PASSWORD_DROPIN])) =
     Inr (map lines_text [INCLUDE_LINES, [lit ''PasswordAuthentication yes''], POLICY_LINES])"
proof -
  have policy: "SSHD_DROPINS @ lit ''/'' @ lit ''90-rave-ethernet.conf'' = POLICY_PATH" by (simp add: SSHD_DROPINS_def POLICY_PATH_def lit_Cons)
  have policy_text: "POLICY_TEXT = lines_text POLICY_LINES" by (simp add: POLICY_TEXT_def POLICY_LINES_def)
  show "read_files (ssh_image []) (sshd_files (ssh_image [])) = Inr (map lines_text [INCLUDE_LINES, POLICY_LINES])"
    by (simp add: sshd_files_def sample_rest policy sample_files policy_text INCLUDE_LINES_def)
  have order: "\<not> lit ''90-rave-ethernet.conf'' \<le> lit ''10-password.conf''"
    by (simp add: lit_Cons)
  have "map_of image_files (SSHD_DROPINS @ lit ''/'' @ lit ''10-password.conf'') = None"
    by (simp add: image_files_def path_defs lit_Cons)
  then have "im_is_file (ssh_image [PASSWORD_DROPIN]) (SSHD_DROPINS @ lit ''/'' @ lit ''10-password.conf'')"
    "im_read_text (ssh_image [PASSWORD_DROPIN]) (SSHD_DROPINS @ lit ''/'' @ lit ''10-password.conf'') = Inr (lines_text [lit ''PasswordAuthentication yes''])"
    by (simp_all add: ssh_image_def PASSWORD_DROPIN_def map_add_def)
  then show "read_files (ssh_image [PASSWORD_DROPIN]) (sshd_files (ssh_image [PASSWORD_DROPIN])) =
     Inr (map lines_text [INCLUDE_LINES, [lit ''PasswordAuthentication yes''], POLICY_LINES])"
    by (simp add: sshd_files_def sample_rest PASSWORD_DROPIN_def order) (simp add: policy sample_files policy_text INCLUDE_LINES_def PASSWORD_DROPIN_def)
qed

lemma sample_policy: "verify_sshd_policy (ssh_image []) = Inr POLICY_TEXT" "verify_sshd_policy (ssh_image [PASSWORD_DROPIN]) = Inr POLICY_TEXT"
proof -
  have lines: "py_splitlines POLICY_TEXT = POLICY_LINES" "py_splitlines (lines_text INCLUDE_LINES) = INCLUDE_LINES"
    using policy_lines by (auto simp: POLICY_TEXT_def POLICY_LINES_def [symmetric] quiet_line_def intro!: splitlines_text)
  have lacks: "require_all (map (\<lambda>forbidden. (\<not> contains forbidden POLICY_TEXT, m)) FORBIDDEN_POLICY) = Inr ()" for m
    by (simp del: contains.simps add: FORBIDDEN_POLICY_def POLICY_TEXT_def REQUIRED_POLICY_def lines_text_def lit_Cons contains_step
        starts_with_step require_that_def)
  have has: "require_all (map (\<lambda>expected. (expected \<in> set POLICY_LINES, m)) ls) = Inr ()" if "set ls \<subseteq> set REQUIRED_POLICY" for m ls
    using that by (induction ls) (simp_all add: require_that_def POLICY_LINES_def)
  have files: "lit ''etc/ssh/sshd_config'' # map (\<lambda>name. lit ''etc/ssh/sshd_config.d/'' @ name) (sort (im_glob_conf I (lit ''etc/ssh/sshd_config.d''))) =
      sshd_files I" for I by (simp add: sshd_files_def SSHD_DROPINS_def lit_Cons)
  have quiet: "require_all (map (\<lambda>line. (\<not> listens I line, m)) (active_texts (lines_text (INCLUDE_LINES @ [] # POLICY_LINES)))) = Inr ()"
    "require_all (map (\<lambda>line. (\<not> listens I line, m))
       (active_texts (lines_text (INCLUDE_LINES @ [] # lit ''PasswordAuthentication yes'' # [] # POLICY_LINES)))) = Inr ()" for I m
    using policy_lines by (auto intro!: no_listener quiet_lines)
  have included: "lit ''Include /etc/ssh/sshd_config.d/*.conf'' \<in> set INCLUDE_LINES" by (simp add: INCLUDE_LINES_def)
  note policy = sample_files(21,22) [unfolded POLICY_PATH_def] sample_files(23,24)
  show "verify_sshd_policy (ssh_image []) = Inr POLICY_TEXT" "verify_sshd_policy (ssh_image [PASSWORD_DROPIN]) = Inr POLICY_TEXT"
    unfolding verify_sshd_policy_def files using included
    by (simp_all add: policy lines lacks has INCLUDE_LINES_def [symmetric] sample_sshd join_lines quiet require_that_def)
qed

end
