(* ===== verification/Image_Access.thy ===== *)
theory Image_Access
  imports Image_Sample
begin

text \<open>
  What the rules on the engineering access establish of an accepted image: the address of the SSH server, the key and the account,
  and the units it names. An image is accepted, and so is one whose server takes passwords.
\<close>

section \<open>Words over several files\<close>

lemma words_go_append: "words_go kept (xs @ ys) = bindR (words_go kept xs) (\<lambda>kept. words_go kept ys)"
proof (induction xs arbitrary: kept)
  case (Cons v xs)
  then show ?case by (cases "shlex_split v") auto
qed simp

lemma setting_values_Cons: "setting_values section key (u # us) = setting_values section key [u] @ setting_values section key us"
  by (simp add: setting_values_def)

lemma words_texts:
  assumes "\<forall>u \<in> set us. unit_ok u"
  shows "effective_systemd_words (map unit_text us) section key = words_go [] (setting_values section key us)"
proof -
  have "effective_words_go kept (map unit_text us) section key = words_go kept (setting_values section key us)" for kept
    using assms
  proof (induction us arbitrary: kept)
    case Nil
    then show ?case by (simp add: setting_values_def)
  next
    case (Cons u us)
    then show ?case
      by (subst setting_values_Cons) (simp add: systemd_directives_text words_go_append del: words_go.simps)
  qed
  then show ?thesis by (simp add: effective_systemd_words_def)
qed

lemma words_of_all_Inr:
  "words_of_all texts section keys = Inr W \<longleftrightarrow>
     (\<exists>f. (\<forall>key \<in> set keys. effective_systemd_words texts section (lit key) = Inr (f key)) \<and> W = (\<Union>key \<in> set keys. set (f key)))"
  (is "?a keys W \<longleftrightarrow> ?b keys W")
proof
  show "?a keys W \<Longrightarrow> ?b keys W"
  proof (induction keys arbitrary: W)
    case (Cons key keys)
    then obtain ws rest where ws: "effective_systemd_words texts section (lit key) = Inr ws"
      "words_of_all texts section keys = Inr rest" "W = set ws \<union> rest" by (auto simp: bindR_Inr_iff)
    from Cons.IH [OF ws(2)] obtain f where
      f: "\<forall>key \<in> set keys. effective_systemd_words texts section (lit key) = Inr (f key)" "rest = (\<Union>key \<in> set keys. set (f key))" by blast
    define g where "g = f(key := ws)"
    have "effective_systemd_words texts section (lit k) = Inr (g k)" if "k \<in> set (key # keys)" for k
      using that f(1) ws(1) by (auto simp: g_def)
    moreover have "set (g k) = set (f k)" if "k \<in> set keys" for k using that f(1) ws(1) by (auto simp: g_def)
    then have "W = (\<Union>k \<in> set (key # keys). set (g k))" using f(2) ws(3) by (simp add: g_def)
    ultimately show ?case by blast
  qed simp
  show "?b keys W \<Longrightarrow> ?a keys W" by (induction keys arbitrary: W) (auto simp: bindR_Inr_iff)
qed

text \<open>The words of the directives that make a unit depend on others, of a unit that is given by its files.\<close>

definition independent :: "unit_line list list \<Rightarrow> bool" where
  "independent us \<longleftrightarrow>
     (\<forall>key \<in> {''Requires'', ''Wants'', ''After'', ''Before'', ''BindsTo'', ''PartOf''}.
        \<exists>ws. words_go [] (setting_values (lit ''Unit'') (lit key) us) = Inr ws \<and>
        set ws \<inter> set FORBIDDEN_DEPENDENCIES = {} \<and> (\<forall>w \<in> set ws. \<not> is_device w))"

lemma dependencies_text:
  assumes "\<forall>u \<in> set us. unit_ok u"
  shows "(\<exists>W. words_of_all (map unit_text us) (lit ''Unit'') DEPENDENCY_KEYS = Inr W \<and> W \<inter> set FORBIDDEN_DEPENDENCIES = {} \<and>
      \<not> (\<exists>target \<in> W. is_device target)) \<longleftrightarrow> independent us"
    (is "?l \<longleftrightarrow> _")
proof -
  have keys: "{''Requires'', ''Wants'', ''After'', ''Before'', ''BindsTo'', ''PartOf''} = set DEPENDENCY_KEYS"
    by (simp add: DEPENDENCY_KEYS_def)
  note choice = bchoice [of "set DEPENDENCY_KEYS" "\<lambda>key ws. words_go [] (setting_values (lit ''Unit'') (lit key) us) = Inr ws \<and>
      set ws \<inter> set FORBIDDEN_DEPENDENCIES = {} \<and> (\<forall>w \<in> set ws. \<not> is_device w)"]
  show ?thesis
    unfolding independent_def keys words_of_all_Inr words_texts [OF assms]
  proof
    assume "\<exists>W. (\<exists>f. (\<forall>key \<in> set DEPENDENCY_KEYS. words_go [] (setting_values (lit ''Unit'') (lit key) us) = Inr (f key)) \<and>
        W = (\<Union>key \<in> set DEPENDENCY_KEYS. set (f key))) \<and> W \<inter> set FORBIDDEN_DEPENDENCIES = {} \<and> \<not> (\<exists>target \<in> W. is_device target)"
    then obtain f where f: "\<forall>key \<in> set DEPENDENCY_KEYS. words_go [] (setting_values (lit ''Unit'') (lit key) us) = Inr (f key)"
      and none: "(\<Union>key \<in> set DEPENDENCY_KEYS. set (f key)) \<inter> set FORBIDDEN_DEPENDENCIES = {}"
        "\<not> (\<exists>target \<in> (\<Union>key \<in> set DEPENDENCY_KEYS. set (f key)). is_device target)" by metis
    show "\<forall>key \<in> set DEPENDENCY_KEYS. \<exists>ws. words_go [] (setting_values (lit ''Unit'') (lit key) us) = Inr ws \<and>
        set ws \<inter> set FORBIDDEN_DEPENDENCIES = {} \<and> (\<forall>w \<in> set ws. \<not> is_device w)"
    proof
      fix key assume key: "key \<in> set DEPENDENCY_KEYS"
      then have "set (f key) \<inter> set FORBIDDEN_DEPENDENCIES = {}" "\<forall>w \<in> set (f key). \<not> is_device w" using none by auto
      with f key show "\<exists>ws. words_go [] (setting_values (lit ''Unit'') (lit key) us) = Inr ws \<and>
        set ws \<inter> set FORBIDDEN_DEPENDENCIES = {} \<and> (\<forall>w \<in> set ws. \<not> is_device w)" by blast
    qed
  next
    assume "\<forall>key \<in> set DEPENDENCY_KEYS. \<exists>ws. words_go [] (setting_values (lit ''Unit'') (lit key) us) = Inr ws \<and>
        set ws \<inter> set FORBIDDEN_DEPENDENCIES = {} \<and> (\<forall>w \<in> set ws. \<not> is_device w)"
    from choice [OF this] obtain f where f: "\<forall>key \<in> set DEPENDENCY_KEYS. words_go [] (setting_values (lit ''Unit'') (lit key) us) = Inr (f key) \<and>
        set (f key) \<inter> set FORBIDDEN_DEPENDENCIES = {} \<and> (\<forall>w \<in> set (f key). \<not> is_device w)" by blast
    let ?W = "\<Union>key \<in> set DEPENDENCY_KEYS. set (f key)"
    have "?W \<inter> set FORBIDDEN_DEPENDENCIES = {}" "\<not> (\<exists>target \<in> ?W. is_device target)"
      "\<forall>key \<in> set DEPENDENCY_KEYS. words_go [] (setting_values (lit ''Unit'') (lit key) us) = Inr (f key)"
      using f by auto
    then show "\<exists>W. (\<exists>f. (\<forall>key \<in> set DEPENDENCY_KEYS. words_go [] (setting_values (lit ''Unit'') (lit key) us) = Inr (f key)) \<and>
        W = (\<Union>key \<in> set DEPENDENCY_KEYS. set (f key))) \<and> W \<inter> set FORBIDDEN_DEPENDENCIES = {} \<and> \<not> (\<exists>target \<in> W. is_device target)"
      by (intro exI [of _ ?W] exI [of _ f] conjI refl)
  qed
qed

lemma verify_dependencies_text:
  "\<forall>us \<in> set units. \<forall>u \<in> set us. unit_ok u \<Longrightarrow>
   verify_dependencies (map (map unit_text) units) = Inr () \<longleftrightarrow> (\<forall>us \<in> set units. independent us)"
proof (induction units)
  case (Cons us units)
  then show ?case using dependencies_text [of us] by (auto simp: bindR_Inr_iff require_that_Inr)
qed simp

section \<open>What the parts of the rules establish\<close>

lemma list_texts: "\<forall>u \<in> set us. unit_ok u \<Longrightarrow> effective_systemd_list (map unit_text us) section key =
    Inr (rev (takeWhile (\<lambda>v. v \<noteq> []) (rev (setting_values section key us))))"
  using all_directives_text [of us "section" key] by (simp add: effective_systemd_list_def effective_go_last)

lemma scalar_texts: "\<forall>u \<in> set us. unit_ok u \<Longrightarrow> effective_systemd_scalar (map unit_text us) section key =
    Inr (let vs = setting_values section key us in if vs = [] then None else Some (last vs))"
  using all_directives_text [of us "section" key] by (simp add: effective_systemd_scalar_def Let_def)

lemma ssh_socketD:
  assumes "verify_ssh_socket I = Inr texts" "im_read_text I SSH_SOCKET_UNIT = Inr (unit_text su)"
    and "im_read_text I SOCKET_DROPIN = Inr (unit_text sd)" "unit_ok su" "unit_ok sd"
  shows "texts = map unit_text [su, sd] \<and>
    rev (takeWhile (\<lambda>v. v \<noteq> []) (rev (setting_values (lit ''Socket'') (lit ''ListenStream'') [su, sd]))) = [lit ''10.77.0.1:22''] \<and>
    (let vs = setting_values (lit ''Socket'') (lit ''BindToDevice'') [su, sd] in vs = [] \<or> last vs = [])"
  using assms list_texts [of "[su, sd]" "lit ''Socket''" "lit ''ListenStream''"] scalar_texts [of "[su, sd]" "lit ''Socket''" "lit ''BindToDevice''"]
  by (auto simp: verify_ssh_socket_def bindR_Inr_iff require_that_Inr require_all_Inr Let_def split: if_splits
      simp del: singleton_rev_conv rev_singleton_conv)

lemma direct_services_none: "direct_services I paths = Inr [] \<Longrightarrow> path \<in> set paths \<Longrightarrow> im_is_symlink I path \<Longrightarrow>
    \<exists>target. im_readlink I path = Inr target \<and> path_name target \<notin> {lit ''ssh.service'', lit ''sshd.service''}"
  by (induction paths) (auto simp: bindR_Inr_iff split: if_splits)

lemma enablementD:
  assumes "verify_ssh_enablement I = Inr ()"
  shows "sort (ssh_sockets I) = [lit ''ssh.socket''] \<and> direct_services I (im_wants I) = Inr []"
  using assms by (auto simp: verify_ssh_enablement_def bindR_Inr_iff require_that_Inr require_all_Inr)

lemma authorized_keyD:
  assumes "verify_authorized_key U sha I user = Inr k"
  shows "\<exists>content key comment uid gid info. im_read_text I KEY_PATH = Inr content \<and> parse_public_key sha content = Inr k \<and>
    length key = 32 \<and> normalized k = normal_line (ed25519_blob key) comment \<and> fingerprint k = digest_text sha (ed25519_blob key) \<and>
    py_int U 10 (user ! 2) = Inr uid \<and> py_int U 10 (user ! 3) = Inr gid \<and> im_stat I KEY_PATH = Inr info \<and> owned_as info 0x180 uid gid"
proof -
  have caught: "catchR r is_public_key_error e = Inr k \<longleftrightarrow> r = Inr k" for r :: "exn + engineering_public_key" and e
    by (cases r) simp_all
  from assms obtain content uid gid info where c: "im_read_text I KEY_PATH = Inr content" "parse_public_key sha content = Inr k"
    "py_int U 10 (user ! 2) = Inr uid" "py_int U 10 (user ! 3) = Inr gid" "im_stat I KEY_PATH = Inr info" "owned_as info 0x180 uid gid"
    by (auto simp: verify_authorized_key_def bindR_Inr_iff require_that_Inr require_all_Inr caught)
  from parse_public_keyD [OF c(2)] obtain key comment where "length key = 32"
    "normalized k = normal_line (ed25519_blob key) comment" "fingerprint k = digest_text sha (ed25519_blob key)" by auto
  with c show ?thesis by blast
qed

lemma sudoD:
  assumes "verify_sudo U I user = Inr ()"
  shows "\<exists>sudoers groups sudo. im_read_text I SUDOERS_PATH = Inr sudoers \<and> py_strip sudoers = lit ''pi ALL=(ALL:ALL) NOPASSWD: ALL'' \<and>
    im_read_text I (lit ''etc/group'') = Inr groups \<and> map_of (account_table 4 groups) (lit ''sudo'') = Some sudo \<and>
    lit ''pi'' \<notin> set (py_split_char 44 [] (sudo ! 3))"
  using assms by (auto simp: verify_sudo_def bindR_Inr_iff require_that_Inr require_all_Inr split: option.splits)

lemma policyD:
  assumes "verify_sshd_policy I = Inr policy"
  shows "im_read_text I (lit ''etc/ssh/sshd_config.d/90-rave-ethernet.conf'') = Inr policy \<and>
    {lit ''PubkeyAuthentication yes'', lit ''PasswordAuthentication no'', lit ''PermitRootLogin no'', lit ''AllowUsers pi''} \<subseteq> set (py_splitlines policy)"
  using assms by (auto simp: verify_sshd_policy_def bindR_Inr_iff require_that_Inr require_all_Inr REQUIRED_POLICY_def)

section \<open>The property\<close>

text \<open>In an image that passes the rules, the socket unit of the SSH server, with its drop-in, has the engineering address and port as
  its only \<^verbatim>\<open>ListenStream\<close> and is bound to no device; \<^verbatim>\<open>ssh.socket\<close> is the only
  \<^verbatim>\<open>ssh*.socket\<close> that is linked into a target, and no link into a target leads to the service itself. The policy file has
  the lines that allow the key, refuse passwords and root and name one user. The file of the authorized keys of this user, with mode 0600 and owned by
  the user, holds one ED25519 key and nothing else, the one whose fingerprint is reported, and the user is no member of the
  group \<^verbatim>\<open>sudo\<close>. There is no host key in the image; and none of the six directives that tie
  the socket, the service or the generation of the host keys to other units, over the settings of their files, names a unit of the
  management network or a device. (That the policy file need not be what the server goes by is in \<open>policy_not_effective\<close>.)\<close>

theorem ssh_confined:
  assumes "verify_engineering_ethernet_ssh U sha I = Inr fp"
    and "im_read_text I SSH_SOCKET_UNIT = Inr (unit_text su)" "im_read_text I SOCKET_DROPIN = Inr (unit_text sd)"
    and "im_read_text I SSH_SERVICE_UNIT = Inr (unit_text vu)" "im_read_text I SERVICE_DROPIN = Inr (unit_text vd)"
    and "im_read_text I HOSTKEYS_UNIT = Inr (unit_text hu)" "unit_ok su" "unit_ok sd" "unit_ok vu" "unit_ok vd" "unit_ok hu"
  shows "rev (takeWhile (\<lambda>v. v \<noteq> []) (rev (setting_values (lit ''Socket'') (lit ''ListenStream'') [su, sd]))) = [lit ''10.77.0.1:22''] \<and>
    (let vs = setting_values (lit ''Socket'') (lit ''BindToDevice'') [su, sd] in vs = [] \<or> last vs = []) \<and>
    sort (ssh_sockets I) = [lit ''ssh.socket''] \<and>
    (\<forall>path \<in> set (im_wants I). im_is_symlink I path \<longrightarrow>
       (\<exists>target. im_readlink I path = Inr target \<and> path_name target \<notin> {lit ''ssh.service'', lit ''sshd.service''})) \<and>
    (\<exists>policy. im_read_text I (lit ''etc/ssh/sshd_config.d/90-rave-ethernet.conf'') = Inr policy \<and>
       {lit ''PubkeyAuthentication yes'', lit ''PasswordAuthentication no'', lit ''PermitRootLogin no'', lit ''AllowUsers pi''}
         \<subseteq> set (py_splitlines policy)) \<and>
    (\<exists>passwd user content key comment uid gid info. im_read_text I (lit ''etc/passwd'') = Inr passwd \<and>
       map_of (account_table 7 passwd) (lit ''pi'') = Some user \<and> py_int U 10 (user ! 2) = Inr uid \<and> py_int U 10 (user ! 3) = Inr gid \<and>
       im_read_text I KEY_PATH = Inr content \<and> length key = 32 \<and> fp = digest_text sha (ed25519_blob key) \<and>
       parse_public_key sha content = Inr \<lparr>normalized = normal_line (ed25519_blob key) comment, fingerprint = fp\<rparr> \<and>
       im_stat I KEY_PATH = Inr info \<and> im_mode info = 0x180 \<and> im_uid info = uid \<and> im_gid info = gid) \<and>
    (\<exists>groups sudo. im_read_text I (lit ''etc/group'') = Inr groups \<and> map_of (account_table 4 groups) (lit ''sudo'') = Some sudo \<and>
       lit ''pi'' \<notin> set (py_split_char 44 [] (sudo ! 3))) \<and>
    im_host_keys I = [] \<and> independent [su, sd] \<and> independent [vu, vd] \<and> independent [hu]"
proof -
  obtain texts policy user k where parts: "verify_ssh_socket I = Inr texts" "verify_ssh_enablement I = Inr ()"
    "verify_sshd_policy I = Inr policy" "verify_account I = Inr user" "verify_authorized_key U sha I user = Inr k" "fp = fingerprint k"
    "verify_sudo U I user = Inr ()" "verify_dependencies [texts, [unit_text vu, unit_text vd], [unit_text hu]] = Inr ()" "im_host_keys I = []"
    using assms(1,4-6) by (auto simp: verify_engineering_ethernet_ssh_def bindR_Inr_iff verify_ssh_hostkeys_def
        verify_service_dropin_def require_that_Inr simp del: verify_dependencies.simps)
  note socket = ssh_socketD [OF parts(1) assms(2,3,7,8)]
  have "verify_dependencies (map (map unit_text) [[su, sd], [vu, vd], [hu]]) = Inr ()" using parts(8) socket by simp
  then have deps: "independent [su, sd]" "independent [vu, vd]" "independent [hu]"
    using verify_dependencies_text [of "[[su, sd], [vu, vd], [hu]]"] assms(7-11) by simp_all
  obtain passwd where passwd: "im_read_text I (lit ''etc/passwd'') = Inr passwd" "map_of (account_table 7 passwd) (lit ''pi'') = Some user"
    using parts(4) by (auto simp: verify_account_def bindR_Inr_iff split: option.splits)
  from authorized_keyD [OF parts(5)] obtain content key comment uid gid info where key:
    "im_read_text I KEY_PATH = Inr content" "parse_public_key sha content = Inr k" "length key = 32"
    "normalized k = normal_line (ed25519_blob key) comment" "fingerprint k = digest_text sha (ed25519_blob key)"
    "py_int U 10 (user ! 2) = Inr uid" "py_int U 10 (user ! 3) = Inr gid" "im_stat I KEY_PATH = Inr info" "owned_as info 0x180 uid gid"
    by blast
  have "k = \<lparr>normalized = normal_line (ed25519_blob key) comment, fingerprint = fp\<rparr>" using key(4) parts(6) by simp
  with passwd key parts(6) have account: "\<exists>passwd user content key comment uid gid info. im_read_text I (lit ''etc/passwd'') = Inr passwd \<and>
       map_of (account_table 7 passwd) (lit ''pi'') = Some user \<and> py_int U 10 (user ! 2) = Inr uid \<and> py_int U 10 (user ! 3) = Inr gid \<and>
       im_read_text I KEY_PATH = Inr content \<and> length key = 32 \<and> fp = digest_text sha (ed25519_blob key) \<and>
       parse_public_key sha content = Inr \<lparr>normalized = normal_line (ed25519_blob key) comment, fingerprint = fp\<rparr> \<and>
       im_stat I KEY_PATH = Inr info \<and> im_mode info = 0x180 \<and> im_uid info = uid \<and> im_gid info = gid"
    unfolding owned_as_def by metis
  have wants: "\<forall>path \<in> set (im_wants I). im_is_symlink I path \<longrightarrow>
       (\<exists>target. im_readlink I path = Inr target \<and> path_name target \<notin> {lit ''ssh.service'', lit ''sshd.service''})"
    using direct_services_none conjunct2 [OF enablementD [OF parts(2)]] by blast
  show ?thesis
    using socket enablementD [OF parts(2)] wants policyD [OF parts(3)] account sudoD [OF parts(7)] parts(9) deps by blast
qed

section \<open>An accepted image\<close>

lemma sample_independent: "independent SOCKET_FILES" "independent SERVICE_FILES" "independent [HOSTKEYS_FILE]"
  by (simp_all add: independent_def setting_values_def SOCKET_FILES_def SERVICE_FILES_def HOSTKEYS_FILE_def
      sample_words [unfolded HOSTKEYS_NAME_def] FORBIDDEN_DEPENDENCIES_def is_device_def)
    (simp_all add: lit_Cons HOSTKEYS_NAME_def starts_with_step)

lemma sample_accepted:
  assumes "verify_sshd_policy (ssh_image extra) = Inr POLICY_TEXT"
  shows "verify_engineering_ethernet_ssh U (\<lambda>_. []) (ssh_image extra) = Inr (lit ''SHA256:'')"
proof -
  have files: "[unit_text (SERVICE_FILES ! 0), unit_text (SERVICE_FILES ! Suc 0)] = map unit_text SERVICE_FILES"
    by (simp add: SERVICE_FILES_def)
  have "verify_dependencies (map (map unit_text) [SOCKET_FILES, SERVICE_FILES, [HOSTKEYS_FILE]]) = Inr ()"
    using sample_units_ok sample_independent by (subst verify_dependencies_text) simp_all
  then have "verify_dependencies [map unit_text SOCKET_FILES, map unit_text SERVICE_FILES, [unit_text HOSTKEYS_FILE]] = Inr ()"
    by (simp del: verify_dependencies.simps)
  with assms show ?thesis
    by (simp del: verify_dependencies.simps add: verify_engineering_ethernet_ssh_def sample_packages sample_ssh_files
        sample_service_dropin sample_socket sample_enablement sample_hostkeys sample_account sample_key sample_sudo sample_files files)
qed

theorem ssh_confined_witness:
  "sort (ssh_sockets (ssh_image [])) = [lit ''ssh.socket''] \<and> im_host_keys (ssh_image []) = []"
  using ssh_confined [OF sample_accepted [OF sample_policy(1), of ascii_tables] sample_files(6,8,10,12,16) sample_unit_ok sample_units_ok(3)]
  by blast

text \<open>
  Of the values of a keyword the server takes the first, and the drop-ins are included in their order, so that one that sorts
  before the policy of the image decides. The rules accept such an image, whose first \<^verbatim>\<open>PasswordAuthentication\<close> is
  \<^verbatim>\<open>yes\<close>.
\<close>

theorem policy_not_effective:
  "verify_engineering_ethernet_ssh ascii_tables (\<lambda>_. []) (ssh_image [PASSWORD_DROPIN]) = Inr (lit ''SHA256:'') \<and>
   (\<exists>texts. read_files (ssh_image [PASSWORD_DROPIN]) (sshd_files (ssh_image [PASSWORD_DROPIN])) = Inr texts \<and>
      filter (starts_with (lit ''PasswordAuthentication '')) (concat (map py_splitlines texts)) =
        [lit ''PasswordAuthentication yes'', lit ''PasswordAuthentication no''])"
proof -
  have "\<forall>ls \<in> {INCLUDE_LINES, [lit ''PasswordAuthentication yes''], POLICY_LINES}. \<forall>l \<in> set ls. \<forall>c \<in> set l. \<not> is_linebreak c"
    using policy_lines by (auto simp: quiet_line_def)
  then have "concat (map py_splitlines (map lines_text [INCLUDE_LINES, [lit ''PasswordAuthentication yes''], POLICY_LINES])) =
      INCLUDE_LINES @ lit ''PasswordAuthentication yes'' # POLICY_LINES"
    by (simp add: splitlines_text)
  moreover have "filter (starts_with (lit ''PasswordAuthentication '')) (INCLUDE_LINES @ lit ''PasswordAuthentication yes'' # POLICY_LINES) =
      [lit ''PasswordAuthentication yes'', lit ''PasswordAuthentication no'']"
    by (simp add: INCLUDE_LINES_def POLICY_LINES_def REQUIRED_POLICY_def lit_Cons starts_with_step)
  ultimately show ?thesis using sample_accepted [OF sample_policy(2)] sample_sshd(2) by metis
qed

end
