(* ===== verification/Spec2Isabelle.thy ===== *)
theory Spec2Isabelle
  imports Profile_Loss Service Grow_Disk Web_Facts Model_Disk Ssh_Key Detector Image_Access
begin

text \<open>
  RAVE is a Raspberry Pi appliance. This development models the parts of its repository that manage the appliance: the privileged
  network daemon and its protocol, the web service that talks to it, the first-boot expansion of the root file system, the store of
  inference models, the validation of the engineering key, the rules on a finished image and the decoder that qualifies the detector.

  \<^bold>\<open>The program.\<close> The network daemon (\<^verbatim>\<open>setup-ui/rave_networkd\<close>) owns the wireless interface. Its server reads one request per
  connection from a local socket, for one user only, and hands it to the controller; the controller keeps the mode of the network and
  at most one item of work, which a worker thread takes and carries out through the backend; the backend runs \<^verbatim>\<open>nmcli\<close> and
  \<^verbatim>\<open>systemctl\<close>. The web service (\<^verbatim>\<open>setup-ui/rave_web\<close>) is unprivileged; its provider reaches the daemon through the client
  (\<^verbatim>\<open>setup-ui/rave_network_ipc\<close>), which shares the wire contract with the server, and its models bound what the API shows. The
  remaining parts are commands of their own: \<^verbatim>\<open>scripts/rave_grow_rootfs.py\<close>, \<^verbatim>\<open>scripts/rave_model.py\<close>,
  \<^verbatim>\<open>scripts/engineering_ssh_key.py\<close>, \<^verbatim>\<open>scripts/verify_rave_image.py\<close> and \<^verbatim>\<open>qualification/m2b2b/compare_decoder.py\<close>.

  \<^bold>\<open>How code is modelled.\<close> A string is a list of code points (\<open>pstr\<close>), an integer of Python an \<open>int\<close>, a byte a number
  below 256. An effectful method is a computation \<open>('w, 'a) io\<close> that maps a state to a value or an exception and the new state;
  \<open>exn\<close> has the exceptions that a clause of the program tells apart, and \<open>catchE\<close>, \<open>finallyE\<close> and \<open>guardR\<close> are
  the \<^verbatim>\<open>except\<close>, \<^verbatim>\<open>finally\<close> and \<^verbatim>\<open>raise\<close> of the code. Threads are trees of blocks under a lock.

  \<^bold>\<open>The theories.\<close>
  \<^item> \<^verbatim>\<open>Prelude\<close>: exceptions, computations, \<open>keeps\<close>, \<open>raises_only\<close> and \<open>hoare\<close> with their rules;
    \<^verbatim>\<open>Threads\<close>: blocks, a thread run alone and interleaved; \<^verbatim>\<open>Sockets\<close>: the calls on a socket, and streams whose bytes
    arrive in segments of any size after any delay, on a clock of nanoseconds.
  \<^item> \<^verbatim>\<open>PyText\<close>, \<^verbatim>\<open>PyCodec\<close>, \<^verbatim>\<open>PyJson\<close>, \<^verbatim>\<open>PyJson_Layout\<close>: what the program uses of the standard library: UTF-8 and
    the other encodings of JSON, \<^verbatim>\<open>splitlines\<close>, \<^verbatim>\<open>strip\<close>, \<^verbatim>\<open>int\<close>, \<^verbatim>\<open>uuid.UUID\<close>, \<^verbatim>\<open>json.loads\<close> and
    \<^verbatim>\<open>json.dumps\<close>, with the lemmas that a document which is printed is parsed back.
  \<^item> \<^verbatim>\<open>Protocol\<close> (\<^verbatim>\<open>protocol.py\<close>): constants, enumerations, the validators of names and passwords. \<^verbatim>\<open>Net_State\<close>
    (\<^verbatim>\<open>state.py\<close>): events and transitions.
  \<^item> \<^verbatim>\<open>Backend\<close> (\<^verbatim>\<open>backend.py\<close>): every operation over a \<open>runner\<close>, and the subprocess runner over the calls of the operating
    system. \<^verbatim>\<open>Backend_Facts\<close>: the parsers and the ranking. \<^verbatim>\<open>Backend_Commands\<close>: the closed set of commands and the
    exceptions, in the locales \<open>supervised_runner\<close> and \<open>operational_runner\<close>.
  \<^item> \<^verbatim>\<open>Profiles\<close>: the life of the saved network, in the locale \<open>nm_runner\<close>, what the commands do to the table of profiles.
    \<^verbatim>\<open>Profile_Watch\<close>: a runner watched for a deletion that takes effect and is reported as failed, and the runner that stops
    there (\<open>nm_runner_stopping\<close>). \<^verbatim>\<open>Profile_Failure\<close>: what a failed attempt leaves where deletions take effect
    (\<open>nm_runner_deleting\<close>). \<^verbatim>\<open>Profile_Runner\<close>: the simulated NetworkManager of \<^verbatim>\<open>tests/test_networkd_contract.py\<close>,
    which provides these interfaces. \<^verbatim>\<open>Profile_Loss\<close>: the same with one late answer.
  \<^item> \<^verbatim>\<open>Controller\<close> (\<^verbatim>\<open>controller.py\<close> and the work loop of \<^verbatim>\<open>server.py\<close>): requests, the worker, reconciliation and
    recovery, one definition per method or block. \<^verbatim>\<open>Interleaving\<close>: the two threads as a step relation, \<open>reachable\<close> states and
    the invariants, over the locale \<open>operational_backend\<close>. \<^verbatim>\<open>Reporting\<close>: every reachable state is reported in the form that
    the client accepts (\<open>reporting_backend\<close>). \<^verbatim>\<open>Service\<close>: the abstract service, one function of the request and the
    controller, that a serving thread refines.
  \<^item> \<^verbatim>\<open>Server\<close> (\<^verbatim>\<open>server.py\<close>) and \<^verbatim>\<open>Client\<close> (\<^verbatim>\<open>client.py\<close>): framing, validation, dispatch and error mapping; the methods
    of the client. \<^verbatim>\<open>Server_Facts\<close>, \<^verbatim>\<open>Wire\<close>: what each end guarantees, and a whole exchange.
  \<^item> \<^verbatim>\<open>Web_Models\<close> (\<^verbatim>\<open>models.py\<close>), \<^verbatim>\<open>Web\<close> (\<^verbatim>\<open>providers.py\<close>, \<^verbatim>\<open>app.py\<close>), \<^verbatim>\<open>Web_Facts\<close>: the API, its providers
    and what it makes of the daemon's answers.
  \<^item> \<^verbatim>\<open>Grow_Rootfs\<close> (\<^verbatim>\<open>rave_grow_rootfs.py\<close>), \<^verbatim>\<open>Grow_Facts\<close>, \<^verbatim>\<open>Grow_Disk\<close>: the analysis of the partition table and the order of
    the operations over a \<open>machine\<close>; the locale \<open>disk_tools\<close> states what the tools are documented to do.
  \<^item> \<^verbatim>\<open>Model_Store\<close> (\<^verbatim>\<open>rave_model.py\<close>), \<^verbatim>\<open>Model_Manifest\<close>, \<^verbatim>\<open>Model_Facts\<close>, \<^verbatim>\<open>Model_Works\<close>, \<^verbatim>\<open>Model_Disk\<close>: the manifest, the
    commands over a file system whose calls may fail at any point (\<open>model_files\<close>) or answer (\<open>working_files\<close>), and a file
    system in a list that meets both.
  \<^item> \<^verbatim>\<open>Ssh_Key\<close> (\<^verbatim>\<open>engineering_ssh_key.py\<close>): the key, its normal form and base64. \<^verbatim>\<open>Unit_Files\<close>, \<^verbatim>\<open>Image_Rules\<close>,
    \<^verbatim>\<open>Image_Ssh\<close> (\<^verbatim>\<open>verify_rave_image.py\<close>): the reader of unit files and the rules, over an \<open>image\<close> that answers reads;
    \<^verbatim>\<open>Image_Facts\<close>, \<^verbatim>\<open>Image_Access\<close>: what an accepted image guarantees, and what it does not; \<^verbatim>\<open>Image_Sample\<close>: an
    accepted image. \<^verbatim>\<open>Detector\<close> (\<^verbatim>\<open>compare_decoder.py\<close>): decoding and selection.

  \<^bold>\<open>The properties.\<close> Those that span components are in this theory: the saved network survives an attempt but for one event, which
  is also shown to lose it; the commands stay within the policy and the password within a descriptor; the two threads are never stuck
  and always consistent; the two ends of the socket agree on every message, in every segmentation; the serving thread refines the
  abstract service. Those of one component stand at the end of its theory, with their witnesses.

  \<^bold>\<open>Bounds.\<close> All definitions are total. A request has at most 2048 bytes and a response at most 65536; the loops that read them
  recurse on the bytes still admitted. The recursion limit of Python is a parameter of the JSON parser and printer (\<open>depth\<close>), and the theorems hold for every
  value that admits the messages; an \<^verbatim>\<open>int\<close> has at most 4300 digits. Time-outs are compared with a clock of nanoseconds that the calls advance.

  \<^bold>\<open>Parameters.\<close> NetworkManager and the operating system appear as a \<open>runner\<close> or as system calls, the tools of the expansion as a
  \<open>machine\<close>, the disk as \<open>files\<close>, sockets as a record of calls, an image as a record of reads, SHA-256, the Unicode tables
  and the arithmetic of numpy as functions. What is assumed of them is a locale or a named hypothesis, and each locale is interpreted: the
  command policy on a logging runner, the profile laws on the simulated NetworkManager, the tools on a simulated disk, the file system on a list of
  nodes. One idealisation is deliberate: the effect of a command happens while it runs, so that a command whose answer is late may have
  taken effect but does not take effect later.

  \<^bold>\<open>What the models show of the code.\<close> A deletion whose answer expires makes the rollback delete the new profile after
  the old one is gone (\<open>lost_answer_loses_network\<close>). A provisioning request during boot ends in the error mode
  (\<open>provisioning_during_boot_fails\<close>). A long name of the operating system makes the system endpoint fail
  (\<open>long_os_name_fails\<close>). The rules on the image accept a daemon with every capability (\<open>confinement_not_enforced\<close>) and an SSH server that takes
  passwords (\<open>policy_not_effective\<close>).

  \<^bold>\<open>Not modelled.\<close> Logging, option parsing and printed messages; signal handlers; the routes that return static files; the rules on
  clone safety, mDNS, runtime Ethernet, discovery and the Hailo stack, and the provenance of the image; the scripts that load and compare captures, the
  benchmark, and the edge runtime, which is a mock that logs a constant message; shell, C++, browser code, packaging, data and documents.
\<close>

section \<open>The saved network\<close>


lemma sim_init_meets: "sim_invar (sim_init b fs) \<and> sim_fresh (sim_init b fs)"
  by (simp add: sim_init_def sim_invar_def sim_fresh_def sim_table_def)

lemma sim_init_saved: "saved_available (sim_table (sim_init True fs))"
  by (auto simp: saved_available_def kept_def sim_init_def sim_table_def)


text \<open>C3: after a connection attempt that reports success exactly one profile carries the saved
  name, and it does not connect by itself.\<close>

theorem one_saved_profile:
  assumes "nm_runner R profiles invar fresh" "invar w" "fresh w"
    and "connect_station R name password w = (Inr (True, result), w')"
  shows "\<exists>u p. profiles w' u = Some p \<and> prof_id p = SAVED_PROFILE \<and> prof_autoconnect p = lit ''no'' \<and>
           (\<forall>v q. profiles w' v = Some q \<and> prof_id q = SAVED_PROFILE \<longrightarrow> v = u)"
  using hoare_Inr [OF nm_runner.connect_station_unique [OF assms(1)] _ assms(4)] assms(2,3)
  by (auto simp: uniquely_saved_def only_def verified_def)

theorem one_saved_profile_witness:
  "\<exists>u p. sim_table (snd (connect_station (profile_runner ascii_tables) (lit ''New'')
      (Some (lit ''password1'')) (sim_init False []))) u = Some p \<and> prof_id p = SAVED_PROFILE"
proof -
  have "sim_fail_at (sim_init False []) = []" "sim_profiles (sim_init False []) = []"
    by (simp_all add: sim_init_def)
  with yields_connect_first [of ascii_tables] obtain w' where
    "connect_station (profile_runner ascii_tables) (lit ''New'') (Some (lit ''password1'')) (sim_init False []) =
       (Inr (True, Some (lit ''New''), None), w')"
    unfolding yields_def answering_in_time by blast
  from one_saved_profile [OF contract.nm_runner_axioms _ _ this] this sim_init_meets show ?thesis by auto
qed

text \<open>C9: A failed attempt leaves no saved network but the previous one, and when it has deleted that one, it leaves none at all:
  the deletion took effect and was answered with a failure, as when the answer expires, so that the rollback deletes the new profile as
  well, and \<^verbatim>\<open>station_profile_persistence_failed\<close> is reported. This holds for every state with one saved
  network, every name and password, and every way in which the other commands fail, where the deletions that return take effect.\<close>

theorem lost_answer_loses_network:
  assumes "nm_runner_deleting R profiles invar fresh" "invar w" "fresh w"
    and "kept u (profiles w)" "\<And>v. kept v (profiles w) \<Longrightarrow> v = u"
    and "connect_station (watching profiles R) name password (False, w) = (Inr (False, result, error), lost, w')"
    and "profiles w' u = None"
  shows "lost \<and> error = Some (lit ''station_profile_persistence_failed'') \<and> \<not> saved_available (profiles w')"
proof -
  have runner: "nm_runner R profiles invar fresh" using assms(1) by (rule nm_runner_deleting.axioms(1))
  have "saved_available (profiles w)" using assms(4) by (auto simp: saved_available_def)
  note attempt = watched_attempt [OF runner assms(2,3) this assms(6)]
  have "old_network u (profiles w)" unfolding old_network_def alone_def using assms(4,5) by blast
  from nm_runner_deleting.failed_attempt [OF assms(1-3) this conjunct1 [OF attempt] assms(7)] conjunct2 [OF attempt]
  show ?thesis by blast
qed

theorem lost_answer_loses_network_witness:
  "\<exists>w'. connect_station (answering ascii_tables True) (lit ''New'') (Some (lit ''password1'')) (sim_init True []) =
          (Inr (False, None, Some (lit ''station_profile_persistence_failed'')), w') \<and>
        saved_available (sim_table (sim_init True [])) \<and> \<not> saved_available (sim_table w')"
proof -
  let ?w = "sim_init True []"
  have start: "sim_fail_at ?w = []" "sim_profiles ?w = [old_row SAVED_PROFILE]"
    by (simp_all add: sim_init_def profile_row_def)
  with yields_connect [of ascii_tables] obtain w' where
    run: "connect_station (answering ascii_tables True) (lit ''New'') (Some (lit ''password1'')) ?w =
      (Inr (False, None, Some (lit ''station_profile_persistence_failed'')), w')" and w': "sim_profiles w' = []"
    unfolding yields_def by blast
  obtain outcome lost v where
    watched: "connect_station (watching sim_table (answering ascii_tables True)) (lit ''New'') (Some (lit ''password1'')) (False, ?w) =
      (outcome, lost, v)" by (metis prod.collapse)
  have "undisturbed ?w" "sim_fresh ?w" using sim_init_meets start by (simp_all add: undisturbed_def)
  moreover have "kept u (sim_table ?w) \<longleftrightarrow> u = OLD_PROFILE_UUID" for u
    by (auto simp: kept_def sim_table_def start profile_row_def)
  moreover have "outcome = Inr (False, None, Some (lit ''station_profile_persistence_failed''))" "v = w'"
    using tracks_connect_station [of sim_table "answering ascii_tables True" "lit ''New''" "Some (lit ''password1'')"] watched run
    unfolding tracks_def by (metis prod.inject)+
  moreover have "sim_table w' OLD_PROFILE_UUID = None" by (simp add: sim_table_def w')
  ultimately have "\<not> saved_available (sim_table w')"
    using lost_answer_loses_network [OF answering_meets, of ?w OLD_PROFILE_UUID] watched by metis
  with run sim_init_saved show ?thesis by blast
qed

section \<open>The privilege boundary\<close>

lemma logged_from_start:
  "keeps log_within_policy m \<Longrightarrow> log_within_policy (snd (m ([], w)))"
  by (simp add: keeps_def log_within_policy_def)

text \<open>C5: every command that an operation of the backend runs is one of the fixed
  \<^verbatim>\<open>nmcli\<close> and \<^verbatim>\<open>systemctl\<close> commands, with the time limit fixed for it.\<close>

theorem commands_within_policy:
  "log_within_policy (snd (connect_station (logging_runner R) name password ([], w))) \<and>
   log_within_policy (snd (activate_saved_station (logging_runner R) ([], w))) \<and>
   log_within_policy (snd (activate_provisioning (logging_runner R) ([], w))) \<and>
   log_within_policy (snd (scan (logging_runner R) ([], w))) \<and>
   log_within_policy (snd (has_saved_station (logging_runner R) ([], w))) \<and>
   log_within_policy (snd (active_station_ssid (logging_runner R) ([], w))) \<and>
   log_within_policy (snd (provisioning_ready (logging_runner R) ([], w)))"
  by (intro conjI logged_from_start logged.operations_keep)

text \<open>C6: two passwords that the protocol accepts lead to the same commands, the same outcome
  and the same world, as long as the world does not show the content of the file descriptor the
  password is written to: no argument vector contains it.\<close>

theorem password_only_in_descriptor:
  assumes "password_ok p" "password_ok q" "\<And>d b b'. os_write OS d b = os_write OS d b'"
  shows "connect_station (subprocess_runner U OS) name (Some p) =
         connect_station (subprocess_runner U OS) name (Some q)"
  by (rule connect_station_password [OF assms(1,2)])
     (simp add: subprocess_runner_def subprocess_runner_password [OF assms])

theorem password_only_in_descriptor_witness:
  "connect_station (subprocess_runner ascii_tables (recording_os [])) (lit ''New'') (Some (lit ''password1'')) =
   connect_station (subprocess_runner ascii_tables (recording_os [])) (lit ''New'') (Some (lit ''password2''))"
  by (rule password_only_in_descriptor)
     (simp_all add: password_ok_def lit_def is_surrogate_def is_scalar_def utf8_char_def recording_os_def)

text \<open>C10: with an operating system that fails only as documented, every exception that leaves a
  connection attempt is one that the controller recovers from.\<close>

theorem connect_fails_operationally:
  assumes "os_fails_cleanly OS" "connect_station (subprocess_runner U OS) name password w = (Inl e, w')"
  shows "is_os_error e \<or> is_runtime_error e \<or> is_value_error e"
  using raises_onlyD [OF operational_runner.connect_station_raises
      [OF subprocess_runner_operational [OF assms(1)]] assms(2)]
  by (simp add: is_operational_def)

theorem connect_fails_operationally_witness:
  "\<exists>e. fst (connect_station (subprocess_runner ascii_tables (recording_os [])) [] None []) = Inl e \<and>
       (is_os_error e \<or> is_runtime_error e \<or> is_value_error e)"
proof -
  have "connect_station (subprocess_runner ascii_tables (recording_os [])) [] None [] =
      (Inl (ValueError (lit ''ssid_length_invalid'')), [])"
    by (simp add: connect_station_def validate_ssid_str raiseE_def)
  from connect_fails_operationally [OF recording_os_clean this] this show ?thesis by simp
qed

section \<open>Scanning\<close>

text \<open>C7: a scan offers at most 64 networks, in the order of falling signal and then of the
  casefolded name, with no name twice; each is an access point that NetworkManager listed and
  that is well-formed, none listed under the same name is stronger, and a name is left out only
  when there are more than 64.\<close>

theorem scan_offers_strongest:
  "length (rank_networks U out) \<le> 64 \<and> sorted (map (scan_key U) (rank_networks U out)) \<and>
   distinct (map ap_ssid (rank_networks U out)) \<and>
   (\<forall>ap \<in> set (rank_networks U out). access_point_ok ap \<and> ap \<in> set (parsed_points U out) \<and>
      (\<forall>b \<in> set (parsed_points U out). ap_ssid b = ap_ssid ap \<longrightarrow> ap_signal_percent b \<le> ap_signal_percent ap)) \<and>
   (card (ap_ssid ` set (parsed_points U out)) \<le> 64 \<longrightarrow>
      ap_ssid ` set (rank_networks U out) = ap_ssid ` set (parsed_points U out))"
  using rank_networks_length [of U out] rank_networks_sorted [of U out] rank_networks_distinct [of U out]
    rank_networks_ok [of _ U out] rank_networks_strongest [of _ U out] rank_networks_complete [of U out]
  by (simp add: MAX_NETWORKS_def)

theorem scan_offers_strongest_witness:
  "access_point_ok found_point \<and> found_point \<in> set (parsed_points ascii_tables (lit ''New:90:WPA2:'' @ [10]))"
  using scan_offers_strongest [of ascii_tables "lit ''New:90:WPA2:'' @ [10]"]
  by (simp add: scan_line found_point_def)

text \<open>C11: fields escaped as NetworkManager escapes them (a backslash before every colon and
  every backslash) and joined by colons are read back as they were.\<close>

theorem terse_fields_roundtrip:
  assumes "fs \<noteq> []"
  shows "split_escaped_fields (terse_line fs) = fs"
  using split_go_terse [OF assms, of "[]"] by (simp add: split_escaped_fields_def)

theorem terse_fields_roundtrip_witness:
  "split_escaped_fields (terse_line [lit ''a:b'', [92], []]) = [lit ''a:b'', [92], []]"
  by (rule terse_fields_roundtrip) simp

section \<open>Names and passwords\<close>

text \<open>C12: a network name is accepted exactly when it is a string of 1 to 32 bytes in UTF-8
  without control characters and lone surrogates, and it is returned unchanged; every other
  value is refused with a TypeError or a ValueError.\<close>

theorem ssid_validation:
  "(validate_ssid v = Inr s \<longleftrightarrow> v = JStr s \<and> ssid_ok s) \<and>
   (\<forall>e. validate_ssid v = Inl e \<longrightarrow> is_value_error e \<or> is_type_error e)"
  by (simp add: validate_ssid_iff validate_ssid_error)

theorem ssid_validation_witness:
  "is_type_error (TypeError (lit ''ssid_invalid'')) \<and> validate_ssid JNull = Inl (TypeError (lit ''ssid_invalid''))"
  using ssid_validation [of JNull] by (auto simp: validate_ssid_def)

text \<open>C13: a password is accepted exactly when it is a string of 8 to 63 bytes in UTF-8 without
  NUL, CR, LF and lone surrogates, and it is returned unchanged; every other value is refused
  with a TypeError or a ValueError.\<close>

theorem password_validation:
  "(validate_password v = Inr p \<longleftrightarrow> v = JStr p \<and> password_ok p) \<and>
   (\<forall>e. validate_password v = Inl e \<longrightarrow> is_value_error e \<or> is_type_error e)"
  by (simp add: validate_password_iff validate_password_error)

theorem password_validation_witness:
  "is_type_error (TypeError (lit ''password_invalid'')) \<and> validate_password JNull = Inl (TypeError (lit ''password_invalid''))"
  using password_validation [of JNull] by (auto simp: validate_password_def)

section \<open>The controller\<close>

text \<open>A concrete backend for the witnesses below, and a controller that is booting.\<close>

definition recorded_backend :: "pstr list list backend" where
  "recorded_backend = nm_backend (subprocess_runner ascii_tables (recording_os []))"

lemma recorded_backend_operational: "operational_backend recorded_backend"
  unfolding recorded_backend_def
  by (rule operational_nm_backend) (rule subprocess_runner_operational [OF recording_os_clean])

definition booting :: "pstr list list net" where
  "booting = (net_init [])\<lparr>net_mode := STATION_CONNECTING\<rparr>"

lemma booting_states: "net_mode booting = STATION_CONNECTING" "net_work booting = None"
  by (simp_all add: booting_def net_init_def)

definition boot_requested :: "pstr list list net" where
  "boot_requested = snd (request_boot (net_init []))"

lemma boot_requested_reachable: "reachable recorded_backend (None, boot_requested)"
proof -
  have "request_boot (net_init []) = (Inr \<lparr>snap_mode = STATION_CONNECTING, snap_ap_active = False,
      snap_station_ssid = None, snap_last_error = None\<rparr>, boot_requested)"
    by (simp add: boot_requested_def request_defs net_init_def bindE_def)
  then have "client_step (net_init []) boot_requested" by (rule step_boot)
  then show ?thesis
    by (blast intro: reachable.intros net_step.intros)
qed

text \<open>C2: however the server thread's requests fall between the blocks of the worker, between
  two rounds of the worker a mode that waits for the worker (a transition, a connection being
  made) has a work item in the queue: the controller does not get stuck.\<close>

theorem no_stuck_transition:
  assumes "operational_backend B" "reachable B (None, s)"
    and "net_mode s = TRANSITION \<or> net_mode s = STATION_CONNECTING"
  shows "net_work s \<noteq> None"
  using operational_backend.reachable_assured [OF assms(1,2)] assms(3) by (auto simp: settled_def)

theorem no_stuck_transition_witness:
  "net_mode boot_requested = STATION_CONNECTING \<and> net_work boot_requested \<noteq> None"
proof -
  have mode: "net_mode boot_requested = STATION_CONNECTING"
    by (simp add: boot_requested_def request_defs net_init_def bindE_def)
  with no_stuck_transition [OF recorded_backend_operational boot_requested_reachable] show ?thesis by simp
qed

text \<open>C4: in every reachable state of the two threads a station name is shown only while
  connected or in transition, the error mode has an error to show, and a connected station has
  none.\<close>

theorem snapshot_consistent:
  assumes "reachable B (t, s)"
  shows "(net_station_ssid s \<noteq> None \<longrightarrow> net_mode s = STATION_CONNECTED \<or> net_mode s = TRANSITION) \<and>
         (net_mode s = ERROR \<longrightarrow> net_last_error s \<noteq> None) \<and>
         (net_mode s = STATION_CONNECTED \<longrightarrow> net_last_error s = None)"
  using reachable_consistent [OF assms] by (simp add: consistent_def)

theorem snapshot_consistent_witness:
  "net_mode boot_requested \<noteq> STATION_CONNECTED \<and> net_mode boot_requested \<noteq> TRANSITION \<and>
   net_station_ssid boot_requested = None"
proof -
  have "net_mode boot_requested = STATION_CONNECTING"
    by (simp add: boot_requested_def request_defs net_init_def bindE_def)
  with snapshot_consistent [OF boot_requested_reachable] show ?thesis by auto
qed

text \<open>C8: a provisioning request that is accepted while the controller is booting ends in the
  error mode, whatever the backend answers, also when the access point is up: the boot leaves
  the transition mode, so that the second success of the access point is no valid transition.\<close>

theorem provisioning_during_boot_fails:
  assumes "operational_backend B" "net_mode s = STATION_CONNECTING" "net_work s = None"
    and "request_provisioning s = (Inr x, s1)"
    and "run_thread (process_guarded B \<lparr>work_kind = WORK_BOOT, work_ssid = None, work_password = None\<rparr>) s1 = (r2, s2)"
    and "run_thread (process_next B) s2 = (r3, s3)"
  shows "snap_mode x = TRANSITION \<and> net_mode s3 = ERROR"
proof -
  let ?boot = "\<lparr>work_kind = WORK_BOOT, work_ssid = None, work_password = None\<rparr>"
  let ?item = "\<lparr>work_kind = WORK_PROVISIONING, work_ssid = None, work_password = None\<rparr>"
  have "held ?item {TRANSITION} s1" "snap_mode x = TRANSITION"
    using assms(2-4) by (auto simp: request_provisioning_accepted held_def snapshot_locked_def)
  moreover from tripleD [OF operational_backend.boot_guarded_held [OF assms(1)] this(1), of ?boot]
  have "held ?item resting s2"
    using assured_run [OF _ assms(5)] by (cases r2) fastforce+
  ultimately show ?thesis
    using operational_backend.late_provisioning [OF assms(1) _ _ assms(6), of ?item] by simp
qed

theorem provisioning_during_boot_fails_witness:
  "(\<forall>w. activate_provisioning (subprocess_runner ascii_tables (recording_os [])) w =
        (Inr (True, None), snd (activate_provisioning (subprocess_runner ascii_tables (recording_os [])) w))) \<and>
   net_mode (snd (run_thread (process_next recorded_backend) (snd (run_thread
     (process_guarded recorded_backend \<lparr>work_kind = WORK_BOOT, work_ssid = None, work_password = None\<rparr>)
     (snd (request_provisioning booting)))))) = ERROR"
proof (intro conjI allI)
  show "activate_provisioning (subprocess_runner ascii_tables (recording_os [])) w =
      (Inr (True, None), snd (activate_provisioning (subprocess_runner ascii_tables (recording_os [])) w))" for w
    by (simp add: activate_provisioning_def enable_wifi_def nmcli_def subprocess_runner_def
        subprocess_runner_run_def recording_os_def COMMAND_TIMEOUT_SECONDS_def bindE_def returnE_def)
  have request: "fst (request_provisioning booting) = Inr \<lparr>snap_mode = TRANSITION, snap_ap_active = False,
      snap_station_ssid = None, snap_last_error = None\<rparr>"
    by (simp add: request_defs booting_def net_init_def bindE_def)
  show "net_mode (snd (run_thread (process_next recorded_backend) (snd (run_thread
     (process_guarded recorded_backend \<lparr>work_kind = WORK_BOOT, work_ssid = None, work_password = None\<rparr>)
     (snd (request_provisioning booting)))))) = ERROR"
    using provisioning_during_boot_fails [OF recorded_backend_operational, of booting]
      prod.collapse request by (metis booting_states)
qed

section \<open>The socket\<close>

text \<open>C15: what a method of the client sends is read by the daemon as the request it stands for,
  with the same network name and password, however the bytes are cut into segments.\<close>

theorem request_roundtrip:
  assumes "sends action payload req" "peer_is c server_uid" "peer_is d web_uid" "0 < depth" "0 < depth'"
    and "st_sent c = []"
    and "carries d (st_sent (snd (client_request client_stream server_uid depth action payload t c)))"
  shows "fst (read_request stream_sock web_uid depth' d) = Inr req"
  by (rule request_read [OF assms]) simp

definition root_peer :: bytes where "root_peer = [0, 0, 0, 0, 0, 0, 0, 0, 0, 0, 0, 0]"

definition idle_stream :: stream where
  "idle_stream = \<lparr>st_segments = [], st_clock = 0, st_peer = root_peer, st_sent = []\<rparr>"

definition one_segment :: "bytes \<Rightarrow> stream" where
  "one_segment b = idle_stream\<lparr>st_segments := [(0, b)]\<rparr>"

lemma idle_peer: "peer_is idle_stream 0" "peer_is (one_segment b) 0" "st_sent idle_stream = []"
  "st_sent (one_segment b) = []"
  by (simp_all add: peer_is_def one_segment_def idle_stream_def root_peer_def signed32_def)

lemma one_segment_carries: "b \<noteq> [] \<Longrightarrow> carries (one_segment b) b" "b \<noteq> [] \<Longrightarrow> 0 \<le> t \<Longrightarrow> answers (one_segment b) t b"
  by (simp_all add: carries_def answers_def one_segment_def REQUEST_FRAMING_TIMEOUT_SECONDS_def)

lemma home_payload: "connect_payload (lit ''Home'') (Some (lit ''password1'')) =
    Inr [(lit ''ssid'', JStr (lit ''Home'')), (lit ''password'', JStr (lit ''password1''))]"
  by (simp add: connect_payload_iff ssid_ok_def password_ok_def lit_def is_scalar_def is_surrogate_def utf8_char_def)

lemma client_sends_something:
  "sends action payload req \<Longrightarrow> peer_is c uid \<Longrightarrow> 0 < depth \<Longrightarrow>
     st_sent (snd (client_request client_stream uid depth action payload t c)) \<noteq> []"
  using client_request_sends by (metis append_is_Nil_conv list.distinct(1))

theorem request_roundtrip_witness:
  "fst (read_request stream_sock 0 1 (one_segment (st_sent (snd (client_request client_stream 0 1 CONNECT
      [(lit ''ssid'', JStr (lit ''Home'')), (lit ''password'', JStr (lit ''password1''))] 2 idle_stream))))) =
   Inr \<lparr>req_action = CONNECT, req_ssid = Some (lit ''Home''), req_password = Some (lit ''password1'')\<rparr>"
  by (rule request_roundtrip [OF sends.connect [OF home_payload] idle_peer(1,2) zero_less_one zero_less_one
      idle_peer(3) one_segment_carries(1)])
    (rule client_sends_something [OF sends.connect [OF home_payload] idle_peer(1) zero_less_one])

lemma found_point_ok: "access_point_ok found_point"
  using rank_networks_ok [of found_point ascii_tables "lit ''New:90:WPA2:'' @ [10]"] by (simp add: scan_line found_point_def)

text \<open>C18: A request that a client method sends, its line feed included, and every answer to it
  fit the bounds of the two readers: a scan of at most 64 valid networks, every status or
  acceptance that the client would validate, and the reply to every exception.\<close>

theorem messages_fit:
  assumes "sends action payload req" "\<forall>ap \<in> set aps. access_point_ok ap" "length aps \<le> MAX_NETWORKS"
    and "reportable s" "reason_ok reason"
  shows "utf8_length (json_dumps False (request_object action payload)) + 1 \<le> MAX_REQUEST_BYTES \<and>
    utf8_length (json_dumps True (JObj (scan_response aps))) \<le> MAX_RESPONSE_BYTES \<and>
    utf8_length (json_dumps True (JObj (snapshot_response s))) \<le> MAX_RESPONSE_BYTES \<and>
    utf8_length (json_dumps True (JObj (snapshot_response s @
      [(lit ''accepted'', JBool True), (lit ''reason'', JStr reason)]))) \<le> MAX_RESPONSE_BYTES \<and>
    (\<forall>e. utf8_length (json_dumps True (error_reply e)) \<le> MAX_RESPONSE_BYTES)"
proof -
  have "utf8_length reason \<le> 256" using assms(5) by (rule utf8_length_reason)
  moreover have "utf8_length (lit ''accepted'') \<le> 16" "utf8_length (lit ''reason'') \<le> 12"
    using utf8_length_lit [of "''accepted''"] utf8_length_lit [of "''reason''"] by simp_all
  ultimately show ?thesis
    using request_size [OF assms(1)] scan_response_size [OF assms(2,3)]
      snapshot_response_size [OF assms(4), of "[]"]
      snapshot_response_size [OF assms(4), of "[(lit ''accepted'', JBool True), (lit ''reason'', JStr reason)]"]
      error_reply_size
    by simp
qed

theorem messages_fit_witness:
  "utf8_length (json_dumps True (JObj (scan_response [found_point]))) \<le> 65536"
  using messages_fit [OF sends.plain [of STATUS], of "[found_point]"
      "\<lparr>snap_mode = UNCONFIGURED, snap_ap_active = False, snap_station_ssid = None, snap_last_error = None\<rparr>"
      "lit ''code''"] found_point_ok
  by (simp add: MAX_NETWORKS_def MAX_RESPONSE_BYTES_def reportable_def reason_ok_lit)

text \<open>C14: a connection request that reaches the daemon while no transition is under way is queued
  with exactly the name and password that the web service was given, and the client returns the
  validated acceptance; this holds in every reachable state of the daemon and for every way to
  cut the two messages into segments.\<close>

theorem connect_exchange:
  assumes "connect_payload name password = Inr payload"
    and "peer_is c server_uid" "peer_is d web_uid" "0 < depth" "0 < depth'" "st_sent c = []" "st_sent d = []"
    and "carries d (st_sent (snd (client_connect client_stream server_uid depth name password c)))"
    and "run_thread (serve_connection stream_sock web_uid depth' (nm_backend R)) (d, n) = (r, (d', n'))"
    and "answers c (2 * 10 ^ 9) (st_sent d')"
    and "reachable (nm_backend R) (t, n)" "net_mode n \<in> {STATION_CONNECTED, PROVISIONING_AP}" "net_work n = None"
  shows "r = Inr () \<and>
    n' = n\<lparr>net_mode := TRANSITION, net_last_error := None,
           net_work := Some \<lparr>work_kind = WORK_CONNECT, work_ssid = Some name, work_password = password\<rparr>\<rparr> \<and>
    fst (client_connect client_stream server_uid depth name password c) =
      Inr (acceptance \<lparr>snap_mode = TRANSITION, snap_ap_active = False,
             snap_station_ssid = net_station_ssid n, snap_last_error = None\<rparr> ''station_connection_requested'')"
proof -
  define n2 where "n2 = n\<lparr>net_mode := TRANSITION, net_last_error := None,
      net_work := Some \<lparr>work_kind = WORK_CONNECT, work_ssid = Some name, work_password = password\<rparr>\<rparr>"
  define snap where "snap = \<lparr>snap_mode = TRANSITION, snap_ap_active = False,
      snap_station_ssid = net_station_ssid n, snap_last_error = None\<rparr>"
  let ?answer = "acceptance snap ''station_connection_requested''"
  let ?call = "client_request client_stream server_uid depth CONNECT payload (2 * 10 ^ 9)"
  have client: "client_connect client_stream server_uid depth name password =
      bindE ?call (\<lambda>x. liftR (validate_action_response x))"
    by (simp add: client_connect_def assms(1))
  have heard: "carries d (st_sent (snd (?call c)))"
    using assms(8) unfolding client by (simp only: bindE_liftR_run(1))
  have "request_connect name password n = (Inr snap, n2)"
    using assms(12,13) by (simp add: request_connect_accepted snapshot_locked_def snap_def n2_def)
  then have dispatched: "run_thread (dispatch (nm_backend R)
      \<lparr>req_action = CONNECT, req_ssid = Some name, req_password = password\<rparr>) n = (Inr (JObj ?answer), n2)"
    by (simp add: dispatch_def Let_def bindE_def returnE_def acceptance_def)
  have snap: "reportable snap" unfolding snap_def by (rule reachable_reportable [OF assms(11)])
  have reason: "reason_ok (lit ''station_connection_requested'')" by (rule reason_ok_lit) auto
  note sent = acceptance_sent [OF snap reason assms(4)]
  have "r = Inr () \<and> n' = n2 \<and> fst (?call c) = check_response (answer (Inr (JObj ?answer)))"
    by (rule full_exchange [OF sends.connect [OF assms(1)] assms(2-5) _ assms(6,7) _ assms(9,10) dispatched sent(1)])
      (use heard sent in \<open>simp_all add: answer_def del: json_dumps.simps\<close>)
  then have "r = Inr ()" "n' = n2" "fst (?call c) = Inr ?answer"
    using acceptance_received(1) [OF snap reason] by (simp_all add: answer_def)
  with acceptance_received(2) [OF snap reason] show ?thesis
    unfolding client n2_def [symmetric] snap_def [symmetric] by (simp add: bindE_liftR_run(2))
qed

definition ap_active :: "pstr list list net" where
  "ap_active = snd (run_thread (work_round recorded_backend) boot_requested)"

lemma ap_active_reachable: "reachable recorded_backend (None, ap_active)"
  using reachable_round [OF boot_requested_reachable] unfolding ap_active_def by (metis prod.collapse)

lemma recorded_answers:
  "0 < t \<and> t \<le> COMMAND_TIMEOUT_SECONDS \<Longrightarrow>
     run (subprocess_runner ascii_tables (recording_os [])) c t w = (Inr \<lparr>returncode = 0, stdout = []\<rparr>, w @ [c])"
  by (simp add: subprocess_runner_def subprocess_runner_run_def recording_os_def bindE_def returnE_def)

lemma recorded_no_saved:
  "b_has_saved_station recorded_backend w =
     (Inr False, w @ [nmcli_command args_list_profiles 2, nmcli_command args_list_profiles 2])"
proof -
  have "parse_profile_list R i [] = (True, None)" for R :: "pstr list list runner" and i
    by (simp add: parse_profile_list_def py_splitlines_def)
  then show ?thesis
    by (simp add: recorded_backend_def nm_backend_def has_saved_station_def profile_uuid_of_def nmcli_def
        recorded_answers COMMAND_TIMEOUT_SECONDS_def bindE_def returnE_def)
qed

lemma recorded_ap:
  "\<exists>w'. b_activate_provisioning recorded_backend w = (Inr (True, None), w')"
  by (simp add: recorded_backend_def nm_backend_def activate_provisioning_def enable_wifi_def nmcli_def
      recorded_answers COMMAND_TIMEOUT_SECONDS_def bindE_def returnE_def)

lemma ap_active_state: "net_mode ap_active = PROVISIONING_AP \<and> net_work ap_active = None"
proof -
  obtain w' where ap: "b_activate_provisioning recorded_backend
      ([] @ [nmcli_command args_list_profiles 2, nmcli_command args_list_profiles 2]) = (Inr (True, None), w')"
    using recorded_ap by blast
  show ?thesis
    unfolding ap_active_def work_round_def process_next_def process_guarded_def
    by (simp add: process_item_def process_boot_def restore_provisioning_def restore_outcome_def apply_event_def
        boot_requested_def request_defs net_init_def get_work_def recorded_no_saved ap [simplified]
        apply_locked_def bindE_def returnE_def catchE_def on_world_def)
qed

definition home_request :: bytes where
  "home_request = st_sent (snd (client_connect client_stream 0 1 (lit ''Home'') (Some (lit ''password1'')) idle_stream))"

definition home_served :: "(exn + unit) \<times> stream \<times> pstr list list net" where
  "home_served = run_thread (serve_connection stream_sock 0 1 recorded_backend) (one_segment home_request, ap_active)"

lemma home_connect_sent:
  assumes "peer_is c 0" "st_sent c = []"
  shows "st_sent (snd (client_connect client_stream 0 1 (lit ''Home'') (Some (lit ''password1'')) c)) = home_request"
proof -
  note sent = client_request_sent_any [OF _ sends.connect [OF home_payload]]
  show ?thesis
    unfolding home_request_def client_connect_def
    by (simp add: home_payload bindE_liftR_run(1) sent [OF assms(1)] sent [OF idle_peer(1)] assms(2) idle_peer(3))
qed

lemma home_request_nonempty: "home_request \<noteq> []"
  unfolding home_request_def client_connect_def
  using client_sends_something [OF sends.connect [OF home_payload] idle_peer(1) zero_less_one]
  by (simp add: home_payload bindE_liftR_run(1))

lemma home_read: "\<exists>d. read_request stream_sock 0 1 (one_segment home_request) =
    (Inr \<lparr>req_action = CONNECT, req_ssid = Some (lit ''Home''), req_password = Some (lit ''password1'')\<rparr>, d) \<and>
    st_sent d = st_sent (one_segment home_request)"
proof -
  have "carries (one_segment home_request) (st_sent (snd (client_request client_stream 0 1 CONNECT
      [(lit ''ssid'', JStr (lit ''Home'')), (lit ''password'', JStr (lit ''password1''))] (2 * 10 ^ 9) idle_stream)))"
    using one_segment_carries(1) [OF home_request_nonempty]
    by (simp add: home_request_def client_connect_def home_payload bindE_liftR_run(1))
  from request_read [OF sends.connect [OF home_payload] idle_peer(1,2) zero_less_one zero_less_one idle_peer(3) this]
  show ?thesis by blast
qed

lemma recorded_scan_exception: "raises_only is_exception (b_scan recorded_backend)"
proof -
  have scan: "raises_only is_operational (b_scan recorded_backend)"
    by (simp add: recorded_backend_def nm_backend_def operational_runner.scan_raises [OF recorded.operational_runner_axioms])
  show ?thesis by (auto simp: raises_only_def is_exception_def dest: raises_onlyD [OF scan])
qed

lemma home_answer_nonempty: "st_sent (fst (snd home_served)) \<noteq> []"
proof -
  let ?req = "\<lparr>req_action = CONNECT, req_ssid = Some (lit ''Home''), req_password = Some (lit ''password1'')\<rparr>"
  obtain d1 where d1: "read_request stream_sock 0 1 (one_segment home_request) = (Inr ?req, d1)"
    "st_sent d1 = st_sent (one_segment home_request)"
    using home_read by blast
  obtain x n2 where x: "run_thread (dispatch recorded_backend ?req) ap_active = (x, n2)" by fastforce
  from outcomes_run [OF dispatch_outcomes [OF recorded_scan_exception] x] have ok: "reply_outcome x" .
  from serve_run [OF d1 x ok] answer_nonempty [OF ok] show ?thesis by (auto simp: home_served_def)
qed

theorem connect_exchange_witness:
  "fst (client_connect client_stream 0 1 (lit ''Home'') (Some (lit ''password1''))
      (one_segment (st_sent (fst (snd home_served))))) =
   Inr (acceptance \<lparr>snap_mode = TRANSITION, snap_ap_active = False,
     snap_station_ssid = net_station_ssid ap_active, snap_last_error = None\<rparr> ''station_connection_requested'')"
proof -
  obtain r d' n' where served: "run_thread (serve_connection stream_sock 0 1
      (nm_backend (subprocess_runner ascii_tables (recording_os [])))) (one_segment home_request, ap_active) = (r, (d', n'))"
    by (metis prod.collapse)
  then have d': "d' = fst (snd home_served)" by (simp add: home_served_def recorded_backend_def)
  have heard: "carries (one_segment home_request) (st_sent (snd (client_connect client_stream 0 1
      (lit ''Home'') (Some (lit ''password1'')) (one_segment (st_sent d')))))"
    unfolding home_connect_sent [OF idle_peer(2,4)] by (rule one_segment_carries(1) [OF home_request_nonempty])
  have answered: "answers (one_segment (st_sent d')) (2 * 10 ^ 9) (st_sent d')"
    using home_answer_nonempty by (simp add: d' one_segment_carries(2))
  show ?thesis
    using connect_exchange [OF home_payload idle_peer(2,2) zero_less_one zero_less_one idle_peer(4,4) heard served answered
        ap_active_reachable [unfolded recorded_backend_def]] ap_active_state
    by (simp add: d')
qed

text \<open>C16: whatever a peer sends, and however it is cut into segments and delayed, serving it ends
  without an exception and sends exactly one reply, which is a success or one of the reviewed
  error codes: no text of an exception of the backend leaves the daemon.\<close>

theorem replies_reviewed:
  assumes "raises_only is_exception (b_scan B)"
    and "run_thread (serve_connection stream_sock uid depth B) (c, n) = (r, (c', n'))"
  shows "r = Inr () \<and>
    (\<exists>v. st_sent c' = st_sent c @ json_dumps True v \<and>
       ((\<exists>code \<in> set reviewed_codes. v = error_response_code code) \<or>
        (\<exists>d. v = JObj d \<and> dict_get d (lit ''ok'') = JBool True)))"
  using serve_sends [OF assms] unfolding reviewed_reply_def by blast

theorem replies_reviewed_witness:
  "fst (run_thread (serve_connection stream_sock 0 1 recorded_backend) (one_segment [0, 10], booting)) = Inr ()"
  using replies_reviewed [OF recorded_scan_exception] by (metis prod.collapse)

text \<open>C21: a peer of another user is answered \<^verbatim>\<open>peer_not_authorized\<close> without a byte of what it
  sent being read, and the controller is left as it was.\<close>

theorem stranger_refused:
  assumes "peer_is c u" "u \<noteq> web_uid"
  shows "run_thread (serve_connection stream_sock web_uid depth B) (c, n) =
    (Inr (), (c\<lparr>st_sent := st_sent c @ json_dumps True (error_response_code (lit ''peer_not_authorized''))\<rparr>, n))"
proof -
  have "peer_uid stream_sock c = (Inr u, c)"
    using assms(1) by (simp add: peer_uid_def peer_is_def stream_sock_def bindE_def returnE_def)
  from serve_stranger [OF this assms(2)] stream_send [of "error_response_code (lit ''peer_not_authorized'')" c]
  show ?thesis by (simp add: error_response_code_def)
qed

theorem stranger_refused_witness:
  "snd (snd (run_thread (serve_connection stream_sock 1000 1 recorded_backend) (one_segment [0, 10], booting))) = booting"
  using stranger_refused [OF idle_peer(2), where web_uid = 1000 and depth = 1 and B = recorded_backend and n = booting]
  by simp

text \<open>C19: the requests that are accepted: an object with the version, one of the four actions and
  exactly the fields of this action; a connection request carries a valid network name and a
  valid password or none. Everything else is refused with one of the public codes.\<close>

theorem request_validation:
  "(parse_request v = Inr req \<longleftrightarrow>
     (\<exists>d. v = JObj d \<and> request_fields (req_action req) d \<and>
        (if req_action req = CONNECT then credentials_of d (req_ssid req) (req_password req)
         else req_ssid req = None \<and> req_password req = None))) \<and>
   (\<forall>e. parse_request v = Inl e \<longrightarrow>
     (\<exists>code \<in> set PUBLIC_PROTOCOL_ERROR_CODES. e = ProtocolError code))"
  using parse_request_iff [of v req] parse_request_error [of v] by blast

theorem request_validation_witness:
  "\<exists>code \<in> set PUBLIC_PROTOCOL_ERROR_CODES. parse_request (JList []) = Inl (ProtocolError code)"
  using request_validation [of "JList []" "\<lparr>req_action = STATUS, req_ssid = None, req_password = None\<rparr>"]
  by (cases "parse_request (JList [])") (auto simp: parse_request_def)

text \<open>C22: A request that the daemon reads, from whatever bytes in whatever segments, comes from the user of the web service, and its
  reply and what becomes of the controller are those of the abstract service: the status changes nothing; a scan
  asks the backend, in the two modes at rest only; a connection request and a provisioning request start
  a transition with the name and password of the request where the mode admits it and none is waiting, and are
  refused without any change otherwise, with the code for a busy daemon in the second case only. One reply is
  sent, and no exception is left.\<close>

theorem requests_served:
  assumes "peer_is d u" "fst (read_request stream_sock web_uid depth d) = Inr req" "raises_only is_exception (b_scan B)"
    and "run_thread (serve_connection stream_sock web_uid depth B) (d, n) = (r, d', n')"
  shows "u = web_uid \<and> r = Inr () \<and>
    st_sent d' = st_sent d @ json_dumps True (fst (service B req n)) \<and> n' = snd (service B req n)"
proof -
  obtain d1 where "read_request stream_sock web_uid depth d = (Inr req, d1)" using assms(2) by (metis prod.collapse)
  from serve_service [OF assms(1) this assms(3,4)] show ?thesis .
qed

theorem requests_served_witness:
  "snd (snd home_served) =
     started \<lparr>work_kind = WORK_CONNECT, work_ssid = Some (lit ''Home''), work_password = Some (lit ''password1'')\<rparr> ap_active"
proof -
  have read: "fst (read_request stream_sock 0 1 (one_segment home_request)) =
      Inr \<lparr>req_action = CONNECT, req_ssid = Some (lit ''Home''), req_password = Some (lit ''password1'')\<rparr>"
    using home_read by (metis fst_conv)
  obtain r d' n' where "home_served = (r, d', n')" by (metis prod.collapse)
  with requests_served [OF idle_peer(2) read recorded_scan_exception, of ap_active r d' n'] show ?thesis
    using ap_active_state by (simp add: home_served_def service_def start_service_def)
qed

text \<open>C20: what a request was framed to is one line that is not empty and not longer than the bound,
  whatever the socket delivers; and a line that fits, ends the stream and arrives within the
  two seconds is received, however it is cut into segments.\<close>

theorem request_framing:
  "(receive_request K s = (Inr l, s') \<longrightarrow> l \<noteq> [] \<and> length l \<le> MAX_REQUEST_BYTES \<and> 10 \<notin> set l) \<and>
   (carries c (line @ [10]) \<and> 10 \<notin> set line \<and> line \<noteq> [] \<and> length line < MAX_REQUEST_BYTES \<longrightarrow>
      fst (receive_request stream_sock c) = Inr line)"
proof (intro conjI impI; (elim conjE)?)
  assume "carries c (line @ [10])" "10 \<notin> set line" "line \<noteq> []" "length line < MAX_REQUEST_BYTES"
  then obtain c' where "receive_request stream_sock c = (Inr line, c')"
    using receive_request_delivers [of c line] unfolding carries_def by blast
  then show "fst (receive_request stream_sock c) = Inr line"
    by simp
qed (use receive_request_line [of K s l s'] in auto)

theorem request_framing_witness:
  "fst (receive_request stream_sock (one_segment [123, 125, 10])) = Inr [123, 125]"
  using request_framing [of stream_sock idle_stream "[]" idle_stream "one_segment [123, 125, 10]" "[123, 125]"]
    one_segment_carries(1) [of "[123, 125, 10]"]
  by (simp add: MAX_REQUEST_BYTES_def)

text \<open>C17: every state that the daemon can be in is reported in a form that the client accepts,
  alone and with an acceptance, and so is every scan that the backend returns.\<close>

theorem reports_accepted:
  assumes "reachable (nm_backend R) (t, n)" "snapshot_locked n = (Inr s, n2)"
    and "scan R w = (Inr aps, w')" "reason_ok reason"
  shows "validate_status_response (snapshot_response s) = Inr (snapshot_response s) \<and>
    validate_action_response (snapshot_response s @ [(lit ''accepted'', JBool True), (lit ''reason'', JStr reason)]) =
      Inr (snapshot_response s @ [(lit ''accepted'', JBool True), (lit ''reason'', JStr reason)]) \<and>
    validate_scan_response (scan_response aps) = Inr (scan_response aps)"
proof -
  have "reportable s"
    using reporting_snapshot [OF reporting.reachable_reporting [OF assms(1)] assms(2)] .
  moreover obtain out where "aps = rank_networks R out"
    using assms(3) by (auto simp: scan_def raiseE_def returnE_def split: if_splits elim!: bindE_eqD)
  then have "\<forall>ap \<in> set aps. access_point_ok ap" "length aps \<le> MAX_NETWORKS"
    using rank_networks_ok rank_networks_length by (auto simp: MAX_NETWORKS_def)
  ultimately show ?thesis
    using status_response_accepted action_response_accepted [OF _ assms(4)] scan_response_accepted by blast
qed

lemma recorded_scan: "\<exists>w'. scan (subprocess_runner ascii_tables (recording_os [])) w = (Inr [], w')"
  by (simp add: scan_def enable_wifi_def nmcli_def recorded_answers COMMAND_TIMEOUT_SECONDS_def bindE_def
      returnE_def rank_networks_def py_splitlines_def)

theorem reports_accepted_witness:
  "validate_status_response (snapshot_response \<lparr>snap_mode = PROVISIONING_AP, snap_ap_active = True,
      snap_station_ssid = net_station_ssid ap_active, snap_last_error = net_last_error ap_active\<rparr>) =
   Inr (snapshot_response \<lparr>snap_mode = PROVISIONING_AP, snap_ap_active = True,
      snap_station_ssid = net_station_ssid ap_active, snap_last_error = net_last_error ap_active\<rparr>)"
proof -
  obtain w' where scan: "scan (subprocess_runner ascii_tables (recording_os [])) [] = (Inr [], w')"
    using recorded_scan by blast
  have "snapshot_locked ap_active = (Inr \<lparr>snap_mode = PROVISIONING_AP, snap_ap_active = True,
      snap_station_ssid = net_station_ssid ap_active, snap_last_error = net_last_error ap_active\<rparr>, ap_active)"
    using ap_active_state by (simp add: snapshot_locked_def)
  from reports_accepted [OF ap_active_reachable [unfolded recorded_backend_def] this scan, of "lit ''code''"]
  show ?thesis by (simp add: reason_ok_lit)
qed

end
